(* ===== verification/Prelude.thy ===== *)
theory Prelude
  imports Main "HOL-Library.Word" "HOL-Library.Signed_Division" "HOL-Library.Char_ord"
    "HOL-Library.List_Lexorder" "HOL-Library.Multiset" "HOL-Library.Sublist"
begin

text \<open>
  Shared vocabulary of the development.

  \<^item> \<open>std::string\<close> is a byte string: HOL's \<open>string\<close>, one \<open>char\<close> per byte, ordered
    lexicographically on unsigned bytes as \<open>std::string::operator<\<close> and LevelDB's
    bytewise comparator order it.
  \<^item> Signed machine integers are \<open>int\<close> with the narrowing written out (\<open>to_i32\<close>,
    \<open>to_i64\<close>), division and remainder truncate towards zero (\<open>sdiv\<close>, \<open>smod\<close>);
    a conversion to \<open>size_t\<close> is \<open>to_u64\<close>.
  \<^item> A packed struct is laid out on a little-endian host (\<open>le_enc\<close>), and
    \<open>htobe16\<close>/\<open>htobe32\<close>/\<open>htobe64\<close> swap bytes there, so a swapped field is
    written most significant byte first (\<open>be_enc\<close>).
  \<^item> \<open>std::map\<close> is an association list with strictly ascending keys
    (\<open>om_find\<close>, \<open>om_upd\<close>, \<open>om_erase\<close>); its contract is the locale
    \<open>ordered_map\<close>, interpreted on those functions.
  \<^item> Decimal printing and reading (\<open>%lu\<close>, \<open>%ld\<close>, \<open>lexical_cast\<close>, \<open>atoll\<close>),
    C strings, and \<open>boost::split\<close> on one separator.
  \<^item> A call that may wait, crash or throw is a value of \<open>blocking\<close>, threaded with \<open>and_then\<close>.
\<close>

named_theorems wire_simps \<open>layout of packed structs on the wire\<close>
named_theorems omap_simps \<open>lookup after update and erase in an ordered map\<close>

section \<open>Machine integers\<close>

definition to_i32 :: "int \<Rightarrow> int" where
  "to_i32 x = (x + 2 ^ 31) mod 2 ^ 32 - 2 ^ 31"

definition to_i64 :: "int \<Rightarrow> int" where
  "to_i64 x = (x + 2 ^ 63) mod 2 ^ 64 - 2 ^ 63"

definition to_u8 :: "int \<Rightarrow> int" where
  "to_u8 x = x mod 2 ^ 8"

definition to_u32 :: "int \<Rightarrow> int" where
  "to_u32 x = x mod 2 ^ 32"

definition to_u64 :: "int \<Rightarrow> int" where
  "to_u64 x = x mod 2 ^ 64"

definition is_i32 :: "int \<Rightarrow> bool" where
  "is_i32 x \<longleftrightarrow> - (2 ^ 31) \<le> x \<and> x < 2 ^ 31"

definition is_i64 :: "int \<Rightarrow> bool" where
  "is_i64 x \<longleftrightarrow> - (2 ^ 63) \<le> x \<and> x < 2 ^ 63"

definition INT32_MAX :: int where "INT32_MAX = 2147483647"
definition INT32_MIN :: int where "INT32_MIN = - 2147483648"

section \<open>Bytes\<close>

fun be_enc :: "nat \<Rightarrow> nat \<Rightarrow> string" where
  "be_enc 0 n = []"
| "be_enc (Suc k) n = be_enc k (n div 256) @ [char_of (n mod 256)]"

definition le_enc :: "nat \<Rightarrow> nat \<Rightarrow> string" where
  "le_enc k n = rev (be_enc k n)"

definition be_dec :: "string \<Rightarrow> nat" where
  "be_dec s = foldl (\<lambda>acc c. acc * 256 + of_char c) 0 s"

definition le_dec :: "string \<Rightarrow> nat" where
  "le_dec s = be_dec (rev s)"

text \<open>Byte swaps of the little-endian host.\<close>

definition htobe16 :: "16 word \<Rightarrow> 16 word" where
  "htobe16 w = of_nat (be_dec (le_enc 2 (unat w)))"

definition htobe32 :: "32 word \<Rightarrow> 32 word" where
  "htobe32 w = of_nat (be_dec (le_enc 4 (unat w)))"

definition htobe64 :: "64 word \<Rightarrow> 64 word" where
  "htobe64 w = of_nat (be_dec (le_enc 8 (unat w)))"

definition be16toh :: "16 word \<Rightarrow> 16 word" where
  "be16toh w = of_nat (be_dec (le_enc 2 (unat w)))"

definition be32toh :: "32 word \<Rightarrow> 32 word" where
  "be32toh w = of_nat (be_dec (le_enc 4 (unat w)))"

definition be64toh :: "64 word \<Rightarrow> 64 word" where
  "be64toh w = of_nat (be_dec (le_enc 8 (unat w)))"

section \<open>Ordered maps\<close>

type_synonym ('k, 'v) omap = "('k \<times> 'v) list"

fun om_find :: "('k, 'v) omap \<Rightarrow> 'k \<Rightarrow> 'v option" where
  "om_find [] k = None"
| "om_find ((a, v) # m) k = (if a = k then Some v else om_find m k)"

fun om_upd :: "'k::linorder \<Rightarrow> 'v \<Rightarrow> ('k, 'v) omap \<Rightarrow> ('k, 'v) omap" where
  "om_upd k v [] = [(k, v)]"
| "om_upd k v ((a, w) # m) =
     (if k < a then (k, v) # (a, w) # m
      else if k = a then (a, v) # m
      else (a, w) # om_upd k v m)"

definition om_erase :: "'k \<Rightarrow> ('k, 'v) omap \<Rightarrow> ('k, 'v) omap" where
  "om_erase k m = filter (\<lambda>e. fst e \<noteq> k) m"

definition om_wf :: "('k::linorder, 'v) omap \<Rightarrow> bool" where
  "om_wf m \<longleftrightarrow> sorted_wrt (<) (map fst m)"

text \<open>\<open>std::set\<close>: the ascending list of its elements.\<close>

fun os_insert :: "'k::linorder \<Rightarrow> 'k list \<Rightarrow> 'k list" where
  "os_insert k [] = [k]"
| "os_insert k (a # s) = (if k < a then k # a # s else if k = a then a # s else a # os_insert k s)"

text \<open>
  A group of a libconfig file is known by what \<open>Setting::lookupValue\<close> finds in it: the variable is
  assigned when the name is present with the right type and left alone otherwise.
\<close>

definition lookupValue :: "(string \<Rightarrow> 'a option) \<Rightarrow> string \<Rightarrow> 'a \<Rightarrow> 'a" where
  "lookupValue s name old = (case s name of None \<Rightarrow> old | Some v \<Rightarrow> v)"

record cfg_group =
  cfg_int :: "string \<Rightarrow> int option"
  cfg_str :: "string \<Rightarrow> string option"

section \<open>Strings\<close>

text \<open>\<open>std::string::c_str()\<close> read by a \<open>%s\<close> conversion stops at the first NUL.\<close>

definition c_str :: "string \<Rightarrow> string" where
  "c_str s = takeWhile (\<lambda>c. c \<noteq> char_of (0::nat)) s"

definition digit :: "nat \<Rightarrow> char" where
  "digit d = char_of (48 + d)"

fun dec_nat :: "nat \<Rightarrow> string" where
  "dec_nat n = (if n < 10 then [digit n] else dec_nat (n div 10) @ [digit (n mod 10)])"

declare dec_nat.simps [simp del]

definition dec_int :: "int \<Rightarrow> string" where
  "dec_int x = (if x < 0 then CHR ''-'' # dec_nat (nat (- x)) else dec_nat (nat x))"

text \<open>\<open>printf\<close> with \<open>%0\<close> and a width.\<close>

definition zero_pad :: "nat \<Rightarrow> string \<Rightarrow> string" where
  "zero_pad w s = replicate (w - length s) CHR ''0'' @ s"

definition is_digit :: "char \<Rightarrow> bool" where
  "is_digit c \<longleftrightarrow> 48 \<le> (of_char c :: nat) \<and> (of_char c :: nat) \<le> 57"

definition digits_val :: "string \<Rightarrow> nat" where
  "digits_val s = foldl (\<lambda>acc c. acc * 10 + (of_char c - 48)) 0 s"

definition is_space :: "char \<Rightarrow> bool" where
  "is_space c \<longleftrightarrow> (of_char c :: nat) \<in> {9, 10, 11, 12, 13, 32}"

text \<open>\<open>boost::algorithm::trim_copy\<close> in the C locale.\<close>

definition trim_copy :: "string \<Rightarrow> string" where
  "trim_copy s = rev (dropWhile is_space (rev (dropWhile is_space s)))"

text \<open>\<open>atoll\<close>: skip white space, one optional sign, then the longest run of digits.\<close>

definition atoll :: "string \<Rightarrow> int" where
  "atoll s =
     (case dropWhile is_space (c_str s) of
        [] \<Rightarrow> 0
      | c # cs \<Rightarrow>
          (if c = CHR ''-'' then - int (digits_val (takeWhile is_digit cs))
           else if c = CHR ''+'' then int (digits_val (takeWhile is_digit cs))
           else int (digits_val (takeWhile is_digit (c # cs)))))"

text \<open>\<open>boost::split(vec, s, boost::is_any_of(sep))\<close> with one separator, tokens not compressed.\<close>

fun split_on :: "char \<Rightarrow> string \<Rightarrow> string list" where
  "split_on sep [] = [[]]"
| "split_on sep (c # cs) =
     (if c = sep then [] # split_on sep cs
      else (case split_on sep cs of
              [] \<Rightarrow> [[c]]
            | w # ws \<Rightarrow> (c # w) # ws))"


text \<open>\<open>std::endl\<close> and tabulators in the status texts.\<close>

definition endl :: string where "endl = [CHR 0x0A]"
definition tab :: string where "tab = [CHR 0x09]"

section \<open>Calls that may not come back\<close>

text \<open>
  \<open>Blocked\<close> is a call that waits for ever, \<open>Crashed\<close> a use of a null pointer or of bytes out of bounds,
  \<open>Threw\<close> an exception that nothing on the way catches.
\<close>

datatype 'a blocking = Returned 'a | Blocked | Crashed | Threw

text \<open>Going on after a call that may not come back.\<close>

fun and_then :: "'a blocking \<Rightarrow> ('a \<Rightarrow> 'b blocking) \<Rightarrow> 'b blocking" where
  "and_then (Returned x) f = f x"
| "and_then Blocked f = Blocked"
| "and_then Crashed f = Crashed"
| "and_then Threw f = Threw"

lemma and_then_eq_Returned: "and_then r f = Returned y \<longleftrightarrow> (\<exists>x. r = Returned x \<and> f x = Returned y)"
  by (cases r) simp_all

section \<open>Lemmas on machine integers\<close>

lemma to_i32_id: "is_i32 x \<Longrightarrow> to_i32 x = x"
  by (simp add: is_i32_def to_i32_def)

lemma to_i64_id: "is_i64 x \<Longrightarrow> to_i64 x = x"
  by (simp add: is_i64_def to_i64_def)

lemma to_u8_id: "0 \<le> x \<Longrightarrow> x < 256 \<Longrightarrow> to_u8 x = x"
  by (simp add: to_u8_def)

lemma to_u64_id: "0 \<le> x \<Longrightarrow> x < 2 ^ 64 \<Longrightarrow> to_u64 x = x"
  by (simp add: to_u64_def)

lemma to_i32_range: "is_i32 (to_i32 x)"
proof -
  have "0 \<le> (x + 2 ^ 31) mod (2 ^ 32 :: int)" "(x + 2 ^ 31) mod (2 ^ 32 :: int) < 2 ^ 32"
    by simp_all
  then show ?thesis by (simp add: is_i32_def to_i32_def)
qed

lemma to_i64_range: "is_i64 (to_i64 x)"
proof -
  have "0 \<le> (x + 2 ^ 63) mod (2 ^ 64 :: int)" "(x + 2 ^ 63) mod (2 ^ 64 :: int) < 2 ^ 64"
    by simp_all
  then show ?thesis by (simp add: is_i64_def to_i64_def)
qed

lemma to_i32_idem [simp]: "to_i32 (to_i32 x) = to_i32 x"
  by (rule to_i32_id [OF to_i32_range])

lemma to_i64_idem [simp]: "to_i64 (to_i64 x) = to_i64 x"
  by (rule to_i64_id [OF to_i64_range])

lemma size_to_int: "n < 2147483648 \<Longrightarrow> to_i32 (to_u64 (int n)) = int n"
  by (simp add: to_u64_def to_i32_id is_i32_def)

lemma to_i32_add: "to_i32 (to_i32 x + y) = to_i32 (x + y)"
  unfolding to_i32_def by (simp add: mod_simps algebra_simps)

lemma to_i64_add: "to_i64 (to_i64 x + y) = to_i64 (x + y)"
  unfolding to_i64_def by (simp add: mod_simps algebra_simps)

lemma sdiv_nonneg: "0 \<le> (a::int) \<Longrightarrow> 0 \<le> b \<Longrightarrow> a sdiv b = a div b"
  by (simp add: signed_divide_int_def sgn_if)

lemma smod_nonneg: "0 \<le> (a::int) \<Longrightarrow> 0 \<le> b \<Longrightarrow> a smod b = a mod b"
  by (simp add: signed_modulo_int_def sgn_if)

section \<open>Lemmas on bytes\<close>

lemma be_enc_numeral:
  "be_enc (numeral k) n = be_enc (pred_numeral k) (n div 256) @ [char_of (n mod 256)]"
  by (subst numeral_eq_Suc) (rule be_enc.simps(2))

lemma be_enc_zero: "be_enc k 0 = replicate k (char_of (0::nat))"
  by (induction k) (simp_all add: replicate_append_same)

lemma le_enc_zero: "le_enc k 0 = replicate k (char_of (0::nat))"
  by (simp add: le_enc_def be_enc_zero)

lemma length_be_enc [simp]: "length (be_enc k n) = k"
  by (induction k arbitrary: n) auto

lemma length_le_enc [simp]: "length (le_enc k n) = k"
  by (simp add: le_enc_def)

lemma be_dec_snoc [simp]: "be_dec (s @ [c]) = be_dec s * 256 + of_char c"
  by (simp add: be_dec_def)

lemma be_dec_Nil [simp]: "be_dec [] = 0"
  by (simp add: be_dec_def)

lemma be_dec_be_enc: "be_dec (be_enc k n) = n mod 256 ^ k"
proof (induction k arbitrary: n)
  case 0
  then show ?case by simp
next
  case (Suc k)
  have "be_dec (be_enc (Suc k) n) = (n div 256) mod 256 ^ k * 256 + n mod 256"
    by (simp add: Suc.IH)
  also have "\<dots> = n mod (256 * 256 ^ k)"
    by (simp add: mod_mult2_eq)
  finally show ?case by simp
qed

lemma be_dec_bound: "be_dec s < 256 ^ length s"
proof (induction s rule: rev_induct)
  case Nil
  then show ?case by simp
next
  case (snoc c s)
  have "(of_char c :: nat) < 256" by (rule nat_of_char_less_256)
  with snoc.IH have "be_dec s * 256 + of_char c < 256 ^ length s * 256" by linarith
  then show ?case by simp
qed

lemma be_enc_be_dec: "be_enc (length s) (be_dec s) = s"
  by (induction s rule: rev_induct) simp_all

lemma le_dec_le_enc: "le_dec (le_enc k n) = n mod 256 ^ k"
  by (simp add: le_dec_def le_enc_def be_dec_be_enc)

lemma le_enc_le_dec: "le_enc (length s) (le_dec s) = s"
  using be_enc_be_dec [of "rev s"] by (simp add: le_enc_def le_dec_def)

text \<open>
  The swap followed by the host's little-endian layout is the big-endian layout, and
  swapping what was read back undoes it.
\<close>

lemma le_enc_of_swap:
  assumes "k = length s" and "s = le_enc k n"
  shows "le_enc k (be_dec s) = be_enc k n"
  using assms by (metis be_enc_be_dec le_enc_def rev_rev_ident)

lemma unat_of_nat_small: "n < 2 ^ LENGTH('a::len) \<Longrightarrow> unat (of_nat n :: 'a word) = n"
  by (simp add: unat_of_nat take_bit_nat_eq_self)

lemma be_dec_le_enc_bound: "be_dec (le_enc k n) < 256 ^ k"
  using be_dec_bound [of "le_enc k n"] by simp

lemma htobe16_layout [wire_simps]: "le_enc 2 (unat (htobe16 w)) = be_enc 2 (unat w)"
  using be_dec_le_enc_bound [of 2 "unat w"]
  by (simp add: htobe16_def unat_of_nat_small le_enc_of_swap)

lemma htobe32_layout [wire_simps]: "le_enc 4 (unat (htobe32 w)) = be_enc 4 (unat w)"
  using be_dec_le_enc_bound [of 4 "unat w"]
  by (simp add: htobe32_def unat_of_nat_small le_enc_of_swap)

lemma htobe64_layout [wire_simps]: "le_enc 8 (unat (htobe64 w)) = be_enc 8 (unat w)"
  using be_dec_le_enc_bound [of 8 "unat w"]
  by (simp add: htobe64_def unat_of_nat_small le_enc_of_swap)

lemma unat_lt8: "unat (w :: 8 word) < 256"
  using unsigned_less [of w, where ?'a = nat] by simp

lemma unat_lt16: "unat (w :: 16 word) < 65536"
  using unsigned_less [of w, where ?'a = nat] by simp

lemma unat_lt32: "unat (w :: 32 word) < 4294967296"
  using unsigned_less [of w, where ?'a = nat] by simp

lemma unat_lt64: "unat (w :: 64 word) < 18446744073709551616"
  using unsigned_less [of w, where ?'a = nat] by simp

lemma swap_swap_nat: "n < 256 ^ k \<Longrightarrow> be_dec (le_enc k (be_dec (le_enc k n))) = n"
proof -
  assume n: "n < 256 ^ k"
  have "le_enc k (be_dec (le_enc k n)) = be_enc k n"
    by (rule le_enc_of_swap) simp_all
  with n show ?thesis by (simp add: be_dec_be_enc)
qed

lemma be16toh_htobe16 [simp]: "be16toh (htobe16 w) = w"
  using be_dec_le_enc_bound [of 2 "unat w"] unat_lt16 [of w]
  by (simp add: htobe16_def be16toh_def unat_of_nat_small swap_swap_nat)

lemma be32toh_htobe32 [simp]: "be32toh (htobe32 w) = w"
  using be_dec_le_enc_bound [of 4 "unat w"] unat_lt32 [of w]
  by (simp add: htobe32_def be32toh_def unat_of_nat_small swap_swap_nat)

lemma be64toh_htobe64 [simp]: "be64toh (htobe64 w) = w"
  using be_dec_le_enc_bound [of 8 "unat w"] unat_lt64 [of w]
  by (simp add: htobe64_def be64toh_def unat_of_nat_small swap_swap_nat)


section \<open>The contract of an ordered map\<close>

text \<open>
  What the components rely on when they use \<open>std::map\<close>: a lookup sees the last update,
  iteration is in ascending key order, and both updates and erasures keep that order.
\<close>

locale ordered_map =
  fixes find :: "'m \<Rightarrow> 'k::linorder \<Rightarrow> 'v option"
    and upd :: "'k \<Rightarrow> 'v \<Rightarrow> 'm \<Rightarrow> 'm"
    and erase :: "'k \<Rightarrow> 'm \<Rightarrow> 'm"
    and entries :: "'m \<Rightarrow> ('k \<times> 'v) list"
    and wf :: "'m \<Rightarrow> bool"
  assumes find_upd: "wf m \<Longrightarrow> find (upd k v m) = (find m)(k \<mapsto> v)"
    and find_erase: "wf m \<Longrightarrow> find (erase k m) = (find m)(k := None)"
    and find_entries: "wf m \<Longrightarrow> find m = map_of (entries m)"
    and entries_sorted: "wf m \<Longrightarrow> sorted_wrt (<) (map fst (entries m))"
    and wf_upd: "wf m \<Longrightarrow> wf (upd k v m)"
    and wf_erase: "wf m \<Longrightarrow> wf (erase k m)"
begin

lemma entries_distinct: "wf m \<Longrightarrow> distinct (map fst (entries m))"
  using entries_sorted strict_sorted_iff by blast

lemma find_iff_entry: "wf m \<Longrightarrow> find m k = Some v \<longleftrightarrow> (k, v) \<in> set (entries m)"
  by (simp add: find_entries entries_distinct)

lemma keys_find: "wf m \<Longrightarrow> fst ` set (entries m) = dom (find m)"
  by (simp add: find_entries dom_map_of_conv_image_fst)

lemma keys_upd: "wf m \<Longrightarrow> fst ` set (entries (upd k v m)) = insert k (fst ` set (entries m))"
  by (simp add: keys_find wf_upd find_upd)

lemma entries_upd_set:
  assumes "wf m"
  shows "set (entries (upd k v m)) = insert (k, v) {e \<in> set (entries m). fst e \<noteq> k}"
proof -
  have "(a, b) \<in> set (entries (upd k v m)) \<longleftrightarrow>
      (a, b) \<in> insert (k, v) {e \<in> set (entries m). fst e \<noteq> k}" for a b
    using assms find_iff_entry [OF wf_upd [OF assms], of k v a b] find_iff_entry [OF assms, of a b]
    by (auto simp: find_upd split: if_splits)
  then show ?thesis by (simp add: set_eq_iff split_paired_all)
qed

end

lemma om_find_map_of: "om_find m = map_of m"
proof
  fix k
  show "om_find m k = map_of m k"
    by (induction m k rule: om_find.induct) auto
qed

lemma om_upd_keys: "fst ` set (om_upd k v m) = insert k (fst ` set m)"
  by (induction k v m rule: om_upd.induct) auto

lemma om_wf_Nil [simp]: "om_wf []"
  by (simp add: om_wf_def)

lemma om_wf_Cons: "om_wf ((k, v) # m) \<longleftrightarrow> (\<forall>a \<in> fst ` set m. k < a) \<and> om_wf m"
  by (simp add: om_wf_def)

lemma om_wf_upd: "om_wf m \<Longrightarrow> om_wf (om_upd k v m)"
proof (induction k v m rule: om_upd.induct)
  case (1 k v)
  then show ?case by (simp add: om_wf_def)
next
  case (2 k v a w m)
  then show ?case
    by (auto simp: om_wf_Cons om_upd_keys simp del: image_iff)
qed

lemma om_wf_filter: "om_wf m \<Longrightarrow> om_wf (filter P m)"
  unfolding om_wf_def by (induction m) auto

lemma om_find_upd: "om_find (om_upd k v m) = (om_find m)(k \<mapsto> v)" if "om_wf m"
  using that
proof (induction k v m rule: om_upd.induct)
  case (1 k v)
  show ?case by auto
next
  case (2 k v a w m)
  then have IH: "a < k \<Longrightarrow> om_find (om_upd k v m) = (om_find m)(k \<mapsto> v)"
    by (auto simp: om_wf_Cons)
  show ?case
    by (cases k a rule: linorder_cases) (auto simp: fun_eq_iff IH)
qed

interpretation om: ordered_map om_find om_upd om_erase "\<lambda>m. m" om_wf
proof
  fix m :: "('a::linorder, 'b) omap" and k v
  assume wf: "om_wf m"
  show "om_find (om_upd k v m) = (om_find m)(k \<mapsto> v)" by (rule om_find_upd [OF wf])
  show "om_find (om_erase k m) = (om_find m)(k := None)"
    unfolding om_erase_def by (induction m) (auto simp: fun_eq_iff)
  show "om_find m = map_of m" by (rule om_find_map_of)
  show "sorted_wrt (<) (map fst m)" using wf by (simp add: om_wf_def)
  show "om_wf (om_upd k v m)" by (rule om_wf_upd [OF wf])
  show "om_wf (om_erase k m)" unfolding om_erase_def by (rule om_wf_filter [OF wf])
qed

lemmas om_laws [omap_simps] = om.find_upd om.find_erase om.wf_upd om.wf_erase

lemma set_os_insert: "set (os_insert k s) = insert k (set s)"
  by (induction k s rule: os_insert.induct) auto

lemma sorted_os_insert: "sorted_wrt (<) s \<Longrightarrow> sorted_wrt (<) (os_insert k s)"
  by (induction k s rule: os_insert.induct) (auto simp: set_os_insert)


section \<open>Lemmas on strings\<close>

lemma c_str_no_nul [simp]: "char_of (0::nat) \<notin> set s \<Longrightarrow> c_str s = s"
  unfolding c_str_def by (rule takeWhile_eq_all_conv [THEN iffD2]) auto

lemma of_char_digit: "d < 10 \<Longrightarrow> (of_char (digit d) :: nat) = 48 + d"
  by (simp add: digit_def)

lemma digit_inj: "d < 10 \<Longrightarrow> e < 10 \<Longrightarrow> digit d = digit e \<longleftrightarrow> d = e"
  by (metis add_left_imp_eq of_char_digit)

lemma is_digit_digit [simp]: "d < 10 \<Longrightarrow> is_digit (digit d)"
  by (simp add: is_digit_def of_char_digit)

lemma dec_nat_nonempty [simp]: "dec_nat n \<noteq> []"
  by (subst dec_nat.simps) simp

lemma dec_nat_digits: "c \<in> set (dec_nat n) \<Longrightarrow> is_digit c"
proof (induction n rule: dec_nat.induct)
  case (1 n)
  then show ?case by (auto simp: dec_nat.simps [of n] split: if_splits)
qed

lemma digits_val_snoc: "digits_val (s @ [c]) = digits_val s * 10 + (of_char c - 48)"
  by (simp add: digits_val_def)

lemma digits_val_dec_nat: "digits_val (dec_nat n) = n"
proof (induction n rule: dec_nat.induct)
  case (1 n)
  show ?case
  proof (cases "n < 10")
    case True
    then show ?thesis
      by (simp add: dec_nat.simps [of n] digits_val_def of_char_digit)
  next
    case False
    with 1 have "digits_val (dec_nat n) = n div 10 * 10 + n mod 10"
      by (simp add: dec_nat.simps [of n] digits_val_snoc of_char_digit)
    then show ?thesis by simp
  qed
qed

lemma dec_nat_inj [simp]: "dec_nat m = dec_nat n \<longleftrightarrow> m = n"
  by (metis digits_val_dec_nat)

lemma is_digit_props:
  assumes "is_digit c"
  shows "c \<noteq> CHR ''-''" "c \<noteq> CHR ''+''" "c \<noteq> CHR ''#''" "c \<noteq> CHR ''$''"
    "\<not> is_space c" "c \<noteq> char_of (0::nat)"
  using assms by (auto simp: is_digit_def is_space_def)

lemma atoll_digits:
  assumes "c \<in> set s" and dig: "\<And>x. x \<in> set s \<Longrightarrow> is_digit x"
  shows "atoll s = int (digits_val s)"
proof -
  from assms obtain d ds where s: "s = d # ds" by (cases s) auto
  have "c_str s = s"
    using dig is_digit_props(6) by (intro c_str_no_nul) blast
  moreover have "dropWhile is_space s = s"
    using dig is_digit_props(5) by (simp add: s)
  moreover have "takeWhile is_digit s = s"
    by (rule takeWhile_eq_all_conv [THEN iffD2]) (simp add: dig)
  moreover have "d \<noteq> CHR ''-''" "d \<noteq> CHR ''+''"
    using dig is_digit_props(1,2) by (simp_all add: s)
  ultimately show ?thesis
    unfolding atoll_def s
    by (simp del: takeWhile.simps dropWhile.simps takeWhile_eq_all_conv)
qed

lemma atoll_dec_nat: "atoll (dec_nat n) = int n"
proof -
  obtain c where "c \<in> set (dec_nat n)" by (meson dec_nat_nonempty last_in_set)
  then show ?thesis
    using dec_nat_digits by (subst atoll_digits) (auto simp: digits_val_dec_nat)
qed

lemma dec_nat_no_sep [simp]: "CHR ''#'' \<notin> set (dec_nat n)"
  using dec_nat_digits is_digit_props(3) by blast

lemma split_on_nonempty [simp]: "split_on sep s \<noteq> []"
  by (induction s) (auto split: list.splits)

lemma split_on_no_sep: "sep \<notin> set s \<Longrightarrow> split_on sep s = [s]"
  by (induction s) auto

lemma split_on_sep: "sep \<notin> set s \<Longrightarrow> split_on sep (s @ sep # t) = s # split_on sep t"
  by (induction s) auto

lemma split_on_head:
  "split_on sep s = w # ws \<Longrightarrow> ws \<noteq> [] \<Longrightarrow> sep \<notin> set w \<and> (\<exists>t. s = w @ sep # t \<and> split_on sep t = ws)"
  by (induction s arbitrary: w ws) (auto split: if_splits list.splits)

end
