(* ===== verification/Message.thy ===== *)
theory Message
  imports Prelude
begin

text \<open>
  \<open>source/Core/Message.h\<close> and \<open>source/Core/Buffer.h\<close>: the framing header, the message
  and the byte buffer of a connection.

  The header is a packed 16-byte struct. \<open>to_net_endian\<close>/\<open>from_net_endian\<close> swap \<open>magic\<close>,
  \<open>version\<close> and \<open>length\<close> only; the two reserved words go out in host order. The
  \<open>reinterpret_cast\<close> of the struct to characters is \<open>header_bytes\<close>, the \<open>memcpy\<close> back is
  \<open>header_of_bytes\<close>.
\<close>

definition kHeaderMagic :: "16 word" where "kHeaderMagic = 0x746b"
definition kHeaderVersion :: "16 word" where "kHeaderVersion = 0x01"

record Header =
  magic :: "16 word"
  version :: "16 word"
  len :: "32 word"
  rev1 :: "32 word"
  rev2 :: "32 word"

definition sizeof_Header :: nat where "sizeof_Header = 16"

definition header_from_net_endian :: "Header \<Rightarrow> Header" where
  "header_from_net_endian h =
     h\<lparr>magic := be16toh (magic h), version := be16toh (version h), len := be32toh (len h)\<rparr>"

definition header_to_net_endian :: "Header \<Rightarrow> Header" where
  "header_to_net_endian h =
     h\<lparr>magic := htobe16 (magic h), version := htobe16 (version h), len := htobe32 (len h)\<rparr>"

definition header_bytes :: "Header \<Rightarrow> string" where
  "header_bytes h =
     le_enc 2 (unat (magic h)) @ le_enc 2 (unat (version h)) @ le_enc 4 (unat (len h)) @
     le_enc 4 (unat (rev1 h)) @ le_enc 4 (unat (rev2 h))"

definition header_of_bytes :: "string \<Rightarrow> Header" where
  "header_of_bytes s =
     \<lparr>magic = of_nat (le_dec (take 2 s)),
      version = of_nat (le_dec (take 2 (drop 2 s))),
      len = of_nat (le_dec (take 4 (drop 4 s))),
      rev1 = of_nat (le_dec (take 4 (drop 8 s))),
      rev2 = of_nat (le_dec (take 4 (drop 12 s)))\<rparr>"

record Message =
  header :: Header
  payload :: string

definition empty_header :: Header where
  "empty_header = \<lparr>magic = 0, version = 0, len = 0, rev1 = 0, rev2 = 0\<rparr>"

text \<open>\<open>explicit Message(const std::string& data)\<close>; the size is narrowed to \<open>uint32_t\<close>.\<close>

definition mk_Message :: "string \<Rightarrow> Message" where
  "mk_Message data =
     \<lparr>header = empty_header\<lparr>magic := kHeaderMagic, version := kHeaderVersion,
                             len := of_nat (length data)\<rparr>,
      payload = data\<rparr>"

definition Message_net_str :: "Message \<Rightarrow> string" where
  "Message_net_str m = header_bytes (header_to_net_endian (header m)) @ payload m"

section \<open>Buffer\<close>

record Buffer =
  bdata :: string

definition mk_Buffer :: "string \<Rightarrow> Buffer" where
  "mk_Buffer data = \<lparr>bdata = data\<rparr>"

definition append_internal :: "string \<Rightarrow> Buffer \<Rightarrow> nat \<times> Buffer" where
  "append_internal s b =
     (let b' = b\<lparr>bdata := bdata b @ s\<rparr> in (length (bdata b') mod 2 ^ 32, b'))"

definition buffer_append :: "Message \<Rightarrow> Buffer \<Rightarrow> nat \<times> Buffer" where
  "buffer_append msg b =
     (let hs = header_bytes (header_to_net_endian (header msg));
          b1 = snd (append_internal hs b);
          b2 = snd (append_internal (payload msg) b1)
      in (length (bdata b2) mod 2 ^ 32, b2))"

text \<open>\<open>explicit Buffer(const Message& msg)\<close>\<close>

definition Buffer_of_Message :: "Message \<Rightarrow> Buffer" where
  "Buffer_of_Message msg = snd (buffer_append msg (mk_Buffer []))"

text \<open>
  \<open>consume(std::string& store, uint32_t sz)\<close>: the string is left alone when nothing is
  consumed, so the result carries \<open>None\<close> then.
\<close>

definition consume :: "nat \<Rightarrow> Buffer \<Rightarrow> string option \<times> Buffer" where
  "consume sz b =
     (if sz = 0 \<or> bdata b = [] then (None, b)
      else if sz \<ge> length (bdata b) then (Some (bdata b), b\<lparr>bdata := []\<rparr>)
      else (Some (take sz (bdata b)), b\<lparr>bdata := drop sz (bdata b)\<rparr>))"

definition front_erase :: "nat \<Rightarrow> Buffer \<Rightarrow> Buffer" where
  "front_erase sz b =
     (if sz \<ge> length (bdata b) then b\<lparr>bdata := []\<rparr> else b\<lparr>bdata := drop sz (bdata b)\<rparr>)"

text \<open>
  \<open>consume(char* store, uint32_t sz)\<close> copies \<open>sz\<close> bytes out and erases them. Reading past
  the end of the vector is undefined: \<open>None\<close> in place of the copied bytes.
\<close>

datatype 'a raw_copy = Refused | Copied 'a | OutOfBounds

definition consume_raw :: "nat \<Rightarrow> Buffer \<Rightarrow> string raw_copy \<times> Buffer" where
  "consume_raw sz b =
     (if sz = 0 \<or> bdata b = [] then (Refused, b)
      else if length (bdata b) < sz then (OutOfBounds, b)
      else (Copied (take sz (bdata b)), front_erase sz b))"

definition get_length :: "Buffer \<Rightarrow> nat" where
  "get_length b = length (bdata b) mod 2 ^ 32"

section \<open>Wire layout of the header\<close>

lemma length_header_bytes [simp]: "length (header_bytes h) = sizeof_Header"
  by (simp add: header_bytes_def sizeof_Header_def)

lemma of_nat_le_dec_le_enc:
  "n < 256 ^ k \<Longrightarrow> of_nat (le_dec (le_enc k n)) = (of_nat n :: 'a::len word)"
  by (simp add: le_dec_le_enc)

lemma header_of_bytes_bytes [simp]: "header_of_bytes (header_bytes h @ s) = h"
  using unat_lt16 unat_lt32
  by (simp add: header_of_bytes_def header_bytes_def of_nat_le_dec_le_enc)

lemma header_of_bytes_only [simp]: "header_of_bytes (header_bytes h) = h"
  using header_of_bytes_bytes [of h "[]"] by simp

lemma header_net_roundtrip [simp]: "header_from_net_endian (header_to_net_endian h) = h"
  by (simp add: header_from_net_endian_def header_to_net_endian_def)

lemma header_net_layout:
  "header_bytes (header_to_net_endian h) =
     be_enc 2 (unat (magic h)) @ be_enc 2 (unat (version h)) @ be_enc 4 (unat (len h)) @
     le_enc 4 (unat (rev1 h)) @ le_enc 4 (unat (rev2 h))"
  by (simp add: header_bytes_def header_to_net_endian_def wire_simps)

text \<open>
  Every frame starts with the bytes \<open>"tk"\<close>, the version 1 and the payload's size as
  four big-endian bytes, then eight zero bytes, then the payload.
\<close>
theorem mk_Message_layout:
  "Message_net_str (mk_Message data) =
     ''tk'' @ [char_of (0::nat), char_of (1::nat)] @ be_enc 4 (length data mod 2 ^ 32) @
     replicate 8 (char_of (0::nat)) @ data"
proof -
  have "unat (of_nat (length data) :: 32 word) = length data mod 2 ^ 32"
    by (simp add: unat_of_nat take_bit_eq_mod)
  moreover have "be_enc 2 0x746b = ''tk''" "be_enc 2 1 = [char_of (0::nat), char_of (1::nat)]"
    by (simp_all add: be_enc_numeral char_of_eq_iff)
  moreover have "le_enc 4 0 @ le_enc 4 0 = replicate 8 (char_of (0::nat))"
    by (simp add: le_enc_zero flip: replicate_add)
  ultimately show ?thesis
    by (simp add: Message_net_str_def mk_Message_def header_net_layout empty_header_def
        kHeaderMagic_def kHeaderVersion_def flip: append_assoc)
qed

text \<open>
  Reading back a header that was put on the wire gives the header: \<open>memcpy\<close> then
  \<open>from_net_endian\<close> undoes \<open>to_net_endian\<close> then the character cast, whatever follows it in
  the buffer.
\<close>
theorem header_wire_roundtrip:
  "header_from_net_endian (header_of_bytes (header_bytes (header_to_net_endian h) @ rest)) = h"
  by simp

section \<open>Buffer operations\<close>

lemma bdata_append_internal [simp]: "bdata (snd (append_internal s b)) = bdata b @ s"
  by (simp add: append_internal_def Let_def)

lemma bdata_buffer_append [simp]:
  "bdata (snd (buffer_append msg b)) = bdata b @ Message_net_str msg"
  by (simp add: buffer_append_def Let_def Message_net_str_def)

lemma consume_split:
  "consume sz b = (None, b') \<Longrightarrow> b' = b \<and> (sz = 0 \<or> bdata b = [])"
  "consume sz b = (Some s, b') \<Longrightarrow> bdata b = s @ bdata b' \<and> length s = min sz (length (bdata b))"
  by (auto simp: consume_def split: if_splits)

lemma consume_exact:
  "0 < sz \<Longrightarrow> length s = sz \<Longrightarrow> consume sz (b\<lparr>bdata := s @ t\<rparr>) = (Some s, b\<lparr>bdata := t\<rparr>)"
  by (auto simp: consume_def)

lemma consume_raw_in_bounds:
  "0 < sz \<Longrightarrow> sz \<le> length (bdata b) \<Longrightarrow>
   consume_raw sz b = (Copied (take sz (bdata b)), b\<lparr>bdata := drop sz (bdata b)\<rparr>)"
  by (auto simp: consume_raw_def front_erase_def)

end
