(* ===== verification/RpcMessage.thy ===== *)
theory RpcMessage
  imports Message
begin

text \<open>
  \<open>source/RPC/RpcRequestMessage.h\<close>, \<open>RpcResponseMessage.h\<close> and \<open>RpcInstance.cpp\<close>: the RPC
  headers inside a frame's payload, and the server-side request object that checks an
  incoming request and builds the two kinds of replies.

  The request header has 16 bytes, the response header 17 (a leading status byte); both
  are packed structs whose \<open>magic\<close>, \<open>version\<close>, \<open>service_id\<close> and \<open>opcode\<close> are swapped to
  network order and whose reserved words are not.
\<close>

definition kRpcHeaderMagic :: "16 word" where "kRpcHeaderMagic = 0x7472"
definition kRpcHeaderVersion :: "16 word" where "kRpcHeaderVersion = 0x01"

record RpcRequestHeader =
  rq_magic :: "16 word"
  rq_version :: "16 word"
  rq_service_id :: "16 word"
  rq_opcode :: "16 word"
  rq_rev1 :: "32 word"
  rq_rev2 :: "32 word"

definition sizeof_RpcRequestHeader :: nat where "sizeof_RpcRequestHeader = 16"

definition rq_from_net_endian :: "RpcRequestHeader \<Rightarrow> RpcRequestHeader" where
  "rq_from_net_endian h =
     h\<lparr>rq_magic := be16toh (rq_magic h), rq_version := be16toh (rq_version h),
       rq_service_id := be16toh (rq_service_id h), rq_opcode := be16toh (rq_opcode h)\<rparr>"

definition rq_to_net_endian :: "RpcRequestHeader \<Rightarrow> RpcRequestHeader" where
  "rq_to_net_endian h =
     h\<lparr>rq_magic := htobe16 (rq_magic h), rq_version := htobe16 (rq_version h),
       rq_service_id := htobe16 (rq_service_id h), rq_opcode := htobe16 (rq_opcode h)\<rparr>"

definition rq_bytes :: "RpcRequestHeader \<Rightarrow> string" where
  "rq_bytes h =
     le_enc 2 (unat (rq_magic h)) @ le_enc 2 (unat (rq_version h)) @
     le_enc 2 (unat (rq_service_id h)) @ le_enc 2 (unat (rq_opcode h)) @
     le_enc 4 (unat (rq_rev1 h)) @ le_enc 4 (unat (rq_rev2 h))"

definition rq_of_bytes :: "string \<Rightarrow> RpcRequestHeader" where
  "rq_of_bytes s =
     \<lparr>rq_magic = of_nat (le_dec (take 2 s)),
      rq_version = of_nat (le_dec (take 2 (drop 2 s))),
      rq_service_id = of_nat (le_dec (take 2 (drop 4 s))),
      rq_opcode = of_nat (le_dec (take 2 (drop 6 s))),
      rq_rev1 = of_nat (le_dec (take 4 (drop 8 s))),
      rq_rev2 = of_nat (le_dec (take 4 (drop 12 s)))\<rparr>"

definition empty_rq_header :: RpcRequestHeader where
  "empty_rq_header =
     \<lparr>rq_magic = 0, rq_version = 0, rq_service_id = 0, rq_opcode = 0, rq_rev1 = 0, rq_rev2 = 0\<rparr>"

record RpcRequestMessage =
  rq_header :: RpcRequestHeader
  rq_payload :: string

definition empty_RpcRequestMessage :: RpcRequestMessage where
  "empty_RpcRequestMessage = \<lparr>rq_header = empty_rq_header, rq_payload = []\<rparr>"

definition mk_RpcRequestMessage :: "16 word \<Rightarrow> 16 word \<Rightarrow> string \<Rightarrow> RpcRequestMessage" where
  "mk_RpcRequestMessage serviceid opcd data =
     \<lparr>rq_header = empty_rq_header\<lparr>rq_magic := kRpcHeaderMagic, rq_version := kRpcHeaderVersion,
                                   rq_service_id := serviceid, rq_opcode := opcd\<rparr>,
      rq_payload = data\<rparr>"

definition rq_net_str :: "RpcRequestMessage \<Rightarrow> string" where
  "rq_net_str m = rq_bytes (rq_to_net_endian (rq_header m)) @ rq_payload m"

definition RpcRequestMessageParse :: "string \<Rightarrow> RpcRequestMessage option" where
  "RpcRequestMessageParse str =
     (if length str < sizeof_RpcRequestHeader then None
      else Some \<lparr>rq_header = rq_from_net_endian (rq_of_bytes str),
                 rq_payload = drop sizeof_RpcRequestHeader str\<rparr>)"

section \<open>Responses\<close>

datatype RpcResponseStatus =
  ST_OK | SERVICE_SPECIFIC_ERROR | INVALID_VERSION | INVALID_SERVICE | INVALID_REQUEST | SYSTEM_ERROR

fun status_code :: "RpcResponseStatus \<Rightarrow> 8 word" where
  "status_code ST_OK = 0"
| "status_code SERVICE_SPECIFIC_ERROR = 1"
| "status_code INVALID_VERSION = 2"
| "status_code INVALID_SERVICE = 3"
| "status_code INVALID_REQUEST = 4"
| "status_code SYSTEM_ERROR = 5"

text \<open>The status is one byte on the wire, so a header that was read may hold any byte.\<close>

record RpcResponseHeader =
  rs_status :: "8 word"
  rs_magic :: "16 word"
  rs_version :: "16 word"
  rs_service_id :: "16 word"
  rs_opcode :: "16 word"
  rs_rev1 :: "32 word"
  rs_rev2 :: "32 word"

definition sizeof_RpcResponseHeader :: nat where "sizeof_RpcResponseHeader = 17"

definition rs_from_net_endian :: "RpcResponseHeader \<Rightarrow> RpcResponseHeader" where
  "rs_from_net_endian h =
     h\<lparr>rs_magic := be16toh (rs_magic h), rs_version := be16toh (rs_version h),
       rs_service_id := be16toh (rs_service_id h), rs_opcode := be16toh (rs_opcode h)\<rparr>"

definition rs_to_net_endian :: "RpcResponseHeader \<Rightarrow> RpcResponseHeader" where
  "rs_to_net_endian h =
     h\<lparr>rs_magic := htobe16 (rs_magic h), rs_version := htobe16 (rs_version h),
       rs_service_id := htobe16 (rs_service_id h), rs_opcode := htobe16 (rs_opcode h)\<rparr>"

definition rs_bytes :: "RpcResponseHeader \<Rightarrow> string" where
  "rs_bytes h =
     le_enc 1 (unat (rs_status h)) @
     le_enc 2 (unat (rs_magic h)) @ le_enc 2 (unat (rs_version h)) @
     le_enc 2 (unat (rs_service_id h)) @ le_enc 2 (unat (rs_opcode h)) @
     le_enc 4 (unat (rs_rev1 h)) @ le_enc 4 (unat (rs_rev2 h))"

definition rs_of_bytes :: "string \<Rightarrow> RpcResponseHeader" where
  "rs_of_bytes s =
     \<lparr>rs_status = of_nat (le_dec (take 1 s)),
      rs_magic = of_nat (le_dec (take 2 (drop 1 s))),
      rs_version = of_nat (le_dec (take 2 (drop 3 s))),
      rs_service_id = of_nat (le_dec (take 2 (drop 5 s))),
      rs_opcode = of_nat (le_dec (take 2 (drop 7 s))),
      rs_rev1 = of_nat (le_dec (take 4 (drop 9 s))),
      rs_rev2 = of_nat (le_dec (take 4 (drop 13 s)))\<rparr>"

definition empty_rs_header :: RpcResponseHeader where
  "empty_rs_header =
     \<lparr>rs_status = 0, rs_magic = 0, rs_version = 0, rs_service_id = 0, rs_opcode = 0,
      rs_rev1 = 0, rs_rev2 = 0\<rparr>"

record RpcResponseMessage =
  rs_header :: RpcResponseHeader
  rs_payload :: string

definition mk_RpcResponseMessage :: "16 word \<Rightarrow> 16 word \<Rightarrow> string \<Rightarrow> RpcResponseMessage" where
  "mk_RpcResponseMessage serviceid opcd data =
     \<lparr>rs_header = empty_rs_header\<lparr>rs_status := status_code ST_OK, rs_magic := kRpcHeaderMagic,
                    rs_version := kRpcHeaderVersion, rs_service_id := serviceid, rs_opcode := opcd\<rparr>,
      rs_payload = data\<rparr>"

text \<open>The error reply leaves service id and opcode at zero.\<close>

definition mk_RpcResponseStatus :: "RpcResponseStatus \<Rightarrow> RpcResponseMessage" where
  "mk_RpcResponseStatus st =
     \<lparr>rs_header = empty_rs_header\<lparr>rs_status := status_code st, rs_magic := kRpcHeaderMagic,
                    rs_version := kRpcHeaderVersion\<rparr>,
      rs_payload = []\<rparr>"

definition rs_net_str :: "RpcResponseMessage \<Rightarrow> string" where
  "rs_net_str m = rs_bytes (rs_to_net_endian (rs_header m)) @ rs_payload m"

definition RpcResponseMessageParse :: "string \<Rightarrow> RpcResponseMessage option" where
  "RpcResponseMessageParse str =
     (if length str < sizeof_RpcResponseHeader then None
      else Some \<lparr>rs_header = rs_from_net_endian (rs_of_bytes str),
                 rs_payload = drop sizeof_RpcResponseHeader str\<rparr>)"

section \<open>RpcInstance\<close>

text \<open>
  The socket is a weak pointer to the connection: \<open>full_socket\<close> names the connection, and
  whether it still exists is a parameter of the two reply functions.
\<close>

record RpcInstance =
  ri_start :: int
  full_socket :: nat
  request :: Buffer
  rpc_request_message :: RpcRequestMessage
  msg_size :: int
  service_id :: "16 word"
  opcode :: "16 word"

definition mk_RpcInstance :: "int \<Rightarrow> string \<Rightarrow> nat \<Rightarrow> int \<Rightarrow> RpcInstance" where
  "mk_RpcInstance now str_request sock sz =
     \<lparr>ri_start = now, full_socket = sock, request = mk_Buffer str_request,
      rpc_request_message = empty_RpcRequestMessage, msg_size = sz,
      service_id = -1, opcode = -1\<rparr>"

text \<open>
  \<open>msg_size_ - sizeof(RpcRequestHeader)\<close> is computed in \<open>size_t\<close> and narrowed to the
  \<open>uint32_t\<close> parameter of \<open>consume\<close>.
\<close>

definition validate_request :: "RpcInstance \<Rightarrow> bool \<times> RpcInstance" where
  "validate_request ri =
     (if get_length (request ri) < sizeof_RpcRequestHeader then (False, ri)
      else
        let (head, buf) = consume sizeof_RpcRequestHeader (request ri);
            head_str = (case head of None \<Rightarrow> [] | Some s \<Rightarrow> s);
            h = rq_from_net_endian (rq_of_bytes head_str);
            ri1 = ri\<lparr>request := buf\<rparr>
        in if rq_magic h \<noteq> kRpcHeaderMagic \<or> rq_version h \<noteq> kRpcHeaderVersion then (False, ri1)
           else
             let ri2 = ri1\<lparr>service_id := rq_service_id h, opcode := rq_opcode h\<rparr>;
                 want = nat (to_u32 (to_u64 (msg_size ri - int sizeof_RpcRequestHeader)));
                 (body, buf') = consume want (request ri2);
                 msg_str = (case body of None \<Rightarrow> [] | Some s \<Rightarrow> s);
                 ri3 = ri2\<lparr>request := buf'\<rparr>
             in if msg_str = [] then (False, ri3)
                else (True, ri3\<lparr>rpc_request_message := \<lparr>rq_header = h, rq_payload = msg_str\<rparr>\<rparr>))"

text \<open>The bytes handed to the connection: \<open>None\<close> when the connection is already gone.\<close>

definition reply_rpc_message :: "bool \<Rightarrow> string \<Rightarrow> RpcInstance \<Rightarrow> Message option" where
  "reply_rpc_message alive msg ri =
     (let net_msg = mk_Message (rs_net_str (mk_RpcResponseMessage (service_id ri) (opcode ri) msg))
      in if alive then Some net_msg else None)"

definition reject :: "bool \<Rightarrow> RpcResponseStatus \<Rightarrow> RpcInstance \<Rightarrow> Message option" where
  "reject alive st ri =
     (let net_msg = mk_Message (rs_net_str (mk_RpcResponseStatus st))
      in if alive then Some net_msg else None)"


section \<open>Wire layout of the RPC headers\<close>

lemma length_rq_bytes [simp]: "length (rq_bytes h) = sizeof_RpcRequestHeader"
  by (simp add: rq_bytes_def sizeof_RpcRequestHeader_def)

lemma length_rs_bytes [simp]: "length (rs_bytes h) = sizeof_RpcResponseHeader"
  by (simp add: rs_bytes_def sizeof_RpcResponseHeader_def)

lemma rq_of_bytes_bytes [simp]: "rq_of_bytes (rq_bytes h @ s) = h"
  using unat_lt16 unat_lt32
  by (simp add: rq_of_bytes_def rq_bytes_def of_nat_le_dec_le_enc)

lemma rs_of_bytes_bytes [simp]: "rs_of_bytes (rs_bytes h @ s) = h"
  using unat_lt8 unat_lt16 unat_lt32
  by (simp add: rs_of_bytes_def rs_bytes_def of_nat_le_dec_le_enc)

lemma rq_net_roundtrip [simp]: "rq_from_net_endian (rq_to_net_endian h) = h"
  by (simp add: rq_from_net_endian_def rq_to_net_endian_def)

lemma rs_net_roundtrip [simp]: "rs_from_net_endian (rs_to_net_endian h) = h"
  by (simp add: rs_from_net_endian_def rs_to_net_endian_def)

lemma length_rq_net_str [simp]:
  "length (rq_net_str m) = sizeof_RpcRequestHeader + length (rq_payload m)"
  by (simp add: rq_net_str_def)

lemma RpcRequestMessageParse_net_str [simp]: "RpcRequestMessageParse (rq_net_str m) = Some m"
  by (simp add: RpcRequestMessageParse_def rq_net_str_def)

lemma RpcResponseMessageParse_net_str [simp]: "RpcResponseMessageParse (rs_net_str m) = Some m"
  by (simp add: RpcResponseMessageParse_def rs_net_str_def)

lemma RpcResponseMessageParse_None:
  "RpcResponseMessageParse s = None \<longleftrightarrow> length s < 17"
  by (simp add: RpcResponseMessageParse_def sizeof_RpcResponseHeader_def)

section \<open>Request validation\<close>

text \<open>
  What a well-formed request is: the two constants in the header and at least one byte of
  body. \<open>validate_request\<close> accepts exactly those.
\<close>

definition wellformed_request :: "string \<Rightarrow> bool" where
  "wellformed_request s \<longleftrightarrow>
     (\<exists>m. RpcRequestMessageParse s = Some m \<and> rq_magic (rq_header m) = kRpcHeaderMagic \<and>
          rq_version (rq_header m) = kRpcHeaderVersion \<and> rq_payload m \<noteq> [])"

text \<open>The instance a connection builds for a payload: its size is the payload's.\<close>

abbreviation instance_of :: "int \<Rightarrow> nat \<Rightarrow> string \<Rightarrow> RpcInstance" where
  "instance_of now sock s \<equiv> mk_RpcInstance now s sock (int (length s))"

lemma consume_head:
  "sizeof_RpcRequestHeader \<le> length s \<Longrightarrow>
   consume sizeof_RpcRequestHeader (mk_Buffer s) =
     (Some (take sizeof_RpcRequestHeader s), mk_Buffer (drop sizeof_RpcRequestHeader s))"
  by (auto simp: consume_def mk_Buffer_def sizeof_RpcRequestHeader_def)

lemma consume_all: "consume (length s) (mk_Buffer s) =
   (if s = [] then (None, mk_Buffer []) else (Some s, mk_Buffer []))"
  by (auto simp: consume_def mk_Buffer_def)

lemma consume_empty [simp]: "consume n (mk_Buffer []) = (None, mk_Buffer [])"
  by (simp add: consume_def mk_Buffer_def)

lemma rq_of_bytes_take: "rq_of_bytes (take sizeof_RpcRequestHeader s) = rq_of_bytes s"
  by (simp add: rq_of_bytes_def sizeof_RpcRequestHeader_def drop_take min_def)

lemma narrow_size: "n < 2 ^ 32 \<Longrightarrow> nat (to_u32 (to_u64 (int n))) = n"
  by (simp add: to_u32_def to_u64_def)

lemma validate_request_cases:
  assumes "length s < 2 ^ 31"
  shows "validate_request (instance_of now sock s) =
    (case RpcRequestMessageParse s of
       None \<Rightarrow> (False, instance_of now sock s)
     | Some m \<Rightarrow>
         let ri1 = (instance_of now sock s)\<lparr>request := mk_Buffer (rq_payload m)\<rparr>
         in if rq_magic (rq_header m) \<noteq> kRpcHeaderMagic \<or> rq_version (rq_header m) \<noteq> kRpcHeaderVersion
            then (False, ri1)
            else let ri2 = ri1\<lparr>service_id := rq_service_id (rq_header m),
                               opcode := rq_opcode (rq_header m), request := mk_Buffer []\<rparr>
                 in if rq_payload m = [] then (False, ri2)
                    else (True, ri2\<lparr>rpc_request_message := m\<rparr>))"
proof (cases "length s < sizeof_RpcRequestHeader")
  case True
  then have "length s mod 4294967296 < sizeof_RpcRequestHeader"
    by (simp add: sizeof_RpcRequestHeader_def)
  with True show ?thesis
    by (simp add: validate_request_def RpcRequestMessageParse_def mk_RpcInstance_def get_length_def
        mk_Buffer_def)
next
  case False
  define hd t where "hd = take sizeof_RpcRequestHeader s" and "t = drop sizeof_RpcRequestHeader s"
  then have s: "s = hd @ t" and len: "length hd = sizeof_RpcRequestHeader"
    using False by simp_all
  have "get_length (mk_Buffer s) = sizeof_RpcRequestHeader + length t"
    using assms by (simp add: get_length_def mk_Buffer_def s len)
  moreover have "length t < 2 ^ 32" using assms by (simp add: s)
  moreover have "rq_of_bytes (hd @ t) = rq_of_bytes hd"
    using rq_of_bytes_take [of "hd @ t"] by (simp add: len)
  moreover have "consume sizeof_RpcRequestHeader (mk_Buffer (hd @ t)) = (Some hd, mk_Buffer t)"
    using consume_head [of "hd @ t"] by (simp add: len)
  ultimately show ?thesis
    unfolding validate_request_def RpcRequestMessageParse_def mk_RpcInstance_def s
    by (simp add: len narrow_size consume_all Let_def)
qed

text \<open>
  \<open>RpcInstance::validate_request\<close> accepts a received payload exactly when it parses as an
  RPC request with the right magic and version and a non-empty body, and then the instance
  carries the parsed message, its service id and its opcode. (The payload is shorter than
  \<open>2^31\<close>: its size is an \<open>int\<close>.)
\<close>
theorem validate_request_spec:
  assumes "length s < 2 ^ 31"
  shows "case validate_request (instance_of now sock s) of (ok, ri) \<Rightarrow>
           (ok \<longleftrightarrow> wellformed_request s) \<and>
           (ok \<longrightarrow> RpcRequestMessageParse s = Some (rpc_request_message ri) \<and>
                  service_id ri = rq_service_id (rq_header (rpc_request_message ri)) \<and>
                  opcode ri = rq_opcode (rq_header (rpc_request_message ri)))"
  by (auto simp: validate_request_cases [OF assms] wellformed_request_def Let_def
      split: option.splits)

text \<open>Witness: a read request of service 1 with the body \<open>"x"\<close>.\<close>
theorem validate_request_spec_witness:
  "length (rq_net_str (mk_RpcRequestMessage 1 1 ''x'')) < 2 ^ 31 \<and>
   fst (validate_request (instance_of 0 7 (rq_net_str (mk_RpcRequestMessage 1 1 ''x''))))"
proof
  let ?s = "rq_net_str (mk_RpcRequestMessage 1 1 ''x'')"
  show l: "length ?s < 2 ^ 31"
    by (simp add: sizeof_RpcRequestHeader_def mk_RpcRequestMessage_def)
  have "wellformed_request ?s"
    by (simp add: wellformed_request_def mk_RpcRequestMessage_def)
  then show "fst (validate_request (instance_of 0 7 ?s))"
    using validate_request_spec [OF l, of 0 7] by (simp add: split_beta)
qed

end
