(* ===== verification/TcpConnAsync.thy ===== *)
theory TcpConnAsync
  imports RpcMessage
begin

text \<open>
  \<open>source/Network/NetConn.h\<close> and \<open>source/Network/TcpConnAsync.cpp\<close>: the server side of one
  connection.

  The connection is a record; each callback that boost.asio runs on the connection's
  strand is a function from the connection to the connection. An outstanding
  \<open>async_read\<close> is the field \<open>reading\<close> (which handler it calls and how many bytes it waits
  for), outstanding \<open>async_write\<close>s are the list \<open>writing\<close> of their sizes: all of them
  read the one array \<open>io_block\<close>, as in the code. The bytes that a finished write has put on
  the wire are appended to \<open>sent\<close>; the payloads handed to \<open>Dispatcher::handle_RPC\<close> are
  appended to \<open>dispatched\<close>. What the dispatcher answers at once (a rejection) is the
  parameter \<open>disp\<close>; the theory \<open>Dispatcher\<close> supplies it.

  \<open>SAFE_ASSERT\<close> reports through \<open>boost::assertion_failed\<close>
  (\<open>source/Utils/BoostAssert.cpp\<close>), which logs and returns, so a failed assertion changes
  nothing here.
\<close>

datatype ConnStat = kWorking | kPending | kError | kClosed

datatype ShutdownType = kSend | kRecv | kBoth

datatype error_code =
    NoError
  | connection_reset
  | timed_out_ec
  | bad_descriptor
  | eof
  | operation_aborted
  | other_error

datatype read_op = NoRead | ReadHeader nat | ReadBody nat

definition kFixedIoBufferSize :: nat where "kFixedIoBufferSize = 2048"

text \<open>The limits the connection reads from its \<open>NetServer\<close>; 0 means unlimited.\<close>

record conn_conf =
  ops_cancel_time_out :: int
  send_max_msg_size :: int
  recv_max_msg_size :: int

record TcpConnAsync =
  conn_stat :: ConnStat
  was_cancelled :: bool
  ops_cancel_timer :: bool
  recv_header :: Header
  recv_buffer :: Buffer
  send_buffer :: Buffer
  io_block :: string
  reading :: read_op
  writing :: "nat list"
  sent :: string
  dispatched :: "string list"

definition new_conn :: TcpConnAsync where
  "new_conn =
     \<lparr>conn_stat = kPending, was_cancelled = False, ops_cancel_timer = False,
      recv_header = empty_header, recv_buffer = mk_Buffer [], send_buffer = mk_Buffer [],
      io_block = replicate kFixedIoBufferSize (char_of (0::nat)), reading = NoRead, writing = [], sent = [], dispatched = []\<rparr>"

section \<open>Closing and cancelling\<close>

text \<open>Closing the socket ends every outstanding operation with \<open>operation_aborted\<close>.\<close>

definition sock_shutdown_and_close :: "ShutdownType \<Rightarrow> TcpConnAsync \<Rightarrow> TcpConnAsync" where
  "sock_shutdown_and_close s c =
     (if conn_stat c = kClosed then c
      else c\<lparr>conn_stat := kClosed, reading := NoRead, writing := []\<rparr>)"

definition sock_close :: "TcpConnAsync \<Rightarrow> TcpConnAsync" where
  "sock_close c =
     (if conn_stat c = kClosed then c
      else c\<lparr>conn_stat := kClosed, reading := NoRead, writing := []\<rparr>)"

definition sock_cancel :: "TcpConnAsync \<Rightarrow> TcpConnAsync" where
  "sock_cancel c = c\<lparr>reading := NoRead, writing := []\<rparr>"

definition ops_cancel :: "TcpConnAsync \<Rightarrow> TcpConnAsync" where
  "ops_cancel c = (sock_cancel c)\<lparr>conn_stat := kError, was_cancelled := True\<rparr>"

definition set_ops_cancel_timeout :: "conn_conf \<Rightarrow> TcpConnAsync \<Rightarrow> TcpConnAsync" where
  "set_ops_cancel_timeout cf c =
     (if ops_cancel_time_out cf = 0 then c else c\<lparr>ops_cancel_timer := True\<rparr>)"

definition revoke_ops_cancel_timeout :: "TcpConnAsync \<Rightarrow> TcpConnAsync" where
  "revoke_ops_cancel_timeout c = c\<lparr>ops_cancel_timer := False\<rparr>"

definition ops_cancel_timeout_call :: "error_code \<Rightarrow> TcpConnAsync \<Rightarrow> TcpConnAsync" where
  "ops_cancel_timeout_call ec c =
     (if ec = NoError then sock_shutdown_and_close kBoth (ops_cancel c) else c)"

definition handle_socket_ec :: "error_code \<Rightarrow> TcpConnAsync \<Rightarrow> bool \<times> TcpConnAsync" where
  "handle_socket_ec ec c =
     (let close_socket = (ec \<noteq> operation_aborted)
      in (close_socket,
          if close_socket \<or> was_cancelled c
          then sock_shutdown_and_close kBoth (ops_cancel (revoke_ops_cancel_timeout c))
          else c))"

section \<open>Sending\<close>

definition do_write :: "conn_conf \<Rightarrow> TcpConnAsync \<Rightarrow> bool \<times> TcpConnAsync" where
  "do_write cf c =
     (if conn_stat c \<noteq> kWorking then (False, c)
      else if was_cancelled c then (False, c)
      else if get_length (send_buffer c) = 0 then (True, c)
      else
        let to_write = min (get_length (send_buffer c)) kFixedIoBufferSize
        in (case consume_raw to_write (send_buffer c) of
              (Copied block, b) \<Rightarrow>
                 (True, (set_ops_cancel_timeout cf
                          (c\<lparr>send_buffer := b, io_block := block @ drop (length block) (io_block c)\<rparr>))
                        \<lparr>writing := writing c @ [to_write]\<rparr>)
            | (_, b) \<Rightarrow> (True, c)))"

text \<open>\<open>msg.header_.length > server_.send_max_msg_size()\<close> compares as \<open>uint32_t\<close>.\<close>

definition over_limit :: "32 word \<Rightarrow> int \<Rightarrow> bool" where
  "over_limit n limit \<longleftrightarrow> limit \<noteq> 0 \<and> int (unat n) > to_u32 limit"

definition async_send_message :: "conn_conf \<Rightarrow> Message \<Rightarrow> TcpConnAsync \<Rightarrow> int \<times> TcpConnAsync" where
  "async_send_message cf msg c =
     (if over_limit (len (header msg)) (send_max_msg_size cf) then (-1, c)
      else (0, snd (do_write cf (c\<lparr>send_buffer := snd (buffer_append msg (send_buffer c))\<rparr>))))"

text \<open>
  \<open>write_handler\<close> runs when the oldest outstanding write has finished: on success its block
  went out as the shared array held it then.
\<close>

definition write_handler :: "conn_conf \<Rightarrow> error_code \<Rightarrow> TcpConnAsync \<Rightarrow> TcpConnAsync" where
  "write_handler cf ec c =
     (let c1 = revoke_ops_cancel_timeout c
      in if ec \<noteq> NoError then snd (handle_socket_ec ec c1)
         else snd (do_write cf c1))"

definition write_completes :: "conn_conf \<Rightarrow> TcpConnAsync \<Rightarrow> TcpConnAsync" where
  "write_completes cf c =
     (case writing c of
        [] \<Rightarrow> c
      | n # ns \<Rightarrow> write_handler cf NoError (c\<lparr>sent := sent c @ take n (io_block c), writing := ns\<rparr>))"

section \<open>Receiving\<close>

definition parse_header :: "conn_conf \<Rightarrow> TcpConnAsync \<Rightarrow> int \<times> TcpConnAsync" where
  "parse_header cf c =
     (if get_length (recv_buffer c) < sizeof_Header then (1, c)
      else
        let (head, buf) = consume sizeof_Header (recv_buffer c);
            head_str = (case head of None \<Rightarrow> [] | Some s \<Rightarrow> s);
            h = header_from_net_endian (header_of_bytes head_str);
            c1 = c\<lparr>recv_buffer := buf, recv_header := h\<rparr>
        in if magic h \<noteq> kHeaderMagic \<or> version h \<noteq> kHeaderVersion then (-1, c1)
           else if over_limit (len h) (recv_max_msg_size cf) then (-1, c1)
           else (0, c1))"

definition parse_msg_body :: "TcpConnAsync \<Rightarrow> int \<times> Message \<times> TcpConnAsync" where
  "parse_msg_body c =
     (if get_length (recv_buffer c) < unat (len (recv_header c))
      then (1, \<lparr>header = empty_header, payload = []\<rparr>, c)
      else
        let (body, buf) = consume (unat (len (recv_header c))) (recv_buffer c);
            msg_str = (case body of None \<Rightarrow> [] | Some s \<Rightarrow> s)
        in (0, \<lparr>header = recv_header c, payload = msg_str\<rparr>, c\<lparr>recv_buffer := buf\<rparr>))"

text \<open>
  Handing a payload to the dispatcher: an immediate answer is sent on this connection
  before the call returns.
\<close>

definition dispatch :: "(string \<Rightarrow> Message option) \<Rightarrow> conn_conf \<Rightarrow> string \<Rightarrow> TcpConnAsync \<Rightarrow> TcpConnAsync" where
  "dispatch disp cf p c =
     (let c1 = c\<lparr>dispatched := dispatched c @ [p]\<rparr>
      in case disp p of
           None \<Rightarrow> c1
         | Some msg \<Rightarrow> snd (async_send_message cf msg c1))"

lemma parse_header_shrinks:
  "parse_header cf c = (ret, c') \<Longrightarrow> \<not> get_length (recv_buffer c) < sizeof_Header \<Longrightarrow>
   ret \<le> 0 \<and> length (bdata (recv_buffer c')) < length (bdata (recv_buffer c))"
  by (auto simp: parse_header_def consume_def get_length_def sizeof_Header_def Let_def split: if_splits)

lemma parse_msg_body_shrinks:
  "parse_msg_body c = (ret, msg, c') \<Longrightarrow> \<not> get_length (recv_buffer c) < unat (len (recv_header c)) \<Longrightarrow>
   ret = 0 \<and> length (bdata (recv_buffer c')) \<le> length (bdata (recv_buffer c))"
  by (auto simp: parse_msg_body_def consume_def Let_def split: if_splits)

lemma do_write_frame [simp]:
  "recv_buffer (snd (do_write cf c)) = recv_buffer c"
  "recv_header (snd (do_write cf c)) = recv_header c"
  "reading (snd (do_write cf c)) = reading c"
  "conn_stat (snd (do_write cf c)) = conn_stat c"
  "was_cancelled (snd (do_write cf c)) = was_cancelled c"
  "dispatched (snd (do_write cf c)) = dispatched c"
  by (simp_all add: do_write_def set_ops_cancel_timeout_def Let_def split: prod.splits raw_copy.splits)

lemma async_send_frame [simp]:
  "recv_buffer (snd (async_send_message cf m c)) = recv_buffer c"
  "recv_header (snd (async_send_message cf m c)) = recv_header c"
  "reading (snd (async_send_message cf m c)) = reading c"
  "conn_stat (snd (async_send_message cf m c)) = conn_stat c"
  "was_cancelled (snd (async_send_message cf m c)) = was_cancelled c"
  "dispatched (snd (async_send_message cf m c)) = dispatched c"
  by (simp_all add: async_send_message_def)

lemma dispatch_frame [simp]:
  "recv_buffer (dispatch disp cf p c) = recv_buffer c"
  "recv_header (dispatch disp cf p c) = recv_header c"
  "reading (dispatch disp cf p c) = reading c"
  "conn_stat (dispatch disp cf p c) = conn_stat c"
  "was_cancelled (dispatch disp cf p c) = was_cancelled c"
  "dispatched (dispatch disp cf p c) = dispatched c @ [p]"
  by (simp_all add: dispatch_def Let_def split: option.splits)

text \<open>
  \<open>do_read\<close> and \<open>do_read_msg\<close> call each other while whole messages are buffered. Each
  header takes 16 bytes out of the buffer, so the recursion ends.
\<close>

function (sequential)
  do_read :: "(string \<Rightarrow> Message option) \<Rightarrow> conn_conf \<Rightarrow> TcpConnAsync \<Rightarrow> TcpConnAsync" and
  do_read_msg :: "(string \<Rightarrow> Message option) \<Rightarrow> conn_conf \<Rightarrow> TcpConnAsync \<Rightarrow> TcpConnAsync"
where
  "do_read disp cf c =
     (if conn_stat c \<noteq> kWorking then c
      else if was_cancelled c then c
      else if get_length (recv_buffer c) < sizeof_Header
      then (set_ops_cancel_timeout cf c)
             \<lparr>reading := ReadHeader (sizeof_Header - get_length (recv_buffer c))\<rparr>
      else
        (case parse_header cf c of
           (ret, c') \<Rightarrow>
             if ret = 0 then do_read_msg disp cf c'
             else if ret > 0 then do_read disp cf c'
             else sock_shutdown_and_close kBoth c'))"
| "do_read_msg disp cf c =
     (if conn_stat c \<noteq> kWorking then c
      else if was_cancelled c then c
      else if get_length (recv_buffer c) < unat (len (recv_header c))
      then (set_ops_cancel_timeout cf c)
             \<lparr>reading := ReadBody (min (unat (len (recv_header c)) - get_length (recv_buffer c))
                                       kFixedIoBufferSize)\<rparr>
      else
        (case parse_msg_body c of
           (ret, msg, c') \<Rightarrow>
             if ret = 0 then do_read disp cf (dispatch disp cf (payload msg) c')
             else if ret > 0 then do_read_msg disp cf c'
             else sock_shutdown_and_close kBoth c'))"
  by pat_completeness auto
termination
  by (relation "measure (\<lambda>x. case x of
          Inl (disp, cf, c) \<Rightarrow> 2 * length (bdata (recv_buffer c))
        | Inr (disp, cf, c) \<Rightarrow> 2 * length (bdata (recv_buffer c)) + 1)")
    (auto dest!: parse_header_shrinks [OF sym] parse_msg_body_shrinks [OF sym])

declare do_read.simps [simp del] do_read_msg.simps [simp del]

definition start :: "(string \<Rightarrow> Message option) \<Rightarrow> conn_conf \<Rightarrow> TcpConnAsync \<Rightarrow> TcpConnAsync" where
  "start disp cf c = do_read disp cf (c\<lparr>conn_stat := kWorking\<rparr>)"

definition stop :: "TcpConnAsync \<Rightarrow> TcpConnAsync" where
  "stop c = c\<lparr>conn_stat := kPending\<rparr>"

definition read_handler ::
    "(string \<Rightarrow> Message option) \<Rightarrow> conn_conf \<Rightarrow> error_code \<Rightarrow> string \<Rightarrow> TcpConnAsync \<Rightarrow> TcpConnAsync" where
  "read_handler disp cf ec bytes c =
     (let c1 = revoke_ops_cancel_timeout c
      in if ec \<noteq> NoError then snd (handle_socket_ec ec c1)
         else
           let c2 = c1\<lparr>recv_buffer := snd (append_internal bytes (recv_buffer c1))\<rparr>
           in if get_length (recv_buffer c2) < sizeof_Header then do_read disp cf c2
              else
                (case parse_header cf c2 of
                   (ret, c3) \<Rightarrow>
                     if ret = 0 then do_read_msg disp cf c3
                     else if ret > 0 then do_read disp cf c3
                     else sock_shutdown_and_close kBoth c3))"

definition read_msg_handler ::
    "(string \<Rightarrow> Message option) \<Rightarrow> conn_conf \<Rightarrow> error_code \<Rightarrow> string \<Rightarrow> TcpConnAsync \<Rightarrow> TcpConnAsync" where
  "read_msg_handler disp cf ec bytes c =
     (let c1 = revoke_ops_cancel_timeout c
      in if ec \<noteq> NoError then snd (handle_socket_ec ec c1)
         else
           let c2 = c1\<lparr>recv_buffer := snd (append_internal bytes (recv_buffer c1))\<rparr>
           in (case parse_msg_body c2 of
                 (ret, msg, c3) \<Rightarrow>
                   if ret = 0 then do_read disp cf (dispatch disp cf (payload msg) c3)
                   else if ret > 0 then do_read_msg disp cf c3
                   else sock_shutdown_and_close kBoth c3))"

text \<open>
  One completion of the outstanding read: \<open>boost::asio\<close> calls the handler that was bound
  when the read was started.
\<close>

definition read_completes ::
    "(string \<Rightarrow> Message option) \<Rightarrow> conn_conf \<Rightarrow> error_code \<Rightarrow> string \<Rightarrow> TcpConnAsync \<Rightarrow> TcpConnAsync" where
  "read_completes disp cf ec bytes c =
     (case reading c of
        NoRead \<Rightarrow> c
      | ReadHeader n \<Rightarrow> read_handler disp cf ec bytes (c\<lparr>reading := NoRead\<rparr>)
      | ReadBody n \<Rightarrow> read_msg_handler disp cf ec bytes (c\<lparr>reading := NoRead\<rparr>))"

section \<open>The byte stream as a sequence of frames\<close>

text \<open>
  The specification of the receiving side: what a byte stream means, read as a whole. Its
  state says what is missing at the end of the stream.
\<close>

datatype stream_state = NeedHeader string | NeedBody Header string | Broken

definition header_ok :: "conn_conf \<Rightarrow> Header \<Rightarrow> bool" where
  "header_ok cf h \<longleftrightarrow>
     magic h = kHeaderMagic \<and> version h = kHeaderVersion \<and> \<not> over_limit (len h) (recv_max_msg_size cf)"

function parse_stream :: "conn_conf \<Rightarrow> string \<Rightarrow> string list \<times> stream_state" where
  "parse_stream cf s =
     (if length s < sizeof_Header then ([], NeedHeader s)
      else
        let h = header_from_net_endian (header_of_bytes (take sizeof_Header s));
            t = drop sizeof_Header s
        in if \<not> header_ok cf h then ([], Broken)
           else if length t < unat (len h) then ([], NeedBody h t)
           else
             let (ps, st) = parse_stream cf (drop (unat (len h)) t)
             in (take (unat (len h)) t # ps, st))"
  by pat_completeness auto
termination
  by (relation "measure (\<lambda>(cf, s). length s)") (auto simp: sizeof_Header_def)

declare parse_stream.simps [simp del]

definition parse_body :: "conn_conf \<Rightarrow> Header \<Rightarrow> string \<Rightarrow> string list \<times> stream_state" where
  "parse_body cf h t =
     (if length t < unat (len h) then ([], NeedBody h t)
      else
        let (ps, st) = parse_stream cf (drop (unat (len h)) t)
        in (take (unat (len h)) t # ps, st))"

fun resume :: "conn_conf \<Rightarrow> stream_state \<Rightarrow> string \<Rightarrow> string list \<times> stream_state" where
  "resume cf (NeedHeader r) t = parse_stream cf (r @ t)"
| "resume cf (NeedBody h r) t = parse_body cf h (r @ t)"
| "resume cf Broken t = ([], Broken)"

lemma parse_stream_step:
  "parse_stream cf s =
     (if length s < sizeof_Header then ([], NeedHeader s)
      else
        let h = header_from_net_endian (header_of_bytes (take sizeof_Header s))
        in if \<not> header_ok cf h then ([], Broken) else parse_body cf h (drop sizeof_Header s))"
  by (subst parse_stream.simps) (simp add: parse_body_def Let_def)

lemma parse_stream_append:
  "parse_stream cf (s @ t) =
     (case parse_stream cf s of
        (ps, st) \<Rightarrow> (case resume cf st t of (ps', st') \<Rightarrow> (ps @ ps', st')))"
proof (induction cf s rule: parse_stream.induct)
  case (1 cf s)
  let ?h = "header_from_net_endian (header_of_bytes (take sizeof_Header s))"
  let ?b = "drop sizeof_Header s"
  show ?case
  proof (cases "length s < sizeof_Header \<or> \<not> header_ok cf ?h \<or> length ?b < unat (len ?h)")
    case True
    then show ?thesis
      by (auto simp: parse_stream_step [of cf s] parse_stream_step [of cf "s @ t"] parse_body_def
          Let_def split: prod.splits)
  next
    case False
    then have "parse_stream cf (drop (unat (len ?h)) ?b @ t) =
      (case parse_stream cf (drop (unat (len ?h)) ?b) of
         (ps, st) \<Rightarrow> (case resume cf st t of (ps', st') \<Rightarrow> (ps @ ps', st')))"
      using 1 [of ?h ?b] by simp
    with False show ?thesis
      by (simp add: parse_stream_step [of cf s] parse_stream_step [of cf "s @ t"] parse_body_def
          Let_def split: prod.splits)
  qed
qed

text \<open>How a connection stands for a stream state.\<close>

fun stands_for :: "conn_conf \<Rightarrow> TcpConnAsync \<Rightarrow> stream_state \<Rightarrow> bool" where
  "stands_for cf c (NeedHeader r) \<longleftrightarrow>
     conn_stat c = kWorking \<and> \<not> was_cancelled c \<and> bdata (recv_buffer c) = r \<and>
     length r < sizeof_Header \<and> reading c = ReadHeader (sizeof_Header - length r)"
| "stands_for cf c (NeedBody h r) \<longleftrightarrow>
     conn_stat c = kWorking \<and> \<not> was_cancelled c \<and> bdata (recv_buffer c) = r \<and>
     recv_header c = h \<and> header_ok cf h \<and> length r < unat (len h) \<and>
     reading c = ReadBody (min (unat (len h) - length r) kFixedIoBufferSize)"
| "stands_for cf c Broken \<longleftrightarrow> conn_stat c = kClosed \<and> reading c = NoRead"

text \<open>The connection \<open>c'\<close> is what becomes of \<open>c\<close> when the stream reads as \<open>r\<close>.\<close>

definition follows :: "conn_conf \<Rightarrow> TcpConnAsync \<Rightarrow> TcpConnAsync \<Rightarrow> string list \<times> stream_state \<Rightarrow> bool" where
  "follows cf c c' r \<longleftrightarrow> dispatched c' = dispatched c @ fst r \<and> stands_for cf c' (snd r)"

lemma set_timeout_frame [simp]:
  "recv_buffer (set_ops_cancel_timeout cf c) = recv_buffer c"
  "recv_header (set_ops_cancel_timeout cf c) = recv_header c"
  "conn_stat (set_ops_cancel_timeout cf c) = conn_stat c"
  "was_cancelled (set_ops_cancel_timeout cf c) = was_cancelled c"
  "dispatched (set_ops_cancel_timeout cf c) = dispatched c"
  by (simp_all add: set_ops_cancel_timeout_def)

lemma revoke_timeout_frame [simp]:
  "recv_buffer (revoke_ops_cancel_timeout c) = recv_buffer c"
  "recv_header (revoke_ops_cancel_timeout c) = recv_header c"
  "conn_stat (revoke_ops_cancel_timeout c) = conn_stat c"
  "was_cancelled (revoke_ops_cancel_timeout c) = was_cancelled c"
  "dispatched (revoke_ops_cancel_timeout c) = dispatched c"
  "reading (revoke_ops_cancel_timeout c) = reading c"
  by (simp_all add: revoke_ops_cancel_timeout_def)

lemma get_length_small [simp]: "length (bdata b) < 4294967296 \<Longrightarrow> get_length b = length (bdata b)"
  by (simp add: get_length_def)

lemma consume_whole:
  "sz \<le> length (bdata b) \<Longrightarrow>
   (case fst (consume sz b) of None \<Rightarrow> [] | Some s \<Rightarrow> s) = take sz (bdata b) \<and>
   bdata (snd (consume sz b)) = drop sz (bdata b)"
  by (auto simp: consume_def)

lemma parse_header_spec:
  assumes "length (bdata (recv_buffer c)) < 4294967296"
    and "sizeof_Header \<le> length (bdata (recv_buffer c))"
  defines "h \<equiv> header_from_net_endian (header_of_bytes (take sizeof_Header (bdata (recv_buffer c))))"
  shows "\<exists>b. bdata b = drop sizeof_Header (bdata (recv_buffer c)) \<and>
             parse_header cf c = (if header_ok cf h then 0 else -1, c\<lparr>recv_buffer := b, recv_header := h\<rparr>)"
  using assms consume_whole [of sizeof_Header "recv_buffer c"]
  by (intro exI [of _ "snd (consume sizeof_Header (recv_buffer c))"])
    (simp add: parse_header_def header_ok_def Let_def case_prod_unfold)

lemma parse_msg_body_spec:
  assumes "length (bdata (recv_buffer c)) < 4294967296"
    and "unat (len (recv_header c)) \<le> length (bdata (recv_buffer c))"
  shows "\<exists>b. bdata b = drop (unat (len (recv_header c))) (bdata (recv_buffer c)) \<and>
             parse_msg_body c =
               (0, \<lparr>header = recv_header c, payload = take (unat (len (recv_header c))) (bdata (recv_buffer c))\<rparr>,
                c\<lparr>recv_buffer := b\<rparr>)"
  using assms consume_whole [of "unat (len (recv_header c))" "recv_buffer c"]
  by (intro exI [of _ "snd (consume (unat (len (recv_header c))) (recv_buffer c))"])
    (simp add: parse_msg_body_def Let_def case_prod_unfold)

lemma do_read_follows:
  "conn_stat c = kWorking \<Longrightarrow> \<not> was_cancelled c \<Longrightarrow> length (bdata (recv_buffer c)) < 4294967296 \<Longrightarrow>
   follows cf c (do_read disp cf c) (parse_stream cf (bdata (recv_buffer c)))"
  "conn_stat c = kWorking \<Longrightarrow> \<not> was_cancelled c \<Longrightarrow> length (bdata (recv_buffer c)) < 4294967296 \<Longrightarrow>
   header_ok cf (recv_header c) \<Longrightarrow>
   follows cf c (do_read_msg disp cf c) (parse_body cf (recv_header c) (bdata (recv_buffer c)))"
proof (induction disp cf c and disp cf c rule: do_read_do_read_msg.induct)
  case (1 disp cf c)
  let ?s = "bdata (recv_buffer c)"
  let ?h = "header_from_net_endian (header_of_bytes (take sizeof_Header ?s))"
  show ?case
  proof (cases "length ?s < sizeof_Header")
    case True
    with "1.prems" show ?thesis
      by (subst do_read.simps) (simp add: parse_stream_step [of cf ?s] follows_def)
  next
    case False
    with "1.prems" parse_header_spec [of c cf] obtain b where
      b: "bdata b = drop sizeof_Header ?s" and
      ph: "parse_header cf c = (if header_ok cf ?h then 0 else -1, c\<lparr>recv_buffer := b, recv_header := ?h\<rparr>)"
      by auto
    show ?thesis
    proof (cases "header_ok cf ?h")
      case True
      then have "follows cf (c\<lparr>recv_buffer := b, recv_header := ?h\<rparr>)
         (do_read_msg disp cf (c\<lparr>recv_buffer := b, recv_header := ?h\<rparr>)) (parse_body cf ?h (bdata b))"
        using "1.IH"(1) [OF _ _ _ ph [symmetric]] "1.prems" False by (simp add: ph b)
      with True False "1.prems" ph b show ?thesis
        by (subst do_read.simps) (simp add: parse_stream_step [of cf ?s] follows_def)
    next
      case bad: False
      with False "1.prems" ph b show ?thesis
        by (subst do_read.simps)
          (simp add: parse_stream_step [of cf ?s] follows_def sock_shutdown_and_close_def)
    qed
  qed
next
  case (2 disp cf c)
  let ?s = "bdata (recv_buffer c)"
  let ?n = "unat (len (recv_header c))"
  show ?case
  proof (cases "length ?s < ?n")
    case True
    with "2.prems" show ?thesis
      by (subst do_read_msg.simps) (simp add: parse_body_def follows_def)
  next
    case False
    with "2.prems" parse_msg_body_spec [of c] obtain b where
      b: "bdata b = drop ?n ?s" and
      pb: "parse_msg_body c = (0, \<lparr>header = recv_header c, payload = take ?n ?s\<rparr>, c\<lparr>recv_buffer := b\<rparr>)"
      by auto
    have "follows cf (dispatch disp cf (take ?n ?s) (c\<lparr>recv_buffer := b\<rparr>))
       (do_read disp cf (dispatch disp cf (take ?n ?s) (c\<lparr>recv_buffer := b\<rparr>))) (parse_stream cf (bdata b))"
      using "2.IH"(1) [OF _ _ _ pb [symmetric] refl] "2.prems" False by (simp add: b)
    with False "2.prems" pb b show ?thesis
      by (subst do_read_msg.simps) (simp add: parse_body_def follows_def case_prod_unfold Let_def)
  qed
qed

text \<open>
  The receive limit that keeps the buffer length within \<open>uint32_t\<close>. \<open>NetConf::load_conf\<close>
  accepts 0 (no limit at all) or a value above 32; the field is an \<open>int32_t\<close>.
\<close>

definition recv_limited :: "conn_conf \<Rightarrow> bool" where
  "recv_limited cf \<longleftrightarrow> 0 < recv_max_msg_size cf \<and> recv_max_msg_size cf \<le> INT32_MAX"

lemma header_ok_len:
  "recv_limited cf \<Longrightarrow> header_ok cf h \<Longrightarrow> unat (len h) \<le> nat (recv_max_msg_size cf)"
  by (simp add: le_nat_iff header_ok_def over_limit_def recv_limited_def to_u32_def INT32_MAX_def not_less)

text \<open>What of the stream is still buffered in a state.\<close>

fun unread :: "stream_state \<Rightarrow> string" where
  "unread (NeedHeader r) = r"
| "unread (NeedBody h r) = r"
| "unread Broken = []"

text \<open>The buffered bytes stay countable: the frames are limited, or there are few enough bytes.\<close>

definition countable_reads :: "conn_conf \<Rightarrow> nat \<Rightarrow> bool" where
  "countable_reads cf n \<longleftrightarrow> recv_limited cf \<or> n < 2 ^ 32"

lemma countable_reads_mono: "countable_reads cf n \<Longrightarrow> m \<le> n \<Longrightarrow> countable_reads cf m"
  by (auto simp: countable_reads_def)

lemma read_completes_follows:
  assumes "countable_reads cf (length (unread st) + length x)" "length x \<le> kFixedIoBufferSize" "stands_for cf c st"
  shows "follows cf c (read_completes disp cf NoError x c) (resume cf st x)"
proof (cases st)
  case (NeedHeader r)
  let ?c = "(revoke_ops_cancel_timeout (c\<lparr>reading := NoRead\<rparr>))
               \<lparr>recv_buffer := snd (append_internal x (recv_buffer c))\<rparr>"
  from assms NeedHeader have fits: "length (r @ x) < 4294967296"
    by (simp add: sizeof_Header_def kFixedIoBufferSize_def)
  from assms NeedHeader fits have "read_completes disp cf NoError x c = do_read disp cf ?c"
    by (cases "length (r @ x) < sizeof_Header")
      (simp_all add: read_completes_def read_handler_def Let_def do_read.simps [of disp cf ?c])
  with assms NeedHeader fits do_read_follows(1) [of ?c cf disp] show ?thesis
    by (simp add: follows_def)
next
  case (NeedBody h r)
  let ?c = "(revoke_ops_cancel_timeout (c\<lparr>reading := NoRead\<rparr>))
               \<lparr>recv_buffer := snd (append_internal x (recv_buffer c))\<rparr>"
  from assms NeedBody have h: "header_ok cf h" "length r < unat (len h)" by simp_all
  have fits: "length (r @ x) < 4294967296"
  proof (cases "recv_limited cf")
    case True
    from h header_ok_len [OF True] have "length r < nat (recv_max_msg_size cf)"
      by (meson order.strict_trans2)
    moreover have "nat (recv_max_msg_size cf) \<le> 2147483647"
      using True by (simp add: recv_limited_def INT32_MAX_def nat_le_iff)
    ultimately show ?thesis
      using assms(2) by (simp add: kFixedIoBufferSize_def)
  qed (use assms(1) NeedBody in \<open>simp add: countable_reads_def\<close>)
  from assms NeedBody fits have "read_completes disp cf NoError x c = do_read_msg disp cf ?c"
    by (cases "length (r @ x) < unat (len h)")
      (simp_all add: read_completes_def read_msg_handler_def Let_def do_read_msg.simps [of disp cf ?c]
        parse_msg_body_def)
  with assms NeedBody fits do_read_follows(2) [of ?c cf disp] show ?thesis
    by (simp add: follows_def)
next
  case Broken
  with assms show ?thesis by (simp add: follows_def read_completes_def)
qed

definition receive_all ::
    "(string \<Rightarrow> Message option) \<Rightarrow> conn_conf \<Rightarrow> string list \<Rightarrow> TcpConnAsync \<Rightarrow> TcpConnAsync" where
  "receive_all disp cf = fold (read_completes disp cf NoError)"

lemma unread_stream: "length (unread (snd (parse_stream cf s))) \<le> length s"
proof (induction cf s rule: parse_stream.induct)
  case (1 cf s)
  let ?h = "header_from_net_endian (header_of_bytes (take sizeof_Header s))"
  let ?b = "drop sizeof_Header s"
  show ?case
  proof (cases "length s < sizeof_Header \<or> \<not> header_ok cf ?h \<or> length ?b < unat (len ?h)")
    case True
    then show ?thesis by (auto simp: parse_stream_step [of cf s] parse_body_def Let_def)
  next
    case False
    then have "length (unread (snd (parse_stream cf (drop (unat (len ?h)) ?b)))) \<le> length (drop (unat (len ?h)) ?b)"
      by (intro "1.IH") auto
    then have "length (unread (snd (parse_stream cf (drop (unat (len ?h)) ?b)))) \<le> length s" by simp
    with False show ?thesis
      by (simp add: parse_stream_step [of cf s] parse_body_def Let_def case_prod_unfold)
  qed
qed

lemma receive_all_follows:
  assumes "countable_reads cf (length (s @ concat xs))" "\<forall>x\<in>set xs. length x \<le> kFixedIoBufferSize"
    and "stands_for cf c st" "parse_stream cf s = (ps, st)"
  shows "follows cf c (receive_all disp cf xs c)
           (drop (length ps) (fst (parse_stream cf (s @ concat xs))), snd (parse_stream cf (s @ concat xs)))"
  using assms
proof (induction xs arbitrary: c s ps st)
  case Nil
  then show ?case by (simp add: receive_all_def follows_def)
next
  case (Cons x xs)
  obtain qs st' where res: "resume cf st x = (qs, st')" by fastforce
  have "length (unread st) \<le> length s" using unread_stream [of cf s] Cons.prems(4) by simp
  then have "countable_reads cf (length (unread st) + length x)"
    by (intro countable_reads_mono [OF Cons.prems(1)]) simp
  then have step: "follows cf c (read_completes disp cf NoError x c) (qs, st')"
    using read_completes_follows [OF _ _ Cons.prems(3), of x disp] Cons.prems(2) res by simp
  have ps: "parse_stream cf (s @ x) = (ps @ qs, st')"
    using Cons.prems(4) res by (simp add: parse_stream_append)
  obtain rs st'' where rest: "resume cf st' (concat xs) = (rs, st'')" by fastforce
  have "parse_stream cf ((s @ x) @ concat xs) = (ps @ qs @ rs, st'')"
    using ps rest by (simp only: parse_stream_append) simp
  moreover have "follows cf (read_completes disp cf NoError x c)
     (receive_all disp cf xs (read_completes disp cf NoError x c))
     (drop (length (ps @ qs)) (fst (parse_stream cf ((s @ x) @ concat xs))),
      snd (parse_stream cf ((s @ x) @ concat xs)))"
    using Cons.IH [OF _ _ _ ps] Cons.prems(1,2) step by (simp add: follows_def)
  ultimately show ?case
    using step by (simp add: follows_def receive_all_def)
qed

lemma start_stands: "stands_for cf (start disp cf new_conn) (NeedHeader [])"
  "dispatched (start disp cf new_conn) = []"
  by (simp_all add: start_def new_conn_def do_read.simps mk_Buffer_def sizeof_Header_def)

lemma parse_stream_nil [simp]: "parse_stream cf [] = ([], NeedHeader [])"
  by (simp add: parse_stream_step sizeof_Header_def)

lemma parse_stream_frame:
  assumes "int (length p) < 2 ^ 32" "\<not> over_limit (of_nat (length p)) (recv_max_msg_size cf)"
  shows "parse_stream cf (Message_net_str (mk_Message p) @ s) =
           (case parse_stream cf s of (ps, st) \<Rightarrow> (p # ps, st))"
proof -
  have "unat (of_nat (length p) :: 32 word) = length p"
    using assms(1) by (simp add: unat_of_nat_small)
  with assms(2) show ?thesis
    by (subst parse_stream_step)
      (simp add: parse_body_def Message_net_str_def header_ok_def mk_Message_def empty_header_def Let_def)
qed

text \<open>
  C15. The receiving state machine of a connection refines the parsing of the whole
  stream: however the network cuts the bytes into reads, the payloads handed to the dispatcher
  are those of the specification and the connection waits for the missing rest of the
  header or body, or is closed after a bad header. The limit on received messages is set, or the
  connection has carried less than 4 GiB.
\<close>
theorem receive_refines_stream:
  assumes "recv_limited cf \<or> length (concat chunks) < 2 ^ 32" "\<forall>x\<in>set chunks. length x \<le> kFixedIoBufferSize"
  shows "let c = receive_all disp cf chunks (start disp cf new_conn);
             r = parse_stream cf (concat chunks)
         in dispatched c = fst r \<and> stands_for cf c (snd r)"
  using receive_all_follows [OF _ assms(2) start_stands(1) [where disp = disp and cf = cf] parse_stream_nil, where disp = disp] start_stands(2) assms(1)
  by (simp add: follows_def countable_reads_def Let_def)

text \<open>
  Any cutting of a sequence of frames made by \<open>Message\<close> dispatches exactly their
  payloads, in order, and leaves the connection working with nothing half read.
\<close>
theorem receive_frames:
  assumes "recv_limited cf" "\<forall>x\<in>set chunks. length x \<le> kFixedIoBufferSize"
    and "\<forall>p\<in>set ps. int (length p) \<le> recv_max_msg_size cf"
    and "concat chunks = concat (map (\<lambda>p. Message_net_str (mk_Message p)) ps)"
  shows "let c = receive_all disp cf chunks (start disp cf new_conn)
         in dispatched c = ps \<and> conn_stat c = kWorking \<and> bdata (recv_buffer c) = []"
proof -
  have "parse_stream cf (concat (map (\<lambda>p. Message_net_str (mk_Message p)) ps)) = (ps, NeedHeader [])"
    using assms(3)
  proof (induction ps)
    case (Cons p ps)
    with assms(1) have "int (length p) < 2 ^ 32"
      "\<not> over_limit (of_nat (length p)) (recv_max_msg_size cf)"
      by (simp_all add: recv_limited_def over_limit_def INT32_MAX_def to_u32_def unat_of_nat_small)
    with Cons show ?case by (simp add: parse_stream_frame)
  qed simp
  with receive_all_follows [OF _ assms(2) start_stands(1) [where disp = disp and cf = cf] parse_stream_nil, where disp = disp] assms(1,4)
  show ?thesis
    by (simp add: follows_def start_stands(2) countable_reads_def Let_def)
qed

lemma receive_refines_stream_witness:
  "let cf = \<lparr>ops_cancel_time_out = 0, send_max_msg_size = 0, recv_max_msg_size = 64\<rparr>;
       c = receive_all (\<lambda>_. None) cf [''GET /'', '' HTTP/1.0'' @ ''....''] (start (\<lambda>_. None) cf new_conn);
       r = parse_stream cf (concat [''GET /'', '' HTTP/1.0'' @ ''....''])
   in dispatched c = fst r \<and> stands_for cf c (snd r)"
  using receive_refines_stream
    [of "\<lparr>ops_cancel_time_out = 0, send_max_msg_size = 0, recv_max_msg_size = 64\<rparr>"
        "[''GET /'', '' HTTP/1.0'' @ ''....'']" "\<lambda>_. None"]
  by (simp add: Let_def recv_limited_def INT32_MAX_def kFixedIoBufferSize_def)

lemma receive_frames_witness:
  "let cf = \<lparr>ops_cancel_time_out = 0, send_max_msg_size = 0, recv_max_msg_size = 64\<rparr>;
       s = Message_net_str (mk_Message ''ping'') @ Message_net_str (mk_Message ''pong'');
       c = receive_all (\<lambda>_. None) cf [take 7 s, drop 7 s] (start (\<lambda>_. None) cf new_conn)
   in dispatched c = [''ping'', ''pong''] \<and> conn_stat c = kWorking \<and> bdata (recv_buffer c) = []"
  using receive_frames
    [of "\<lparr>ops_cancel_time_out = 0, send_max_msg_size = 0, recv_max_msg_size = 64\<rparr>"
        "let s = Message_net_str (mk_Message ''ping'') @ Message_net_str (mk_Message ''pong'')
         in [take 7 s, drop 7 s]" "[''ping'', ''pong'']" "\<lambda>_. None"]
  by (simp add: Let_def recv_limited_def INT32_MAX_def kFixedIoBufferSize_def Message_net_str_def
      mk_Message_def sizeof_Header_def)

section \<open>The bytes that leave\<close>

text \<open>
  A connection with at most one write under way: the bytes of that write, then the rest of the
  send buffer, are still owed to the peer.
\<close>

definition owed :: "TcpConnAsync \<Rightarrow> string" where
  "owed c = (case writing c of [] \<Rightarrow> [] | n # _ \<Rightarrow> take n (io_block c)) @ bdata (send_buffer c)"

definition one_writer :: "TcpConnAsync \<Rightarrow> bool" where
  "one_writer c \<longleftrightarrow>
     conn_stat c = kWorking \<and> \<not> was_cancelled c \<and> length (bdata (send_buffer c)) < 4294967296 \<and>
     length (io_block c) = kFixedIoBufferSize \<and>
     writing c = (if owed c = [] then [] else [min (length (owed c)) kFixedIoBufferSize])"

lemma do_write_one_writer:
  assumes "conn_stat c = kWorking" "\<not> was_cancelled c" "writing c = []"
    and "length (bdata (send_buffer c)) < 4294967296" "length (io_block c) = kFixedIoBufferSize"
  shows "one_writer (snd (do_write cf c)) \<and> sent (snd (do_write cf c)) = sent c \<and>
         owed (snd (do_write cf c)) = bdata (send_buffer c)"
proof (cases "bdata (send_buffer c) = []")
  case True
  with assms show ?thesis by (simp add: do_write_def one_writer_def owed_def)
next
  case False
  let ?s = "bdata (send_buffer c)"
  define n where "n = min (length ?s) kFixedIoBufferSize"
  from False have n: "0 < n" "n \<le> length ?s" "n \<le> kFixedIoBufferSize"
    by (simp_all add: n_def kFixedIoBufferSize_def)
  have "take n (take n ?s @ drop n (io_block c)) @ drop n ?s = ?s" using n(2) by simp
  with assms False n show ?thesis
    by (simp add: do_write_def Let_def consume_raw_in_bounds one_writer_def owed_def
        set_ops_cancel_timeout_def flip: n_def)
qed

lemma write_completes_step:
  assumes "one_writer c"
  shows "one_writer (write_completes cf c) \<and>
         sent (write_completes cf c) @ owed (write_completes cf c) = sent c @ owed c \<and>
         owed (write_completes cf c) = drop kFixedIoBufferSize (owed c)"
proof (cases "owed c = []")
  case True
  with assms show ?thesis by (simp add: write_completes_def one_writer_def)
next
  case False
  define n where "n = min (length (owed c)) kFixedIoBufferSize"
  from assms False have w: "writing c = [n]" by (simp add: one_writer_def n_def)
  have n: "n \<le> length (io_block c)" using assms by (simp add: one_writer_def n_def)
  let ?c = "revoke_ops_cancel_timeout (c\<lparr>sent := sent c @ take n (io_block c), writing := []\<rparr>)"
  have "owed c = take n (io_block c) @ bdata (send_buffer c)" using w by (simp add: owed_def)
  with n have "bdata (send_buffer c) = drop n (owed c)" "take n (owed c) = take n (io_block c)"
    by simp_all
  moreover have "drop n (owed c) = drop kFixedIoBufferSize (owed c)" by (simp add: n_def min_def)
  moreover have "take n (owed c) @ drop n (owed c) = owed c" by simp
  moreover have "write_completes cf c = snd (do_write cf ?c)"
    using w by (simp add: write_completes_def write_handler_def Let_def)
  ultimately show ?thesis
    using do_write_one_writer [of ?c cf] assms
    by (simp add: one_writer_def revoke_ops_cancel_timeout_def)
qed

lemma writes_drain:
  assumes "one_writer c" "length (owed c) \<le> k * kFixedIoBufferSize"
  shows "sent ((write_completes cf ^^ k) c) = sent c @ owed c \<and> writing ((write_completes cf ^^ k) c) = []"
  using assms
proof (induction k arbitrary: c)
  case 0
  then show ?case by (simp add: one_writer_def)
next
  case (Suc k)
  let ?c = "write_completes cf c"
  have "length (owed ?c) \<le> k * kFixedIoBufferSize"
    using write_completes_step [OF Suc.prems(1), of cf] Suc.prems(2) by simp
  with Suc.IH [of ?c] write_completes_step [OF Suc.prems(1), of cf] show ?case
    by (simp only: funpow_Suc_right comp_apply) metis
qed

lemma send_drains:
  assumes "one_writer c" "owed c = []"
    and "\<not> over_limit (len (header msg)) (send_max_msg_size cf)"
    and "length (Message_net_str msg) < 2 ^ 32"
    and "length (Message_net_str msg) \<le> k * kFixedIoBufferSize"
  shows "fst (async_send_message cf msg c) = 0 \<and>
         sent ((write_completes cf ^^ k) (snd (async_send_message cf msg c))) = sent c @ Message_net_str msg \<and>
         writing ((write_completes cf ^^ k) (snd (async_send_message cf msg c))) = []"
proof -
  let ?c = "c\<lparr>send_buffer := snd (buffer_append msg (send_buffer c))\<rparr>"
  from assms(1,2) have "bdata (send_buffer c) = []" by (simp add: owed_def)
  with do_write_one_writer [of ?c cf] assms
  have "one_writer (snd (do_write cf ?c))" "owed (snd (do_write cf ?c)) = Message_net_str msg"
    "sent (snd (do_write cf ?c)) = sent c"
    by (simp_all add: one_writer_def)
  with writes_drain [of "snd (do_write cf ?c)" k cf] assms show ?thesis
    by (simp add: async_send_message_def)
qed



text \<open>
  A second \<open>async_send_message\<close> before the first write has completed overwrites the block the
  first write still reads: the peer receives the second frame twice and the first one never.
\<close>
theorem overlapping_sends_corrupt:
  "let cf = \<lparr>ops_cancel_time_out = 0, send_max_msg_size = 0, recv_max_msg_size = 0\<rparr>;
       c1 = snd (async_send_message cf (mk_Message ''a'') (new_conn\<lparr>conn_stat := kWorking\<rparr>));
       c2 = snd (async_send_message cf (mk_Message ''b'') c1);
       c3 = write_completes cf (write_completes cf c2)
   in sent c3 = Message_net_str (mk_Message ''b'') @ Message_net_str (mk_Message ''b'') \<and> writing c3 = []"
  by (simp add: Let_def async_send_message_def new_conn_def mk_Buffer_def over_limit_def do_write_def
      consume_raw_def front_erase_def get_length_def Message_net_str_def sizeof_Header_def
      kFixedIoBufferSize_def write_completes_def write_handler_def revoke_ops_cancel_timeout_def
      set_ops_cancel_timeout_def mk_Message_def)

section \<open>Receiving leaves the sending side alone\<close>

definition same_sends :: "TcpConnAsync \<Rightarrow> TcpConnAsync \<Rightarrow> bool" where
  "same_sends c c' \<longleftrightarrow>
     writing c' = [] \<and> send_buffer c' = send_buffer c \<and> io_block c' = io_block c \<and> sent c' = sent c"

text \<open>Payloads \<open>xs\<close> are handed over, and if none is answered at once nothing is sent.\<close>

definition hands_over :: "(string \<Rightarrow> Message option) \<Rightarrow> TcpConnAsync \<Rightarrow> TcpConnAsync \<Rightarrow> bool" where
  "hands_over disp c c' \<longleftrightarrow>
     (\<exists>xs. dispatched c' = dispatched c @ xs \<and>
           (writing c = [] \<and> (\<forall>p \<in> set xs. disp p = None) \<longrightarrow> same_sends c c'))"

lemma hands_over_refl:
  "dispatched c' = dispatched c \<Longrightarrow> (writing c = [] \<Longrightarrow> same_sends c c') \<Longrightarrow> hands_over disp c c'"
  by (auto simp: hands_over_def)

lemma hands_over_trans:
  assumes "hands_over disp c1 c2" "hands_over disp c2 c3"
  shows "hands_over disp c1 c3"
proof -
  obtain xs ys where "dispatched c2 = dispatched c1 @ xs" "dispatched c3 = dispatched c2 @ ys"
    "writing c1 = [] \<and> (\<forall>p \<in> set xs. disp p = None) \<longrightarrow> same_sends c1 c2"
    "writing c2 = [] \<and> (\<forall>p \<in> set ys. disp p = None) \<longrightarrow> same_sends c2 c3"
    using assms unfolding hands_over_def by blast
  then show ?thesis
    unfolding hands_over_def by (intro exI [of _ "xs @ ys"]) (auto simp: same_sends_def)
qed

lemma hands_over_dispatch: "hands_over disp c (dispatch disp cf p c)"
  unfolding hands_over_def
  by (intro exI [of _ "[p]"]) (auto simp: dispatch_def [of disp cf p c] same_sends_def Let_def split: option.split)

lemma hands_over_parse:
  "parse_header cf c = (ret, c') \<Longrightarrow> hands_over disp c c'"
  "parse_msg_body c = (ret, msg, c') \<Longrightarrow> hands_over disp c c'"
  by (auto intro!: hands_over_refl
      simp: parse_header_def parse_msg_body_def same_sends_def Let_def split: if_splits prod.splits)

lemma hands_over_close: "hands_over disp c (sock_shutdown_and_close s c)"
  by (rule hands_over_refl) (auto simp: sock_shutdown_and_close_def same_sends_def)

lemma hands_over_wait: "hands_over disp c (set_ops_cancel_timeout cf c\<lparr>reading := r\<rparr>)"
  by (rule hands_over_refl) (auto simp: set_ops_cancel_timeout_def same_sends_def)

lemma hands_over_self: "hands_over disp c c"
  by (rule hands_over_refl) (auto simp: same_sends_def)

lemma do_read_hands_over:
  "hands_over disp c (do_read disp cf c)"
  "hands_over disp c (do_read_msg disp cf c)"
proof (induction disp cf c and disp cf c rule: do_read_do_read_msg.induct)
  case (1 disp cf c)
  show ?case
  proof (cases "conn_stat c \<noteq> kWorking \<or> was_cancelled c \<or> get_length (recv_buffer c) < sizeof_Header")
    case True
    then show ?thesis
      using hands_over_self hands_over_wait by (subst do_read.simps) auto
  next
    case False
    obtain ret c' where p: "parse_header cf c = (ret, c')" by force
    define c'' where "c'' = (if ret = 0 then do_read_msg disp cf c'
       else if ret > 0 then do_read disp cf c' else sock_shutdown_and_close kBoth c')"
    have "hands_over disp c' c''"
      using 1 False p hands_over_close by (auto simp: c''_def)
    moreover have "do_read disp cf c = c''"
      using False p by (subst do_read.simps) (simp add: c''_def)
    ultimately show ?thesis
      using hands_over_trans [OF hands_over_parse(1) [OF p]] by simp
  qed
next
  case (2 disp cf c)
  show ?case
  proof (cases "conn_stat c \<noteq> kWorking \<or> was_cancelled c \<or>
      get_length (recv_buffer c) < unat (len (recv_header c))")
    case True
    then show ?thesis
      using hands_over_self hands_over_wait by (subst do_read_msg.simps) auto
  next
    case False
    obtain ret msg c' where p: "parse_msg_body c = (ret, msg, c')" by (metis prod_cases3)
    define c'' where "c'' = (if ret = 0 then do_read disp cf (dispatch disp cf (payload msg) c')
       else if ret > 0 then do_read_msg disp cf c' else sock_shutdown_and_close kBoth c')"
    have "hands_over disp c' c''"
    proof (cases "ret = 0")
      case True
      with 2 False p have "hands_over disp (dispatch disp cf (payload msg) c') c''" by (simp add: c''_def)
      with hands_over_dispatch show ?thesis by (rule hands_over_trans)
    next
      case r: False
      with 2 False p hands_over_close show ?thesis by (simp add: c''_def)
    qed
    moreover have "do_read_msg disp cf c = c''"
      using False p by (subst do_read_msg.simps) (simp add: c''_def)
    ultimately show ?thesis
      using hands_over_trans [OF hands_over_parse(2) [OF p]] by simp
  qed
qed

lemma read_handlers_hand_over:
  "hands_over disp c (read_handler disp cf NoError bytes c)"
  "hands_over disp c (read_msg_handler disp cf NoError bytes c)"
proof -
  define c2 where "c2 = (revoke_ops_cancel_timeout c)
    \<lparr>recv_buffer := snd (append_internal bytes (recv_buffer c))\<rparr>"
  have start: "hands_over disp c c2"
    by (rule hands_over_refl) (auto simp: c2_def revoke_ops_cancel_timeout_def same_sends_def)
  obtain ret c3 where p: "parse_header cf c2 = (ret, c3)" by force
  obtain ret' msg c3' where p': "parse_msg_body c2 = (ret', msg, c3')" by (metis prod_cases3)
  have "hands_over disp c3 (if ret = 0 then do_read_msg disp cf c3 else if ret > 0 then do_read disp cf c3
      else sock_shutdown_and_close kBoth c3)"
    using do_read_hands_over hands_over_close by auto
  from hands_over_trans [OF hands_over_trans [OF start hands_over_parse(1) [OF p]] this]
    hands_over_trans [OF start do_read_hands_over(1) [of disp c2 cf]]
  show "hands_over disp c (read_handler disp cf NoError bytes c)"
    by (simp add: read_handler_def Let_def p flip: c2_def)
  have "hands_over disp c3' (do_read disp cf (dispatch disp cf (payload msg) c3'))"
    using hands_over_dispatch do_read_hands_over(1) by (rule hands_over_trans)
  then have "hands_over disp c3' (if ret' = 0 then do_read disp cf (dispatch disp cf (payload msg) c3')
      else if ret' > 0 then do_read_msg disp cf c3' else sock_shutdown_and_close kBoth c3')"
    using do_read_hands_over(2) hands_over_close by simp
  from hands_over_trans [OF hands_over_trans [OF start hands_over_parse(2) [OF p']] this]
  show "hands_over disp c (read_msg_handler disp cf NoError bytes c)"
    by (simp add: read_msg_handler_def Let_def p' flip: c2_def)
qed

lemma read_completes_hands_over: "hands_over disp c (read_completes disp cf NoError bytes c)"
proof -
  have "hands_over disp c (c\<lparr>reading := NoRead\<rparr>)"
    by (rule hands_over_refl) (auto simp: same_sends_def)
  from hands_over_trans [OF this read_handlers_hand_over(1)] hands_over_trans [OF this read_handlers_hand_over(2)]
    hands_over_self
  show ?thesis by (auto simp: read_completes_def split: read_op.split)
qed

lemma receive_all_hands_over: "hands_over disp c (receive_all disp cf xs c)"
proof (induction xs arbitrary: c)
  case Nil
  then show ?case by (simp add: receive_all_def hands_over_self)
next
  case (Cons x xs)
  from hands_over_trans [OF read_completes_hands_over Cons] show ?case by (simp add: receive_all_def)
qed

text \<open>One request frame, however it is cut, leaves the connection ready to send the answer.\<close>

lemma receive_one_frame:
  assumes "length p + 16 < 2 ^ 32" "\<forall>x\<in>set chunks. length x \<le> kFixedIoBufferSize"
    and "\<not> over_limit (of_nat (length p)) (recv_max_msg_size cf)" "concat chunks = Message_net_str (mk_Message p)"
    and "disp p = None" "c = receive_all disp cf chunks (start disp cf new_conn)"
  shows "dispatched c = [p]" "one_writer c" "owed c = []" "sent c = []"
proof -
  let ?s = "start disp cf new_conn"
  have p: "int (length p) < 2 ^ 32" using assms(1) by simp
  then have "length (concat chunks) < 2 ^ 32"
    using assms(1) unfolding assms(4) by (simp add: Message_net_str_def mk_Message_def sizeof_Header_def)
  then have "countable_reads cf (length (concat chunks))" by (simp add: countable_reads_def)
  moreover have "parse_stream cf (concat chunks) = ([p], NeedHeader [])"
    using parse_stream_frame [OF p assms(3), of "[]"] assms(4) by simp
  ultimately have f: "follows cf ?s c ([p], NeedHeader [])"
    using receive_all_follows [OF _ assms(2) start_stands(1) [where disp = disp and cf = cf] parse_stream_nil, where disp = disp] assms(6) by simp
  then show d: "dispatched c = [p]" by (simp add: follows_def start_stands(2))
  have s: "writing ?s = []" "send_buffer ?s = mk_Buffer []" "length (io_block ?s) = kFixedIoBufferSize" "sent ?s = []"
    by (simp_all add: start_def new_conn_def do_read.simps mk_Buffer_def sizeof_Header_def set_ops_cancel_timeout_def)
  have "same_sends ?s c"
    using receive_all_hands_over [of disp ?s cf chunks] assms(5,6) s(1) d
    by (auto simp: hands_over_def start_stands(2))
  with s f show "one_writer c" "owed c = []" "sent c = []"
    by (simp_all add: same_sends_def one_writer_def owed_def follows_def mk_Buffer_def)
qed

end
