(* ===== verification/TcpConnSync.thy ===== *)
theory TcpConnSync
  imports TcpConnAsync
begin

text \<open>
  \<open>source/Client/TcpConnSync.cpp\<close> and \<open>TcpConnSync.h\<close>: the client side of one connection,
  with blocking reads and writes.

  What the socket does is an argument of the operations: the result of every
  \<open>boost::asio::read\<close> and of every \<open>boost::asio::write\<close> that the operation will make, in
  order. A call for which the list has no result left never comes back: it is \<open>Blocked\<close>.
  The loops only need a successful read to bring at least one byte; \<open>transfer_at_least\<close>
  promises more than that.
\<close>

datatype read_result = Received string | ReadFailed error_code

text \<open>\<open>RpcClientSetting\<close> of \<open>source/Client/RpcClient.h\<close>; its constructor's values.\<close>

record RpcClientSetting =
  serv_addr :: string
  serv_port :: "32 word"
  cs_send_max_msg_size :: "32 word"
  cs_recv_max_msg_size :: "32 word"
  cs_log_level :: "32 word"

definition default_setting :: RpcClientSetting where
  "default_setting =
     \<lparr>serv_addr = [], serv_port = 0, cs_send_max_msg_size = 0, cs_recv_max_msg_size = 0, cs_log_level = 7\<rparr>"

text \<open>\<open>wire\<close> collects the bytes of the writes that succeeded.\<close>

record TcpConnSync =
  sc_stat :: ConnStat
  sc_recv_header :: Header
  sc_recv :: Buffer
  sc_send :: Buffer
  wire :: string

definition new_sync_conn :: TcpConnSync where
  "new_sync_conn =
     \<lparr>sc_stat = kWorking, sc_recv_header = empty_header, sc_recv = mk_Buffer [],
      sc_send = mk_Buffer [], wire = []\<rparr>"

definition sync_shutdown_and_close :: "TcpConnSync \<Rightarrow> TcpConnSync" where
  "sync_shutdown_and_close c = (if sc_stat c = kClosed then c else c\<lparr>sc_stat := kClosed\<rparr>)"

definition sync_handle_socket_ec :: "error_code \<Rightarrow> TcpConnSync \<Rightarrow> bool \<times> TcpConnSync" where
  "sync_handle_socket_ec ec c =
     (let close_socket =
            (if ec = connection_reset \<or> ec = timed_out_ec \<or> ec = bad_descriptor then True
             else if ec = eof then True
             else if ec = operation_aborted then False
             else True)
      in (close_socket, if close_socket then sync_shutdown_and_close c else c))"

definition over_setting :: "32 word \<Rightarrow> 32 word \<Rightarrow> bool" where
  "over_setting n limit \<longleftrightarrow> limit \<noteq> 0 \<and> n > limit"

section \<open>Receiving\<close>

definition sync_parse_header :: "RpcClientSetting \<Rightarrow> TcpConnSync \<Rightarrow> int \<times> TcpConnSync" where
  "sync_parse_header cs c =
     (if get_length (sc_recv c) < sizeof_Header then (1, c)
      else
        let (head, buf) = consume sizeof_Header (sc_recv c);
            head_str = (case head of None \<Rightarrow> [] | Some s \<Rightarrow> s);
            h = header_from_net_endian (header_of_bytes head_str);
            c1 = c\<lparr>sc_recv := buf, sc_recv_header := h\<rparr>
        in if magic h \<noteq> kHeaderMagic \<or> version h \<noteq> kHeaderVersion then (-1, c1)
           else if over_setting (len h) (cs_recv_max_msg_size cs) then (-1, c1)
           else (0, c1))"

definition sync_parse_msg_body :: "TcpConnSync \<Rightarrow> int \<times> Message option \<times> TcpConnSync" where
  "sync_parse_msg_body c =
     (if get_length (sc_recv c) < unat (len (sc_recv_header c)) then (1, None, c)
      else
        let (body, buf) = consume (unat (len (sc_recv_header c))) (sc_recv c);
            msg_str = (case body of None \<Rightarrow> [] | Some s \<Rightarrow> s)
        in (0, Some \<lparr>header = sc_recv_header c, payload = msg_str\<rparr>, c\<lparr>sc_recv := buf\<rparr>))"

text \<open>
  The \<open>while\<close> loop that both \<open>do_read\<close> and \<open>do_read_msg\<close> start with: read until \<open>n\<close> bytes
  are buffered. The result is whether no read failed, the connection, and the results of
  the reads not made yet.
\<close>

fun sync_fill :: "nat \<Rightarrow> read_result list \<Rightarrow> TcpConnSync \<Rightarrow> (bool \<times> TcpConnSync \<times> read_result list) blocking" where
  "sync_fill n [] c = (if get_length (sc_recv c) < n then Blocked else Returned (True, c, []))"
| "sync_fill n (r # rs) c =
     (if get_length (sc_recv c) < n
      then (case r of
              ReadFailed ec \<Rightarrow> Returned (False, snd (sync_handle_socket_ec ec c), rs)
            | Received str \<Rightarrow>
                sync_fill n rs (c\<lparr>sc_recv := snd (append_internal str (sc_recv c))\<rparr>))
      else Returned (True, c, r # rs))"

text \<open>The message is \<open>None\<close> where the code leaves the caller's \<open>Message\<close> alone.\<close>

type_synonym sync_read = "(bool \<times> Message option \<times> TcpConnSync \<times> read_result list) blocking"

definition sync_do_read_msg :: "read_result list \<Rightarrow> TcpConnSync \<Rightarrow> sync_read" where
  "sync_do_read_msg rs c =
     (if sc_stat c \<noteq> kWorking then Returned (False, None, c, rs)
      else
        and_then (sync_fill (unat (len (sc_recv_header c))) rs c) (\<lambda>(ok, c1, rs').
          if \<not> ok then Returned (False, None, c1, rs')
          else (case sync_parse_msg_body c1 of
                  (ret, msg, c2) \<Rightarrow>
                    if ret = 0 then Returned (True, msg, c2, rs')
                    else Returned (False, msg, sync_shutdown_and_close c2, rs'))))"

definition sync_do_read :: "RpcClientSetting \<Rightarrow> read_result list \<Rightarrow> TcpConnSync \<Rightarrow> sync_read" where
  "sync_do_read cs rs c =
     (if sc_stat c \<noteq> kWorking then Returned (False, None, c, rs)
      else
        and_then (sync_fill sizeof_Header rs c) (\<lambda>(ok, c1, rs').
          if \<not> ok then Returned (False, None, c1, rs')
          else (case sync_parse_header cs c1 of
                  (ret, c2) \<Rightarrow>
                    if ret = 0 then sync_do_read_msg rs' c2
                    else Returned (False, None, sync_shutdown_and_close c2, rs'))))"

definition recv_net_message :: "RpcClientSetting \<Rightarrow> read_result list \<Rightarrow> TcpConnSync \<Rightarrow> sync_read" where
  "recv_net_message cs rs c = sync_do_read cs rs c"

section \<open>Sending\<close>

text \<open>
  The send loop, over the results of its writes. \<open>consume\<close> cannot fail in it: the count is
  positive and at most the buffer's size.
\<close>

fun sync_write_loop :: "error_code list \<Rightarrow> TcpConnSync \<Rightarrow> (bool \<times> TcpConnSync) blocking" where
  "sync_write_loop [] c = (if get_length (sc_send c) > 0 then Blocked else Returned (True, c))"
| "sync_write_loop (ec # ws) c =
     (if get_length (sc_send c) > 0
      then
        let to_write = min (get_length (sc_send c)) kFixedIoBufferSize
        in (case consume_raw to_write (sc_send c) of
              (Copied block, b) \<Rightarrow>
                 if ec \<noteq> NoError
                 then Returned (False, snd (sync_handle_socket_ec ec (c\<lparr>sc_send := b\<rparr>)))
                 else sync_write_loop ws (c\<lparr>sc_send := b, wire := wire c @ block\<rparr>)
            | (_, b) \<Rightarrow> Crashed)
      else Returned (True, c))"

definition sync_do_write :: "error_code list \<Rightarrow> TcpConnSync \<Rightarrow> (bool \<times> TcpConnSync) blocking" where
  "sync_do_write ws c =
     (if sc_stat c \<noteq> kWorking then Returned (False, c) else sync_write_loop ws c)"

definition send_net_message ::
    "RpcClientSetting \<Rightarrow> error_code list \<Rightarrow> Message \<Rightarrow> TcpConnSync \<Rightarrow> (bool \<times> TcpConnSync) blocking" where
  "send_net_message cs ws msg c =
     (if over_setting (len (header msg)) (cs_send_max_msg_size cs) then Returned (False, c)
      else sync_do_write ws (c\<lparr>sc_send := snd (buffer_append msg (sc_send c))\<rparr>))"

definition shutdown_and_close_socket :: "TcpConnSync \<Rightarrow> TcpConnSync" where
  "shutdown_and_close_socket c = sync_shutdown_and_close c"

section \<open>The receive loop\<close>

text \<open>The bytes that a list of successful reads brings.\<close>

fun received :: "read_result list \<Rightarrow> string" where
  "received [] = []"
| "received (Received s # rs) = s @ received rs"
| "received (ReadFailed ec # rs) = received rs"

fun reads_ok :: "read_result list \<Rightarrow> bool" where
  "reads_ok [] \<longleftrightarrow> True"
| "reads_ok (Received s # rs) \<longleftrightarrow> s \<noteq> [] \<and> reads_ok rs"
| "reads_ok (ReadFailed ec # rs) \<longleftrightarrow> False"

lemma sync_fill_ok:
  assumes "reads_ok rs" "length (bdata (sc_recv c) @ received rs) < 2 ^ 32"
    and "n \<le> length (bdata (sc_recv c) @ received rs)"
  shows "\<exists>b rs'. sync_fill n rs c = Returned (True, c\<lparr>sc_recv := \<lparr>bdata = b\<rparr>\<rparr>, rs') \<and> reads_ok rs' \<and>
           b @ received rs' = bdata (sc_recv c) @ received rs \<and> n \<le> length b"
  using assms
proof (induction n rs c rule: sync_fill.induct)
  case (1 n c)
  then show ?case
    by (intro exI [of _ "bdata (sc_recv c)"] exI [of _ "[]"]) (auto simp: get_length_def)
next
  case (2 n r rs c)
  show ?case
  proof (cases "length (bdata (sc_recv c)) < n")
    case True
    with 2 obtain s where r: "r = Received s" by (cases r) auto
    let ?c = "c\<lparr>sc_recv := snd (append_internal s (sc_recv c))\<rparr>"
    have "\<exists>b rs'. sync_fill n rs ?c = Returned (True, ?c\<lparr>sc_recv := \<lparr>bdata = b\<rparr>\<rparr>, rs') \<and> reads_ok rs' \<and>
           b @ received rs' = bdata (sc_recv ?c) @ received rs \<and> n \<le> length b"
      using 2 True r by (intro 2(1)) (auto simp: get_length_def)
    with True r 2 show ?thesis by (auto simp: get_length_def)
  next
    case False
    with 2 have "sync_fill n (r # rs) c = Returned (True, c, r # rs)"
      by (simp add: get_length_def)
    with False 2 show ?thesis
      by (intro exI [of _ "bdata (sc_recv c)"] exI [of _ "r # rs"]) auto
  qed
qed

lemma sync_fill_blocked:
  assumes "reads_ok rs" "length (bdata (sc_recv c) @ received rs) < n" "n < 2 ^ 32"
  shows "sync_fill n rs c = Blocked"
  using assms
proof (induction n rs c rule: sync_fill.induct)
  case (1 n c)
  then show ?case by (simp add: get_length_def)
next
  case (2 n r rs c)
  then obtain s where "r = Received s" by (cases r) auto
  with 2 show ?case by (simp add: get_length_def)
qed

lemma unat_le_u32: "unat (n :: 32 word) < 2 ^ 32"
  using unsigned_less [of n] by simp

text \<open>The client's limits as the server's kind of limits, to read a stream by the same rules.\<close>

definition conf_of_setting :: "RpcClientSetting \<Rightarrow> conn_conf" where
  "conf_of_setting cs =
     \<lparr>ops_cancel_time_out = 0, send_max_msg_size = uint (cs_send_max_msg_size cs),
      recv_max_msg_size = uint (cs_recv_max_msg_size cs)\<rparr>"

lemma over_setting_limit: "over_setting n m \<longleftrightarrow> over_limit n (uint m)"
proof -
  have "to_u32 (uint m) = uint m"
    using uint_bounded [of m] by (simp add: to_u32_def)
  then show ?thesis
    by (simp add: over_setting_def over_limit_def word_less_def flip: uint_0_iff)
qed

lemma sync_parse_header_full:
  assumes "sizeof_Header \<le> length s" "length s < 2 ^ 32"
  shows "sync_parse_header cs (c\<lparr>sc_recv := \<lparr>bdata = s\<rparr>\<rparr>) =
    (let h = header_from_net_endian (header_of_bytes (take sizeof_Header s))
     in (if header_ok (conf_of_setting cs) h then 0 else - 1,
         c\<lparr>sc_recv := \<lparr>bdata = drop sizeof_Header s\<rparr>, sc_recv_header := h\<rparr>))"
  using assms
  by (auto simp: sync_parse_header_def get_length_def consume_def header_ok_def over_setting_limit
      conf_of_setting_def Let_def sizeof_Header_def)

lemma sync_parse_msg_body_full:
  assumes "unat (len (sc_recv_header c)) \<le> length s" "length s < 2 ^ 32"
  shows "sync_parse_msg_body (c\<lparr>sc_recv := \<lparr>bdata = s\<rparr>\<rparr>) =
    (0, Some \<lparr>header = sc_recv_header c, payload = take (unat (len (sc_recv_header c))) s\<rparr>,
     c\<lparr>sc_recv := \<lparr>bdata = drop (unat (len (sc_recv_header c))) s\<rparr>\<rparr>)"
  using assms
  by (auto simp: sync_parse_msg_body_def get_length_def consume_def Let_def)

text \<open>The body of a message, once its header is known.\<close>

lemma sync_do_read_msg_cases:
  assumes "sc_stat c = kWorking" "reads_ok rs" "bdata (sc_recv c) @ received rs = s" "length s < 2 ^ 32"
    and "sc_recv_header c = h" "unat (len h) = n"
  shows "if length s < n then sync_do_read_msg rs c = Blocked
         else \<exists>b rs'. sync_do_read_msg rs c =
                  Returned (True, Some \<lparr>header = h, payload = take n s\<rparr>,
                            c\<lparr>sc_recv := \<lparr>bdata = b\<rparr>\<rparr>, rs') \<and>
                reads_ok rs' \<and> b @ received rs' = drop n s"
proof (cases "length s < n")
  case True
  then show ?thesis
    using assms sync_fill_blocked [of rs c n] unat_le_u32 by (auto simp: sync_do_read_msg_def)
next
  case False
  then obtain b rs' where fill: "sync_fill n rs c = Returned (True, c\<lparr>sc_recv := \<lparr>bdata = b\<rparr>\<rparr>, rs')"
    and rest: "reads_ok rs'" "b @ received rs' = s" "n \<le> length b"
    using sync_fill_ok [of rs c n] assms by auto
  have "length b < 2 ^ 32"
    using assms(4) rest(2) by (metis length_append add_lessD1)
  with rest(3) have "sync_do_read_msg rs c =
      Returned (True, Some \<lparr>header = h, payload = take n b\<rparr>,
                c\<lparr>sc_recv := \<lparr>bdata = drop n b\<rparr>\<rparr>, rs')"
    using assms(1,5,6) fill
    by (simp add: sync_do_read_msg_def sync_parse_msg_body_full)
  moreover have "take n s = take n b" "drop n s = drop n b @ received rs'"
    using rest(2,3) by (simp_all flip: rest(2))
  ultimately show ?thesis using False rest(1) by auto
qed

lemma recv_short:
  assumes "sc_stat c = kWorking" "reads_ok rs" "length (bdata (sc_recv c) @ received rs) < sizeof_Header"
  shows "recv_net_message cs rs c = Blocked"
  using assms sync_fill_blocked [of rs c sizeof_Header]
  by (simp add: recv_net_message_def sync_do_read_def sizeof_Header_def)

lemma recv_cases:
  assumes "sc_stat c = kWorking" "reads_ok rs" "bdata (sc_recv c) @ received rs = s" "length s < 2 ^ 32"
    and "sizeof_Header \<le> length s" "h = header_from_net_endian (header_of_bytes (take sizeof_Header s))"
    and "t = drop sizeof_Header s" "n = unat (len h)"
  shows "if \<not> header_ok (conf_of_setting cs) h
         then \<exists>c' rs'. recv_net_message cs rs c = Returned (False, None, c', rs') \<and> sc_stat c' = kClosed
         else if length t < n then recv_net_message cs rs c = Blocked
         else \<exists>b rs'. recv_net_message cs rs c =
                  Returned (True, Some \<lparr>header = h, payload = take n t\<rparr>,
                            c\<lparr>sc_recv_header := h, sc_recv := \<lparr>bdata = b\<rparr>\<rparr>, rs') \<and>
                reads_ok rs' \<and> b @ received rs' = drop n t"
proof -
  obtain b rs' where fill: "sync_fill sizeof_Header rs c = Returned (True, c\<lparr>sc_recv := \<lparr>bdata = b\<rparr>\<rparr>, rs')"
    and rest: "reads_ok rs'" "b @ received rs' = s" "sizeof_Header \<le> length b"
    using sync_fill_ok [of rs c sizeof_Header] assms by auto
  let ?c = "c\<lparr>sc_recv := \<lparr>bdata = drop sizeof_Header b\<rparr>, sc_recv_header := h\<rparr>"
  have "length b < 2 ^ 32"
    using assms(4) rest(2) by (metis length_append add_lessD1)
  moreover have s: "take sizeof_Header s = take sizeof_Header b" "t = drop sizeof_Header b @ received rs'"
    using rest(2,3) assms(7) by (simp_all flip: rest(2))
  ultimately have parse: "sync_parse_header cs (c\<lparr>sc_recv := \<lparr>bdata = b\<rparr>\<rparr>) =
      (if header_ok (conf_of_setting cs) h then 0 else - 1, ?c)"
    using sync_parse_header_full [OF rest(3), of cs c] by (simp add: assms(6) Let_def)
  show ?thesis
  proof (cases "header_ok (conf_of_setting cs) h")
    case False
    then show ?thesis
      using assms(1) fill parse
      by (simp add: recv_net_message_def sync_do_read_def sync_shutdown_and_close_def)
  next
    case True
    then have "recv_net_message cs rs c = sync_do_read_msg rs' ?c"
      using assms(1) fill parse by (simp add: recv_net_message_def sync_do_read_def)
    moreover have "if length t < n then sync_do_read_msg rs' ?c = Blocked
         else \<exists>b rs''. sync_do_read_msg rs' ?c =
                  Returned (True, Some \<lparr>header = h, payload = take n t\<rparr>,
                            ?c\<lparr>sc_recv := \<lparr>bdata = b\<rparr>\<rparr>, rs'') \<and>
                reads_ok rs'' \<and> b @ received rs'' = drop n t"
      by (rule sync_do_read_msg_cases) (use assms(1,4,7,8) rest(1) s(2) in simp_all)
    ultimately show ?thesis using True by (auto split: if_splits)
  qed
qed

text \<open>
  The whole read, against the meaning of the byte stream that the server's side is specified
  by: \<open>s\<close> is what is buffered and what the socket will bring.
\<close>

definition reads_stream :: "RpcClientSetting \<Rightarrow> read_result list \<Rightarrow> TcpConnSync \<Rightarrow> string \<Rightarrow> bool" where
  "reads_stream cs rs c s \<longleftrightarrow>
     (case parse_stream (conf_of_setting cs) s of
        (p # ps, st) \<Rightarrow>
          \<exists>h b rs'. recv_net_message cs rs c =
             Returned (True, Some \<lparr>header = h, payload = p\<rparr>,
                       c\<lparr>sc_recv_header := h, sc_recv := \<lparr>bdata = b\<rparr>\<rparr>, rs') \<and>
             reads_ok rs' \<and> b @ received rs' = drop (sizeof_Header + length p) s \<and>
             parse_stream (conf_of_setting cs) (b @ received rs') = (ps, st)
      | ([], Broken) \<Rightarrow>
          \<exists>c' rs'. recv_net_message cs rs c = Returned (False, None, c', rs') \<and> sc_stat c' = kClosed
      | ([], _) \<Rightarrow> recv_net_message cs rs c = Blocked)"

lemma recv_reads_stream:
  assumes "sc_stat c = kWorking" "reads_ok rs" "bdata (sc_recv c) @ received rs = s" "length s < 2 ^ 32"
  shows "reads_stream cs rs c s"
proof (cases "length s < sizeof_Header")
  case True
  then show ?thesis
    using assms recv_short [of c rs cs] by (simp add: reads_stream_def parse_stream_step [of _ s])
next
  case False
  define h where "h = header_from_net_endian (header_of_bytes (take sizeof_Header s))"
  define t where "t = drop sizeof_Header s"
  define n where "n = unat (len h)"
  have ps: "parse_stream (conf_of_setting cs) s =
      (if \<not> header_ok (conf_of_setting cs) h then ([], Broken)
       else if length t < n then ([], NeedBody h t)
       else (case parse_stream (conf_of_setting cs) (drop n t) of (ps, st) \<Rightarrow> (take n t # ps, st)))"
    using False by (simp add: parse_stream_step [of _ s] parse_body_def h_def t_def n_def Let_def)
  have d: "drop (sizeof_Header + length (take n t)) s = drop n t" if "\<not> length t < n"
    using that by (simp add: t_def add.commute)
  note cases = recv_cases [OF assms _ h_def t_def n_def, of cs]
  show ?thesis
  proof (cases "header_ok (conf_of_setting cs) h \<and> \<not> length t < n")
    case True
    with cases False obtain b rs' where "recv_net_message cs rs c =
                  Returned (True, Some \<lparr>header = h, payload = take n t\<rparr>,
                            c\<lparr>sc_recv_header := h, sc_recv := \<lparr>bdata = b\<rparr>\<rparr>, rs')"
      "reads_ok rs'" "b @ received rs' = drop n t"
      by auto
    with True d show ?thesis unfolding reads_stream_def ps
      by (auto split: prod.split intro!: exI [of _ b])
  next
    case False
    with cases \<open>\<not> length s < sizeof_Header\<close> show ?thesis
      unfolding reads_stream_def ps by auto
  qed
qed

lemma header_ok_mk_Message:
  "header_ok (conf_of_setting cs) (header (mk_Message p)) \<longleftrightarrow>
     \<not> over_setting (of_nat (length p)) (cs_recv_max_msg_size cs)"
  by (simp add: header_ok_def mk_Message_def over_setting_limit conf_of_setting_def)

lemma recv_frame:
  assumes "sc_stat c = kWorking" "reads_ok rs"
    and "bdata (sc_recv c) @ received rs = Message_net_str (mk_Message p) @ rest"
    and "length p + length rest + sizeof_Header < 2 ^ 32"
    and "\<not> over_setting (of_nat (length p)) (cs_recv_max_msg_size cs)"
  shows "\<exists>b rs'. recv_net_message cs rs c =
             Returned (True, Some (mk_Message p),
                       c\<lparr>sc_recv_header := header (mk_Message p), sc_recv := \<lparr>bdata = b\<rparr>\<rparr>, rs') \<and>
           reads_ok rs' \<and> b @ received rs' = rest"
proof -
  let ?s = "Message_net_str (mk_Message p) @ rest" and ?h = "header (mk_Message p)"
  have n: "unat (len ?h) = length p"
    using assms(4) by (simp add: mk_Message_def unat_of_nat take_bit_eq_mod)
  have p: "payload (mk_Message p) = p" "mk_Message p = \<lparr>header = ?h, payload = p\<rparr>"
    by (simp_all add: mk_Message_def)
  have "if \<not> header_ok (conf_of_setting cs) ?h
         then \<exists>c' rs'. recv_net_message cs rs c = Returned (False, None, c', rs') \<and> sc_stat c' = kClosed
         else if length (p @ rest) < length p then recv_net_message cs rs c = Blocked
         else \<exists>b rs'. recv_net_message cs rs c =
                  Returned (True, Some \<lparr>header = ?h, payload = take (length p) (p @ rest)\<rparr>,
                            c\<lparr>sc_recv_header := ?h, sc_recv := \<lparr>bdata = b\<rparr>\<rparr>, rs') \<and>
                reads_ok rs' \<and> b @ received rs' = drop (length p) (p @ rest)"
    by (rule recv_cases [OF assms(1-3)])
      (use assms(4) n p(1) in \<open>simp_all add: Message_net_str_def\<close>)
  with assms(5) show ?thesis
    by (simp add: header_ok_mk_Message flip: p(2))
qed

section \<open>The send loop\<close>

text \<open>How many blocks of the fixed buffer's size the loop writes for \<open>n\<close> bytes.\<close>

definition block_count :: "nat \<Rightarrow> nat" where
  "block_count n = (n + (kFixedIoBufferSize - 1)) div kFixedIoBufferSize"

lemma block_count_le: "block_count n \<le> k \<longleftrightarrow> n \<le> kFixedIoBufferSize * k"
proof -
  have "block_count n \<le> k \<longleftrightarrow> n + 2047 < Suc k * 2048"
    unfolding block_count_def kFixedIoBufferSize_def
    by (subst less_Suc_eq_le [symmetric], subst div_less_iff_less_mult) simp_all
  then show ?thesis by (simp add: kFixedIoBufferSize_def) linarith
qed

lemma block_count_0 [simp]: "block_count 0 = 0"
  by (simp add: block_count_def kFixedIoBufferSize_def)

lemma block_count_pos [simp]: "block_count n = 0 \<longleftrightarrow> n = 0"
  using block_count_le [of n 0] by simp

text \<open>
  The outcome of the loop on the results \<open>ws\<close>: the writes that succeed before the first
  failure decide it.
\<close>

definition write_outcome :: "error_code list \<Rightarrow> TcpConnSync \<Rightarrow> (bool \<times> TcpConnSync) blocking" where
  "write_outcome ws c =
    (let d = bdata (sc_send c); k = length (takeWhile (\<lambda>ec. ec = NoError) ws)
     in if block_count (length d) \<le> k
        then Returned (True, c\<lparr>sc_send := \<lparr>bdata = []\<rparr>, wire := wire c @ d\<rparr>)
        else if k = length ws then Blocked
        else Returned (False, snd (sync_handle_socket_ec (ws ! k)
               (c\<lparr>sc_send := \<lparr>bdata = drop (kFixedIoBufferSize * (k + 1)) d\<rparr>,
                  wire := wire c @ take (kFixedIoBufferSize * k) d\<rparr>))))"

lemma sync_write_loop_cases:
  assumes "length (bdata (sc_send c)) < 2 ^ 32"
  shows "sync_write_loop ws c = write_outcome ws c"
  using assms unfolding write_outcome_def Let_def
proof (induction ws c rule: sync_write_loop.induct)
  case (1 c)
  then show ?case by (cases c) (auto simp: get_length_def)
next
  case (2 ec ws c)
  let ?d = "bdata (sc_send c)" and ?N = kFixedIoBufferSize
  show ?case
  proof (cases "?d = []")
    case True
    then show ?thesis by (cases c) (auto simp: get_length_def)
  next
    case False
    have g: "get_length (sc_send c) = length ?d" using 2 by (simp add: get_length_def)
    have raw: "consume_raw (min (length ?d) ?N) (sc_send c) =
        (Copied (take ?N ?d), \<lparr>bdata = drop ?N ?d\<rparr>)"
      using False consume_raw_in_bounds [of "min (length ?d) ?N" "sc_send c"]
      by (cases "length ?d \<le> ?N") (simp_all add: kFixedIoBufferSize_def)
    show ?thesis
    proof (cases "ec = NoError")
      case True
      let ?c = "c\<lparr>sc_send := \<lparr>bdata = drop ?N ?d\<rparr>, wire := wire c @ take ?N ?d\<rparr>"
      have "sync_write_loop (ec # ws) c = sync_write_loop ws ?c"
        using False True g raw by (simp add: Let_def)
      moreover have "take ?N ?d @ take (?N * k) (drop ?N ?d) = take (?N * Suc k) ?d" for k
        by (simp add: take_add)
      moreover have "block_count (length ?d) \<le> Suc k \<longleftrightarrow> block_count (length ?d - ?N) \<le> k" for k
        by (auto simp: block_count_le)
      ultimately show ?thesis
        using True False 2 g raw by (simp add: add.commute)
    next
      case False
      with \<open>?d \<noteq> []\<close> show ?thesis using g raw by (simp add: Let_def)
    qed
  qed
qed

lemma send_frame:
  assumes "sc_stat c = kWorking" "bdata (sc_send c) = []"
    and "\<not> over_setting (of_nat (length p)) (cs_send_max_msg_size cs)"
    and "length p + sizeof_Header < 2 ^ 32" "block_count (length p + sizeof_Header) \<le> k"
  shows "send_net_message cs (replicate k NoError) (mk_Message p) c =
           Returned (True, c\<lparr>sc_send := \<lparr>bdata = []\<rparr>, wire := wire c @ Message_net_str (mk_Message p)\<rparr>)"
proof -
  have "length (Message_net_str (mk_Message p)) = length p + sizeof_Header"
    by (simp add: Message_net_str_def mk_Message_def)
  moreover have "len (header (mk_Message p)) = of_nat (length p)"
    by (simp add: mk_Message_def)
  moreover have "takeWhile (\<lambda>ec. ec = NoError) (replicate k NoError) = replicate k NoError"
    by simp
  ultimately show ?thesis
    using assms
    by (simp add: send_net_message_def sync_do_write_def sync_write_loop_cases write_outcome_def Let_def
        block_count_le)
qed

text \<open>
  C16. Whatever the reads bring and however they split the bytes, \<open>recv_net_message\<close> gives the
  stream the meaning that the server's reader gives it: it returns the payload of the first
  frame and keeps the rest for the next call, closes the connection and fails on a bad
  header, and blocks when the stream ends inside a frame.
\<close>
theorem sync_read_refines_stream:
  assumes "sc_stat c = kWorking" "reads_ok rs"
    and "bdata (sc_recv c) @ received rs = s" "length s < 2 ^ 32"
  shows "case parse_stream (conf_of_setting cs) s of
        (p # ps, st) \<Rightarrow>
          \<exists>h b rs'. recv_net_message cs rs c =
             Returned (True, Some \<lparr>header = h, payload = p\<rparr>,
                       c\<lparr>sc_recv_header := h, sc_recv := \<lparr>bdata = b\<rparr>\<rparr>, rs') \<and>
             reads_ok rs' \<and> b @ received rs' = drop (sizeof_Header + length p) s \<and>
             parse_stream (conf_of_setting cs) (b @ received rs') = (ps, st)
      | ([], Broken) \<Rightarrow>
          \<exists>c' rs'. recv_net_message cs rs c = Returned (False, None, c', rs') \<and> sc_stat c' = kClosed
      | ([], _) \<Rightarrow> recv_net_message cs rs c = Blocked"
  using recv_reads_stream [OF assms] unfolding reads_stream_def .

text \<open>Witness: two frames arrive in three pieces; the first is returned, the second kept.\<close>
lemma sync_read_refines_stream_witness:
  "let s = Message_net_str (mk_Message ''hi'') @ Message_net_str (mk_Message ''ho'');
       rs = [Received (take 5 s), Received (take 20 (drop 5 s)), Received (drop 25 s)]
   in \<exists>h b rs'. recv_net_message default_setting rs new_sync_conn =
        Returned (True, Some \<lparr>header = h, payload = ''hi''\<rparr>,
                  new_sync_conn\<lparr>sc_recv_header := h, sc_recv := \<lparr>bdata = b\<rparr>\<rparr>, rs') \<and>
      b @ received rs' = Message_net_str (mk_Message ''ho'')"
proof -
  define s where "s = Message_net_str (mk_Message ''hi'') @ Message_net_str (mk_Message ''ho'')"
  define rs where "rs = [Received (take 5 s), Received (take 20 (drop 5 s)), Received (drop 25 s)]"
  have len: "length s = 36" and d: "drop 18 s = Message_net_str (mk_Message ''ho'')"
    by (simp_all add: s_def Message_net_str_def mk_Message_def sizeof_Header_def)
  have "take 5 s @ take 20 (drop 5 s) @ drop 25 s = s"
    using take_add [of 5 20 s] append_take_drop_id [of 25 s] by simp
  then have rs: "reads_ok rs" "bdata (sc_recv new_sync_conn) @ received rs = s"
    using len by (auto simp: rs_def new_sync_conn_def mk_Buffer_def)
  have "parse_stream (conf_of_setting default_setting) s = ([''hi'', ''ho''], NeedHeader [])"
    using parse_stream_frame [of "''ho''" "conf_of_setting default_setting" "[]"]
    by (simp add: s_def parse_stream_frame conf_of_setting_def default_setting_def over_limit_def)
  moreover have "sc_stat new_sync_conn = kWorking"
    by (simp add: new_sync_conn_def)
  ultimately show ?thesis
    using sync_read_refines_stream [OF _ rs, of default_setting] len d
    unfolding Let_def s_def [symmetric] rs_def [symmetric]
    by (auto simp: sizeof_Header_def)
qed

text \<open>
  \<open>do_write\<close> on every list of write results: it writes the buffered bytes in blocks of
  \<open>kFixedIoBufferSize\<close>; when no write fails all of them are on the wire in order; on the
  first failure exactly the blocks before it are, the call returns \<open>false\<close>, and the
  connection is closed unless the operation was aborted.
\<close>
theorem sync_do_write_spec:
  assumes "sc_stat c = kWorking" "length (bdata (sc_send c)) < 2 ^ 32"
    and "d = bdata (sc_send c)" "k = length (takeWhile (\<lambda>ec. ec = NoError) ws)"
  shows "sync_do_write ws c =
    (if block_count (length d) \<le> k
     then Returned (True, c\<lparr>sc_send := \<lparr>bdata = []\<rparr>, wire := wire c @ d\<rparr>)
     else if k = length ws then Blocked
     else Returned (False,
            c\<lparr>sc_stat := (if ws ! k = operation_aborted then kWorking else kClosed),
              sc_send := \<lparr>bdata = drop (kFixedIoBufferSize * (k + 1)) d\<rparr>,
              wire := wire c @ take (kFixedIoBufferSize * k) d\<rparr>))"
proof -
  have "snd (sync_handle_socket_ec ec c') = c'\<lparr>sc_stat := (if ec = operation_aborted then kWorking else kClosed)\<rparr>"
    if "sc_stat c' = kWorking" for ec c'
    using that by (cases c') (auto simp: sync_handle_socket_ec_def sync_shutdown_and_close_def Let_def)
  with assms show ?thesis
    by (simp add: sync_do_write_def sync_write_loop_cases write_outcome_def Let_def)
qed

text \<open>Witness: the peer resets the connection on the first of one block.\<close>
lemma sync_do_write_spec_witness:
  "sync_do_write [connection_reset] (new_sync_conn\<lparr>sc_send := \<lparr>bdata = ''abc''\<rparr>\<rparr>) =
     Returned (False, new_sync_conn\<lparr>sc_stat := kClosed, sc_send := \<lparr>bdata = []\<rparr>\<rparr>)"
  using sync_do_write_spec
    [of "new_sync_conn\<lparr>sc_send := \<lparr>bdata = ''abc''\<rparr>\<rparr>" "''abc''" 0 "[connection_reset]"]
  by (simp add: new_sync_conn_def mk_Buffer_def kFixedIoBufferSize_def)

lemma sync_fill_extend:
  "sync_fill n rs c = Returned (ok, c', rs') \<Longrightarrow> sync_fill n (rs @ ts) c = Returned (ok, c', rs' @ ts)"
proof (induction n rs c rule: sync_fill.induct)
  case (1 n c)
  then show ?case by (cases ts) (auto split: if_splits)
next
  case (2 n r rs c)
  then show ?case by (auto split: if_splits read_result.splits)
qed

lemma sync_fill_cut:
  "sync_fill n rs c = Blocked \<Longrightarrow> \<exists>c'. sync_fill n (rs @ [ReadFailed ec]) c = Returned (False, c', [])"
  by (induction n rs c rule: sync_fill.induct) (auto split: if_splits read_result.splits)

text \<open>A receive that would wait for ever fails when the socket does.\<close>

lemma recv_cut:
  assumes "recv_net_message cs rs c = Blocked"
  shows "\<exists>c'. recv_net_message cs (rs @ [ReadFailed ec]) c = Returned (False, None, c', [])"
proof (cases "sync_fill sizeof_Header rs c")
  case Blocked
  with assms show ?thesis
    using sync_fill_cut [OF Blocked, of ec]
    by (auto simp: recv_net_message_def sync_do_read_def split: if_splits)
next
  case (Returned x)
  obtain ok c1 rs1 where x: "x = (ok, c1, rs1)" by (cases x)
  from assms Returned x have w: "sc_stat c = kWorking" and ok
    by (auto simp: recv_net_message_def sync_do_read_def split: if_splits)
  obtain ret c2 where p: "sync_parse_header cs c1 = (ret, c2)" by force
  with assms Returned x w \<open>ok\<close> have m: "ret = 0" "sync_do_read_msg rs1 c2 = Blocked"
    by (auto simp: recv_net_message_def sync_do_read_def split: if_splits)
  let ?n = "unat (len (sc_recv_header c2))"
  have "sync_fill ?n rs1 c2 = Blocked"
    using m(2) by (cases "sync_fill ?n rs1 c2") (auto simp: sync_do_read_msg_def split: if_splits prod.splits)
  then obtain c3 where "sync_fill ?n (rs1 @ [ReadFailed ec]) c2 = Returned (False, c3, [])"
    using sync_fill_cut by blast
  with m(2) have "sync_do_read_msg (rs1 @ [ReadFailed ec]) c2 = Returned (False, None, c3, [])"
    by (auto simp: sync_do_read_msg_def split: if_splits)
  with w \<open>ok\<close> p m(1) show ?thesis
    using sync_fill_extend [OF Returned [unfolded x], of "[ReadFailed ec]"]
    by (simp add: recv_net_message_def sync_do_read_def)
qed (use assms in \<open>auto simp: recv_net_message_def sync_do_read_def split: if_splits\<close>)

end
