(* ===== verification/RpcClient.thy ===== *)
theory RpcClient
  imports TcpConnSync
begin

text \<open>
  \<open>source/Client/RpcClient.cpp\<close> and \<open>RpcClientImpl.cpp\<close>: one remote call at a time over a
  connection that is opened on demand.

  What the network does during one call is the record \<open>net_env\<close>: whether the address parses
  and the connection succeeds, the results of the writes and reads, and whether the call's
  timer expires while the request is being sent or the answer awaited. The timer's handler
  runs on the \<open>IoService\<close> thread. When it closes the socket, a read or write that would wait
  fails (\<open>ended_by_timer\<close>); its changes to the client are made when the blocked call has come
  back, before its result is looked at. A status is the byte behind the \<open>enum class\<close>, because the
  code casts the server's status byte to it unchecked.
\<close>

section \<open>Status codes\<close>

datatype RpcClientStatus =
    RC_OK
  | RC_SERVICE_SPECIFIC_ERROR
  | RC_INVALID_VERSION
  | RC_INVALID_SERVICE
  | RC_INVALID_REQUEST
  | RC_SYSTEM_ERROR
  | NETWORK_BEFORE_ERROR
  | NETWORK_CONNECT_ERROR
  | NETWORK_SEND_ERROR
  | NETWORK_RECV_ERROR
  | RPC_CALL_TIMEOUT
  | RECV_FORMAT_ERROR

fun client_code :: "RpcClientStatus \<Rightarrow> 8 word" where
  "client_code RC_OK = 0"
| "client_code RC_SERVICE_SPECIFIC_ERROR = 1"
| "client_code RC_INVALID_VERSION = 2"
| "client_code RC_INVALID_SERVICE = 3"
| "client_code RC_INVALID_REQUEST = 4"
| "client_code RC_SYSTEM_ERROR = 5"
| "client_code NETWORK_BEFORE_ERROR = 10"
| "client_code NETWORK_CONNECT_ERROR = 11"
| "client_code NETWORK_SEND_ERROR = 12"
| "client_code NETWORK_RECV_ERROR = 13"
| "client_code RPC_CALL_TIMEOUT = 20"
| "client_code RECV_FORMAT_ERROR = 21"

section \<open>RpcClientImpl\<close>

text \<open>\<open>rc_timer\<close>: a wait of \<open>rpc_call_timer_\<close> is outstanding.\<close>

record RpcClientImpl =
  rc_setting :: RpcClientSetting
  time_start :: int
  was_timeout :: bool
  rc_timer :: bool
  rc_conn :: "TcpConnSync option"

definition mk_RpcClientImpl :: "RpcClientSetting \<Rightarrow> RpcClientImpl" where
  "mk_RpcClientImpl cs =
     \<lparr>rc_setting = cs, time_start = 0, was_timeout = False, rc_timer = False, rc_conn = None\<rparr>"

definition destroy_RpcClientImpl :: "RpcClientImpl \<Rightarrow> TcpConnSync option" where
  "destroy_RpcClientImpl r =
     (case rc_conn r of None \<Rightarrow> None | Some c \<Rightarrow> Some (shutdown_and_close_socket c))"

definition send_rpc_message ::
    "RpcClientSetting \<Rightarrow> error_code list \<Rightarrow> RpcRequestMessage \<Rightarrow> TcpConnSync \<Rightarrow> (bool \<times> TcpConnSync) blocking" where
  "send_rpc_message cs ws rq c = send_net_message cs ws (mk_Message (rq_net_str rq)) c"

definition recv_rpc_message :: "RpcClientSetting \<Rightarrow> read_result list \<Rightarrow> TcpConnSync \<Rightarrow> sync_read" where
  "recv_rpc_message cs rs c = recv_net_message cs rs c"

definition set_rpc_call_timeout :: "32 word \<Rightarrow> RpcClientImpl \<Rightarrow> RpcClientImpl" where
  "set_rpc_call_timeout sec r =
     (if sec = 0 then r else r\<lparr>was_timeout := False, rc_timer := True\<rparr>)"

text \<open>The handler of the timer; it uses \<open>conn_\<close> without looking whether there is one.\<close>

definition rpc_call_timeout :: "error_code \<Rightarrow> RpcClientImpl \<Rightarrow> RpcClientImpl blocking" where
  "rpc_call_timeout ec r =
     (if ec = NoError
      then (case rc_conn r of
              None \<Rightarrow> Crashed
            | Some c \<Rightarrow> Returned (r\<lparr>was_timeout := True, rc_conn := Some (shutdown_and_close_socket c)\<rparr>))
      else Returned r)"

text \<open>The timer expires, if it was set.\<close>

definition timer_expires :: "bool \<Rightarrow> RpcClientImpl \<Rightarrow> RpcClientImpl blocking" where
  "timer_expires fires r =
     (if fires \<and> rc_timer r then rpc_call_timeout NoError (r\<lparr>rc_timer := False\<rparr>) else Returned r)"

text \<open>
  The handler of the timer ends a blocked read or write if it leaves the socket closed: the read
  gets the end of the stream, the write an error.
\<close>

definition ended_by_timer :: "bool \<Rightarrow> RpcClientImpl \<Rightarrow> bool" where
  "ended_by_timer fires r =
     (case timer_expires fires r of
        Returned r' \<Rightarrow> map_option sc_stat (rc_conn r') = Some kClosed
      | _ \<Rightarrow> False)"

record net_env =
  addr_parses :: "string \<Rightarrow> bool"
  connects :: "string \<Rightarrow> 16 word \<Rightarrow> error_code"
  ne_now :: int
  ne_writes :: "error_code list"
  fires_sending :: bool
  ne_reads :: "read_result list"
  fires_receiving :: bool

text \<open>
  The first part of \<open>call_RPC\<close>: the connection there is, or a new one. \<open>from_string\<close> throws on
  an address that does not parse.
\<close>

definition open_conn :: "net_env \<Rightarrow> RpcClientImpl \<Rightarrow> (RpcClientStatus + TcpConnSync) blocking" where
  "open_conn ne r =
     (case rc_conn r of
        Some c \<Rightarrow> Returned (Inr c)
      | None \<Rightarrow>
          if \<not> addr_parses ne (serv_addr (rc_setting r)) then Threw
          else if connects ne (serv_addr (rc_setting r)) (ucast (serv_port (rc_setting r))) \<noteq> NoError
          then Returned (Inl NETWORK_CONNECT_ERROR)
          else Returned (Inr new_sync_conn))"

text \<open>The last part: what the payload of the answer means for a call of \<open>sid\<close> and \<open>op\<close>.\<close>

definition check_response :: "16 word \<Rightarrow> 16 word \<Rightarrow> string \<Rightarrow> 8 word \<times> string option" where
  "check_response sid op p =
     (case RpcResponseMessageParse p of
        None \<Rightarrow> (client_code RECV_FORMAT_ERROR, None)
      | Some m \<Rightarrow>
          if rs_magic (rs_header m) \<noteq> kRpcHeaderMagic \<or> rs_service_id (rs_header m) \<noteq> sid \<or>
             rs_opcode (rs_header m) \<noteq> op
          then (client_code RECV_FORMAT_ERROR, None)
          else if rs_status (rs_header m) \<noteq> status_code ST_OK then (rs_status (rs_header m), None)
          else (client_code RC_OK, Some (rs_payload m)))"

text \<open>
  A failed send or receive drops the connection. The result is the status and the new value
  of \<open>respload\<close> (\<open>None\<close> where it is left alone).
\<close>

type_synonym rpc_result = "(8 word \<times> string option \<times> RpcClientImpl) blocking"

definition call_failed :: "RpcClientStatus \<Rightarrow> RpcClientImpl \<Rightarrow> rpc_result" where
  "call_failed st r =
     Returned (client_code (if was_timeout r then RPC_CALL_TIMEOUT else st), None, r\<lparr>rc_conn := None\<rparr>)"

text \<open>
  The answer is awaited with the reads that the network serves; if the timer closes the socket
  after them, the next read fails.
\<close>

definition call_reads :: "net_env \<Rightarrow> RpcClientImpl \<Rightarrow> read_result list" where
  "call_reads ne r = ne_reads ne @ (if ended_by_timer (fires_receiving ne) r then [ReadFailed eof] else [])"

definition call_writes :: "net_env \<Rightarrow> RpcClientImpl \<Rightarrow> error_code list" where
  "call_writes ne r = ne_writes ne @ (if ended_by_timer (fires_sending ne) r then [other_error] else [])"

definition await_response :: "net_env \<Rightarrow> 16 word \<Rightarrow> 16 word \<Rightarrow> RpcClientImpl \<Rightarrow> rpc_result" where
  "await_response ne sid op r =
     (case rc_conn r of
        None \<Rightarrow> Crashed
      | Some c \<Rightarrow>
          and_then (recv_rpc_message (rc_setting r) (call_reads ne r) c) (\<lambda>(ok, msg, c', _).
          and_then (timer_expires (fires_receiving ne) (r\<lparr>rc_conn := Some c'\<rparr>)) (\<lambda>r'.
            if \<not> ok then call_failed NETWORK_RECV_ERROR r'
            else case check_response sid op (case msg of None \<Rightarrow> [] | Some m \<Rightarrow> payload m) of
                   (st, resp) \<Rightarrow> Returned (st, resp, r'))))"

text \<open>
  The part of \<open>call_RPC\<close> up to the sending of the request: \<open>Inl\<close> is an early return, \<open>Inr\<close> the
  client whose request is out.
\<close>

definition send_request ::
    "net_env \<Rightarrow> 16 word \<Rightarrow> 16 word \<Rightarrow> string \<Rightarrow> 32 word \<Rightarrow> RpcClientImpl \<Rightarrow>
     (8 word \<times> string option \<times> RpcClientImpl + RpcClientImpl) blocking" where
  "send_request ne sid op data timeout_sec r =
     and_then (open_conn ne r) (\<lambda>oc. case oc of
       Inl st \<Rightarrow> Returned (Inl (client_code st, None, r))
     | Inr c \<Rightarrow>
         let r1 = r\<lparr>rc_conn := Some c, time_start := ne_now ne\<rparr>;
             rpc_request_message = mk_RpcRequestMessage sid op data;
             r2 = (if timeout_sec > 0 then set_rpc_call_timeout timeout_sec r1 else r1)
         in and_then (send_rpc_message (rc_setting r2) (call_writes ne r2) rpc_request_message c) (\<lambda>(ok, c').
            and_then (timer_expires (fires_sending ne) (r2\<lparr>rc_conn := Some c'\<rparr>)) (\<lambda>r3.
              if \<not> ok then and_then (call_failed NETWORK_SEND_ERROR r3) (\<lambda>res. Returned (Inl res))
              else Returned (Inr r3))))"

definition impl_call_RPC ::
    "net_env \<Rightarrow> 16 word \<Rightarrow> 16 word \<Rightarrow> string \<Rightarrow> 32 word \<Rightarrow> RpcClientImpl \<Rightarrow> rpc_result" where
  "impl_call_RPC ne sid op data timeout_sec r =
     and_then (send_request ne sid op data timeout_sec r) (\<lambda>res. case res of
       Inl early \<Rightarrow> Returned early
     | Inr r' \<Rightarrow> await_response ne sid op r')"

section \<open>RpcClient\<close>

record RpcClient =
  rpc_initialized :: bool
  rpc_setting :: RpcClientSetting
  rpc_impl :: "RpcClientImpl option"

definition empty_RpcClient :: RpcClient where
  "empty_RpcClient = \<lparr>rpc_initialized = False, rpc_setting = default_setting, rpc_impl = None\<rparr>"

text \<open>
  \<open>init(addr, port, log_func)\<close>; \<open>io_init\<close> is what \<open>IoService::init\<close> returned. The logging set up
  first is left out.
\<close>

definition rpc_init_addr :: "bool \<Rightarrow> string \<Rightarrow> 16 word \<Rightarrow> RpcClient \<Rightarrow> bool \<times> RpcClient" where
  "rpc_init_addr io_init addr port rc =
     (if rpc_initialized rc then (True, rc)
      else
        let cs = (rpc_setting rc)\<lparr>serv_addr := addr, serv_port := ucast port\<rparr>;
            rc1 = rc\<lparr>rpc_setting := cs, rpc_impl := Some (mk_RpcClientImpl cs)\<rparr>
        in if \<not> io_init then (False, rc1) else (True, rc1\<lparr>rpc_initialized := True\<rparr>))"

text \<open>
  A \<open>libconfig\<close> group: its string and its unsigned values. \<open>init(setting, log_func)\<close> stores each
  value as it finds it, so an early return leaves the earlier ones stored; the tests for
  negative sizes are on unsigned values.
\<close>

record client_cfg =
  cc_str :: "string \<Rightarrow> string option"
  cc_uint :: "string \<Rightarrow> 32 word option"

definition lookup_uint :: "client_cfg \<Rightarrow> string \<Rightarrow> 32 word \<Rightarrow> 32 word" where
  "lookup_uint g key old = (case cc_uint g key of None \<Rightarrow> old | Some v \<Rightarrow> v)"

definition rpc_init_setting :: "bool \<Rightarrow> client_cfg \<Rightarrow> RpcClient \<Rightarrow> bool \<times> RpcClient" where
  "rpc_init_setting io_init g rc =
     (case cc_str g ''serv_addr'' of
        None \<Rightarrow> (False, rc)
      | Some addr \<Rightarrow>
          let rc1 = rc\<lparr>rpc_setting := (rpc_setting rc)\<lparr>serv_addr := addr\<rparr>\<rparr>
          in case cc_uint g ''serv_port'' of
               None \<Rightarrow> (False, rc1)
             | Some port \<Rightarrow>
                 let cs2 = (rpc_setting rc1)\<lparr>serv_port := port\<rparr>
                 in if addr = [] \<or> port = 0 then (False, rc1\<lparr>rpc_setting := cs2\<rparr>)
                    else
                      let cs3 = cs2\<lparr>cs_send_max_msg_size := lookup_uint g ''send_max_msg_size'' (cs_send_max_msg_size cs2),
                                    cs_recv_max_msg_size := lookup_uint g ''recv_max_msg_size'' (cs_recv_max_msg_size cs2),
                                    cs_log_level := lookup_uint g ''log_level'' (cs_log_level cs2)\<rparr>
                      in if cc_uint g ''log_level'' \<noteq> None \<and> cs_log_level cs3 > 7
                         then (False, rc1\<lparr>rpc_setting := cs3\<rparr>)
                         else rpc_init_addr io_init (serv_addr cs3) (ucast (serv_port cs3)) (rc1\<lparr>rpc_setting := cs3\<rparr>))"

text \<open>\<open>init(cfgFile, log_func)\<close>: \<open>None\<close> when the file cannot be read or parsed or has no \<open>rpc.client\<close>.\<close>

definition rpc_init_file :: "bool \<Rightarrow> client_cfg option \<Rightarrow> RpcClient \<Rightarrow> bool \<times> RpcClient" where
  "rpc_init_file io_init cfg rc =
     (case cfg of None \<Rightarrow> (False, rc) | Some g \<Rightarrow> rpc_init_setting io_init g rc)"

definition mk_RpcClient_addr :: "bool \<Rightarrow> string \<Rightarrow> 16 word \<Rightarrow> RpcClient" where
  "mk_RpcClient_addr io_init addr port = snd (rpc_init_addr io_init addr port empty_RpcClient)"

definition mk_RpcClient_file :: "bool \<Rightarrow> client_cfg option \<Rightarrow> RpcClient" where
  "mk_RpcClient_file io_init cfg = snd (rpc_init_file io_init cfg empty_RpcClient)"

definition mk_RpcClient_setting :: "bool \<Rightarrow> client_cfg \<Rightarrow> RpcClient" where
  "mk_RpcClient_setting io_init g = snd (rpc_init_setting io_init g empty_RpcClient)"

definition call_RPC_timeout ::
    "net_env \<Rightarrow> 16 word \<Rightarrow> 16 word \<Rightarrow> string \<Rightarrow> 32 word \<Rightarrow> RpcClient \<Rightarrow>
     (8 word \<times> string option \<times> RpcClient) blocking" where
  "call_RPC_timeout ne sid op data timeout_sec rc =
     (case rpc_impl rc of
        None \<Rightarrow> Returned (client_code NETWORK_BEFORE_ERROR, None, rc)
      | Some r \<Rightarrow>
          if \<not> rpc_initialized rc then Returned (client_code NETWORK_BEFORE_ERROR, None, rc)
          else and_then (impl_call_RPC ne sid op data timeout_sec r) (\<lambda>(st, resp, r').
                 Returned (st, resp, rc\<lparr>rpc_impl := Some r'\<rparr>)))"

definition call_RPC ::
    "net_env \<Rightarrow> 16 word \<Rightarrow> 16 word \<Rightarrow> string \<Rightarrow> RpcClient \<Rightarrow>
     (8 word \<times> string option \<times> RpcClient) blocking" where
  "call_RPC ne sid op data rc =
     (case rpc_impl rc of
        None \<Rightarrow> Returned (client_code NETWORK_BEFORE_ERROR, None, rc)
      | Some r \<Rightarrow>
          if \<not> rpc_initialized rc then Returned (client_code NETWORK_BEFORE_ERROR, None, rc)
          else and_then (impl_call_RPC ne sid op data 0 r) (\<lambda>(st, resp, r').
                 Returned (st, resp, rc\<lparr>rpc_impl := Some r'\<rparr>)))"

section \<open>One exchange\<close>

text \<open>A client that can start a call: it can connect, or its connection is idle.\<close>

definition conn_idle :: "TcpConnSync \<Rightarrow> bool" where
  "conn_idle c \<longleftrightarrow> sc_stat c = kWorking \<and> bdata (sc_recv c) = [] \<and> bdata (sc_send c) = []"

definition current_conn :: "RpcClientImpl \<Rightarrow> TcpConnSync" where
  "current_conn r = (case rc_conn r of None \<Rightarrow> new_sync_conn | Some c \<Rightarrow> c)"

definition can_call :: "net_env \<Rightarrow> RpcClientImpl \<Rightarrow> bool" where
  "can_call ne r \<longleftrightarrow> conn_idle (current_conn r) \<and>
     (rc_conn r = None \<longrightarrow>
        addr_parses ne (serv_addr (rc_setting r)) \<and>
        connects ne (serv_addr (rc_setting r)) (ucast (serv_port (rc_setting r))) = NoError)"

text \<open>A message of \<open>n\<close> bytes passes a limit of the settings and its frame has a 32-bit size.\<close>

definition fits :: "32 word \<Rightarrow> nat \<Rightarrow> bool" where
  "fits limit n \<longleftrightarrow> n + sizeof_Header < 2 ^ 32 \<and> \<not> over_setting (of_nat n) limit"

lemma open_conn_can_call: "can_call ne r \<Longrightarrow> open_conn ne r = Returned (Inr (current_conn r))"
  by (auto simp: can_call_def open_conn_def current_conn_def split: option.splits)

text \<open>The implementation after the request went out on the idle connection.\<close>

definition request_frame :: "16 word \<Rightarrow> 16 word \<Rightarrow> string \<Rightarrow> string" where
  "request_frame sid op data = Message_net_str (mk_Message (rq_net_str (mk_RpcRequestMessage sid op data)))"

definition requested ::
    "net_env \<Rightarrow> 16 word \<Rightarrow> 16 word \<Rightarrow> string \<Rightarrow> 32 word \<Rightarrow> RpcClientImpl \<Rightarrow> RpcClientImpl" where
  "requested ne sid op data tmo r =
     (set_rpc_call_timeout tmo (r\<lparr>time_start := ne_now ne\<rparr>))
       \<lparr>rc_conn := Some ((current_conn r)\<lparr>sc_send := \<lparr>bdata = []\<rparr>, wire := wire (current_conn r) @ request_frame sid op data\<rparr>)\<rparr>"

lemma requested_setting [simp]: "rc_setting (requested ne sid op data tmo r) = rc_setting r"
  by (simp add: requested_def set_rpc_call_timeout_def)

lemma set_rpc_call_timeout_setting [simp]: "rc_setting (set_rpc_call_timeout tmo r) = rc_setting r"
  by (simp add: set_rpc_call_timeout_def)

lemma requested_conn:
  "rc_conn (requested ne sid op data tmo r) =
     Some ((current_conn r)\<lparr>sc_send := \<lparr>bdata = []\<rparr>, wire := wire (current_conn r) @ request_frame sid op data\<rparr>)"
  by (simp add: requested_def)

text \<open>No timer can expire: none is set, or the one that is does not.\<close>

definition undisturbed :: "bool \<Rightarrow> 32 word \<Rightarrow> RpcClientImpl \<Rightarrow> bool" where
  "undisturbed fires tmo r \<longleftrightarrow> (rc_timer r \<or> tmo \<noteq> 0 \<longrightarrow> \<not> fires)"

lemma requested_timer: "rc_timer (requested ne sid op data tmo r) \<longleftrightarrow> rc_timer r \<or> tmo \<noteq> 0"
  by (simp add: requested_def set_rpc_call_timeout_def)

lemma timer_silent: "\<not> (fires \<and> rc_timer r) \<Longrightarrow> timer_expires fires r = Returned r"
  by (auto simp: timer_expires_def)

lemma not_ended:
  "\<not> (fires \<and> rc_timer r) \<Longrightarrow> rc_conn r = Some c \<Longrightarrow> sc_stat c = kWorking \<Longrightarrow> \<not> ended_by_timer fires r"
  by (simp add: ended_by_timer_def timer_silent)

lemma request_sent:
  assumes "can_call ne r" "ne_writes ne = replicate k NoError"
    and "block_count (length data + 32) \<le> k"
    and "fits (cs_send_max_msg_size (rc_setting r)) (length data + 16)"
    and "undisturbed (fires_sending ne) tmo r"
  shows "send_request ne sid op data tmo r = Returned (Inr (requested ne sid op data tmo r))"
proof -
  let ?m = "mk_RpcRequestMessage sid op data" and ?c = "current_conn r"
  let ?r = "set_rpc_call_timeout tmo (r\<lparr>rc_conn := Some ?c, time_start := ne_now ne\<rparr>)"
  have l: "length (rq_net_str ?m) = length data + 16"
    by (simp add: mk_RpcRequestMessage_def sizeof_RpcRequestHeader_def)
  have silent: "\<not> (fires_sending ne \<and> rc_timer (?r\<lparr>rc_conn := x\<rparr>))" for x
    using assms(5) by (auto simp: undisturbed_def set_rpc_call_timeout_def)
  have "\<not> ended_by_timer (fires_sending ne) ?r"
    by (rule not_ended [where c = ?c])
      (use silent [of "Some ?c"] assms(1) in \<open>auto simp: can_call_def conn_idle_def set_rpc_call_timeout_def split: if_splits\<close>)
  then have w: "call_writes ne ?r = replicate k NoError" using assms(2) by (simp add: call_writes_def)
  have "send_rpc_message (rc_setting r) (call_writes ne ?r) ?m ?c =
      Returned (True, ?c\<lparr>sc_send := \<lparr>bdata = []\<rparr>, wire := wire ?c @ request_frame sid op data\<rparr>)"
    unfolding send_rpc_message_def request_frame_def w
    by (rule send_frame) (use assms l in \<open>simp_all add: can_call_def conn_idle_def fits_def sizeof_Header_def add.commute\<close>)
  moreover have "(if tmo > 0 then set_rpc_call_timeout tmo r1 else r1) = set_rpc_call_timeout tmo r1" for r1
    by (simp add: set_rpc_call_timeout_def word_gt_0)
  ultimately show ?thesis
    using open_conn_can_call [OF assms(1)] timer_silent [OF silent]
    by (simp add: send_request_def requested_def Let_def) (simp add: set_rpc_call_timeout_def)
qed

lemma impl_call_sent:
  assumes "can_call ne r" "ne_writes ne = replicate k NoError"
    and "block_count (length data + 32) \<le> k"
    and "fits (cs_send_max_msg_size (rc_setting r)) (length data + 16)"
    and "undisturbed (fires_sending ne) tmo r"
  shows "impl_call_RPC ne sid op data tmo r = await_response ne sid op (requested ne sid op data tmo r)"
  by (simp add: impl_call_RPC_def request_sent [OF assms])

text \<open>The bytes that a call puts on the wire before it waits for the answer.\<close>

definition call_bytes :: "net_env \<Rightarrow> 16 word \<Rightarrow> 16 word \<Rightarrow> string \<Rightarrow> 32 word \<Rightarrow> RpcClientImpl \<Rightarrow> string" where
  "call_bytes ne sid op data timeout_sec r =
     (case send_request ne sid op data timeout_sec r of
        Returned (Inr r') \<Rightarrow> drop (length (wire (current_conn r))) (wire (current_conn r'))
      | _ \<Rightarrow> [])"

lemma call_bytes_frame:
  assumes "can_call ne r" "ne_writes ne = replicate k NoError"
    and "block_count (length data + 32) \<le> k"
    and "fits (cs_send_max_msg_size (rc_setting r)) (length data + 16)"
    and "undisturbed (fires_sending ne) tmo r"
  shows "call_bytes ne sid op data tmo r = request_frame sid op data"
  by (simp add: call_bytes_def request_sent [OF assms] current_conn_def [of "requested _ _ _ _ _ _"] requested_conn)

lemma await_frame:
  assumes "rc_conn r = Some c" "sc_stat c = kWorking" "bdata (sc_recv c) = []"
    and "reads_ok (ne_reads ne)" "received (ne_reads ne) = Message_net_str (mk_Message p)"
    and "fits (cs_recv_max_msg_size (rc_setting r)) (length p)" "\<not> (fires_receiving ne \<and> rc_timer r)"
  shows "await_response ne sid op r =
    (case check_response sid op p of
       (st, resp) \<Rightarrow>
         Returned (st, resp, r\<lparr>rc_conn := Some (c\<lparr>sc_recv_header := header (mk_Message p), sc_recv := \<lparr>bdata = []\<rparr>\<rparr>)\<rparr>))"
proof -
  have reads: "call_reads ne r = ne_reads ne"
    using not_ended [OF assms(7,1,2)] by (simp add: call_reads_def)
  obtain b rs' where "recv_net_message (rc_setting r) (ne_reads ne) c =
             Returned (True, Some (mk_Message p),
                       c\<lparr>sc_recv_header := header (mk_Message p), sc_recv := \<lparr>bdata = b\<rparr>\<rparr>, rs')"
    "b @ received rs' = []"
    using recv_frame [OF assms(2,4), of p "[]"] assms(3,5,6) by (auto simp: fits_def)
  moreover have "payload (mk_Message p) = p" by (simp add: mk_Message_def)
  ultimately show ?thesis
    using assms(1,7) by (simp add: await_response_def recv_rpc_message_def timer_silent reads)
qed

text \<open>
  What the client has after a whole exchange: the request on the wire, the connection idle
  again, the timer as the call set it.
\<close>

definition exchanged ::
    "net_env \<Rightarrow> 16 word \<Rightarrow> 16 word \<Rightarrow> string \<Rightarrow> 32 word \<Rightarrow> string \<Rightarrow> RpcClientImpl \<Rightarrow> RpcClientImpl" where
  "exchanged ne sid op data tmo p r =
     (requested ne sid op data tmo r)
       \<lparr>rc_conn := Some ((the (rc_conn (requested ne sid op data tmo r)))
                          \<lparr>sc_recv_header := header (mk_Message p), sc_recv := \<lparr>bdata = []\<rparr>\<rparr>)\<rparr>"

lemma impl_call_exchange:
  assumes "can_call ne r" "ne_writes ne = replicate k NoError" "block_count (length data + 32) \<le> k"
    and "fits (cs_send_max_msg_size (rc_setting r)) (length data + 16)"
    and "reads_ok (ne_reads ne)" "received (ne_reads ne) = Message_net_str (mk_Message p)"
    and "fits (cs_recv_max_msg_size (rc_setting r)) (length p)"
    and "undisturbed (fires_sending ne) tmo r" "undisturbed (fires_receiving ne) tmo r"
  shows "impl_call_RPC ne sid op data tmo r =
    (case check_response sid op p of (st, resp) \<Rightarrow> Returned (st, resp, exchanged ne sid op data tmo p r))"
proof -
  let ?r = "requested ne sid op data tmo r"
  let ?c = "(current_conn r)\<lparr>sc_send := \<lparr>bdata = []\<rparr>, wire := wire (current_conn r) @ request_frame sid op data\<rparr>"
  have c: "rc_conn ?r = Some ?c" by (simp add: requested_def)
  have "await_response ne sid op ?r =
    (case check_response sid op p of
       (st, resp) \<Rightarrow>
         Returned (st, resp, ?r\<lparr>rc_conn := Some (?c\<lparr>sc_recv_header := header (mk_Message p), sc_recv := \<lparr>bdata = []\<rparr>\<rparr>)\<rparr>))"
    by (rule await_frame [OF c])
      (use assms in \<open>auto simp: can_call_def conn_idle_def undisturbed_def requested_timer\<close>)
  with c show ?thesis
    by (simp add: impl_call_sent [OF assms(1-4,8)] exchanged_def)
qed

lemma exchanged_idle:
  "can_call ne r \<Longrightarrow> conn_idle (the (rc_conn (exchanged ne sid op data tmo p r)))"
  "rc_conn (exchanged ne sid op data tmo p r) \<noteq> None"
  by (simp_all add: exchanged_def requested_def can_call_def conn_idle_def)

section \<open>Answers and rejections\<close>

lemma check_response_reply:
  "check_response sid op (rs_net_str (mk_RpcResponseMessage sid op data)) = (client_code RC_OK, Some data)"
  by (simp add: check_response_def mk_RpcResponseMessage_def)

lemma check_response_reject:
  "check_response sid op (rs_net_str (mk_RpcResponseStatus st)) =
     (if sid = 0 \<and> op = 0 then (status_code st, if st = ST_OK then Some [] else None)
      else (client_code RECV_FORMAT_ERROR, None))"
  by (cases st) (auto simp: check_response_def mk_RpcResponseStatus_def empty_rs_header_def)

text \<open>The request object that the server makes of the request's payload.\<close>

lemma validate_client_request:
  assumes "length data + 16 < 2 ^ 31" "data \<noteq> []"
  shows "\<exists>ri. validate_request (instance_of now sock (rq_net_str (mk_RpcRequestMessage sid op data))) = (True, ri) \<and>
           service_id ri = sid \<and> opcode ri = op \<and>
           rpc_request_message ri = mk_RpcRequestMessage sid op data"
proof -
  have l: "length (rq_net_str (mk_RpcRequestMessage sid op data)) < 2 ^ 31"
    using assms(1) by (simp add: mk_RpcRequestMessage_def sizeof_RpcRequestHeader_def)
  show ?thesis
    unfolding validate_request_cases [OF l, of now sock]
    using assms(2) by (simp add: mk_RpcRequestMessage_def)
qed

text \<open>
  C17. A call over a working network gets the server's answer: the server finds in the frame the
  service id, the opcode and the body that the caller gave, and when the connection brings
  the frame of its reply, in whatever pieces, \<open>call_RPC\<close> returns \<open>OK\<close> with the body of that
  reply, leaves exactly the request's frame on the wire, and the connection is idle again.
\<close>
theorem call_RPC_roundtrip:
  assumes "can_call ne r" "ne_writes ne = replicate k NoError" "block_count (length data + 32) \<le> k"
    and "fits (cs_send_max_msg_size (rc_setting r)) (length data + 16)" "length data + 16 < 2 ^ 31" "data \<noteq> []"
    and "validate_request (instance_of now sock (rq_net_str (mk_RpcRequestMessage sid op data))) = (True, ri)"
    and "reply_rpc_message True answer ri = Some m"
    and "reads_ok (ne_reads ne)" "received (ne_reads ne) = Message_net_str m"
    and "fits (cs_recv_max_msg_size (rc_setting r)) (length answer + 17)"
    and "\<not> fires_sending ne" "\<not> fires_receiving ne"
  shows "\<exists>r'. impl_call_RPC ne sid op data tmo r = Returned (client_code RC_OK, Some answer, r') \<and>
           rc_conn r' \<noteq> None \<and> conn_idle (current_conn r') \<and>
           wire (current_conn r') = wire (current_conn r) @ request_frame sid op data"
proof -
  let ?p = "rs_net_str (mk_RpcResponseMessage sid op answer)"
  obtain ri' where "validate_request (instance_of now sock (rq_net_str (mk_RpcRequestMessage sid op data))) = (True, ri')"
    "service_id ri' = sid" "opcode ri' = op"
    using validate_client_request [OF assms(5,6)] by blast
  with assms(7,8) have m: "m = mk_Message ?p" by (simp add: reply_rpc_message_def Let_def)
  moreover have "length ?p = length answer + 17"
    by (simp add: rs_net_str_def sizeof_RpcResponseHeader_def mk_RpcResponseMessage_def)
  ultimately have "impl_call_RPC ne sid op data tmo r =
      Returned (client_code RC_OK, Some answer, exchanged ne sid op data tmo ?p r)"
    using impl_call_exchange [OF assms(1-4) assms(9), of ?p tmo sid op] assms(10-13)
    by (simp add: check_response_reply undisturbed_def)
  moreover have "conn_idle (current_conn (exchanged ne sid op data tmo ?p r))"
    using exchanged_idle(1) [OF assms(1)] by (simp add: exchanged_def current_conn_def)
  moreover have "wire (current_conn (exchanged ne sid op data tmo ?p r)) =
      wire (current_conn r) @ request_frame sid op data"
    by (simp add: exchanged_def current_conn_def [of "_\<lparr>rc_conn := Some _\<rparr>"] requested_def)
  ultimately show ?thesis using exchanged_idle(2) by blast
qed

text \<open>
  C39. A rejection never reaches the caller as the status the server chose: the reply built for a
  rejection has service id and opcode zero, so for every other service or opcode the client
  takes it for a malformed answer, whatever the status.
\<close>
theorem rejection_is_format_error:
  assumes "can_call ne r" "ne_writes ne = replicate k NoError" "block_count (length data + 32) \<le> k"
    and "fits (cs_send_max_msg_size (rc_setting r)) (length data + 16)"
    and "reject True st ri = Some m" "sid \<noteq> 0 \<or> op \<noteq> 0"
    and "reads_ok (ne_reads ne)" "received (ne_reads ne) = Message_net_str m"
    and "fits (cs_recv_max_msg_size (rc_setting r)) 17"
    and "\<not> fires_sending ne" "\<not> fires_receiving ne"
  shows "\<exists>r'. impl_call_RPC ne sid op data tmo r = Returned (client_code RECV_FORMAT_ERROR, None, r')"
proof -
  let ?p = "rs_net_str (mk_RpcResponseStatus st)"
  have "m = mk_Message ?p" using assms(5) by (simp add: reject_def Let_def)
  moreover have "length ?p = 17"
    by (simp add: rs_net_str_def sizeof_RpcResponseHeader_def mk_RpcResponseStatus_def)
  ultimately show ?thesis
    using impl_call_exchange [OF assms(1-4) assms(7), of ?p tmo sid op] assms(6,8-11)
    by (auto simp: check_response_reject undisturbed_def)
qed

section \<open>Time-outs\<close>

lemma reads_update_conn:
  "can_call (ne\<lparr>ne_reads := rs, fires_receiving := f\<rparr>) r = can_call ne r"
  "requested (ne\<lparr>ne_reads := rs, fires_receiving := f\<rparr>) sid op data tmo r = requested ne sid op data tmo r"
  by (simp_all add: can_call_def requested_def)

lemma call_sent_reads:
  assumes "can_call ne r" "ne_writes ne = replicate k NoError" "block_count (length data + 32) \<le> k"
    and "fits (cs_send_max_msg_size (rc_setting r)) (length data + 16)" "\<not> fires_sending ne"
  shows "impl_call_RPC (ne\<lparr>ne_reads := rs, fires_receiving := f\<rparr>) sid op data tmo r =
           await_response (ne\<lparr>ne_reads := rs, fires_receiving := f\<rparr>) sid op (requested ne sid op data tmo r)"
  using impl_call_sent [of "ne\<lparr>ne_reads := rs, fires_receiving := f\<rparr>" r k data tmo sid op] assms
  by (simp add: reads_update_conn undisturbed_def)

text \<open>The connection of a call that waits for ever, and what its read makes of a failure.\<close>

lemma blocked_call:
  assumes "can_call ne r" "ne_writes ne = replicate k NoError" "block_count (length data + 32) \<le> k"
    and "fits (cs_send_max_msg_size (rc_setting r)) (length data + 16)" "\<not> fires_sending ne"
    and "impl_call_RPC (ne\<lparr>ne_reads := rs, fires_receiving := False\<rparr>) sid op data tmo r = Blocked"
  obtains c c' where "rc_conn (requested ne sid op data tmo r) = Some c" "sc_stat c = kWorking"
    "recv_rpc_message (rc_setting r) (rs @ [ReadFailed ec]) c = Returned (False, None, c', [])"
proof -
  let ?r = "requested ne sid op data tmo r"
  let ?ne = "ne\<lparr>ne_reads := rs, fires_receiving := False\<rparr>"
  obtain c where c: "rc_conn ?r = Some c" "sc_stat c = kWorking"
    using assms(1) by (simp add: requested_conn can_call_def conn_idle_def)
  have reads: "call_reads ?ne ?r = rs"
    using not_ended [OF _ c, of False] by (simp add: call_reads_def)
  have "recv_rpc_message (rc_setting r) rs c = Blocked"
  proof (cases "recv_rpc_message (rc_setting r) rs c")
    case (Returned x)
    then show ?thesis
      using assms(6) c reads unfolding call_sent_reads [OF assms(1-5)]
      by (cases x) (auto simp: await_response_def timer_silent call_failed_def split: if_splits prod.splits)
  qed (use assms(6) c reads in \<open>simp_all add: call_sent_reads [OF assms(1-5)] await_response_def\<close>)
  then obtain c' where "recv_rpc_message (rc_setting r) (rs @ [ReadFailed ec]) c = Returned (False, None, c', [])"
    using recv_cut [of "rc_setting r" rs c ec] by (auto simp: recv_rpc_message_def)
  with c that show ?thesis by blast
qed

text \<open>
  C33. A call with a time limit comes back even if the answer never does: whatever part of an
  answer had come, when the timer expires its handler closes the socket, which ends the blocked
  read, and \<open>call_RPC\<close> returns \<open>RPC_CALL_TIMEOUT\<close> with the connection dropped and no timer left.
\<close>
theorem timed_call_returns:
  assumes "can_call ne r" "ne_writes ne = replicate k NoError" "block_count (length data + 32) \<le> k"
    and "fits (cs_send_max_msg_size (rc_setting r)) (length data + 16)" "\<not> fires_sending ne" "0 < tmo"
    and "impl_call_RPC (ne\<lparr>ne_reads := rs, fires_receiving := False\<rparr>) sid op data tmo r = Blocked"
  shows "\<exists>r'. impl_call_RPC (ne\<lparr>ne_reads := rs, fires_receiving := True\<rparr>) sid op data tmo r =
             Returned (client_code RPC_CALL_TIMEOUT, None, r') \<and> rc_conn r' = None \<and> \<not> rc_timer r'"
proof -
  let ?r = "requested ne sid op data tmo r"
  obtain c c' where c: "rc_conn ?r = Some c" "sc_stat c = kWorking"
    "recv_rpc_message (rc_setting r) (rs @ [ReadFailed eof]) c = Returned (False, None, c', [])"
    by (rule blocked_call [OF assms(1-5,7)])
  have t: "rc_timer ?r" using assms(6) by (auto simp: requested_timer)
  then have "ended_by_timer True ?r"
    using c by (simp add: ended_by_timer_def timer_expires_def rpc_call_timeout_def shutdown_and_close_socket_def
        sync_shutdown_and_close_def)
  with c t show ?thesis
    unfolding call_sent_reads [OF assms(1-5)]
    by (simp add: await_response_def call_reads_def timer_expires_def rpc_call_timeout_def call_failed_def)
qed

text \<open>
  When the connection breaks before the time limit, \<open>call_RPC\<close> drops the connection and returns
  \<open>NETWORK_RECV_ERROR\<close>, but the timer stays set: when it expires before the next call, its
  handler follows the null \<open>conn_\<close>.
\<close>
theorem broken_call_leaves_timer:
  assumes "can_call ne r" "ne_writes ne = replicate k NoError" "block_count (length data + 32) \<le> k"
    and "fits (cs_send_max_msg_size (rc_setting r)) (length data + 16)" "\<not> fires_sending ne" "0 < tmo"
    and "impl_call_RPC (ne\<lparr>ne_reads := rs, fires_receiving := False\<rparr>) sid op data tmo r = Blocked"
  shows "\<exists>r'. impl_call_RPC (ne\<lparr>ne_reads := rs @ [ReadFailed ec], fires_receiving := False\<rparr>) sid op data tmo r =
             Returned (client_code NETWORK_RECV_ERROR, None, r') \<and> timer_expires True r' = Crashed"
proof -
  let ?r = "requested ne sid op data tmo r"
  obtain c c' where c: "rc_conn ?r = Some c" "sc_stat c = kWorking"
    "recv_rpc_message (rc_setting r) (rs @ [ReadFailed ec]) c = Returned (False, None, c', [])"
    by (rule blocked_call [OF assms(1-5,7)])
  have "rc_timer ?r" "\<not> was_timeout ?r"
    using assms(6) by (auto simp: requested_def set_rpc_call_timeout_def)
  moreover have "\<not> ended_by_timer False ?r" using not_ended [OF _ c(1,2), of False] by simp
  ultimately show ?thesis
    using c unfolding call_sent_reads [OF assms(1-5)]
    by (simp add: await_response_def call_reads_def timer_expires_def rpc_call_timeout_def call_failed_def)
qed

section \<open>Examples\<close>

lemma Message_net_str_nonempty [simp]: "Message_net_str m \<noteq> []"
proof -
  have "0 < length (Message_net_str m)" by (simp add: Message_net_str_def sizeof_Header_def)
  then show ?thesis by (metis length_greater_0_conv)
qed

definition example_net :: "read_result list \<Rightarrow> net_env" where
  "example_net rs =
     \<lparr>addr_parses = \<lambda>_. True, connects = \<lambda>_ _. NoError, ne_now = 1554000000, ne_writes = replicate 1 NoError,
      fires_sending = False, ne_reads = rs, fires_receiving = False\<rparr>"

abbreviation example_impl :: RpcClientImpl where
  "example_impl \<equiv> mk_RpcClientImpl (default_setting\<lparr>serv_addr := ''127.0.0.1'', serv_port := 8435\<rparr>)"

lemma client_example:
  "can_call (example_net rs) example_impl" "ne_writes (example_net rs) = replicate 1 NoError"
  "block_count (length ''x'' + 32) \<le> 1"
  "fits (cs_send_max_msg_size (rc_setting example_impl)) (length ''x'' + 16)"
  "\<not> fires_sending (example_net rs)" "\<not> fires_receiving (example_net rs)" "ne_reads (example_net rs) = rs"
  "(example_net rs)\<lparr>ne_reads := ts, fires_receiving := False\<rparr> = example_net ts"
  by (simp_all add: example_net_def can_call_def conn_idle_def current_conn_def mk_RpcClientImpl_def
      new_sync_conn_def mk_Buffer_def block_count_def kFixedIoBufferSize_def fits_def over_setting_def
      default_setting_def sizeof_Header_def)

lemma client_wire: "wire (current_conn example_impl) = []"
  by (simp add: current_conn_def mk_RpcClientImpl_def new_sync_conn_def)

lemma client_fits: "fits (cs_recv_max_msg_size (rc_setting example_impl)) n \<longleftrightarrow> n + 16 < 2 ^ 32"
  by (simp add: fits_def mk_RpcClientImpl_def default_setting_def over_setting_def sizeof_Header_def)

lemma client_blocks: "impl_call_RPC (example_net []) 1 1 ''x'' tmo example_impl = Blocked"
proof -
  let ?r = "requested (example_net []) 1 1 ''x'' tmo example_impl"
  have "\<not> ended_by_timer False ?r"
    by (rule not_ended [OF _ requested_conn])
      (simp_all add: current_conn_def mk_RpcClientImpl_def new_sync_conn_def)
  then show ?thesis
    using impl_call_sent [of "example_net []" example_impl 1 "''x''" tmo 1 1, OF client_example(1-4)] recv_short
    by (simp add: client_example undisturbed_def await_response_def call_reads_def requested_conn current_conn_def
        mk_RpcClientImpl_def recv_rpc_message_def new_sync_conn_def mk_Buffer_def sizeof_Header_def)
qed

text \<open>Witness: a request of one byte, answered by two.\<close>
lemma call_RPC_roundtrip_witness:
  "\<exists>r'. impl_call_RPC
      (example_net [Received (Message_net_str (mk_Message (rs_net_str (mk_RpcResponseMessage 1 1 ''ok''))))])
      1 1 ''x'' 0 example_impl = Returned (client_code RC_OK, Some ''ok'', r') \<and>
    wire (current_conn r') = request_frame 1 1 ''x''"
proof -
  let ?m = "mk_Message (rs_net_str (mk_RpcResponseMessage 1 1 ''ok''))"
  obtain ri where ri: "validate_request (instance_of 0 7 (rq_net_str (mk_RpcRequestMessage 1 1 ''x''))) = (True, ri)"
    "service_id ri = 1" "opcode ri = 1"
    using validate_client_request [where data = "''x''" and now = 0 and sock = 7 and sid = 1 and op = 1] by auto
  have m: "reply_rpc_message True ''ok'' ri = Some ?m"
    using ri by (simp add: reply_rpc_message_def Let_def)
  show ?thesis
    using call_RPC_roundtrip [OF client_example(1,2) [of "[Received (Message_net_str ?m)]"] client_example(3,4) _ _ ri(1) m, where tmo = 0]
    by (auto simp: client_example client_fits client_wire)
qed

text \<open>Witness: the server refuses the request as invalid.\<close>
lemma rejection_is_format_error_witness:
  "\<exists>r'. impl_call_RPC
      (example_net [Received (Message_net_str (mk_Message (rs_net_str (mk_RpcResponseStatus INVALID_REQUEST))))])
      1 1 ''x'' 0 example_impl = Returned (client_code RECV_FORMAT_ERROR, None, r')"
proof -
  let ?m = "mk_Message (rs_net_str (mk_RpcResponseStatus INVALID_REQUEST))"
  have m: "reject True INVALID_REQUEST (instance_of 0 7 []) = Some ?m"
    by (simp add: reject_def Let_def)
  show ?thesis
    using rejection_is_format_error [OF client_example(1,2) [of "[Received (Message_net_str ?m)]"] client_example(3,4) m,
        where sid = 1 and op = 1 and tmo = 0]
    by (simp add: client_example client_fits)
qed

text \<open>Witness: the server is silent for three seconds.\<close>
lemma timed_call_returns_witness:
  "\<exists>r'. impl_call_RPC ((example_net [])\<lparr>ne_reads := [], fires_receiving := True\<rparr>)
          1 1 ''x'' 3 example_impl = Returned (client_code RPC_CALL_TIMEOUT, None, r') \<and> rc_conn r' = None"
  using timed_call_returns [OF client_example(1,2) [of "[]"] client_example(3,4), where tmo = 3 and rs = "[]" and sid = 1 and op = 1]
  by (auto simp: client_example client_blocks)

text \<open>Witness: the peer closes the connection instead.\<close>
lemma broken_call_leaves_timer_witness:
  "\<exists>r'. impl_call_RPC (example_net [ReadFailed eof]) 1 1 ''x'' 3 example_impl =
          Returned (client_code NETWORK_RECV_ERROR, None, r') \<and> timer_expires True r' = Crashed"
  using broken_call_leaves_timer [OF client_example(1,2) [of "[]"] client_example(3,4), where tmo = 3 and rs = "[]" and sid = 1 and op = 1
      and ec = eof]
  by (simp add: client_example client_blocks)

end
