(* ===== verification/EventTypes.thy ===== *)
theory EventTypes
  imports Prelude
begin

text \<open>
  \<open>source/Business/EventTypes.h\<close>, \<open>source/Business/EventItem.h\<close> and \<open>source/Business/Sort.h\<close>: the
  records that reports, queries and stored rows are made of, and the sorting of query results.

  Fields carry a prefix for their struct: \<open>ed\<close> \<open>event_data_t\<close>, \<open>er\<close> \<open>event_report_t\<close>, \<open>ec\<close>
  \<open>event_cond_t\<close>, \<open>ei\<close> \<open>event_info_t\<close>, \<open>es\<close> \<open>event_select_t\<close>, \<open>ins\<close> \<open>event_insert_t\<close>.
\<close>

record event_data_t =
  ed_msgid :: int
  ed_metric :: string
  ed_tag :: string
  ed_value :: int

record event_report_t =
  er_version :: string
  er_timestamp :: int
  er_service :: string
  er_entity_idx :: string
  er_data :: "event_data_t list"

datatype GroupType = kGroupNone | kGroupbyTimestamp | kGroupbyTag

datatype OrderByType =
    kOrderByNone | kOrderByTimestamp | kOrderByTag | kOrderByCount | kOrderBySum | kOrderByAvg
  | kOrderByMin | kOrderByMax | kOrderByP10 | kOrderByP50 | kOrderByP90

datatype OrderType = kOrderDesc | kOrderAsc

text \<open>
  The casts from the request's integers; the bounds are checked before the cast
  (\<open>kGroupbyBoundary\<close>, \<open>kOrderByBoundary\<close>, \<open>kOrderBoundary\<close>).
\<close>

definition GroupType_of :: "int \<Rightarrow> GroupType option" where
  "GroupType_of n = (if 0 \<le> n \<and> n < 3 then Some ([kGroupNone, kGroupbyTimestamp, kGroupbyTag] ! nat n) else None)"

definition OrderByType_of :: "int \<Rightarrow> OrderByType option" where
  "OrderByType_of n =
     (if 0 \<le> n \<and> n < 11
      then Some ([kOrderByNone, kOrderByTimestamp, kOrderByTag, kOrderByCount, kOrderBySum, kOrderByAvg,
                  kOrderByMin, kOrderByMax, kOrderByP10, kOrderByP50, kOrderByP90] ! nat n)
      else None)"

definition OrderType_of :: "int \<Rightarrow> OrderType option" where
  "OrderType_of n = (if 0 \<le> n \<and> n < 2 then Some ([kOrderDesc, kOrderAsc] ! nat n) else None)"

record event_cond_t =
  ec_version :: string
  ec_tm_interval :: int
  ec_service :: string
  ec_metric :: string
  ec_tm_start :: int
  ec_entity_idx :: string
  ec_tag :: string
  ec_groupby :: GroupType
  ec_orderby :: OrderByType
  ec_orders :: OrderType
  ec_limit :: int

definition default_cond :: event_cond_t where
  "default_cond =
     \<lparr>ec_version = ''1.0.0'', ec_tm_interval = 0, ec_service = '''', ec_metric = '''', ec_tm_start = 0,
      ec_entity_idx = '''', ec_tag = '''', ec_groupby = kGroupNone, ec_orderby = kOrderByNone,
      ec_orders = kOrderDesc, ec_limit = 0\<rparr>"

record event_info_t =
  ei_timestamp :: int
  ei_tag :: string
  ei_count :: int
  ei_value_sum :: int
  ei_value_avg :: int
  ei_value_min :: int
  ei_value_max :: int
  ei_value_p10 :: int
  ei_value_p50 :: int
  ei_value_p90 :: int

definition zero_info :: event_info_t where
  "zero_info =
     \<lparr>ei_timestamp = 0, ei_tag = '''', ei_count = 0, ei_value_sum = 0, ei_value_avg = 0, ei_value_min = 0,
      ei_value_max = 0, ei_value_p10 = 0, ei_value_p50 = 0, ei_value_p90 = 0\<rparr>"

record event_select_t =
  es_version :: string
  es_timestamp :: int
  es_tm_interval :: int
  es_service :: string
  es_metric :: string
  es_entity_idx :: string
  es_tag :: string
  es_summary :: event_info_t
  es_info :: "event_info_t list"

definition empty_select :: event_select_t where
  "empty_select =
     \<lparr>es_version = '''', es_timestamp = 0, es_tm_interval = 0, es_service = '''', es_metric = '''',
      es_entity_idx = '''', es_tag = '''', es_summary = zero_info, es_info = []\<rparr>"

record event_insert_t =
  ins_service :: string
  ins_entity_idx :: string
  ins_timestamp :: int
  ins_step :: int
  ins_metric :: string
  ins_tag :: string
  ins_count :: int
  ins_value_sum :: int
  ins_value_avg :: int
  ins_value_min :: int
  ins_value_max :: int
  ins_value_p10 :: int
  ins_value_p50 :: int
  ins_value_p90 :: int

definition zero_insert :: event_insert_t where
  "zero_insert =
     \<lparr>ins_service = '''', ins_entity_idx = '''', ins_timestamp = 0, ins_step = 0, ins_metric = '''',
      ins_tag = '''', ins_count = 0, ins_value_sum = 0, ins_value_avg = 0, ins_value_min = 0,
      ins_value_max = 0, ins_value_p10 = 0, ins_value_p50 = 0, ins_value_p90 = 0\<rparr>"

text \<open>Events of one time slot, by metric.\<close>

type_synonym events_by_metric_t = "(string, event_data_t list) omap"

record events_by_time_t =
  ebt_timestamp :: int
  ebt_step :: int
  ebt_data :: events_by_metric_t

definition construct_identity :: "string \<Rightarrow> string \<Rightarrow> string" where
  "construct_identity service entity_idx =
     service @ (if entity_idx \<noteq> [] then ''#'' @ entity_idx else [])"

text \<open>The separator keeps identities apart as long as the service name does not contain it.\<close>

lemma construct_identity_inj:
  assumes "CHR ''#'' \<notin> set s" "CHR ''#'' \<notin> set s'"
    and "construct_identity s e = construct_identity s' e'"
  shows "s = s' \<and> e = e'"
proof -
  have "hd (split_on CHR ''#'' (construct_identity s e)) = s" if "CHR ''#'' \<notin> set s" for s e
    using that by (simp add: construct_identity_def split_on_no_sep split_on_sep)
  from this [OF assms(1), of e] this [OF assms(2), of e'] assms(3) have "s = s'" by (simp only:)
  with assms(3) show ?thesis by (auto simp: construct_identity_def split: if_splits)
qed

section \<open>Sorting query results\<close>

text \<open>
  \<open>std::sort\<close> has a defined result only for a comparator that is a strict weak ordering on the
  elements; \<open>None\<close> stands for undefined behaviour. Where several orders of equal elements are
  allowed the model takes the stable one.
\<close>

definition strict_weak :: "('a \<Rightarrow> 'a \<Rightarrow> bool) \<Rightarrow> 'a list \<Rightarrow> bool" where
  "strict_weak lt xs \<longleftrightarrow>
     (\<forall>x\<in>set xs. \<not> lt x x) \<and>
     (\<forall>x\<in>set xs. \<forall>y\<in>set xs. \<forall>z\<in>set xs. lt x y \<and> lt y z \<longrightarrow> lt x z) \<and>
     (\<forall>x\<in>set xs. \<forall>y\<in>set xs. \<forall>z\<in>set xs.
        \<not> lt x y \<and> \<not> lt y x \<and> \<not> lt y z \<and> \<not> lt z y \<longrightarrow> \<not> lt x z \<and> \<not> lt z x)"

fun ins_by :: "('a \<Rightarrow> 'a \<Rightarrow> bool) \<Rightarrow> 'a \<Rightarrow> 'a list \<Rightarrow> 'a list" where
  "ins_by lt x [] = [x]"
| "ins_by lt x (y # ys) = (if lt y x then y # ins_by lt x ys else x # y # ys)"

definition std_sort :: "('a \<Rightarrow> 'a \<Rightarrow> bool) \<Rightarrow> 'a list \<Rightarrow> 'a list option" where
  "std_sort lt xs =
     (if length xs \<le> 1 then Some xs
      else if strict_weak lt xs then Some (foldr (ins_by lt) xs []) else None)"

fun sort_by :: "OrderByType \<Rightarrow> event_info_t \<Rightarrow> event_info_t \<Rightarrow> bool" where
  "sort_by kOrderByNone l r = False"
| "sort_by kOrderByTimestamp l r = (ei_timestamp l < ei_timestamp r)"
| "sort_by kOrderByTag l r = (ei_tag l < ei_tag r)"
| "sort_by kOrderByCount l r = (ei_count l < ei_count r)"
| "sort_by kOrderBySum l r = (ei_value_sum l < ei_value_sum r)"
| "sort_by kOrderByAvg l r = (ei_value_avg l < ei_value_avg r)"
| "sort_by kOrderByMin l r = (ei_value_min l < ei_value_min r)"
| "sort_by kOrderByMax l r = (ei_value_max l < ei_value_max r)"
| "sort_by kOrderByP10 l r = (ei_value_p10 l < ei_value_p10 r)"
| "sort_by kOrderByP50 l r = (ei_value_p50 l < ei_value_p50 r)"
| "sort_by kOrderByP90 l r = (ei_value_p90 l < ei_value_p90 r)"

definition sort_by_desc :: "OrderByType \<Rightarrow> event_info_t \<Rightarrow> event_info_t \<Rightarrow> bool" where
  "sort_by_desc btp l r = (\<not> sort_by btp l r)"

definition do_sort :: "event_info_t list \<Rightarrow> OrderByType \<Rightarrow> OrderType \<Rightarrow> event_info_t list option" where
  "do_sort info btp tp =
     (if btp = kOrderByNone then Some info
      else if tp = kOrderDesc then std_sort (sort_by_desc btp) info
      else std_sort (sort_by btp) info)"

lemma strict_weak_key: "(\<And>l r. lt l r = ((f l :: 'k::linorder) < f r)) \<Longrightarrow> strict_weak lt xs"
  by (auto simp: strict_weak_def)

lemma strict_weak_sort_by: "strict_weak (sort_by btp) xs"
  by (cases btp; simp only:; (rule strict_weak_key, rule sort_by.simps)?) (simp add: strict_weak_def)

lemma mset_ins_by [simp]: "mset (ins_by lt x xs) = add_mset x (mset xs)"
  by (induction xs) auto

lemma mset_foldr_ins_by [simp]: "mset (foldr (ins_by lt) xs ys) = mset xs + mset ys"
  by (induction xs) auto

lemma strict_weak_subset: "strict_weak lt xs \<Longrightarrow> set ys \<subseteq> set xs \<Longrightarrow> strict_weak lt ys"
  unfolding strict_weak_def by (meson subsetD)

lemma strict_weakD:
  assumes "strict_weak lt xs" "x \<in> set xs" "y \<in> set xs" "z \<in> set xs"
  shows "\<not> lt x x" "lt x y \<Longrightarrow> lt y z \<Longrightarrow> lt x z"
    "\<not> lt x y \<Longrightarrow> \<not> lt y x \<Longrightarrow> \<not> lt y z \<Longrightarrow> \<not> lt z y \<Longrightarrow> \<not> lt x z"
  using assms unfolding strict_weak_def by blast+

lemma set_ins_by [simp]: "set (ins_by lt x xs) = insert x (set xs)"
  by (induction xs) auto

lemma set_foldr_ins_by [simp]: "set (foldr (ins_by lt) xs ys) = set xs \<union> set ys"
  by (induction xs) auto

text \<open>A list without descents stays one when an element is inserted.\<close>

lemma ins_by_ordered:
  assumes "strict_weak lt (x # ys)" "sorted_wrt (\<lambda>a b. \<not> lt b a) ys"
  shows "sorted_wrt (\<lambda>a b. \<not> lt b a) (ins_by lt x ys)"
  using assms
proof (induction ys)
  case (Cons y ys)
  have "strict_weak lt (x # ys)" by (rule strict_weak_subset [OF Cons.prems(1)]) auto
  with Cons have IH: "sorted_wrt (\<lambda>a b. \<not> lt b a) (ins_by lt x ys)" by simp
  note sw = strict_weakD [OF Cons.prems(1)]
  show ?case
  proof (cases "lt y x")
    case True
    then have "\<not> lt x y" using sw(1) [of x] sw(2) [of x y x] by auto
    with True IH Cons.prems(2) show ?thesis by simp
  next
    case False
    have "\<not> lt z x" if "z \<in> set ys" for z
    proof -
      have "\<not> lt z y" using that Cons.prems(2) by simp
      with False that show ?thesis
        using sw(2) [of y z x] sw(2) [of z x y] sw(3) [of z y x] by auto
    qed
    with False Cons.prems(2) show ?thesis by simp
  qed
qed simp

lemma foldr_ins_by_ordered:
  "strict_weak lt xs \<Longrightarrow> sorted_wrt (\<lambda>a b. \<not> lt b a) (foldr (ins_by lt) xs [])"
proof (induction xs)
  case (Cons x xs)
  have "strict_weak lt (x # foldr (ins_by lt) xs [])" "strict_weak lt xs"
    by (rule strict_weak_subset [OF Cons.prems], auto)+
  with Cons.IH show ?case by (simp add: ins_by_ordered)
qed simp

lemma sorts_ascending:
  "\<exists>r. do_sort info btp kOrderAsc = Some r \<and> mset r = mset info \<and> sorted_wrt (\<lambda>a b. \<not> sort_by btp b a) r"
proof (cases "length info \<le> 1 \<or> btp = kOrderByNone")
  case True
  moreover have "sorted_wrt P info" if "length info \<le> 1" for P using that by (cases info) auto
  moreover have "sorted_wrt (\<lambda>a b. True) info" by (induction info) simp_all
  ultimately show ?thesis by (auto simp: do_sort_def std_sort_def)
next
  case False
  then show ?thesis
    using foldr_ins_by_ordered [OF strict_weak_sort_by, of btp info]
    by (simp add: do_sort_def std_sort_def strict_weak_sort_by)
qed

text \<open>
  Ascending sorts are defined and correct: the result is a permutation of the rows in which no row
  precedes one with a smaller sort field.
\<close>
theorem do_sort_asc:
  "\<exists>r. do_sort info btp kOrderAsc = Some r \<and> mset r = mset info \<and> sorted_wrt (\<lambda>a b. \<not> sort_by btp b a) r"
  by (rule sorts_ascending)

text \<open>
  Every descending sort of two or more rows calls \<open>std::sort\<close> with a comparator that is not a
  strict weak ordering (it holds of a row and itself): undefined behaviour.
\<close>
theorem do_sort_desc_undefined:
  "do_sort info btp kOrderDesc = None \<longleftrightarrow> btp \<noteq> kOrderByNone \<and> 2 \<le> length info"
proof -
  have "\<not> sort_by btp x x" for x by (cases btp) simp_all
  then have "\<not> strict_weak (sort_by_desc btp) info" if "info \<noteq> []"
    using that by (auto simp: strict_weak_def sort_by_desc_def neq_Nil_conv)
  moreover have "info \<noteq> []" if "2 \<le> length info" using that by auto
  ultimately show ?thesis by (auto simp: do_sort_def std_sort_def)
qed

end
