(* ===== verification/MonitorTask.thy ===== *)
theory MonitorTask
  imports EventTypes "HOL-Library.Countable"
begin

text \<open>
  The messages of \<open>source/Protocol/source/MonitorTask.proto\<close>: an optional field is an \<open>option\<close>, whose getter
  gives the default of its type when it is absent; a repeated field is a list. Serialisation is
  protobuf's, called through \<open>source/Core/ProtoBuf.h\<close>: the parameter \<open>pb_codec\<close>, with the hypothesis \<open>pb_ok\<close> that
  what was serialised parses back. Such serialisations exist: the messages are countable, so a message
  can be sent as the decimal digits of its number (\<open>digits_codec\<close>).
\<close>

text \<open>\<open>ServiceID::MONITOR_TASK_SERVICE\<close> of \<open>source/Protocol/Common.h\<close>.\<close>

definition MONITOR_TASK_SERVICE :: "16 word" where "MONITOR_TASK_SERVICE = 1"

section \<open>Messages\<close>

record pb_select_rq =
  sq_version :: string
  sq_service :: string
  sq_metric :: string
  sq_tm_interval :: int
  sq_tm_start :: "int option"
  sq_entity_idx :: "string option"
  sq_tag :: "string option"
  sq_groupby :: "int option"
  sq_orderby :: "int option"
  sq_orders :: "int option"
  sq_limit :: "int option"

record pb_read_request =
  rr_ping :: "string option"
  rr_select :: "pb_select_rq option"
  rr_metrics :: "(string \<times> string) option"
  rr_services :: "string option"

text \<open>\<open>ev_info_t\<close> has the fields of \<open>event_info_t\<close>.\<close>

record pb_select_rs =
  sr_version :: string
  sr_service :: string
  sr_timestamp :: int
  sr_metric :: string
  sr_tm_interval :: int
  sr_tm_start :: "int option"
  sr_entity_idx :: "string option"
  sr_tag :: "string option"
  sr_summary :: "event_info_t option"
  sr_info :: "event_info_t list"

record pb_metrics_rs =
  mr_version :: string
  mr_service :: string
  mr_event_step :: "int option"
  mr_event_linger :: "int option"
  mr_store_type :: "string option"
  mr_metric :: "string list"

record pb_read_response =
  rs_code :: "int option"
  rs_desc :: "string option"
  rs_ping :: "string option"
  rs_select :: "pb_select_rs option"
  rs_metrics :: "pb_metrics_rs option"
  rs_services :: "(string \<times> string list) option"

record pb_ev_data =
  pd_msgid :: int
  pd_metric :: string
  pd_value :: int
  pd_tag :: string

record pb_report =
  pr_version :: string
  pr_timestamp :: int
  pr_service :: string
  pr_entity_idx :: string
  pr_data :: "pb_ev_data list"

record pb_write_request =
  wr_report :: "pb_report option"

record pb_write_response =
  ws_code :: "int option"
  ws_desc :: "string option"

record pb_codec =
  marshal_read_request :: "pb_read_request \<Rightarrow> string"
  unmarshal_read_request :: "string \<Rightarrow> pb_read_request option"
  marshal_read_response :: "pb_read_response \<Rightarrow> string"
  unmarshal_read_response :: "string \<Rightarrow> pb_read_response option"
  marshal_write_request :: "pb_write_request \<Rightarrow> string"
  unmarshal_write_request :: "string \<Rightarrow> pb_write_request option"
  marshal_write_response :: "pb_write_response \<Rightarrow> string"
  unmarshal_write_response :: "string \<Rightarrow> pb_write_response option"

definition pb_ok :: "pb_codec \<Rightarrow> bool" where
  "pb_ok pb \<longleftrightarrow>
     (\<forall>m. unmarshal_read_request pb (marshal_read_request pb m) = Some m) \<and>
     (\<forall>m. unmarshal_read_response pb (marshal_read_response pb m) = Some m) \<and>
     (\<forall>m. unmarshal_write_request pb (marshal_write_request pb m) = Some m) \<and>
     (\<forall>m. unmarshal_write_response pb (marshal_write_response pb m) = Some m)"

definition CMD_READ_EVENT :: "16 word" where "CMD_READ_EVENT = 1"
definition CMD_WRIT_EVENT :: "16 word" where "CMD_WRIT_EVENT = 2"

lemma pb_okD:
  assumes "pb_ok pb"
  shows "unmarshal_read_request pb (marshal_read_request pb q) = Some q"
    "unmarshal_read_response pb (marshal_read_response pb r) = Some r"
    "unmarshal_write_request pb (marshal_write_request pb w) = Some w"
    "unmarshal_write_response pb (marshal_write_response pb v) = Some v"
  using assms by (auto simp: pb_ok_def)

section \<open>Messages are countable\<close>

instance event_info_t_ext :: (countable) countable
proof (rule countable_classI)
  fix x y :: "'a event_info_t_scheme"
  let ?f = "\<lambda>x :: 'a event_info_t_scheme.
         (ei_timestamp x, ei_tag x, ei_count x, ei_value_sum x, ei_value_avg x, ei_value_min x, ei_value_max
         x, ei_value_p10 x, ei_value_p50 x, ei_value_p90 x, event_info_t.more x)"
  assume "to_nat (?f x) = to_nat (?f y)"
  then show "x = y" by simp
qed

instance pb_select_rq_ext :: (countable) countable
proof (rule countable_classI)
  fix x y :: "'a pb_select_rq_scheme"
  let ?f = "\<lambda>x :: 'a pb_select_rq_scheme.
         (sq_version x, sq_service x, sq_metric x, sq_tm_interval x, sq_tm_start x, sq_entity_idx x, sq_tag
         x, sq_groupby x, sq_orderby x, sq_orders x, sq_limit x, pb_select_rq.more x)"
  assume "to_nat (?f x) = to_nat (?f y)"
  then show "x = y" by simp
qed

instance pb_read_request_ext :: (countable) countable
proof (rule countable_classI)
  fix x y :: "'a pb_read_request_scheme"
  let ?f = "\<lambda>x :: 'a pb_read_request_scheme.
         (rr_ping x, rr_select x, rr_metrics x, rr_services x, pb_read_request.more x)"
  assume "to_nat (?f x) = to_nat (?f y)"
  then show "x = y" by simp
qed

instance pb_select_rs_ext :: (countable) countable
proof (rule countable_classI)
  fix x y :: "'a pb_select_rs_scheme"
  let ?f = "\<lambda>x :: 'a pb_select_rs_scheme.
         (sr_version x, sr_service x, sr_timestamp x, sr_metric x, sr_tm_interval x, sr_tm_start x,
         sr_entity_idx x, sr_tag x, sr_summary x, sr_info x, pb_select_rs.more x)"
  assume "to_nat (?f x) = to_nat (?f y)"
  then show "x = y" by simp
qed

instance pb_metrics_rs_ext :: (countable) countable
proof (rule countable_classI)
  fix x y :: "'a pb_metrics_rs_scheme"
  let ?f = "\<lambda>x :: 'a pb_metrics_rs_scheme.
         (mr_version x, mr_service x, mr_event_step x, mr_event_linger x, mr_store_type x, mr_metric x,
         pb_metrics_rs.more x)"
  assume "to_nat (?f x) = to_nat (?f y)"
  then show "x = y" by simp
qed

instance pb_read_response_ext :: (countable) countable
proof (rule countable_classI)
  fix x y :: "'a pb_read_response_scheme"
  let ?f = "\<lambda>x :: 'a pb_read_response_scheme.
         (rs_code x, rs_desc x, rs_ping x, rs_select x, rs_metrics x, rs_services x, pb_read_response.more x)"
  assume "to_nat (?f x) = to_nat (?f y)"
  then show "x = y" by simp
qed

instance pb_ev_data_ext :: (countable) countable
proof (rule countable_classI)
  fix x y :: "'a pb_ev_data_scheme"
  let ?f = "\<lambda>x :: 'a pb_ev_data_scheme.
         (pd_msgid x, pd_metric x, pd_value x, pd_tag x, pb_ev_data.more x)"
  assume "to_nat (?f x) = to_nat (?f y)"
  then show "x = y" by simp
qed

instance pb_report_ext :: (countable) countable
proof (rule countable_classI)
  fix x y :: "'a pb_report_scheme"
  let ?f = "\<lambda>x :: 'a pb_report_scheme.
         (pr_version x, pr_timestamp x, pr_service x, pr_entity_idx x, pr_data x, pb_report.more x)"
  assume "to_nat (?f x) = to_nat (?f y)"
  then show "x = y" by simp
qed

instance pb_write_request_ext :: (countable) countable
proof (rule countable_classI)
  fix x y :: "'a pb_write_request_scheme"
  let ?f = "\<lambda>x :: 'a pb_write_request_scheme.
         (wr_report x, pb_write_request.more x)"
  assume "to_nat (?f x) = to_nat (?f y)"
  then show "x = y" by simp
qed

instance pb_write_response_ext :: (countable) countable
proof (rule countable_classI)
  fix x y :: "'a pb_write_response_scheme"
  let ?f = "\<lambda>x :: 'a pb_write_response_scheme.
         (ws_code x, ws_desc x, pb_write_response.more x)"
  assume "to_nat (?f x) = to_nat (?f y)"
  then show "x = y" by simp
qed

section \<open>A codec\<close>

definition digits_codec :: pb_codec where
  "digits_codec =
     \<lparr>marshal_read_request = \<lambda>m. dec_nat (to_nat m), unmarshal_read_request = \<lambda>s. Some (from_nat (digits_val s)),
      marshal_read_response = \<lambda>m. dec_nat (to_nat m), unmarshal_read_response = \<lambda>s. Some (from_nat (digits_val s)),
      marshal_write_request = \<lambda>m. dec_nat (to_nat m), unmarshal_write_request = \<lambda>s. Some (from_nat (digits_val s)),
      marshal_write_response = \<lambda>m. dec_nat (to_nat m), unmarshal_write_response = \<lambda>s. Some (from_nat (digits_val s))\<rparr>"

lemma digits_codec_ok: "pb_ok digits_codec"
  by (simp add: pb_ok_def digits_codec_def digits_val_dec_nat)

lemma digits_codec_nonempty:
  "marshal_read_request digits_codec q \<noteq> []" "marshal_write_request digits_codec w \<noteq> []"
  by (simp_all add: digits_codec_def)

end
