(* ===== verification/MonitorRpcClientHelper.thy ===== *)
theory MonitorRpcClientHelper
  imports RpcClient MonitorTask
begin

text \<open>
  \<open>source/Client/MonitorRpcClientHelper.cpp\<close>: the monitor service's requests as functions of the
  client library. Each one builds a protobuf message, makes a call without a time limit over
  one \<open>RpcClient\<close> that is created at the first call, and takes the answer apart.

  An output argument is a value that is passed in and returned, changed or not. The
  serialisation is the parameter \<open>pb\<close>; every message built here has its required fields, so
  \<open>marshalling_to_string\<close> does not fail.
\<close>

record MonitorRpcClientHelper =
  mh_ip :: string
  mh_port :: "16 word"
  mh_rpc_client :: "RpcClient option"

definition mk_MonitorRpcClientHelper :: "string \<Rightarrow> 16 word \<Rightarrow> MonitorRpcClientHelper" where
  "mk_MonitorRpcClientHelper ip port = \<lparr>mh_ip = ip, mh_port = port, mh_rpc_client = None\<rparr>"

text \<open>
  The steps every request shares: create the client if there is none (\<open>IoService::init\<close> always
  succeeds), call, and give up on any status but \<open>OK\<close>.
\<close>

definition helper_call ::
    "net_env \<Rightarrow> 16 word \<Rightarrow> string \<Rightarrow> MonitorRpcClientHelper \<Rightarrow> (string option \<times> MonitorRpcClientHelper) blocking" where
  "helper_call ne op mar_str h =
     (let rc = (case mh_rpc_client h of
                  Some rc \<Rightarrow> rc
                | None \<Rightarrow> mk_RpcClient_addr True (mh_ip h) (mh_port h))
      in and_then (call_RPC ne MONITOR_TASK_SERVICE op mar_str rc) (\<lambda>(status, response_str, rc').
           Returned (if status \<noteq> client_code RC_OK then None
                     else Some (case response_str of None \<Rightarrow> [] | Some s \<Rightarrow> s),
                     h\<lparr>mh_rpc_client := Some rc'\<rparr>)))"

text \<open>A read request and the answer's code: \<open>None\<close> stands for every \<open>return -1\<close>.\<close>

definition read_response :: "pb_codec \<Rightarrow> string option \<Rightarrow> pb_read_response option" where
  "read_response pb s =
     (case s of
        None \<Rightarrow> None
      | Some response_str \<Rightarrow>
          (case unmarshal_read_response pb response_str of
             None \<Rightarrow> None
           | Some response \<Rightarrow> if rs_code response \<noteq> Some 0 then None else Some response))"

definition empty_read_request :: pb_read_request where
  "empty_read_request = \<lparr>rr_ping = None, rr_select = None, rr_metrics = None, rr_services = None\<rparr>"

definition rpc_ping ::
    "pb_codec \<Rightarrow> net_env \<Rightarrow> MonitorRpcClientHelper \<Rightarrow> (int \<times> MonitorRpcClientHelper) blocking" where
  "rpc_ping pb ne h =
     (let request = empty_read_request\<lparr>rr_ping := Some ''ping''\<rparr>
      in and_then (helper_call ne CMD_READ_EVENT (marshal_read_request pb request) h) (\<lambda>(s, h').
           Returned (case read_response pb s of
                       None \<Rightarrow> -1
                     | Some response \<Rightarrow>
                         if (case rs_ping response of None \<Rightarrow> [] | Some m \<Rightarrow> m) = ''[[[pong]]]'' then 0 else -1,
                     h')))"

definition pb_of_report :: "event_report_t \<Rightarrow> pb_report" where
  "pb_of_report report =
     \<lparr>pr_version = er_version report, pr_timestamp = er_timestamp report, pr_service = er_service report,
      pr_entity_idx = er_entity_idx report,
      pr_data = map (\<lambda>d. \<lparr>pd_msgid = ed_msgid d, pd_metric = ed_metric d, pd_value = ed_value d, pd_tag = ed_tag d\<rparr>)
                  (er_data report)\<rparr>"

definition rpc_event_submit ::
    "pb_codec \<Rightarrow> net_env \<Rightarrow> event_report_t \<Rightarrow> MonitorRpcClientHelper \<Rightarrow> (int \<times> MonitorRpcClientHelper) blocking" where
  "rpc_event_submit pb ne report h =
     (if er_version report = [] \<or> er_service report = [] \<or> er_timestamp report \<le> 0 then Returned (-1, h)
      else
        let request = \<lparr>wr_report = Some (pb_of_report report)\<rparr>
        in and_then (helper_call ne CMD_WRIT_EVENT (marshal_write_request pb request) h) (\<lambda>(s, h').
             Returned (case s of
                         None \<Rightarrow> -1
                       | Some response_str \<Rightarrow>
                           (case unmarshal_write_response pb response_str of
                              None \<Rightarrow> -1
                            | Some response \<Rightarrow> if ws_code response \<noteq> Some 0 then -1 else 0),
                       h')))"

text \<open>The enumerators as the numbers they are cast to.\<close>

fun groupby_code :: "GroupType \<Rightarrow> int" where
  "groupby_code kGroupNone = 0"
| "groupby_code kGroupbyTimestamp = 1"
| "groupby_code kGroupbyTag = 2"

fun orderby_code :: "OrderByType \<Rightarrow> int" where
  "orderby_code kOrderByNone = 0"
| "orderby_code kOrderByTimestamp = 1"
| "orderby_code kOrderByTag = 2"
| "orderby_code kOrderByCount = 3"
| "orderby_code kOrderBySum = 4"
| "orderby_code kOrderByAvg = 5"
| "orderby_code kOrderByMin = 6"
| "orderby_code kOrderByMax = 7"
| "orderby_code kOrderByP10 = 8"
| "orderby_code kOrderByP50 = 9"
| "orderby_code kOrderByP90 = 10"

fun orders_code :: "OrderType \<Rightarrow> int" where
  "orders_code kOrderDesc = 0"
| "orders_code kOrderAsc = 1"

definition select_of_cond :: "event_cond_t \<Rightarrow> pb_select_rq" where
  "select_of_cond cond =
     \<lparr>sq_version = ec_version cond, sq_service = ec_service cond, sq_metric = ec_metric cond,
      sq_tm_interval = ec_tm_interval cond, sq_tm_start = Some (ec_tm_start cond),
      sq_entity_idx = Some (ec_entity_idx cond), sq_tag = Some (ec_tag cond),
      sq_groupby = Some (groupby_code (ec_groupby cond)), sq_orderby = Some (orderby_code (ec_orderby cond)),
      sq_orders = Some (orders_code (ec_orders cond)), sq_limit = Some (ec_limit cond)\<rparr>"

text \<open>An absent sub-message reads as its type's default instance.\<close>

definition default_select_rs :: pb_select_rs where
  "default_select_rs =
     \<lparr>sr_version = '''', sr_service = '''', sr_timestamp = 0, sr_metric = '''', sr_tm_interval = 0,
      sr_tm_start = None, sr_entity_idx = None, sr_tag = None, sr_summary = None, sr_info = []\<rparr>"

definition info_of_pb :: "GroupType \<Rightarrow> event_info_t \<Rightarrow> event_info_t" where
  "info_of_pb g p =
     (case g of
        kGroupbyTimestamp \<Rightarrow> p\<lparr>ei_tag := ''''\<rparr>
      | kGroupbyTag \<Rightarrow> p\<lparr>ei_timestamp := 0\<rparr>
      | kGroupNone \<Rightarrow> p\<lparr>ei_timestamp := 0, ei_tag := ''''\<rparr>)"

text \<open>The summary's own time and tag are not copied.\<close>

definition select_result :: "event_cond_t \<Rightarrow> pb_read_response \<Rightarrow> event_select_t \<Rightarrow> event_select_t" where
  "select_result cond response resp_info =
     (let sel = (case rs_select response of None \<Rightarrow> default_select_rs | Some sel \<Rightarrow> sel);
          sm = (case sr_summary sel of None \<Rightarrow> zero_info | Some sm \<Rightarrow> sm);
          r1 = resp_info
                 \<lparr>es_version := sr_version sel, es_service := sr_service sel, es_timestamp := sr_timestamp sel,
                  es_metric := sr_metric sel, es_tm_interval := sr_tm_interval sel,
                  es_entity_idx := (case sr_entity_idx sel of None \<Rightarrow> [] | Some e \<Rightarrow> e),
                  es_tag := (case sr_tag sel of None \<Rightarrow> [] | Some t \<Rightarrow> t),
                  es_summary := sm\<lparr>ei_timestamp := ei_timestamp (es_summary resp_info),
                                   ei_tag := ei_tag (es_summary resp_info)\<rparr>\<rparr>
      in if ec_groupby cond \<noteq> kGroupNone
         then r1\<lparr>es_info := map (info_of_pb (ec_groupby cond)) (sr_info sel)\<rparr>
         else r1)"

definition rpc_event_select ::
    "pb_codec \<Rightarrow> net_env \<Rightarrow> event_cond_t \<Rightarrow> event_select_t \<Rightarrow> MonitorRpcClientHelper \<Rightarrow>
     (int \<times> event_select_t \<times> MonitorRpcClientHelper) blocking" where
  "rpc_event_select pb ne cond resp_info h =
     (if ec_version cond = [] \<or> ec_service cond = [] \<or> ec_metric cond = [] \<or> ec_tm_interval cond < 0
      then Returned (-1, resp_info, h)
      else
        let request = empty_read_request\<lparr>rr_select := Some (select_of_cond cond)\<rparr>
        in and_then (helper_call ne CMD_READ_EVENT (marshal_read_request pb request) h) (\<lambda>(s, h').
             Returned (case read_response pb s of
                         None \<Rightarrow> (-1, resp_info, h')
                       | Some response \<Rightarrow> (0, select_result cond response resp_info, h'))))"

text \<open>\<open>event_handler_conf_t\<close> of \<open>source/Business/EventTypes.h\<close>.\<close>

record event_handler_conf_t =
  hc_event_linger :: int
  hc_event_step :: int
  hc_store_type :: string

definition rpc_known_metrics ::
    "pb_codec \<Rightarrow> net_env \<Rightarrow> string \<Rightarrow> string \<Rightarrow> event_handler_conf_t \<Rightarrow> string list \<Rightarrow> MonitorRpcClientHelper \<Rightarrow>
     (int \<times> event_handler_conf_t \<times> string list \<times> MonitorRpcClientHelper) blocking" where
  "rpc_known_metrics pb ne ver service hc metrics h =
     (if service = [] then Returned (-1, hc, metrics, h)
      else
        let request = empty_read_request\<lparr>rr_metrics := Some (ver, service)\<rparr>
        in and_then (helper_call ne CMD_READ_EVENT (marshal_read_request pb request) h) (\<lambda>(s, h').
             Returned (case read_response pb s of
                         None \<Rightarrow> (-1, hc, metrics, h')
                       | Some response \<Rightarrow>
                           (case rs_metrics response of
                              None \<Rightarrow> (-1, hc, metrics, h')
                            | Some m \<Rightarrow>
                                if mr_service m \<noteq> service then (-1, hc, metrics, h')
                                else
                                  (0,
                                   (case mr_event_step m of
                                      None \<Rightarrow> hc
                                    | Some step \<Rightarrow>
                                        \<lparr>hc_event_linger = (case mr_event_linger m of None \<Rightarrow> 0 | Some l \<Rightarrow> l),
                                         hc_event_step = step,
                                         hc_store_type = (case mr_store_type m of None \<Rightarrow> [] | Some t \<Rightarrow> t)\<rparr>),
                                   metrics @ mr_metric m, h')))))"

definition rpc_known_services ::
    "pb_codec \<Rightarrow> net_env \<Rightarrow> string \<Rightarrow> string list \<Rightarrow> MonitorRpcClientHelper \<Rightarrow>
     (int \<times> string list \<times> MonitorRpcClientHelper) blocking" where
  "rpc_known_services pb ne ver svs h =
     (let request = empty_read_request\<lparr>rr_services := Some ver\<rparr>
      in and_then (helper_call ne CMD_READ_EVENT (marshal_read_request pb request) h) (\<lambda>(s, h').
           Returned (case read_response pb s of
                       None \<Rightarrow> (-1, svs, h')
                     | Some response \<Rightarrow>
                         (0, svs @ (case rs_services response of None \<Rightarrow> [] | Some (_, l) \<Rightarrow> l), h'))))"

section \<open>One request\<close>

definition helper_client :: "MonitorRpcClientHelper \<Rightarrow> RpcClient" where
  "helper_client h =
     (case mh_rpc_client h of Some rc \<Rightarrow> rc | None \<Rightarrow> mk_RpcClient_addr True (mh_ip h) (mh_port h))"

abbreviation helper_impl :: "MonitorRpcClientHelper \<Rightarrow> RpcClientImpl" where
  "helper_impl h \<equiv> the (rpc_impl (helper_client h))"

text \<open>The helper can make a call of \<open>n\<close> bytes over a network that carries it.\<close>

definition helper_ready :: "net_env \<Rightarrow> nat \<Rightarrow> MonitorRpcClientHelper \<Rightarrow> bool" where
  "helper_ready ne n h \<longleftrightarrow>
     rpc_initialized (helper_client h) \<and> rpc_impl (helper_client h) \<noteq> None \<and> can_call ne (helper_impl h) \<and>
     fits (cs_send_max_msg_size (rc_setting (helper_impl h))) (n + 16) \<and>
     ne_writes ne = replicate (block_count (n + 32)) NoError \<and>
     undisturbed (fires_sending ne) 0 (helper_impl h) \<and> undisturbed (fires_receiving ne) 0 (helper_impl h)"

text \<open>What the helper's call of an operation puts on the wire.\<close>

definition helper_bytes :: "net_env \<Rightarrow> 16 word \<Rightarrow> string \<Rightarrow> MonitorRpcClientHelper \<Rightarrow> string" where
  "helper_bytes ne op s h = call_bytes ne MONITOR_TASK_SERVICE op s 0 (helper_impl h)"

lemma helper_bytes_frame:
  "helper_ready ne (length s) h \<Longrightarrow> helper_bytes ne op s h = request_frame MONITOR_TASK_SERVICE op s"
  unfolding helper_bytes_def helper_ready_def by (rule call_bytes_frame [OF _ _ order_refl]) auto

text \<open>The bytes that the helper's connection has carried.\<close>

definition helper_wire :: "MonitorRpcClientHelper \<Rightarrow> string" where
  "helper_wire h = wire (current_conn (helper_impl h))"

text \<open>The reads of the call bring exactly the frame of a message.\<close>

definition brings :: "net_env \<Rightarrow> MonitorRpcClientHelper \<Rightarrow> Message \<Rightarrow> bool" where
  "brings ne h m \<longleftrightarrow>
     m = mk_Message (payload m) \<and> reads_ok (ne_reads ne) \<and> received (ne_reads ne) = Message_net_str m \<and>
     fits (cs_recv_max_msg_size (rc_setting (helper_impl h))) (length (payload m))"

lemma helper_fresh:
  "rpc_initialized (helper_client (mk_MonitorRpcClientHelper ip port))"
  "rpc_impl (helper_client (mk_MonitorRpcClientHelper ip port)) =
     Some (mk_RpcClientImpl (default_setting\<lparr>serv_addr := ip, serv_port := ucast port\<rparr>))"
  by (simp_all add: helper_client_def mk_MonitorRpcClientHelper_def mk_RpcClient_addr_def rpc_init_addr_def
      empty_RpcClient_def Let_def)

lemma helper_call_exchange:
  assumes "helper_ready ne (length s) h" "brings ne h m"
  shows "\<exists>h'. helper_call ne op s h =
           Returned (case check_response MONITOR_TASK_SERVICE op (payload m) of
                       (st, resp) \<Rightarrow> if st \<noteq> client_code RC_OK then None
                                    else Some (case resp of None \<Rightarrow> [] | Some r \<Rightarrow> r), h') \<and>
           helper_wire h' = helper_wire h @ helper_bytes ne op s h \<and>
           conn_idle (current_conn (helper_impl h'))"
proof -
  obtain r where impl: "rpc_impl (helper_client h) = Some r" using assms(1) by (auto simp: helper_ready_def)
  let ?p = "payload m" and ?r' = "exchanged ne MONITOR_TASK_SERVICE op s 0 (payload m) r"
  let ?h = "h\<lparr>mh_rpc_client := Some ((helper_client h)\<lparr>rpc_impl := Some ?r'\<rparr>)\<rparr>"
  obtain st resp where cr: "check_response MONITOR_TASK_SERVICE op ?p = (st, resp)" by force
  have "impl_call_RPC ne MONITOR_TASK_SERVICE op s 0 r =
      (case check_response MONITOR_TASK_SERVICE op ?p of (st, resp) \<Rightarrow> Returned (st, resp, ?r'))"
    by (rule impl_call_exchange)
      (use assms impl in \<open>auto simp: helper_ready_def brings_def\<close>)
  then have "helper_call ne op s h =
      Returned (if st \<noteq> client_code RC_OK then None else Some (case resp of None \<Rightarrow> [] | Some r \<Rightarrow> r), ?h)"
    using assms(1) impl cr
    by (simp add: helper_call_def call_RPC_def helper_ready_def Let_def flip: helper_client_def)
  moreover have h: "helper_impl ?h = ?r'" by (simp add: helper_client_def)
  moreover have "conn_idle (current_conn ?r')"
    using exchanged_idle(1) [of ne r MONITOR_TASK_SERVICE op s 0 ?p] assms(1) impl
    by (simp add: helper_ready_def current_conn_def exchanged_def)
  moreover have "wire (current_conn ?r') = wire (current_conn r) @ request_frame MONITOR_TASK_SERVICE op s"
    by (simp add: exchanged_def current_conn_def [of "_\<lparr>rc_conn := Some _\<rparr>"] requested_def)
  ultimately show ?thesis
    using cr impl helper_bytes_frame [OF assms(1)] by (intro exI [of _ ?h]) (simp add: helper_wire_def)
qed

lemma GroupType_of_code [simp]: "GroupType_of (groupby_code g) = Some g"
  by (cases g) (simp_all add: GroupType_of_def)

lemma OrderByType_of_code [simp]: "OrderByType_of (orderby_code b) = Some b"
  by (cases b) (simp_all add: OrderByType_of_def)

lemma OrderType_of_code [simp]: "OrderType_of (orders_code t) = Some t"
  by (cases t) (simp_all add: OrderType_of_def)

end
