(* ===== verification/EQueue.thy ===== *)
theory EQueue
  imports Prelude
begin

text \<open>
  \<open>source/Utils/EQueue.h\<close>: the blocking queue that every producer/consumer pair of the
  program shares (the event handler's process queue, the executor's RPC queue, the
  client's submit queue, the support tasks).

  Every operation runs under the queue's mutex, so one operation is one atomic step on
  the \<open>std::deque\<close> \<open>items\<close>. Waiting on the condition variable releases the mutex: what
  happens meanwhile is the list of wake-ups the environment delivers, each with the
  items that other threads pushed before it and whether the deadline has passed; an
  empty push is a spurious wake-up.
\<close>

record 'a equeue =
  items :: "'a list"

record 'a wakeup =
  pushed :: "'a list"
  timed_out :: bool

definition empty_queue :: "'a equeue" where
  "empty_queue = \<lparr>items = []\<rparr>"

definition PUSH :: "'a \<Rightarrow> 'a equeue \<Rightarrow> 'a equeue" where
  "PUSH t q = q\<lparr>items := items q @ [t]\<rparr>"

definition PUSH_range :: "'a list \<Rightarrow> 'a equeue \<Rightarrow> 'a equeue" where
  "PUSH_range ts q = q\<lparr>items := items q @ ts\<rparr>"

text \<open>The unbounded wait: \<open>None\<close> while no wake-up brings an item.\<close>

fun wait_forever :: "'a wakeup list \<Rightarrow> 'a equeue \<Rightarrow> 'a equeue option" where
  "wait_forever ws q =
     (if items q \<noteq> [] then Some q
      else (case ws of
              [] \<Rightarrow> None
            | w # ws' \<Rightarrow> wait_forever ws' (PUSH_range (pushed w) q)))"

text \<open>The wait with a deadline: stop when items are there or the wait timed out.\<close>

fun wait_until :: "'a wakeup list \<Rightarrow> 'a equeue \<Rightarrow> 'a equeue" where
  "wait_until ws q =
     (if items q \<noteq> [] then q
      else (case ws of
              [] \<Rightarrow> q
            | w # ws' \<Rightarrow>
                (let q' = PUSH_range (pushed w) q
                 in if timed_out w then q' else wait_until ws' q')))"

declare wait_forever.simps [simp del] wait_until.simps [simp del]

definition pop_front :: "'a equeue \<Rightarrow> 'a option \<times> 'a equeue" where
  "pop_front q =
     (case items q of
        [] \<Rightarrow> (None, q)
      | t # ts \<Rightarrow> (Some t, q\<lparr>items := ts\<rparr>))"

definition POP :: "'a wakeup list \<Rightarrow> 'a equeue \<Rightarrow> ('a \<times> 'a equeue) option" where
  "POP ws q =
     (case wait_forever ws q of
        None \<Rightarrow> None
      | Some q' \<Rightarrow>
          (case pop_front q' of
             (None, _) \<Rightarrow> None
           | (Some t, q'') \<Rightarrow> Some (t, q'')))"

text \<open>\<open>TRY_POP\<close>: the returned vector replaces the caller's only when items were there.\<close>

definition TRY_POP :: "'a list \<Rightarrow> 'a equeue \<Rightarrow> nat \<times> 'a list \<times> 'a equeue" where
  "TRY_POP vec q =
     (if items q = [] then (0, vec, q)
      else (length (items q), items q, q\<lparr>items := []\<rparr>))"

text \<open>
  \<open>POP(vec, max_count, msec)\<close>: the \<open>do\<close>/\<open>while\<close> loop takes one item before it looks at
  \<open>max_count\<close>.
\<close>

fun pop_loop :: "nat \<Rightarrow> nat \<Rightarrow> 'a list \<Rightarrow> 'a list \<Rightarrow> nat \<times> 'a list \<times> 'a list" where
  "pop_loop ret_count max_count vec [] = (ret_count, vec, [])"
| "pop_loop ret_count max_count vec (t # ts) =
     (let vec' = vec @ [t]; n = Suc ret_count
      in if n < max_count \<and> ts \<noteq> [] then pop_loop n max_count vec' ts else (n, vec', ts))"

definition POP_batch :: "'a wakeup list \<Rightarrow> 'a list \<Rightarrow> nat \<Rightarrow> 'a equeue \<Rightarrow> nat \<times> 'a list \<times> 'a equeue" where
  "POP_batch ws vec max_count q =
     (let q' = wait_until ws q
      in if items q' = [] then (0, vec, q')
         else (let (n, vec', rest) = pop_loop 0 max_count vec (items q')
               in (n, vec', q'\<lparr>items := rest\<rparr>)))"

definition POP_timed :: "'a wakeup list \<Rightarrow> 'a equeue \<Rightarrow> 'a option \<times> 'a equeue" where
  "POP_timed ws q = pop_front (wait_until ws q)"

definition UNIQUE_PUSH :: "'a \<Rightarrow> 'a equeue \<Rightarrow> bool \<times> 'a equeue" where
  "UNIQUE_PUSH t q =
     (if t \<in> set (items q) then (False, q) else (True, q\<lparr>items := items q @ [t]\<rparr>))"

definition SIZE :: "'a equeue \<Rightarrow> nat" where
  "SIZE q = length (items q)"

definition EMPTY :: "'a equeue \<Rightarrow> bool" where
  "EMPTY q \<longleftrightarrow> items q = []"

text \<open>\<open>SHRINK_FRONT(sz)\<close>: keep the last \<open>sz\<close> items, return how many were dropped.\<close>

definition SHRINK_FRONT :: "nat \<Rightarrow> 'a equeue \<Rightarrow> nat \<times> 'a equeue" where
  "SHRINK_FRONT sz q =
     (let orig_sz = length (items q)
      in if orig_sz \<le> sz then (0, q)
         else (let kept = drop (orig_sz - sz) (items q)
               in (orig_sz - length kept, q\<lparr>items := kept\<rparr>)))"

text \<open>
  A sequence of operations by any threads. \<open>taken\<close> is what one operation hands to its
  caller, \<open>given\<close> what it (or, during its wait, another thread) puts into the queue.
\<close>

datatype 'a qop =
    QPush 'a
  | QPushRange "'a list"
  | QTryPop
  | QPopBatch "'a wakeup list" nat
  | QPopTimed "'a wakeup list"
  | QUniquePush 'a
  | QShrink nat

definition arrived :: "'a wakeup list \<Rightarrow> 'a equeue \<Rightarrow> 'a list" where
  "arrived ws q = drop (length (items q)) (items (wait_until ws q))"

fun given :: "'a qop \<Rightarrow> 'a equeue \<Rightarrow> 'a list" where
  "given (QPush t) q = [t]"
| "given (QPushRange ts) q = ts"
| "given QTryPop q = []"
| "given (QPopBatch ws n) q = arrived ws q"
| "given (QPopTimed ws) q = arrived ws q"
| "given (QUniquePush t) q = (if fst (UNIQUE_PUSH t q) then [t] else [])"
| "given (QShrink n) q = []"

fun qexec :: "'a qop \<Rightarrow> 'a equeue \<Rightarrow> 'a list \<times> 'a equeue" where
  "qexec (QPush t) q = ([], PUSH t q)"
| "qexec (QPushRange ts) q = ([], PUSH_range ts q)"
| "qexec QTryPop q = (let (n, vec, q') = TRY_POP [] q in (vec, q'))"
| "qexec (QPopBatch ws n) q = (let (k, vec, q') = POP_batch ws [] n q in (vec, q'))"
| "qexec (QPopTimed ws) q =
     (let (r, q') = POP_timed ws q in (case r of None \<Rightarrow> [] | Some t \<Rightarrow> [t], q'))"
| "qexec (QUniquePush t) q = ([], snd (UNIQUE_PUSH t q))"
| "qexec (QShrink n) q = (take (length (items q) - n) (items q), snd (SHRINK_FRONT n q))"

fun qrun :: "'a qop list \<Rightarrow> 'a equeue \<Rightarrow> 'a list \<times> 'a list \<times> 'a equeue" where
  "qrun [] q = ([], [], q)"
| "qrun (op # ops) q =
     (let ins = given op q;
          (outs, q') = qexec op q;
          (ins', outs', q'') = qrun ops q'
      in (ins @ ins', outs @ outs', q''))"

section \<open>The queue contract\<close>

text \<open>
  What the clients of the queue rely on: a push appends at the back, a pop takes the front
  or finds the queue empty. FIFO delivery follows once and for all.
\<close>

locale fifo_queue =
  fixes push :: "'a \<Rightarrow> 'q \<Rightarrow> 'q"
    and pop :: "'q \<Rightarrow> 'a option \<times> 'q"
    and contents :: "'q \<Rightarrow> 'a list"
  assumes contents_push: "contents (push x q) = contents q @ [x]"
    and pop_Nil: "contents q = [] \<Longrightarrow> fst (pop q) = None \<and> contents (snd (pop q)) = []"
    and pop_Cons: "contents q = x # xs \<Longrightarrow> fst (pop q) = Some x \<and> contents (snd (pop q)) = xs"
begin

lemma contents_push_all: "contents (fold push xs q) = contents q @ xs"
  by (induction xs arbitrary: q) (simp_all add: contents_push)

lemma pop_fails_iff: "fst (pop q) = None \<longleftrightarrow> contents q = []"
  using pop_Nil pop_Cons by (cases "contents q") auto

lemma pop_contents: "contents q = (case fst (pop q) of None \<Rightarrow> [] | Some x \<Rightarrow> [x]) @ contents (snd (pop q))"
  using pop_Nil pop_Cons by (cases "contents q") auto

lemma push_pop_order:
  assumes "contents q = []" and "xs = y # ys"
  shows "fst (pop (fold push xs q)) = Some y \<and> contents (snd (pop (fold push xs q))) = ys"
  using assms contents_push_all [of xs q] by (intro pop_Cons) simp

end

interpretation eq: fifo_queue PUSH pop_front items
proof
  fix x :: 'a and q :: "'a equeue" and xs
  show "items (PUSH x q) = items q @ [x]" by (simp add: PUSH_def)
  show "items q = [] \<Longrightarrow> fst (pop_front q) = None \<and> items (snd (pop_front q)) = []"
    by (simp add: pop_front_def)
  show "items q = x # xs \<Longrightarrow> fst (pop_front q) = Some x \<and> items (snd (pop_front q)) = xs"
    by (simp add: pop_front_def)
qed


section \<open>What the operations do\<close>

lemma wait_until_items: "\<exists>ys. items (wait_until ws q) = items q @ ys"
proof (induction ws arbitrary: q)
  case Nil
  then show ?case by (simp add: wait_until.simps)
next
  case (Cons w ws)
  from Cons [of "PUSH_range (pushed w) q"] show ?case
    by (auto simp: wait_until.simps [of "w # ws"] PUSH_range_def Let_def)
qed

lemma items_wait_until: "items (wait_until ws q) = items q @ arrived ws q"
  using wait_until_items [of ws q] by (auto simp: arrived_def)

lemma wait_until_ready [simp]: "items q \<noteq> [] \<Longrightarrow> wait_until ws q = q"
  by (simp add: wait_until.simps)

lemma wait_until_Nil [simp]: "wait_until [] q = q"
  by (simp add: wait_until.simps)

lemma pop_loop_spec:
  "ts \<noteq> [] \<Longrightarrow> n = min (max 1 (m - c)) (length ts) \<Longrightarrow>
   pop_loop c m vec ts = (c + n, vec @ take n ts, drop n ts)"
proof (induction c m vec ts arbitrary: n rule: pop_loop.induct)
  case (1 c m vec)
  then show ?case by simp
next
  case (2 c m vec t ts)
  show ?case
  proof (cases "Suc c < m \<and> ts \<noteq> []")
    case True
    define k where "k = min (max 1 (m - Suc c)) (length ts)"
    have "m - c = Suc (m - Suc c)" and "max 1 (m - Suc c) = m - Suc c"
      using True by auto
    then have "n = Suc k" unfolding k_def "2.prems"(2) by simp
    moreover have "pop_loop (Suc c) m (vec @ [t]) ts = (Suc c + k, (vec @ [t]) @ take k ts, drop k ts)"
      using "2.IH" [OF refl refl _ _ k_def] True by blast
    ultimately show ?thesis using True by simp
  next
    case False
    then have "n = 1" using "2.prems"(2) by (cases ts) auto
    with False show ?thesis by auto
  qed
qed

lemma POP_batch_eq:
  "POP_batch ws vec max_count q =
     (let q' = wait_until ws q;
          n = (if items q' = [] then 0 else min (max 1 max_count) (length (items q')))
      in (n, vec @ take n (items q'), q'\<lparr>items := drop n (items q')\<rparr>))"
  by (simp add: POP_batch_def pop_loop_spec [OF _ refl] Let_def)

text \<open>
  \<open>EQueue::POP(vec, max_count, msec)\<close> appends the oldest
  \<open>min (max 1 max_count) n\<close> of the \<open>n\<close> items present when its wait ends, in queue order,
  returns their number and leaves exactly the rest; it returns 0 and keeps the caller's
  vector precisely when the wait ended with an empty queue.
\<close>
theorem POP_batch_spec:
  "POP_batch ws vec max_count q =
     (let q' = wait_until ws q;
          n = (if items q' = [] then 0 else min (max 1 max_count) (length (items q')))
      in (n, vec @ take n (items q'), q'\<lparr>items := drop n (items q')\<rparr>))"
  by (rule POP_batch_eq)

text \<open>
  \<open>EQueue::SHRINK_FRONT(sz)\<close> keeps exactly the newest \<open>min sz n\<close> items in order and
  returns the number of older items it discarded.
\<close>
lemma SHRINK_FRONT_spec:
  "SHRINK_FRONT sz q =
     (length (items q) - sz, q\<lparr>items := drop (length (items q) - sz) (items q)\<rparr>)"
  by (simp add: SHRINK_FRONT_def Let_def)

lemma qexec_conserves: "items q @ given op q = fst (qexec op q) @ items (snd (qexec op q))"
proof (cases op)
  case (QPopBatch ws n)
  then show ?thesis
    by (simp add: POP_batch_def pop_loop_spec [OF _ refl] Let_def flip: items_wait_until)
next
  case (QPopTimed ws)
  then show ?thesis
    using eq.pop_contents [of "wait_until ws q"]
    by (simp add: POP_timed_def split_beta items_wait_until)
qed (simp_all add: PUSH_def PUSH_range_def TRY_POP_def UNIQUE_PUSH_def SHRINK_FRONT_def Let_def)

text \<open>
  C30. No interleaving of queue operations loses, duplicates or reorders an item: what was
  in the queue followed by everything put into it is what was handed out (or discarded by
  a shrink), in that order, followed by what is still there.
\<close>
theorem qrun_conserves:
  "items q @ fst (qrun ops q) = fst (snd (qrun ops q)) @ items (snd (snd (qrun ops q)))"
proof (induction ops arbitrary: q)
  case Nil
  then show ?case by simp
next
  case (Cons op ops)
  obtain outs q' where e: "qexec op q = (outs, q')" by fastforce
  have "items q @ given op q = outs @ items q'"
    using qexec_conserves [of q op] by (simp add: e)
  then have "(items q @ given op q) @ fst (qrun ops q') = (outs @ items q') @ fst (qrun ops q')"
    by (simp only:)
  also have "\<dots> = outs @ fst (snd (qrun ops q')) @ items (snd (snd (qrun ops q')))"
    using Cons [of q'] by (simp only: append_assoc)
  finally show ?case by (simp add: e split_beta Let_def)
qed

text \<open>The bounded wait returns empty-handed only if nothing arrived before the time-out.\<close>

lemma POP_timed_None:
  "fst (POP_timed ws q) = None \<longleftrightarrow> items q = [] \<and> arrived ws q = []"
  by (simp add: POP_timed_def eq.pop_fails_iff items_wait_until)

lemma UNIQUE_PUSH_distinct: "distinct (items q) \<Longrightarrow> distinct (items (snd (UNIQUE_PUSH t q)))"
  by (simp add: UNIQUE_PUSH_def)

end
