(* ===== verification/HeraclesClient.thy ===== *)
theory HeraclesClient
  imports MonitorRpcClientHelper EQueue
begin

text \<open>
  \<open>source/Client/HeraclesClient.cpp\<close> and \<open>include/HeraclesClient.h\<close>: the library that programs
  use to report events. \<open>report_event\<close> collects the events of one second into a slot and
  queues the slot as a report when the second or the slot is over; one thread submits the
  queued reports.

  The singleton \<open>HeraclesClientImpl\<close> is a record that the functions take and return. The
  clock is an argument. \<open>dbg\<close> says whether \<open>assert\<close> is compiled in: it is in a debug build and
  not in the \<open>RelWithDebInfo\<close> one, and a failed one aborts (\<open>Crashed\<close>).
\<close>

record HeraclesClientConf =
  report_enabled :: bool
  report_queue_limit :: int
  size_per_report :: int

definition default_HeraclesClientConf :: HeraclesClientConf where
  "default_HeraclesClientConf = \<lparr>report_enabled = True, report_queue_limit = 0, size_per_report = 5000\<rparr>"

record HeraclesClientImpl =
  hi_client_agent :: "MonitorRpcClientHelper option"
  hi_thread_terminate :: bool
  hi_thread_run :: bool
  hi_msgid :: int
  hi_current_time :: int
  hi_current_slot :: "event_data_t list"
  hi_submit_queue :: "event_report_t equeue"
  hi_already_initialized :: bool
  hi_service :: string
  hi_entity_idx :: string
  hi_monitor_addr :: string
  hi_monitor_port :: "16 word"
  hi_conf :: HeraclesClientConf
  hi_cfgFile :: string

definition mk_HeraclesClientImpl :: "string \<Rightarrow> string \<Rightarrow> HeraclesClientImpl" where
  "mk_HeraclesClientImpl service entity_idx =
     \<lparr>hi_client_agent = None, hi_thread_terminate = False, hi_thread_run = False, hi_msgid = 0,
      hi_current_time = 0, hi_current_slot = [], hi_submit_queue = empty_queue,
      hi_already_initialized = False, hi_service = service, hi_entity_idx = entity_idx,
      hi_monitor_addr = [], hi_monitor_port = 0, hi_conf = default_HeraclesClientConf, hi_cfgFile = []\<rparr>"

definition destroy_HeraclesClientImpl :: "HeraclesClientImpl \<Rightarrow> HeraclesClientImpl" where
  "destroy_HeraclesClientImpl hi = hi\<lparr>hi_thread_terminate := True\<rparr>"

text \<open>\<open>instance()\<close>: the service name is the program's.\<close>

definition client_instance :: "string \<Rightarrow> HeraclesClientImpl" where
  "client_instance program_invocation_short_name = mk_HeraclesClientImpl program_invocation_short_name []"

section \<open>Starting and configuring\<close>

record monitor_cfg =
  mc_str :: "string \<Rightarrow> string option"
  mc_int :: "string \<Rightarrow> int option"
  mc_bool :: "string \<Rightarrow> bool option"

text \<open>\<open>init(service, entity_idx, addr, port, log_func)\<close>: first the fields, then the test call.\<close>

definition client_set_server ::
    "string \<Rightarrow> string \<Rightarrow> string \<Rightarrow> 16 word \<Rightarrow> HeraclesClientImpl \<Rightarrow> HeraclesClientImpl" where
  "client_set_server service entity_idx addr port hi =
     (let hi1 = (if service \<noteq> [] then hi\<lparr>hi_service := service\<rparr> else hi);
          hi2 = (if entity_idx \<noteq> [] then hi1\<lparr>hi_entity_idx := entity_idx\<rparr> else hi1)
      in hi2\<lparr>hi_monitor_addr := addr, hi_monitor_port := port\<rparr>)"

definition client_init_addr ::
    "pb_codec \<Rightarrow> net_env \<Rightarrow> string \<Rightarrow> string \<Rightarrow> string \<Rightarrow> 16 word \<Rightarrow> HeraclesClientImpl \<Rightarrow>
     (bool \<times> HeraclesClientImpl) blocking" where
  "client_init_addr pb ne service entity_idx addr port hi =
     (if hi_already_initialized hi then Returned (True, hi)
      else
        let hi3 = client_set_server service entity_idx addr port hi
        in if hi_service hi3 = [] \<or> hi_monitor_addr hi3 = [] \<or> hi_monitor_port hi3 = 0
           then Returned (False, hi3)
           else and_then (rpc_ping pb ne (mk_MonitorRpcClientHelper addr port)) (\<lambda>(ret, agent).
                  let hi4 = hi3\<lparr>hi_client_agent := Some agent\<rparr>
                  in Returned (if ret \<noteq> 0 then (False, hi4)
                               else (True, hi4\<lparr>hi_thread_run := True, hi_already_initialized := True\<rparr>))))"

text \<open>The values that \<open>init(setting, log_func)\<close> and \<open>module_runtime\<close> take over.\<close>

definition update_client_conf :: "monitor_cfg \<Rightarrow> HeraclesClientConf \<Rightarrow> HeraclesClientConf" where
  "update_client_conf g conf =
     (let c1 = (case mc_bool g ''report_enabled'' of None \<Rightarrow> conf | Some b \<Rightarrow> conf\<lparr>report_enabled := b\<rparr>);
          c2 = (case mc_int g ''report_queue_limit'' of
                  None \<Rightarrow> c1 | Some i \<Rightarrow> if i \<ge> 0 then c1\<lparr>report_queue_limit := i\<rparr> else c1)
      in (case mc_int g ''size_per_report'' of
            None \<Rightarrow> c2 | Some i \<Rightarrow> if i > 0 then c2\<lparr>size_per_report := i\<rparr> else c2))"

text \<open>\<open>init(setting, log_func)\<close>; the port is narrowed to \<open>uint16_t\<close>.\<close>

definition cfg_server :: "monitor_cfg \<Rightarrow> (string \<times> 16 word) option" where
  "cfg_server g =
     (case mc_str g ''serv_addr'' of
        None \<Rightarrow> None
      | Some addr \<Rightarrow>
          (case mc_int g ''serv_port'' of
             None \<Rightarrow> None
           | Some port \<Rightarrow> if addr = [] \<or> port \<le> 0 then None else Some (addr, word_of_int port)))"

definition cfg_string :: "monitor_cfg \<Rightarrow> string \<Rightarrow> string" where
  "cfg_string g key = (case mc_str g key of None \<Rightarrow> [] | Some s \<Rightarrow> s)"

definition client_init_setting ::
    "pb_codec \<Rightarrow> net_env \<Rightarrow> monitor_cfg \<Rightarrow> HeraclesClientImpl \<Rightarrow> (bool \<times> HeraclesClientImpl) blocking" where
  "client_init_setting pb ne g hi =
     (case cfg_server g of
        None \<Rightarrow> Returned (False, hi)
      | Some (addr, port) \<Rightarrow>
          client_init_addr pb ne (cfg_string g ''service'') (cfg_string g ''entity_idx'') addr port
            (hi\<lparr>hi_conf := update_client_conf g (hi_conf hi)\<rparr>))"

text \<open>
  \<open>init(cfgFile, log_func)\<close>: \<open>file\<close> gives the group \<open>rpc.monitor_client\<close> of a file that can be read
  and parsed and has one. An exception of the address parser is caught here, with the
  fields set and the agent and its client made.
\<close>

definition client_init_file ::
    "pb_codec \<Rightarrow> net_env \<Rightarrow> (string \<Rightarrow> monitor_cfg option) \<Rightarrow> string \<Rightarrow> HeraclesClientImpl \<Rightarrow>
     (bool \<times> HeraclesClientImpl) blocking" where
  "client_init_file pb ne file cfgFile hi =
     (let hi1 = hi\<lparr>hi_cfgFile := cfgFile\<rparr>
      in case file cfgFile of
           None \<Rightarrow> Returned (False, hi1)
         | Some g \<Rightarrow>
             (case client_init_setting pb ne g hi1 of
                Threw \<Rightarrow>
                  (case cfg_server g of
                     None \<Rightarrow> Returned (False, hi1)
                   | Some (addr, port) \<Rightarrow>
                       Returned (False,
                         (client_set_server (cfg_string g ''service'') (cfg_string g ''entity_idx'') addr port
                            (hi1\<lparr>hi_conf := update_client_conf g (hi_conf hi1)\<rparr>))
                         \<lparr>hi_client_agent := Some ((mk_MonitorRpcClientHelper addr port)
                            \<lparr>mh_rpc_client := Some (mk_RpcClient_addr True addr port)\<rparr>)\<rparr>))
              | r \<Rightarrow> r))"

definition client_init ::
    "pb_codec \<Rightarrow> net_env \<Rightarrow> (string \<Rightarrow> monitor_cfg option) \<Rightarrow> HeraclesClientImpl \<Rightarrow>
     (bool \<times> HeraclesClientImpl) blocking" where
  "client_init pb ne file hi =
     (if hi_cfgFile hi = [] then Returned (False, hi) else client_init_file pb ne file (hi_cfgFile hi) hi)"

text \<open>\<open>conf\<close>: the group \<open>rpc.monitor_client\<close>, if there is one.\<close>

definition client_module_runtime :: "monitor_cfg option \<Rightarrow> HeraclesClientImpl \<Rightarrow> int \<times> HeraclesClientImpl" where
  "client_module_runtime conf hi =
     (case conf of
        None \<Rightarrow> (-1, hi)
      | Some g \<Rightarrow> (0, hi\<lparr>hi_conf := update_client_conf g (hi_conf hi)\<rparr>))"

definition client_module_status :: "HeraclesClientImpl \<Rightarrow> int \<times> string \<times> string \<times> string" where
  "client_module_status hi =
     (let tab = [CHR 0x09]; nl = [CHR 0x0A]
      in (0, ''heracles_client'',
          hi_service hi @ (if hi_entity_idx hi \<noteq> [] then ''!'' @ hi_entity_idx hi else []),
          tab @ ''service: '' @ hi_service hi @ nl @
          tab @ ''entity_idx: '' @ hi_entity_idx hi @ nl @
          tab @ ''report_enable: '' @ (if report_enabled (hi_conf hi) then ''true'' else ''false'') @ nl @
          tab @ ''size_per_report: '' @ dec_int (size_per_report (hi_conf hi)) @ nl @
          tab @ ''report_queue_limit: '' @ dec_int (report_queue_limit (hi_conf hi)) @ nl @
          tab @ ''current_queue: '' @ dec_nat (SIZE (hi_submit_queue hi)) @ nl))"

section \<open>Reporting\<close>

text \<open>
  \<open>current_slot_.size() >= conf_.size_per_report_\<close> compares as \<open>size_t\<close>. The 64-bit \<open>msgid_\<close> goes
  back to 0 at the first new second after it passed 31 bits, so it does not overflow.
\<close>

definition report_event ::
    "bool \<Rightarrow> int \<Rightarrow> string \<Rightarrow> int \<Rightarrow> string \<Rightarrow> HeraclesClientImpl \<Rightarrow> (int \<times> HeraclesClientImpl) blocking" where
  "report_event dbg now metric val tag hi =
     (if \<not> report_enabled (hi_conf hi) then Returned (0, hi)
      else
        let msgid1 = hi_msgid hi + 1;
            size = int (length (hi_current_slot hi));
            limit = to_u64 (size_per_report (hi_conf hi));
            flush = (size \<ge> limit \<or> now \<noteq> hi_current_time hi)
        in if dbg \<and> flush \<and> \<not> size \<le> limit then Crashed
           else
             let hi1 = hi\<lparr>hi_msgid := msgid1\<rparr>;
                 hi2 = (if flush \<and> hi_current_slot hi \<noteq> []
                        then hi1\<lparr>hi_current_slot := [],
                                 hi_submit_queue := PUSH
                                   \<lparr>er_version = ''1.0.0'', er_timestamp = hi_current_time hi, er_service = hi_service hi,
                                    er_entity_idx = hi_entity_idx hi, er_data = hi_current_slot hi\<rparr>
                                   (hi_submit_queue hi)\<rparr>
                        else hi1);
                 hi3 = (if now \<noteq> hi_current_time hi
                        then hi2\<lparr>hi_current_time := now,
                                 hi_msgid := (if msgid1 \<ge> INT32_MAX then 0 else msgid1) + 1\<rparr>
                        else hi2);
                 item = \<lparr>ed_msgid = hi_msgid hi3, ed_metric = metric, ed_tag = tag, ed_value = val\<rparr>
             in Returned (0, if metric \<noteq> []
                             then hi3\<lparr>hi_current_slot := hi_current_slot hi3 @ [item]\<rparr> else hi3))"

definition report_empty_event :: "bool \<Rightarrow> int \<Rightarrow> HeraclesClientImpl \<Rightarrow> (int \<times> HeraclesClientImpl) blocking" where
  "report_empty_event dbg now hi = report_event dbg now '''' 0 ''T'' hi"

definition do_report ::
    "pb_codec \<Rightarrow> net_env \<Rightarrow> event_report_t \<Rightarrow> HeraclesClientImpl \<Rightarrow> (int \<times> HeraclesClientImpl) blocking" where
  "do_report pb ne report hi =
     (case hi_client_agent hi of
        None \<Rightarrow> Returned (-1, hi)
      | Some agent \<Rightarrow>
          and_then (rpc_event_submit pb ne report agent) (\<lambda>(code, agent').
            Returned (code, hi\<lparr>hi_client_agent := Some agent'\<rparr>)))"

text \<open>A null agent or report is refused.\<close>

definition do_additional_report ::
    "pb_codec \<Rightarrow> net_env \<Rightarrow> MonitorRpcClientHelper option \<Rightarrow> event_report_t option \<Rightarrow>
     (int \<times> MonitorRpcClientHelper option) blocking" where
  "do_additional_report pb ne client_agent report_ptr =
     (case (report_ptr, client_agent) of
        (Some report, Some agent) \<Rightarrow>
          and_then (rpc_event_submit pb ne report agent) (\<lambda>(code, agent'). Returned (code, Some agent'))
      | _ \<Rightarrow> Returned (-1, client_agent))"

text \<open>
  One turn of the submit thread's loop, in the pieces between which other threads may run.
  \<open>run_pop\<close> waits for a report (an empty event when there is none), \<open>run_after\<close> is what follows
  the submission.
\<close>

definition run_pop ::
    "bool \<Rightarrow> event_report_t wakeup list \<Rightarrow> int \<Rightarrow> HeraclesClientImpl \<Rightarrow>
     (event_report_t option \<times> HeraclesClientImpl) blocking" where
  "run_pop dbg ws now hi =
     (case POP_timed ws (hi_submit_queue hi) of
        (None, q) \<Rightarrow>
          and_then (report_empty_event dbg now (hi\<lparr>hi_submit_queue := q\<rparr>)) (\<lambda>(_, hi'). Returned (None, hi'))
      | (Some report, q) \<Rightarrow> Returned (Some report, hi\<lparr>hi_submit_queue := q\<rparr>))"

definition run_shrink :: "HeraclesClientImpl \<Rightarrow> HeraclesClientImpl" where
  "run_shrink hi =
     (let limit = report_queue_limit (hi_conf hi)
      in if limit \<noteq> 0 \<and> int (SIZE (hi_submit_queue hi)) > to_u64 limit
         then hi\<lparr>hi_submit_queue := snd (SHRINK_FRONT (nat (to_u64 limit)) (hi_submit_queue hi))\<rparr>
         else hi)"

definition run_after :: "bool \<Rightarrow> int \<Rightarrow> int \<Rightarrow> HeraclesClientImpl \<Rightarrow> HeraclesClientImpl blocking" where
  "run_after dbg t0 now hi =
     and_then (if now \<noteq> t0 then and_then (report_empty_event dbg now hi) (\<lambda>(_, hi'). Returned hi')
               else Returned hi) (\<lambda>hi'. Returned (run_shrink hi'))"

text \<open>A whole turn: \<open>None\<close> when the thread leaves its loop.\<close>

definition submit_turn ::
    "bool \<Rightarrow> pb_codec \<Rightarrow> net_env \<Rightarrow> event_report_t wakeup list \<Rightarrow> int \<Rightarrow> int \<Rightarrow> HeraclesClientImpl \<Rightarrow>
     HeraclesClientImpl option blocking" where
  "submit_turn dbg pb ne ws t0 now hi =
     (if hi_thread_terminate hi then Returned None
      else
        and_then (run_pop dbg ws now hi) (\<lambda>(report_ptr, hi1).
          case report_ptr of
            None \<Rightarrow> Returned (Some hi1)
          | Some report \<Rightarrow>
              and_then (do_report pb ne report hi1) (\<lambda>(_, hi2).
                and_then (run_after dbg t0 now hi2) (\<lambda>hi3. Returned (Some hi3)))))"

section \<open>Queries\<close>

definition client_ping ::
    "pb_codec \<Rightarrow> net_env \<Rightarrow> HeraclesClientImpl \<Rightarrow> (int \<times> HeraclesClientImpl) blocking" where
  "client_ping pb ne hi =
     (case hi_client_agent hi of
        None \<Rightarrow> Returned (-1, hi)
      | Some agent \<Rightarrow>
          and_then (rpc_ping pb ne agent) (\<lambda>(code, agent').
            Returned (code, hi\<lparr>hi_client_agent := Some agent'\<rparr>)))"

text \<open>
  \<open>select_stat\<close> returns the condition as well: an empty service in it becomes the client's own.
  Rows that the server did not sort (no limit was given) are sorted here; a sort that is
  undefined is \<open>Crashed\<close>.
\<close>

type_synonym select_result_t = "(int \<times> event_cond_t \<times> event_select_t \<times> HeraclesClientImpl) blocking"

definition select_stat ::
    "pb_codec \<Rightarrow> net_env \<Rightarrow> event_cond_t \<Rightarrow> event_select_t \<Rightarrow> HeraclesClientImpl \<Rightarrow> select_result_t" where
  "select_stat pb ne cond0 stat hi =
     (case hi_client_agent hi of
        None \<Rightarrow> Returned (-1, cond0, stat, hi)
      | Some agent \<Rightarrow>
          let cond = (if ec_service cond0 = [] then cond0\<lparr>ec_service := hi_service hi\<rparr> else cond0)
          in and_then (rpc_event_select pb ne cond stat agent) (\<lambda>(code, stat', agent').
               let hi' = hi\<lparr>hi_client_agent := Some agent'\<rparr>
               in if code \<noteq> 0 then Returned (code, cond, stat', hi')
                  else if ec_orderby cond \<noteq> kOrderByNone \<and> ec_limit cond = 0 \<and> es_info stat' \<noteq> []
                  then (case do_sort (es_info stat') (ec_orderby cond) (ec_orders cond) of
                          None \<Rightarrow> Crashed
                        | Some info \<Rightarrow> Returned (0, cond, stat'\<lparr>es_info := info\<rparr>, hi'))
                  else Returned (0, cond, stat', hi')))"

definition client_known_metrics ::
    "pb_codec \<Rightarrow> net_env \<Rightarrow> string \<Rightarrow> string \<Rightarrow> event_handler_conf_t \<Rightarrow> string list \<Rightarrow> HeraclesClientImpl \<Rightarrow>
     (int \<times> event_handler_conf_t \<times> string list \<times> HeraclesClientImpl) blocking" where
  "client_known_metrics pb ne ver service hc metrics hi =
     (case hi_client_agent hi of
        None \<Rightarrow> Returned (-1, hc, metrics, hi)
      | Some agent \<Rightarrow>
          let service_t = (if service \<noteq> [] then service else hi_service hi)
          in and_then (rpc_known_metrics pb ne ver service_t hc metrics agent) (\<lambda>(code, hc', metrics', agent').
               Returned (code, hc', metrics', hi\<lparr>hi_client_agent := Some agent'\<rparr>)))"

definition client_known_services ::
    "pb_codec \<Rightarrow> net_env \<Rightarrow> string \<Rightarrow> string list \<Rightarrow> HeraclesClientImpl \<Rightarrow>
     (int \<times> string list \<times> HeraclesClientImpl) blocking" where
  "client_known_services pb ne ver svs hi =
     (case hi_client_agent hi of
        None \<Rightarrow> Returned (-1, svs, hi)
      | Some agent \<Rightarrow>
          and_then (rpc_known_services pb ne ver svs agent) (\<lambda>(code, svs', agent').
            Returned (code, svs', hi\<lparr>hi_client_agent := Some agent'\<rparr>)))"

section \<open>The public class\<close>

text \<open>
  \<open>HeraclesClient\<close> forwards to the singleton. Its constructors take a service and an entity and
  use neither.
\<close>

definition HeraclesClient_init ::
    "pb_codec \<Rightarrow> net_env \<Rightarrow> (string \<Rightarrow> monitor_cfg option) \<Rightarrow> HeraclesClientImpl \<Rightarrow> (bool \<times> HeraclesClientImpl) blocking" where
  "HeraclesClient_init pb ne file hi = client_init pb ne file hi"

definition HeraclesClient_init_file ::
    "pb_codec \<Rightarrow> net_env \<Rightarrow> (string \<Rightarrow> monitor_cfg option) \<Rightarrow> string \<Rightarrow> HeraclesClientImpl \<Rightarrow>
     (bool \<times> HeraclesClientImpl) blocking" where
  "HeraclesClient_init_file pb ne file cfgFile hi = client_init_file pb ne file cfgFile hi"

definition HeraclesClient_init_setting ::
    "pb_codec \<Rightarrow> net_env \<Rightarrow> monitor_cfg \<Rightarrow> HeraclesClientImpl \<Rightarrow> (bool \<times> HeraclesClientImpl) blocking" where
  "HeraclesClient_init_setting pb ne setting hi = client_init_setting pb ne setting hi"

definition HeraclesClient_init_server ::
    "pb_codec \<Rightarrow> net_env \<Rightarrow> string \<Rightarrow> string \<Rightarrow> string \<Rightarrow> 16 word \<Rightarrow> HeraclesClientImpl \<Rightarrow>
     (bool \<times> HeraclesClientImpl) blocking" where
  "HeraclesClient_init_server pb ne service entity_idx addr port hi = client_init_addr pb ne service entity_idx addr port hi"

definition HeraclesClient_init_addr ::
    "pb_codec \<Rightarrow> net_env \<Rightarrow> string \<Rightarrow> 16 word \<Rightarrow> HeraclesClientImpl \<Rightarrow> (bool \<times> HeraclesClientImpl) blocking" where
  "HeraclesClient_init_addr pb ne addr port hi = client_init_addr pb ne [] [] addr port hi"

definition HeraclesClient_report_event ::
    "bool \<Rightarrow> int \<Rightarrow> string \<Rightarrow> int \<Rightarrow> string \<Rightarrow> HeraclesClientImpl \<Rightarrow> (int \<times> HeraclesClientImpl) blocking" where
  "HeraclesClient_report_event dbg now name val flag hi =
     (if \<not> hi_already_initialized hi then Returned (-1, hi) else report_event dbg now name val flag hi)"

definition HeraclesClient_ping ::
    "pb_codec \<Rightarrow> net_env \<Rightarrow> HeraclesClientImpl \<Rightarrow> (int \<times> HeraclesClientImpl) blocking" where
  "HeraclesClient_ping pb ne hi =
     (if \<not> hi_already_initialized hi then Returned (-1, hi) else client_ping pb ne hi)"

definition HeraclesClient_select_stat ::
    "pb_codec \<Rightarrow> net_env \<Rightarrow> event_cond_t \<Rightarrow> event_select_t \<Rightarrow> HeraclesClientImpl \<Rightarrow> select_result_t" where
  "HeraclesClient_select_stat pb ne cond stat hi =
     (if \<not> hi_already_initialized hi then Returned (-1, cond, stat, hi) else select_stat pb ne cond stat hi)"

text \<open>The short forms for a count and an average: \<open>None\<close> leaves both output arguments alone.\<close>

definition count_and_avg :: "select_result_t \<Rightarrow> (int \<times> (int \<times> int) option \<times> HeraclesClientImpl) blocking" where
  "count_and_avg r =
     and_then r (\<lambda>(ret, _, stat, hi).
       Returned (if ret \<noteq> 0 then (-1, None, hi)
                 else (0, Some (ei_count (es_summary stat), ei_value_avg (es_summary stat)), hi)))"

definition select_stat_metric ::
    "pb_codec \<Rightarrow> net_env \<Rightarrow> string \<Rightarrow> int \<Rightarrow> HeraclesClientImpl \<Rightarrow>
     (int \<times> (int \<times> int) option \<times> HeraclesClientImpl) blocking" where
  "select_stat_metric pb ne metric tm_intervel hi =
     (if \<not> hi_already_initialized hi then Returned (-1, None, hi)
      else
        let cond = default_cond\<lparr>ec_version := ''1.0.0'', ec_metric := metric, ec_tm_interval := tm_intervel,
                                ec_groupby := kGroupNone\<rparr>
        in count_and_avg (select_stat pb ne cond empty_select hi))"

definition select_stat_metric_tag ::
    "pb_codec \<Rightarrow> net_env \<Rightarrow> string \<Rightarrow> string \<Rightarrow> int \<Rightarrow> HeraclesClientImpl \<Rightarrow>
     (int \<times> (int \<times> int) option \<times> HeraclesClientImpl) blocking" where
  "select_stat_metric_tag pb ne metric tag tm_intervel hi =
     (if \<not> hi_already_initialized hi then Returned (-1, None, hi)
      else
        let cond = default_cond\<lparr>ec_version := ''1.0.0'', ec_metric := metric, ec_tag := tag,
                                ec_tm_interval := tm_intervel, ec_groupby := kGroupNone\<rparr>
        in count_and_avg (select_stat pb ne cond empty_select hi))"

definition select_stat_groupby_tag ::
    "pb_codec \<Rightarrow> net_env \<Rightarrow> string \<Rightarrow> event_select_t \<Rightarrow> int \<Rightarrow> HeraclesClientImpl \<Rightarrow> select_result_t" where
  "select_stat_groupby_tag pb ne metric stat tm_intervel hi =
     (let cond = default_cond\<lparr>ec_version := ''1.0.0'', ec_metric := metric, ec_tm_interval := tm_intervel,
                              ec_groupby := kGroupbyTag\<rparr>
      in if \<not> hi_already_initialized hi then Returned (-1, cond, stat, hi)
         else select_stat pb ne cond stat hi)"

definition select_stat_groupby_time ::
    "pb_codec \<Rightarrow> net_env \<Rightarrow> string \<Rightarrow> event_select_t \<Rightarrow> int \<Rightarrow> HeraclesClientImpl \<Rightarrow> select_result_t" where
  "select_stat_groupby_time pb ne metric stat tm_intervel hi =
     (let cond = default_cond\<lparr>ec_version := ''1.0.0'', ec_metric := metric, ec_tm_interval := tm_intervel,
                              ec_groupby := kGroupbyTimestamp\<rparr>
      in if \<not> hi_already_initialized hi then Returned (-1, cond, stat, hi)
         else select_stat pb ne cond stat hi)"

definition select_stat_groupby_time_tag ::
    "pb_codec \<Rightarrow> net_env \<Rightarrow> string \<Rightarrow> string \<Rightarrow> event_select_t \<Rightarrow> int \<Rightarrow> HeraclesClientImpl \<Rightarrow> select_result_t" where
  "select_stat_groupby_time_tag pb ne metric tag stat tm_intervel hi =
     (let cond = default_cond\<lparr>ec_version := ''1.0.0'', ec_metric := metric, ec_tag := tag,
                              ec_tm_interval := tm_intervel, ec_groupby := kGroupbyTimestamp\<rparr>
      in if \<not> hi_already_initialized hi then Returned (-1, cond, stat, hi)
         else select_stat pb ne cond stat hi)"

record order_cond_t =
  oc_orderby :: OrderByType
  oc_orders :: OrderType
  oc_limit :: int

definition select_stat_groupby_tag_ordered ::
    "pb_codec \<Rightarrow> net_env \<Rightarrow> string \<Rightarrow> order_cond_t \<Rightarrow> event_select_t \<Rightarrow> int \<Rightarrow> HeraclesClientImpl \<Rightarrow> select_result_t" where
  "select_stat_groupby_tag_ordered pb ne metric order stat tm_intervel hi =
     (let cond = default_cond\<lparr>ec_version := ''1.0.0'', ec_metric := metric, ec_tm_interval := tm_intervel,
                              ec_groupby := kGroupbyTag, ec_orderby := oc_orderby order,
                              ec_orders := oc_orders order, ec_limit := oc_limit order\<rparr>
      in if \<not> hi_already_initialized hi then Returned (-1, cond, stat, hi)
         else if oc_limit order < 0 then Returned (-1, cond, stat, hi)
         else select_stat pb ne cond stat hi)"

definition select_stat_groupby_time_ordered ::
    "pb_codec \<Rightarrow> net_env \<Rightarrow> string \<Rightarrow> order_cond_t \<Rightarrow> event_select_t \<Rightarrow> int \<Rightarrow> HeraclesClientImpl \<Rightarrow> select_result_t" where
  "select_stat_groupby_time_ordered pb ne metric order stat tm_intervel hi =
     (let cond = default_cond\<lparr>ec_version := ''1.0.0'', ec_metric := metric, ec_tm_interval := tm_intervel,
                              ec_groupby := kGroupbyTimestamp, ec_orderby := oc_orderby order,
                              ec_orders := oc_orders order, ec_limit := oc_limit order\<rparr>
      in if \<not> hi_already_initialized hi then Returned (-1, cond, stat, hi)
         else if oc_limit order < 0 then Returned (-1, cond, stat, hi)
         else select_stat pb ne cond stat hi)"

definition select_stat_groupby_time_tag_ordered ::
    "pb_codec \<Rightarrow> net_env \<Rightarrow> string \<Rightarrow> string \<Rightarrow> order_cond_t \<Rightarrow> event_select_t \<Rightarrow> int \<Rightarrow> HeraclesClientImpl \<Rightarrow>
     select_result_t" where
  "select_stat_groupby_time_tag_ordered pb ne metric tag order stat tm_intervel hi =
     (let cond = default_cond\<lparr>ec_version := ''1.0.0'', ec_metric := metric, ec_tag := tag,
                              ec_tm_interval := tm_intervel, ec_groupby := kGroupbyTimestamp,
                              ec_orderby := oc_orderby order, ec_orders := oc_orders order,
                              ec_limit := oc_limit order\<rparr>
      in if \<not> hi_already_initialized hi then Returned (-1, cond, stat, hi)
         else if oc_limit order < 0 then Returned (-1, cond, stat, hi)
         else select_stat pb ne cond stat hi)"

definition HeraclesClient_known_metrics ::
    "pb_codec \<Rightarrow> net_env \<Rightarrow> event_handler_conf_t \<Rightarrow> string list \<Rightarrow> string \<Rightarrow> HeraclesClientImpl \<Rightarrow>
     (int \<times> event_handler_conf_t \<times> string list \<times> HeraclesClientImpl) blocking" where
  "HeraclesClient_known_metrics pb ne hc metrics service hi =
     (if \<not> hi_already_initialized hi then Returned (-1, hc, metrics, hi)
      else client_known_metrics pb ne ''1.0.0'' service hc metrics hi)"

definition HeraclesClient_known_services ::
    "pb_codec \<Rightarrow> net_env \<Rightarrow> string list \<Rightarrow> HeraclesClientImpl \<Rightarrow> (int \<times> string list \<times> HeraclesClientImpl) blocking" where
  "HeraclesClient_known_services pb ne svs hi =
     (if \<not> hi_already_initialized hi then Returned (-1, svs, hi)
      else client_known_services pb ne ''1.0.0'' svs hi)"

definition HeraclesClient_module_runtime :: "monitor_cfg option \<Rightarrow> HeraclesClientImpl \<Rightarrow> int \<times> HeraclesClientImpl" where
  "HeraclesClient_module_runtime conf hi =
     (if \<not> hi_already_initialized hi then (-1, hi) else client_module_runtime conf hi)"

text \<open>\<open>None\<close> leaves the output arguments alone.\<close>

definition HeraclesClient_module_status :: "HeraclesClientImpl \<Rightarrow> int \<times> (string \<times> string \<times> string) option" where
  "HeraclesClient_module_status hi =
     (if \<not> hi_already_initialized hi then (-1, None)
      else case client_module_status hi of (ret, s) \<Rightarrow> (ret, Some s))"

section \<open>Nothing is lost on the way to the reports\<close>

text \<open>
  The events in a list of reports and in the current slot, each seen through \<open>f\<close> with the time
  it is reported for.
\<close>

definition stamped :: "(int \<Rightarrow> event_data_t \<Rightarrow> 'a) \<Rightarrow> event_report_t list \<Rightarrow> HeraclesClientImpl \<Rightarrow> 'a list" where
  "stamped f rs hi =
     concat (map (\<lambda>r. map (f (er_timestamp r)) (er_data r)) (rs @ items (hi_submit_queue hi))) @
     map (f (hi_current_time hi)) (hi_current_slot hi)"

text \<open>What one call of \<open>report_event\<close> adds.\<close>

definition accepted :: "int \<Rightarrow> string \<Rightarrow> int \<Rightarrow> string \<Rightarrow> HeraclesClientImpl \<Rightarrow> (int \<times> string \<times> int \<times> string) list" where
  "accepted now metric val tag hi =
     (if report_enabled (hi_conf hi) \<and> metric \<noteq> [] then [(now, metric, val, tag)] else [])"

abbreviation event_of :: "int \<Rightarrow> event_data_t \<Rightarrow> int \<times> string \<times> int \<times> string" where
  "event_of time d \<equiv> (time, ed_metric d, ed_value d, ed_tag d)"

text \<open>
  What can happen to the client once it runs: reports from any thread, the pieces of the submit
  thread's turns, and configuration updates. \<open>steady\<close> runs are those in which the clock does not go
  back. The indices are the largest \<open>size_per_report\<close> there was, the events accepted so far and the
  reports taken out of the queue, submitted or dropped.
\<close>

inductive client_reach ::
    "bool \<Rightarrow> bool \<Rightarrow> int \<Rightarrow> (int \<times> string \<times> int \<times> string) list \<Rightarrow> event_report_t list \<Rightarrow> HeraclesClientImpl \<Rightarrow> bool"
  for dbg :: bool and steady :: bool
where
  started:
    "hi = (mk_HeraclesClientImpl service entity)\<lparr>hi_conf := conf\<rparr> \<Longrightarrow>
     0 < size_per_report conf \<Longrightarrow> is_i32 (size_per_report conf) \<Longrightarrow>
     client_reach dbg steady (size_per_report conf) [] [] hi"
| reported:
    "client_reach dbg steady mx acc tk hi \<Longrightarrow> (steady \<Longrightarrow> hi_current_time hi \<le> now) \<Longrightarrow>
     report_event dbg now metric val tag hi = Returned (ret, hi') \<Longrightarrow>
     client_reach dbg steady mx (acc @ accepted now metric val tag hi) tk hi'"
| popped:
    "client_reach dbg steady mx acc tk hi \<Longrightarrow> (steady \<Longrightarrow> hi_current_time hi \<le> now) \<Longrightarrow>
     run_pop dbg [] now hi = Returned (report, hi') \<Longrightarrow>
     client_reach dbg steady mx acc (tk @ (case report of None \<Rightarrow> [] | Some r \<Rightarrow> [r])) hi'"
| submitted:
    "client_reach dbg steady mx acc tk hi \<Longrightarrow> do_report pb ne report hi = Returned (ret, hi') \<Longrightarrow>
     client_reach dbg steady mx acc tk hi'"
| shrunk:
    "client_reach dbg steady mx acc tk hi \<Longrightarrow> q = items (hi_submit_queue hi) \<Longrightarrow> hi' = run_shrink hi \<Longrightarrow>
     client_reach dbg steady mx acc (tk @ take (length q - length (items (hi_submit_queue hi'))) q) hi'"
| configured:
    "client_reach dbg steady mx acc tk hi \<Longrightarrow> client_module_runtime conf hi = (ret, hi') \<Longrightarrow>
     is_i32 (size_per_report (hi_conf hi')) \<Longrightarrow>
     client_reach dbg steady (max mx (size_per_report (hi_conf hi'))) acc tk hi'"

text \<open>The pairs of time and message id are strictly ascending.\<close>

definition id_before :: "int \<times> int \<Rightarrow> int \<times> int \<Rightarrow> bool" where
  "id_before a b \<longleftrightarrow> fst a < fst b \<or> fst a = fst b \<and> snd a < snd b"

definition report_fits :: "int \<Rightarrow> HeraclesClientImpl \<Rightarrow> event_report_t \<Rightarrow> bool" where
  "report_fits mx hi r \<longleftrightarrow>
     er_version r = ''1.0.0'' \<and> er_service r = hi_service hi \<and> er_entity_idx r = hi_entity_idx hi \<and>
     er_data r \<noteq> [] \<and> int (length (er_data r)) \<le> mx"

definition client_inv ::
    "bool \<Rightarrow> int \<Rightarrow> (int \<times> string \<times> int \<times> string) list \<Rightarrow> event_report_t list \<Rightarrow> HeraclesClientImpl \<Rightarrow> bool" where
  "client_inv steady mx acc tk hi \<longleftrightarrow>
     0 < size_per_report (hi_conf hi) \<and> is_i32 (size_per_report (hi_conf hi)) \<and> size_per_report (hi_conf hi) \<le> mx \<and>
     int (length (hi_current_slot hi)) \<le> mx \<and>
     (\<forall>r \<in> set (tk @ items (hi_submit_queue hi)). report_fits mx hi r) \<and>
     stamped event_of tk hi = acc \<and>
     (steady \<longrightarrow>
        sorted_wrt id_before (stamped (\<lambda>time d. (time, ed_msgid d)) tk hi @ [(hi_current_time hi, hi_msgid hi + 1)]))"

lemma to_u64_pos_i32: "0 < i \<Longrightarrow> is_i32 i \<Longrightarrow> to_u64 i = i"
  by (simp add: to_u64_def is_i32_def)

lemma report_event_disabled:
  "\<not> report_enabled (hi_conf hi) \<Longrightarrow> report_event dbg now metric val tag hi = Returned (0, hi)"
  by (simp add: report_event_def)

lemma items_PUSH [simp]: "items (PUSH t q) = items q @ [t]"
  by (simp add: PUSH_def)

lemma report_event_frame:
  assumes "report_event dbg now metric val tag hi = Returned (ret, hi')"
  shows "hi_conf hi' = hi_conf hi" "hi_service hi' = hi_service hi" "hi_entity_idx hi' = hi_entity_idx hi"
  using assms by (auto simp: report_event_def Let_def split: if_splits)

lemma report_event_stamped:
  assumes "report_event dbg now metric val tag hi = Returned (ret, hi')" "report_enabled (hi_conf hi)"
  shows "stamped f tk hi' = stamped f tk hi @
           (if metric \<noteq> []
            then [f now \<lparr>ed_msgid = hi_msgid hi', ed_metric = metric, ed_tag = tag, ed_value = val\<rparr>] else [])"
  using assms by (auto simp: report_event_def stamped_def Let_def split: if_splits)

lemma report_event_slot:
  assumes "report_event dbg now metric val tag hi = Returned (ret, hi')"
    and "0 < size_per_report (hi_conf hi)" "is_i32 (size_per_report (hi_conf hi))" "size_per_report (hi_conf hi) \<le> mx"
    and "int (length (hi_current_slot hi)) \<le> mx"
  shows "int (length (hi_current_slot hi')) \<le> mx"
proof -
  have "1 \<le> mx" using assms(2,4) by simp
  with assms show ?thesis
    by (auto simp: report_event_def Let_def to_u64_pos_i32 split: if_splits)
qed

lemma report_event_queue:
  assumes "report_event dbg now metric val tag hi = Returned (ret, hi')"
  shows "items (hi_submit_queue hi') = items (hi_submit_queue hi) \<or>
         hi_current_slot hi \<noteq> [] \<and>
         items (hi_submit_queue hi') = items (hi_submit_queue hi) @
           [\<lparr>er_version = ''1.0.0'', er_timestamp = hi_current_time hi, er_service = hi_service hi,
             er_entity_idx = hi_entity_idx hi, er_data = hi_current_slot hi\<rparr>]"
  using assms by (auto simp: report_event_def Let_def split: if_splits)

lemma report_fits_cong:
  "hi_conf hi' = hi_conf hi \<Longrightarrow> hi_service hi' = hi_service hi \<Longrightarrow> hi_entity_idx hi' = hi_entity_idx hi \<Longrightarrow>
   report_fits mx hi' r = report_fits mx hi r"
  by (simp add: report_fits_def)

lemma report_event_fits:
  assumes "report_event dbg now metric val tag hi = Returned (ret, hi')"
    and "int (length (hi_current_slot hi)) \<le> mx"
    and "\<forall>r \<in> set (tk @ items (hi_submit_queue hi)). report_fits mx hi r"
  shows "\<forall>r \<in> set (tk @ items (hi_submit_queue hi')). report_fits mx hi' r"
proof -
  have eq: "report_fits mx hi' = report_fits mx hi"
    using report_fits_cong [OF report_event_frame [OF assms(1)]] by blast
  have new: "report_fits mx hi
      \<lparr>er_version = ''1.0.0'', er_timestamp = hi_current_time hi, er_service = hi_service hi,
       er_entity_idx = hi_entity_idx hi, er_data = hi_current_slot hi\<rparr>" if "hi_current_slot hi \<noteq> []"
    using that assms(2) by (simp add: report_fits_def)
  from report_event_queue [OF assms(1)] show ?thesis
  proof
    assume "items (hi_submit_queue hi') = items (hi_submit_queue hi)"
    with assms(3) eq show ?thesis by simp
  next
    assume "hi_current_slot hi \<noteq> [] \<and>
         items (hi_submit_queue hi') = items (hi_submit_queue hi) @
           [\<lparr>er_version = ''1.0.0'', er_timestamp = hi_current_time hi, er_service = hi_service hi,
             er_entity_idx = hi_entity_idx hi, er_data = hi_current_slot hi\<rparr>]"
    with assms(3) eq new show ?thesis by auto
  qed
qed

text \<open>The message ids: a later event of the same second has a larger one.\<close>

lemma report_event_ids:
  assumes "report_event dbg now metric val tag hi = Returned (ret, hi')" "report_enabled (hi_conf hi)"
    and "hi_current_time hi \<le> now"
  shows "hi_current_time hi' = now" "hi_current_time hi = now \<Longrightarrow> hi_msgid hi' = hi_msgid hi + 1"
  using assms by (auto simp: report_event_def Let_def split: if_splits)

lemma id_before_trans: "id_before a b \<Longrightarrow> id_before b c \<Longrightarrow> id_before a c"
  by (auto simp: id_before_def)

lemma report_event_sorted:
  assumes "report_event dbg now metric val tag hi = Returned (ret, hi')" "report_enabled (hi_conf hi)"
    and "hi_current_time hi \<le> now"
    and "sorted_wrt id_before (stamped (\<lambda>time d. (time, ed_msgid d)) tk hi @ [(hi_current_time hi, hi_msgid hi + 1)])"
  shows "sorted_wrt id_before (stamped (\<lambda>time d. (time, ed_msgid d)) tk hi' @ [(hi_current_time hi', hi_msgid hi' + 1)])"
proof -
  let ?a = "(hi_current_time hi, hi_msgid hi + 1)" and ?b = "(now, hi_msgid hi')"
  have "?a = ?b \<or> id_before ?a ?b"
    using report_event_ids [OF assms(1-3)] assms(3) by (auto simp: id_before_def)
  then have b: "id_before x ?a \<Longrightarrow> id_before x ?b" for x
    using id_before_trans by metis
  have "id_before ?b (now, hi_msgid hi' + 1)" by (simp add: id_before_def)
  with b have c: "id_before x ?a \<Longrightarrow> id_before x (now, hi_msgid hi' + 1)" for x
    using id_before_trans by blast
  show ?thesis
    using assms(4) b c report_event_ids(1) [OF assms(1-3)]
    by (auto simp: report_event_stamped [OF assms(1,2)] sorted_wrt_append id_before_def)
qed

lemma report_event_inv:
  assumes "client_inv steady mx acc tk hi" "steady \<Longrightarrow> hi_current_time hi \<le> now"
    and "report_event dbg now metric val tag hi = Returned (ret, hi')"
  shows "client_inv steady mx (acc @ accepted now metric val tag hi) tk hi'"
proof (cases "report_enabled (hi_conf hi)")
  case False
  with assms(3) have "hi' = hi" by (simp add: report_event_disabled)
  with False assms(1) show ?thesis by (simp add: accepted_def)
next
  case True
  note frame = report_event_frame [OF assms(3)]
  have "stamped event_of tk hi' = acc @ accepted now metric val tag hi"
    using report_event_stamped [OF assms(3) True, of event_of tk] assms(1) True
    by (simp add: client_inv_def accepted_def)
  then show ?thesis
    using assms(1) report_event_slot [OF assms(3), of mx] report_event_fits [OF assms(3), of mx tk]
      report_event_sorted [OF assms(3) True assms(2), of tk] 
    unfolding client_inv_def frame by blast
qed

text \<open>The other steps only move reports from the queue to the taken ones.\<close>

lemma stamped_moved:
  "tk' @ items q = tk @ items (hi_submit_queue hi) \<Longrightarrow>
   stamped f tk' (hi\<lparr>hi_submit_queue := q\<rparr>) = stamped f tk hi"
  by (simp only: stamped_def) simp

lemma client_inv_moved:
  assumes "client_inv steady mx acc tk hi" "tk' @ items q = tk @ items (hi_submit_queue hi)"
  shows "client_inv steady mx acc tk' (hi\<lparr>hi_submit_queue := q\<rparr>)"
proof -
  have "set (tk' @ items q) = set (tk @ items (hi_submit_queue hi))"
    using assms(2) by simp
  moreover have "report_fits mx (hi\<lparr>hi_submit_queue := q\<rparr>) = report_fits mx hi"
    by (intro ext report_fits_cong) simp_all
  ultimately show ?thesis
    using assms(1) by (simp add: client_inv_def stamped_moved [OF assms(2)])
qed

lemma client_inv_conf:
  assumes "client_inv steady mx acc tk hi" "0 < size_per_report conf" "is_i32 (size_per_report conf)"
  shows "client_inv steady (max mx (size_per_report conf)) acc tk (hi\<lparr>hi_conf := conf\<rparr>)"
proof -
  have "report_fits mx hi r \<Longrightarrow> report_fits (max mx (size_per_report conf)) (hi\<lparr>hi_conf := conf\<rparr>) r" for r
    by (auto simp: report_fits_def max_def)
  moreover have "stamped f tk (hi\<lparr>hi_conf := conf\<rparr>) = stamped f tk hi" for f :: "int \<Rightarrow> event_data_t \<Rightarrow> 'b"
    by (simp add: stamped_def)
  ultimately show ?thesis
    using assms unfolding client_inv_def stamped_def by auto
qed

lemma update_size_positive:
  "0 < size_per_report conf \<Longrightarrow> 0 < size_per_report (update_client_conf g conf)"
  by (simp add: update_client_conf_def Let_def split: option.splits)

lemma client_inv_agent: "client_inv steady mx acc tk (hi\<lparr>hi_client_agent := a\<rparr>) = client_inv steady mx acc tk hi"
  by (simp add: client_inv_def stamped_def report_fits_def)

lemma POP_timed_nil: "POP_timed [] q = pop_front q"
  by (simp add: POP_timed_def wait_until.simps)

lemma run_pop_inv:
  assumes "client_inv steady mx acc tk hi" "steady \<Longrightarrow> hi_current_time hi \<le> now" "run_pop dbg [] now hi = Returned (report, hi')"
  shows "client_inv steady mx acc (tk @ (case report of None \<Rightarrow> [] | Some r \<Rightarrow> [r])) hi'"
proof (cases "items (hi_submit_queue hi)")
  case Nil
  then have "run_pop dbg [] now hi =
      and_then (report_event dbg now '''' 0 ''T'' hi) (\<lambda>(_, hi'). Returned (None, hi'))"
    by (simp add: run_pop_def POP_timed_nil pop_front_def report_empty_event_def)
  with assms(3) obtain ret where "report_event dbg now '''' 0 ''T'' hi = Returned (ret, hi')" "report = None"
    by (cases "report_event dbg now '''' 0 ''T'' hi") auto
  with report_event_inv [OF assms(1,2) this(1)] show ?thesis by (simp add: accepted_def)
next
  case (Cons r rest)
  with assms(3) have "report = Some r" "hi' = hi\<lparr>hi_submit_queue := (hi_submit_queue hi)\<lparr>items := rest\<rparr>\<rparr>"
    by (simp_all add: run_pop_def POP_timed_nil pop_front_def)
  with client_inv_moved [OF assms(1), of "tk @ [r]" "(hi_submit_queue hi)\<lparr>items := rest\<rparr>"] Cons show ?thesis by simp
qed

lemma run_shrink_drop:
  "\<exists>k \<le> length (items (hi_submit_queue hi)).
     run_shrink hi = hi\<lparr>hi_submit_queue := (hi_submit_queue hi)\<lparr>items := drop k (items (hi_submit_queue hi))\<rparr>\<rparr>"
proof -
  let ?q = "hi_submit_queue hi" and ?l = "nat (to_u64 (report_queue_limit (hi_conf hi)))"
  have "run_shrink hi = hi \<or>
      run_shrink hi = hi\<lparr>hi_submit_queue := ?q\<lparr>items := drop (length (items ?q) - ?l) (items ?q)\<rparr>\<rparr>"
    by (cases "length (items ?q) \<le> ?l") (simp_all add: run_shrink_def SHRINK_FRONT_def Let_def)
  moreover have "hi = hi\<lparr>hi_submit_queue := ?q\<lparr>items := drop 0 (items ?q)\<rparr>\<rparr>" by simp
  moreover have "length (items ?q) - ?l \<le> length (items ?q)" by simp
  ultimately show ?thesis by (metis le0)
qed

lemma client_reach_inv: "client_reach dbg steady mx acc tk hi \<Longrightarrow> client_inv steady mx acc tk hi"
proof (induction rule: client_reach.induct)
  case (started hi service entity conf)
  then show ?case
    by (simp add: client_inv_def stamped_def mk_HeraclesClientImpl_def empty_queue_def)
next
  case (reported mx acc tk hi now metric val tag ret hi')
  then show ?case using report_event_inv by blast
next
  case (popped mx acc tk hi now report hi')
  then show ?case using run_pop_inv by blast
next
  case (submitted mx acc tk hi pb ne report ret hi')
  then obtain a where "hi' = hi \<or> hi' = hi\<lparr>hi_client_agent := a\<rparr>"
    by (cases "hi_client_agent hi"; cases "rpc_event_submit pb ne report (the (hi_client_agent hi))")
      (auto simp: do_report_def)
  with submitted show ?case by (auto simp: client_inv_agent)
next
  case (shrunk mx acc tk hi q hi')
  then obtain k where k: "hi' = hi\<lparr>hi_submit_queue := (hi_submit_queue hi)\<lparr>items := drop k q\<rparr>\<rparr>" "k \<le> length q"
    using run_shrink_drop [of hi] by auto
  have "client_inv steady mx acc (tk @ take k q) hi'"
    unfolding k(1) by (rule client_inv_moved [OF shrunk.IH]) (simp add: shrunk.hyps)
  moreover have "length q - length (items (hi_submit_queue hi')) = k"
    using k by simp
  ultimately show ?case by simp
next
  case (configured mx acc tk hi conf ret hi')
  then show ?case
    using client_inv_conf [OF configured.IH] update_size_positive configured.IH
    by (auto simp: client_module_runtime_def max.absorb1 client_inv_def split: option.splits)
qed

text \<open>
  C13. Whatever the threads of the program report and however the submit thread runs between, the
  reports taken out of the queue, the queued ones and the current slot hold exactly the accepted
  events, once each and in order, and each event stands under the second at which it was
  reported. The configuration may change in any way, and the clock may go back.
\<close>
theorem client_conserves_events:
  assumes "client_reach dbg steady mx acc tk hi"
  shows "concat (map (\<lambda>r. map (\<lambda>d. (er_timestamp r, ed_metric d, ed_value d, ed_tag d)) (er_data r))
             (tk @ items (hi_submit_queue hi))) @
         map (\<lambda>d. (hi_current_time hi, ed_metric d, ed_value d, ed_tag d)) (hi_current_slot hi) = acc"
  using client_reach_inv [OF assms] by (simp add: client_inv_def stamped_def)

text \<open>
  C14. As long as the clock does not go back, every report the client ever queues is well formed: not empty,
  for the client's own service and entity, and no larger than the largest \<open>size_per_report\<close> configured
  so far (an update that lowers it does not split what is already in the current slot); and over all of them, in
  order, the pairs of second and message id strictly ascend, so that no two events share one and the
  server's duplicate elimination takes none for another.
\<close>
theorem client_reports_unique:
  assumes "client_reach dbg True mx acc tk hi" "rs = tk @ items (hi_submit_queue hi)"
  shows "list_all (\<lambda>r. er_version r = ''1.0.0'' \<and> er_service r = hi_service hi \<and>
             er_entity_idx r = hi_entity_idx hi \<and> er_data r \<noteq> [] \<and> int (length (er_data r)) \<le> mx) rs \<and>
         sorted_wrt id_before (concat (map (\<lambda>r. map (\<lambda>d. (er_timestamp r, ed_msgid d)) (er_data r)) rs)) \<and>
         distinct (concat (map (\<lambda>r. map (\<lambda>d. (er_timestamp r, ed_msgid d)) (er_data r)) rs))"
proof -
  have inv: "client_inv True mx acc tk hi" using assms(1) by (rule client_reach_inv)
  let ?ids = "concat (map (\<lambda>r. map (\<lambda>d. (er_timestamp r, ed_msgid d)) (er_data r)) rs)"
  have "stamped (\<lambda>time d. (time, ed_msgid d)) tk hi =
      ?ids @ map (\<lambda>d. (hi_current_time hi, ed_msgid d)) (hi_current_slot hi)"
    by (simp only: stamped_def assms(2))
  then have "sorted_wrt id_before ?ids"
    using inv by (simp only: client_inv_def sorted_wrt_append simp_thms)
  moreover have "sorted_wrt id_before xs \<Longrightarrow> distinct xs" for xs
    by (induction xs) (auto simp: id_before_def)
  moreover have "list_all (report_fits mx hi) rs"
    using inv assms(2) by (simp add: client_inv_def list_all_iff)
  ultimately show ?thesis by (simp add: report_fits_def [abs_def])
qed

text \<open>
  C34. While reporting is enabled, an accepted event does not wait for further ones: when the queue has run empty, the
  first waiting time of the submit thread that ends in another second closes the current slot, and the
  next turn takes it out, whole, as a report for the second of its events. The program is built without
  assertions, or no update has lowered \<open>size_per_report\<close> below what the slot holds.
\<close>
theorem slot_gets_submitted:
  assumes "client_reach dbg steady mx acc tk hi" "items (hi_submit_queue hi) = []" "hi_current_slot hi \<noteq> []"
    and "report_enabled (hi_conf hi)" "hi_current_time hi \<noteq> now"
    and "\<not> dbg \<or> int (length (hi_current_slot hi)) \<le> size_per_report (hi_conf hi)"
  shows "\<exists>hi1 hi2 report. run_pop dbg [] now hi = Returned (None, hi1) \<and>
           run_pop dbg [] now' hi1 = Returned (Some report, hi2) \<and>
           er_data report = hi_current_slot hi \<and> er_timestamp report = hi_current_time hi \<and>
           er_service report = hi_service hi \<and> er_entity_idx report = hi_entity_idx hi \<and>
           hi_current_slot hi2 = [] \<and> items (hi_submit_queue hi2) = []"
proof -
  have "\<not> dbg \<or> int (length (hi_current_slot hi)) \<le> to_u64 (size_per_report (hi_conf hi))"
    using client_reach_inv [OF assms(1)] assms(6) by (simp add: client_inv_def to_u64_pos_i32)
  then show ?thesis
    using assms(2-5)
    by (auto simp: run_pop_def POP_timed_nil pop_front_def report_empty_event_def report_event_def Let_def)
qed

text \<open>
  While reporting is switched off, the submit thread's empty events do nothing: what the slot holds stays there.
\<close>
lemma slot_kept_while_disabled:
  "items (hi_submit_queue hi) = [] \<Longrightarrow> \<not> report_enabled (hi_conf hi) \<Longrightarrow> run_pop dbg [] now hi = Returned (None, hi)"
  by (simp add: run_pop_def POP_timed_nil pop_front_def report_empty_event_def report_event_disabled)

text \<open>
  A configuration update that lowers \<open>size_per_report\<close> below what the current slot already
  holds: the next report aborts a program built with assertions, and without them is queued
  larger than the new size allows.
\<close>
theorem lowered_size_breaks:
  assumes "report_enabled (hi_conf hi)" "0 < n" "is_i32 n" "n < int (length (hi_current_slot hi))"
    and "hi' = hi\<lparr>hi_conf := (hi_conf hi)\<lparr>size_per_report := n\<rparr>\<rparr>"
    and "mc_int g ''size_per_report'' = Some n" "mc_int g ''report_queue_limit'' = None" "mc_bool g ''report_enabled'' = None"
  shows "client_module_runtime (Some g) hi = (0, hi') \<and>
         report_event True now metric val tag hi' = Crashed \<and>
         (\<exists>hi'' report. report_event False now metric val tag hi' = Returned (0, hi'') \<and>
            items (hi_submit_queue hi'') = items (hi_submit_queue hi) @ [report] \<and>
            size_per_report (hi_conf hi'') < int (length (er_data report)))"
proof -
  have u: "to_u64 n = n" using assms(2,3) by (rule to_u64_pos_i32)
  have ne: "hi_current_slot hi \<noteq> []" using assms(2,4) by auto
  have "client_module_runtime (Some g) hi = (0, hi')"
    using assms(2,5-8) by (simp add: client_module_runtime_def update_client_conf_def Let_def)
  moreover have "report_event True now metric val tag hi' = Crashed"
    using assms(1,4,5) u by (simp add: report_event_def Let_def)
  moreover have "\<exists>hi'' report. report_event False now metric val tag hi' = Returned (0, hi'') \<and>
            items (hi_submit_queue hi'') = items (hi_submit_queue hi) @ [report] \<and>
            size_per_report (hi_conf hi'') < int (length (er_data report))"
    using assms(1,4,5) u ne by (simp add: report_event_def Let_def)
  ultimately show ?thesis by simp
qed

section \<open>Witnesses\<close>

definition example_client :: HeraclesClientImpl where
  "example_client = mk_HeraclesClientImpl ''svc'' ''''"

lemma example_started: "client_reach dbg steady 5000 [] [] example_client"
  using started [where service = "''svc''" and entity = "''''" and conf = default_HeraclesClientConf]
  by (simp add: example_client_def mk_HeraclesClientImpl_def default_HeraclesClientConf_def is_i32_def)

text \<open>The example after one event at the second 100.\<close>

definition example_reported :: HeraclesClientImpl where
  "example_reported = example_client\<lparr>hi_msgid := 2, hi_current_time := 100,
     hi_current_slot := [\<lparr>ed_msgid = 2, ed_metric = ''m'', ed_tag = ''t'', ed_value = 7\<rparr>]\<rparr>"

lemma client_report: "report_event dbg 100 ''m'' 7 ''t'' example_client = Returned (0, example_reported)"
  by (simp add: report_event_def example_client_def example_reported_def mk_HeraclesClientImpl_def Let_def
      default_HeraclesClientConf_def to_u64_def INT32_MAX_def)

lemma example_reached: "client_reach dbg steady 5000 [(100, ''m'', 7, ''t'')] [] example_reported"
  using reported [OF example_started _ client_report]
  by (simp add: accepted_def example_client_def mk_HeraclesClientImpl_def default_HeraclesClientConf_def)

lemma client_conserves_events_witness:
  "map (\<lambda>d. (hi_current_time example_reported, ed_metric d, ed_value d, ed_tag d)) (hi_current_slot example_reported) =
     [(100, ''m'', 7, ''t'')]"
  using client_conserves_events [OF example_reached]
  by (simp add: example_reported_def example_client_def mk_HeraclesClientImpl_def empty_queue_def)

text \<open>Witness: the report that the submit thread takes out a second later.\<close>
lemma client_reports_unique_witness:
  "\<exists>hi1 hi2 r. run_pop True [] 101 example_reported = Returned (None, hi1) \<and>
     run_pop True [] 101 hi1 = Returned (Some r, hi2) \<and>
     er_service r = ''svc'' \<and> distinct (map (\<lambda>d. (er_timestamp r, ed_msgid d)) (er_data r))"
proof -
  let ?r = "\<lparr>er_version = ''1.0.0'', er_timestamp = 100, er_service = ''svc'', er_entity_idx = '''',
             er_data = hi_current_slot example_reported\<rparr>"
  let ?q = "\<lambda>rs. example_reported\<lparr>hi_msgid := 4, hi_current_time := 101, hi_current_slot := [],
             hi_submit_queue := \<lparr>items = rs\<rparr>\<rparr>"
  have p1: "run_pop True [] 101 example_reported = Returned (None, ?q [?r])"
    by (simp add: run_pop_def POP_timed_nil pop_front_def report_empty_event_def report_event_def Let_def
        example_reported_def example_client_def mk_HeraclesClientImpl_def empty_queue_def PUSH_def
        default_HeraclesClientConf_def to_u64_def INT32_MAX_def)
  have p2: "run_pop True [] 101 (?q [?r]) = Returned (Some ?r, ?q [])"
    by (simp add: run_pop_def POP_timed_nil pop_front_def)
  have "client_reach True True 5000 [(100, ''m'', 7, ''t'')] [] (?q [?r])"
    using popped [OF example_reached _ p1] by (simp add: example_reported_def)
  from popped [OF this _ p2] have "client_reach True True 5000 [(100, ''m'', 7, ''t'')] [?r] (?q [])" by simp
  from client_reports_unique [OF this] p1 p2 show ?thesis
    by (intro exI conjI) (assumption | simp)+
qed

lemma slot_gets_submitted_witness:
  "\<exists>hi1 hi2 report. run_pop True [] 101 example_reported = Returned (None, hi1) \<and>
     run_pop True [] 102 hi1 = Returned (Some report, hi2) \<and> er_timestamp report = 100"
  using slot_gets_submitted [OF example_reached [of True True], of 101 102]
  by (auto simp: example_reported_def example_client_def mk_HeraclesClientImpl_def empty_queue_def
      default_HeraclesClientConf_def)

text \<open>Witness: the size is lowered from 5000 to 1 while two events wait.\<close>
lemma lowered_size_breaks_witness:
  "report_event True 100 ''m'' 8 ''t''
     (example_client\<lparr>hi_current_slot := [\<lparr>ed_msgid = 1, ed_metric = ''m'', ed_tag = ''t'', ed_value = 7\<rparr>,
                                        \<lparr>ed_msgid = 2, ed_metric = ''m'', ed_tag = ''t'', ed_value = 9\<rparr>],
                     hi_conf := default_HeraclesClientConf\<lparr>size_per_report := 1\<rparr>\<rparr>) = Crashed"
proof -
  let ?hi = "example_client\<lparr>hi_current_slot := [\<lparr>ed_msgid = 1, ed_metric = ''m'', ed_tag = ''t'', ed_value = 7\<rparr>,
                                        \<lparr>ed_msgid = 2, ed_metric = ''m'', ed_tag = ''t'', ed_value = 9\<rparr>]\<rparr>"
  let ?g = "\<lparr>mc_str = \<lambda>_. None, mc_int = [''size_per_report'' \<mapsto> 1], mc_bool = \<lambda>_. None\<rparr>"
  have "hi_conf ?hi = default_HeraclesClientConf" by (simp add: example_client_def mk_HeraclesClientImpl_def)
  then show ?thesis
    using lowered_size_breaks [of ?hi 1 _ ?g 100 "''m''" 8 "''t''", OF _ _ _ _ refl]
    by (simp add: default_HeraclesClientConf_def is_i32_def)
qed

end
