(* ===== verification/EventHandler.thy ===== *)
theory EventHandler
  imports EventTypes EQueue
begin

text \<open>
  \<open>source/Business/EventHandler.cpp\<close>: one handler per (service, entity). Reports are gathered in time
  slots; a slot older than the linger time goes to the process queue, is deduplicated and
  aggregated per metric and tag, and its rows are inserted into the store.

  The handler's thread and timer callbacks are functions on the handler; \<open>now\<close> is what
  \<open>::time(NULL)\<close> returns. \<open>time_t\<close> arithmetic is exact here: it is exact in the code for times
  whose distance to the limits of \<open>int64_t\<close> is more than step and linger. The store is a
  parameter: its \<open>insert_ev_stat\<close> is a function on its state.
\<close>

record EventHandlerConf =
  event_linger :: int
  event_step :: int
  additional_process_step_size :: int
  store_type :: string

definition default_EventHandlerConf :: EventHandlerConf where
  "default_EventHandlerConf =
     \<lparr>event_linger = 0, event_step = 0, additional_process_step_size = 0, store_type = ''mysql''\<rparr>"

definition nice_step :: "EventHandlerConf \<Rightarrow> int \<Rightarrow> int" where
  "nice_step conf t = t + (event_step conf - t smod event_step conf)"

record EventHandler =
  eh_service :: string
  eh_entity_idx :: string
  eh_identity :: string
  process_queue :: "events_by_time_t equeue"
  thread_terminate :: bool
  eh_conf :: EventHandlerConf
  events :: "(int, events_by_time_t) omap"
  has_store :: bool

definition mk_EventHandler :: "string \<Rightarrow> string \<Rightarrow> EventHandler" where
  "mk_EventHandler service entity_idx =
     \<lparr>eh_service = service, eh_entity_idx = entity_idx, eh_identity = construct_identity service entity_idx,
      process_queue = empty_queue, thread_terminate = False, eh_conf = default_EventHandlerConf,
      events = [], has_store = False\<rparr>"

section \<open>Configuration\<close>

text \<open>
  \<open>init\<close> looks for a group whose \<open>instance_name\<close> is the service; \<open>value_i\<close> is not initialised, so its
  first value is the argument \<open>junk\<close>, and a failed lookup keeps the value of the lookup before.
  \<open>services\<close> is \<open>None\<close> when \<open>rpc.business.services\<close> does not exist.
\<close>

definition override_conf :: "int \<Rightarrow> cfg_group \<Rightarrow> EventHandlerConf \<Rightarrow> EventHandlerConf" where
  "override_conf junk g conf =
     (let v1 = lookupValue (cfg_int g) ''event_linger'' junk;
          c1 = (if v1 > 0 then conf\<lparr>event_linger := v1\<rparr> else conf);
          v2 = lookupValue (cfg_int g) ''event_step'' v1;
          c2 = (if v2 > 0 then c1\<lparr>event_step := v2\<rparr> else c1);
          v3 = lookupValue (cfg_int g) ''additional_process_step_size'' v2;
          c3 = (if v3 > 0 then c2\<lparr>additional_process_step_size := v3\<rparr> else c2);
          st = lookupValue (cfg_str g) ''store_type'' ''''
      in if st = ''mysql'' \<or> st = ''redis'' \<or> st = ''leveldb'' then c3\<lparr>store_type := st\<rparr> else c3)"

fun find_group :: "string \<Rightarrow> string \<Rightarrow> cfg_group list \<Rightarrow> cfg_group option" where
  "find_group key name [] = None"
| "find_group key name (g # gs) =
     (if lookupValue (cfg_str g) key '''' = name then Some g else find_group key name gs)"

definition eh_init ::
    "EventHandlerConf \<Rightarrow> int \<Rightarrow> cfg_group list option option \<Rightarrow> (string \<Rightarrow> bool) \<Rightarrow> bool \<Rightarrow>
     EventHandler \<Rightarrow> bool \<times> EventHandler" where
  "eh_init default_conf junk conf_ptr store_factory_ok timer_ok h =
     (if eh_service h = [] then (False, h)
      else
        let h1 = h\<lparr>eh_conf := default_conf\<rparr>
        in case conf_ptr of
             None \<Rightarrow> (False, h1)
           | Some rpc_handlers \<Rightarrow>
               let conf = (case rpc_handlers of
                             None \<Rightarrow> eh_conf h1
                           | Some gs \<Rightarrow>
                               (case find_group ''instance_name'' (eh_service h) gs of
                                  None \<Rightarrow> eh_conf h1
                                | Some g \<Rightarrow> override_conf junk g (eh_conf h1)));
                   h2 = h1\<lparr>eh_conf := conf\<rparr>
               in if \<not> store_factory_ok (store_type conf) then (False, h2)
                  else if \<not> timer_ok then (False, h2\<lparr>has_store := True\<rparr>)
                  else (True, h2\<lparr>has_store := True\<rparr>))"

definition positive_update :: "cfg_group \<Rightarrow> string \<Rightarrow> int \<Rightarrow> int" where
  "positive_update g name old =
     (case cfg_int g name of None \<Rightarrow> old | Some v \<Rightarrow> if v > 0 then v else old)"

definition runtime_conf :: "cfg_group \<Rightarrow> EventHandlerConf \<Rightarrow> EventHandlerConf" where
  "runtime_conf g conf =
     conf\<lparr>event_linger := positive_update g ''event_linger'' (event_linger conf),
          event_step := positive_update g ''event_step'' (event_step conf),
          additional_process_step_size :=
            positive_update g ''additional_process_step_size'' (additional_process_step_size conf)\<rparr>"

definition eh_update_runtime_conf :: "cfg_group list option \<Rightarrow> EventHandler \<Rightarrow> int \<times> EventHandler" where
  "eh_update_runtime_conf rpc_handlers h =
     (0, case rpc_handlers of
           None \<Rightarrow> h
         | Some gs \<Rightarrow>
             (case find_group ''service_name'' (eh_service h) gs of
                None \<Rightarrow> h
              | Some g \<Rightarrow> h\<lparr>eh_conf := runtime_conf g (eh_conf h)\<rparr>))"

section \<open>Gathering\<close>

definition add_to_slot :: "event_data_t \<Rightarrow> events_by_metric_t \<Rightarrow> events_by_metric_t" where
  "add_to_slot d slot =
     (let old = (case om_find slot (ed_metric d) of None \<Rightarrow> [] | Some v \<Rightarrow> v)
      in om_upd (ed_metric d) (old @ [d]) slot)"

definition do_add_event :: "int \<Rightarrow> event_data_t list \<Rightarrow> EventHandler \<Rightarrow> int \<times> EventHandler" where
  "do_add_event ev_time0 data h =
     (let ev_time = nice_step (eh_conf h) ev_time0;
          ebt = (case om_find (events h) ev_time of
                   None \<Rightarrow> \<lparr>ebt_timestamp = ev_time, ebt_step = event_step (eh_conf h), ebt_data = []\<rparr>
                 | Some e \<Rightarrow> e);
          ebt' = ebt\<lparr>ebt_data := fold add_to_slot data (ebt_data ebt)\<rparr>
      in (0, h\<lparr>events := om_upd ev_time ebt' (events h)\<rparr>))"

definition eh_add_event :: "int \<Rightarrow> event_report_t \<Rightarrow> EventHandler \<Rightarrow> int \<times> EventHandler" where
  "eh_add_event now ev h =
     (if er_service ev \<noteq> eh_service h then (-1, h)
      else if now - er_timestamp ev > event_linger (eh_conf h) then (-1, h)
      else do_add_event (er_timestamp ev) (er_data ev) h)"

fun linger_loop ::
    "int \<Rightarrow> int \<Rightarrow> (int, events_by_time_t) omap \<Rightarrow> events_by_time_t equeue \<Rightarrow>
     (int, events_by_time_t) omap \<times> events_by_time_t equeue" where
  "linger_loop now linger [] q = ([], q)"
| "linger_loop now linger ((t, e) # m) q =
     (if t + linger < now then linger_loop now linger m (PUSH e q) else ((t, e) # m, q))"

definition linger_check_run :: "int \<Rightarrow> EventHandler \<Rightarrow> EventHandler" where
  "linger_check_run now h =
     (case linger_loop now (event_linger (eh_conf h)) (events h) (process_queue h) of
        (evs, q) \<Rightarrow> h\<lparr>events := evs, process_queue := q\<rparr>)"

section \<open>Aggregation\<close>

record stat_info_t =
  si_count :: int
  si_value_sum :: int
  si_value_avg :: int
  si_value_min :: int
  si_value_max :: int
  si_value_p10 :: int
  si_value_p50 :: int
  si_value_p90 :: int
  si_values :: "int list"

definition zero_stat :: stat_info_t where
  "zero_stat =
     \<lparr>si_count = 0, si_value_sum = 0, si_value_avg = 0, si_value_min = 0, si_value_max = 0,
      si_value_p10 = 0, si_value_p50 = 0, si_value_p90 = 0, si_values = []\<rparr>"

definition aggregate_by_tag ::
    "event_data_t \<Rightarrow> (string, stat_info_t) omap \<Rightarrow> (string, stat_info_t) omap" where
  "aggregate_by_tag data infos =
     (let i = (case om_find infos (ed_tag data) of None \<Rightarrow> zero_stat | Some i \<Rightarrow> i)
      in om_upd (ed_tag data)
           (i\<lparr>si_values := si_values i @ [to_i32 (ed_value data)],
              si_count := to_i32 (si_count i + 1),
              si_value_sum := to_i64 (si_value_sum i + ed_value data)\<rparr>) infos)"

text \<open>
  \<open>std::nth_element\<close> puts at position \<open>n\<close> the element a full sort would put there.
\<close>

definition nth_element :: "int list \<Rightarrow> nat \<Rightarrow> int" where
  "nth_element xs n = sort xs ! n"

definition nth_greater :: "int list \<Rightarrow> nat \<Rightarrow> int" where
  "nth_greater xs n = rev (sort xs) ! n"

text \<open>
  The indices \<open>len * 0.1\<close>, \<open>len * 0.5\<close>, \<open>len * 0.9\<close> are computed in \<open>double\<close> and truncated: the
  constants are at least their decimal value, so below \<open>2 ^ 50\<close> elements the truncation is the integer
  quotient.
\<close>

definition finish_info :: "stat_info_t \<Rightarrow> stat_info_t" where
  "finish_info info =
     (if si_count info = 0 then info
      else
        let len = length (si_values info);
            vs = si_values info
        in info\<lparr>si_value_avg := to_i32 (si_value_sum info sdiv si_count info),
                si_value_min := nth_element vs 0,
                si_value_max := nth_greater vs 0,
                si_value_p10 := nth_element vs (len div 10),
                si_value_p50 := nth_element vs (len div 2),
                si_value_p90 := nth_element vs (9 * len div 10)\<rparr>)"

fun dedup_loop :: "int list \<Rightarrow> event_data_t list \<Rightarrow> event_data_t list" where
  "dedup_loop ids [] = []"
| "dedup_loop ids (d # ds) =
     (if ed_msgid d \<in> set ids then d # dedup_loop (removeAll (ed_msgid d) ids) ds
      else dedup_loop ids ds)"

definition calc_event_info_each_metric ::
    "event_data_t list \<Rightarrow> (string, stat_info_t) omap \<Rightarrow> event_data_t list \<times> (string, stat_info_t) omap" where
  "calc_event_info_each_metric data infos =
     (let ids = fold (\<lambda>d s. os_insert (ed_msgid d) s) data [];
          data' = (if length ids \<noteq> length data then dedup_loop ids data else data);
          infos' = fold aggregate_by_tag data' infos
      in (data', map (\<lambda>(tag, i). (tag, finish_info i)) infos'))"

section \<open>Storing\<close>

definition fill_stat :: "string \<Rightarrow> string \<Rightarrow> stat_info_t \<Rightarrow> event_insert_t \<Rightarrow> event_insert_t" where
  "fill_stat metric tag i s =
     s\<lparr>ins_metric := metric, ins_tag := tag, ins_count := si_count i, ins_value_sum := si_value_sum i,
       ins_value_avg := si_value_avg i, ins_value_min := si_value_min i, ins_value_max := si_value_max i,
       ins_value_p10 := si_value_p10 i, ins_value_p50 := si_value_p50 i, ins_value_p90 := si_value_p90 i\<rparr>"

text \<open>
  A failed insert is only logged. \<open>insf\<close> is the store's \<open>insert_ev_stat\<close>.
\<close>

fun store_tags ::
    "bool \<Rightarrow> (event_insert_t \<Rightarrow> 'st \<Rightarrow> int \<times> 'st) \<Rightarrow> string \<Rightarrow> (string, stat_info_t) omap \<Rightarrow>
     event_insert_t \<Rightarrow> 'st \<Rightarrow> event_insert_t \<times> 'st" where
  "store_tags ok insf metric [] s st = (s, st)"
| "store_tags ok insf metric ((tag, i) # m) s st =
     (let s' = fill_stat metric tag i s;
          st' = (if ok then snd (insf s' st) else st)
      in store_tags ok insf metric m s' st')"

fun store_metrics ::
    "bool \<Rightarrow> (event_insert_t \<Rightarrow> 'st \<Rightarrow> int \<times> 'st) \<Rightarrow> events_by_metric_t \<Rightarrow> event_insert_t \<Rightarrow> 'st \<Rightarrow> 'st" where
  "store_metrics ok insf [] s st = st"
| "store_metrics ok insf ((metric, data) # m) s st =
     (let (data', tag_info) = calc_event_info_each_metric data [];
          (s', st') = store_tags ok insf metric tag_info s st
      in store_metrics ok insf m s' st')"

definition do_process_event ::
    "bool \<Rightarrow> (event_insert_t \<Rightarrow> 'st \<Rightarrow> int \<times> 'st) \<Rightarrow> events_by_time_t \<Rightarrow> event_insert_t \<Rightarrow> 'st \<Rightarrow> int \<times> 'st" where
  "do_process_event ok insf event copy_stat st =
     (0, store_metrics ok insf (ebt_data event) copy_stat st)"

definition stat_for :: "EventHandler \<Rightarrow> events_by_time_t \<Rightarrow> event_insert_t" where
  "stat_for h e =
     zero_insert\<lparr>ins_service := eh_service h, ins_entity_idx := eh_entity_idx h,
                 ins_timestamp := ebt_timestamp e, ins_step := to_u8 (ebt_step e)\<rparr>"

definition run_once_task ::
    "(event_insert_t \<Rightarrow> 'st \<Rightarrow> int \<times> 'st) \<Rightarrow> events_by_time_t list \<Rightarrow> EventHandler \<Rightarrow> 'st \<Rightarrow> 'st" where
  "run_once_task insf evs h st =
     fold (\<lambda>e st. snd (do_process_event (has_store h) insf e (stat_for h e) st)) evs st"

text \<open>
  The inner loop of \<open>run\<close>: while more than twice the step size of slots wait, a batch goes to a helper
  thread. The comparison is in \<open>size_t\<close>.
\<close>

function drain_batches ::
    "int \<Rightarrow> events_by_time_t equeue \<Rightarrow> events_by_time_t list list \<times> events_by_time_t equeue" where
  "drain_batches queue_size q =
     (if int (SIZE q) > to_u64 (to_i32 (2 * queue_size))
      then
        (case POP_batch [] [] (nat (to_u64 queue_size)) q of
           (ret, ev_inserts, q') \<Rightarrow>
             if ret = 0 then ([], q')
             else (case drain_batches queue_size q' of (bs, q'') \<Rightarrow> (ev_inserts # bs, q'')))
      else ([], q))"
  by pat_completeness auto

lemma POP_batch_now:
  "POP_batch [] [] n q =
     (let k = (if items q = [] then 0 else min (max 1 n) (length (items q)))
      in (k, take k (items q), q\<lparr>items := drop k (items q)\<rparr>))"
  by (simp add: POP_batch_eq wait_until_Nil)

termination drain_batches
  by (relation "measure (\<lambda>(n, q). length (items q))")
    (auto simp: POP_batch_now Let_def SIZE_def split: if_splits)

declare drain_batches.simps [simp del]

text \<open>One turn of \<open>run\<close>: the batches for the helpers, the slot processed by this thread, if any.\<close>

definition run_turn ::
    "events_by_time_t wakeup list \<Rightarrow> (event_insert_t \<Rightarrow> 'st \<Rightarrow> int \<times> 'st) \<Rightarrow> EventHandler \<Rightarrow> 'st \<Rightarrow>
     (events_by_time_t list list \<times> events_by_time_t option \<times> EventHandler \<times> 'st) option" where
  "run_turn ws insf h st =
     (if thread_terminate h then None
      else
        let (batches, q1) = drain_batches (additional_process_step_size (eh_conf h)) (process_queue h);
            (ev, q2) = POP_timed ws q1;
            h' = h\<lparr>process_queue := q2\<rparr>
        in Some (batches, ev, h',
                 case ev of None \<Rightarrow> st
                 | Some e \<Rightarrow> snd (do_process_event (has_store h) insf e (stat_for h e) st)))"

section \<open>Slots are closed once\<close>

text \<open>
  A handler over time: the clock never goes back; reports arrive, the linger timer fires, the handler's
  thread takes slots from its queue, in any order. \<open>closed\<close> lists the slots the timer has moved to
  the queue so far, \<open>accepted\<close> the data of the accepted reports with their slot.
\<close>

record timeline =
  clock :: int
  handler :: EventHandler
  closed :: "events_by_time_t list"
  accepted :: "(int \<times> event_data_t) list"

definition newly_closed :: "int \<Rightarrow> EventHandler \<Rightarrow> events_by_time_t list" where
  "newly_closed now h =
     drop (length (items (process_queue h))) (items (process_queue (linger_check_run now h)))"

definition taken_in :: "int \<Rightarrow> event_report_t \<Rightarrow> EventHandler \<Rightarrow> (int \<times> event_data_t) list" where
  "taken_in now ev h =
     (if fst (eh_add_event now ev h) = 0
      then map (\<lambda>d. (nice_step (eh_conf h) (er_timestamp ev), d)) (er_data ev) else [])"

inductive tl_step :: "timeline \<Rightarrow> timeline \<Rightarrow> bool" where
  tick: "clock s \<le> t \<Longrightarrow> tl_step s (s\<lparr>clock := t\<rparr>)"
| report: "tl_step s (s\<lparr>handler := snd (eh_add_event (clock s) ev (handler s)),
                        accepted := accepted s @ taken_in (clock s) ev (handler s)\<rparr>)"
| linger: "tl_step s (s\<lparr>handler := linger_check_run (clock s) (handler s),
                        closed := closed s @ newly_closed (clock s) (handler s)\<rparr>)"
| work: "run_turn [] (\<lambda>_ _. (0, ())) (handler s) () = Some (bs, ev, h', st) \<Longrightarrow>
         tl_step s (s\<lparr>handler := h'\<rparr>)"

inductive_cases tl_stepE: "tl_step s s'"

inductive tl_reach :: "timeline \<Rightarrow> timeline \<Rightarrow> bool" for s0 where
  start: "tl_reach s0 s0"
| step: "tl_reach s0 s \<Longrightarrow> tl_step s s' \<Longrightarrow> tl_reach s0 s'"

definition fresh_timeline :: "int \<Rightarrow> EventHandler \<Rightarrow> timeline" where
  "fresh_timeline t h = \<lparr>clock = t, handler = h, closed = [], accepted = []\<rparr>"

subsection \<open>The operations on slots\<close>

lemma smod_less: "0 < s \<Longrightarrow> (t::int) smod s < s"
  using smod_int_range [of s t] by simp

lemma nice_step_after: "0 < event_step conf \<Longrightarrow> t < nice_step conf t"
  using smod_less [of "event_step conf" t] by (simp add: nice_step_def)

definition metric_data :: "events_by_metric_t \<Rightarrow> string \<Rightarrow> event_data_t list" where
  "metric_data slot m = (case om_find slot m of None \<Rightarrow> [] | Some v \<Rightarrow> v)"

lemma add_to_slot_data:
  "om_wf slot \<Longrightarrow> om_wf (add_to_slot d slot) \<and>
     metric_data (add_to_slot d slot) m = metric_data slot m @ (if ed_metric d = m then [d] else [])"
  by (simp add: add_to_slot_def metric_data_def om_wf_upd om_find_upd)

lemma fold_add_to_slot_data:
  "om_wf slot \<Longrightarrow> om_wf (fold add_to_slot data slot) \<and>
     metric_data (fold add_to_slot data slot) m = metric_data slot m @ filter (\<lambda>d. ed_metric d = m) data"
  by (induction data arbitrary: slot) (simp_all add: add_to_slot_data)

lemma linger_loop_split:
  "linger_loop now linger m q =
     (dropWhile (\<lambda>(t, e). t + linger < now) m,
      q\<lparr>items := items q @ map snd (takeWhile (\<lambda>(t, e). t + linger < now) m)\<rparr>)"
  by (induction m arbitrary: q) (auto simp: PUSH_def)

lemma linger_check_run_split:
  defines "old \<equiv> \<lambda>now h (t, e). t + event_linger (eh_conf h) < now"
  shows "events (linger_check_run now h) = dropWhile (old now h) (events h)"
    and "newly_closed now h = map snd (takeWhile (old now h) (events h))"
    and "eh_conf (linger_check_run now h) = eh_conf h"
  by (simp_all add: linger_check_run_def newly_closed_def linger_loop_split old_def)

lemma run_turn_frame:
  "run_turn ws insf h st = Some (bs, ev, h', st') \<Longrightarrow> events h' = events h \<and> eh_conf h' = eh_conf h"
  by (auto simp: run_turn_def Let_def split: if_splits prod.splits)

subsection \<open>The invariant\<close>

text \<open>
  All slots, closed and open, are in strictly ascending order of time; each holds, metric by metric and
  in order of arrival, exactly the accepted data that belong to it.
\<close>

definition slot_ok :: "timeline \<Rightarrow> events_by_time_t \<Rightarrow> bool" where
  "slot_ok s e \<longleftrightarrow>
     om_wf (ebt_data e) \<and>
     (\<forall>m. metric_data (ebt_data e) m =
            map snd (filter (\<lambda>(t, d). t = ebt_timestamp e \<and> ed_metric d = m) (accepted s)))"

definition slots :: "timeline \<Rightarrow> events_by_time_t list" where
  "slots s = closed s @ map snd (events (handler s))"

definition tl_inv :: "timeline \<Rightarrow> bool" where
  "tl_inv s \<longleftrightarrow>
     0 < event_step (eh_conf (handler s)) \<and>
     om_wf (events (handler s)) \<and> (\<forall>(k, e)\<in>set (events (handler s)). ebt_timestamp e = k) \<and>
     sorted_wrt (<) (map ebt_timestamp (closed s)) \<and>
     (\<forall>e\<in>set (closed s). ebt_timestamp e + event_linger (eh_conf (handler s)) < clock s) \<and>
     (\<forall>e\<in>set (closed s). \<forall>k\<in>fst ` set (events (handler s)). ebt_timestamp e < k) \<and>
     (\<forall>e\<in>set (slots s). slot_ok s e) \<and>
     fst ` set (accepted s) \<subseteq> ebt_timestamp ` set (slots s)"

lemma tl_invD:
  assumes "tl_inv s"
  shows "0 < event_step (eh_conf (handler s))" "om_wf (events (handler s))"
    "\<And>k e. (k, e) \<in> set (events (handler s)) \<Longrightarrow> ebt_timestamp e = k"
    "sorted_wrt (<) (map ebt_timestamp (closed s))"
    "\<And>e. e \<in> set (closed s) \<Longrightarrow> ebt_timestamp e + event_linger (eh_conf (handler s)) < clock s"
    "\<And>e k. e \<in> set (closed s) \<Longrightarrow> k \<in> fst ` set (events (handler s)) \<Longrightarrow> ebt_timestamp e < k"
    "\<And>e. e \<in> set (slots s) \<Longrightarrow> slot_ok s e"
    "fst ` set (accepted s) \<subseteq> ebt_timestamp ` set (slots s)"
  using assms unfolding tl_inv_def by blast+

lemma tl_inv_tick: "tl_inv s \<Longrightarrow> clock s \<le> t \<Longrightarrow> tl_inv (s\<lparr>clock := t\<rparr>)"
  by (simp add: tl_inv_def slots_def slot_ok_def) (meson order_less_le_trans)

lemma tl_inv_work:
  assumes "tl_inv s" "run_turn ws insf (handler s) st = Some (bs, ev, h', st')"
  shows "tl_inv (s\<lparr>handler := h'\<rparr>)"
  using assms(1) run_turn_frame [OF assms(2)] by (simp add: tl_inv_def slots_def slot_ok_def)

lemma tl_inv_linger:
  assumes "tl_inv s"
  shows "tl_inv (s\<lparr>handler := linger_check_run (clock s) (handler s),
                  closed := closed s @ newly_closed (clock s) (handler s)\<rparr>)"
proof -
  let ?h = "handler s"
  let ?old = "\<lambda>(t, e::events_by_time_t). t + event_linger (eh_conf ?h) < clock s"
  define front rest where "front = takeWhile ?old (events ?h)" and "rest = dropWhile ?old (events ?h)"
  have ev: "events ?h = front @ rest" by (simp add: front_def rest_def)
  note inv = tl_invD [OF assms]
  have keys: "ebt_timestamp e = k" if "(k, e) \<in> set front \<union> set rest" for k e
    using inv(3) [of k e] that by (auto simp: ev)
  have wf: "sorted_wrt (<) (map fst front)" "om_wf rest"
    "\<And>a b. a \<in> fst ` set front \<Longrightarrow> b \<in> fst ` set rest \<Longrightarrow> a < b"
    using inv(2) by (auto simp: ev om_wf_def sorted_wrt_append)
  have fm: "map (ebt_timestamp \<circ> snd) front = map fst front" using keys by auto
  have "sorted_wrt (<) (map ebt_timestamp (closed s @ map snd front))"
    using inv(4) wf(1) inv(6) keys by (auto simp: sorted_wrt_append ev fm)
  moreover have "k + event_linger (eh_conf ?h) < clock s" if "(k, e) \<in> set front" for k e
    using that by (auto simp: front_def dest: set_takeWhileD)
  then have "\<forall>e\<in>set (map snd front). ebt_timestamp e + event_linger (eh_conf ?h) < clock s"
    using keys by fastforce
  moreover have "\<forall>e\<in>set (closed s @ map snd front). \<forall>k\<in>fst ` set rest. ebt_timestamp e < k"
    using inv(6) wf(3) keys by (fastforce simp: ev)
  moreover have "\<forall>(k, e)\<in>set rest. ebt_timestamp e = k" using keys by auto
  moreover define s' where "s' = s\<lparr>handler := linger_check_run (clock s) ?h,
                                   closed := closed s @ newly_closed (clock s) ?h\<rparr>"
  then have s': "events (handler s') = rest" "closed s' = closed s @ map snd front" "slots s' = slots s"
    "eh_conf (handler s') = eh_conf ?h" "clock s' = clock s" "accepted s' = accepted s"
    by (simp_all add: linger_check_run_split slots_def front_def rest_def flip: map_append)
  ultimately have "tl_inv s'"
    using inv(1,5,7,8) wf(2) by (simp add: tl_inv_def slot_ok_def ball_Un)
  then show ?thesis by (simp add: s'_def)
qed

lemma tl_inv_report_accepted:
  assumes "tl_inv s" "er_service ev = eh_service (handler s)"
    and "clock s - er_timestamp ev \<le> event_linger (eh_conf (handler s))"
  defines "k \<equiv> nice_step (eh_conf (handler s)) (er_timestamp ev)"
  shows "tl_inv (s\<lparr>handler := snd (do_add_event (er_timestamp ev) (er_data ev) (handler s)),
                  accepted := accepted s @ map (\<lambda>d. (k, d)) (er_data ev)\<rparr>)"
proof -
  let ?h = "handler s" and ?m = "events (handler s)"
  note inv = tl_invD [OF assms(1)]
  define e0 where "e0 = (case om_find ?m k of
       None \<Rightarrow> \<lparr>ebt_timestamp = k, ebt_step = event_step (eh_conf ?h), ebt_data = []\<rparr> | Some e \<Rightarrow> e)"
  define e1 where "e1 = e0\<lparr>ebt_data := fold add_to_slot (er_data ev) (ebt_data e0)\<rparr>"
  define s' where "s' = s\<lparr>handler := ?h\<lparr>events := om_upd k e1 ?m\<rparr>,
                         accepted := accepted s @ map (\<lambda>d. (k, d)) (er_data ev)\<rparr>"
  have h': "snd (do_add_event (er_timestamp ev) (er_data ev) ?h) = ?h\<lparr>events := om_upd k e1 ?m\<rparr>"
    by (simp only: do_add_event_def Let_def e1_def e0_def k_def snd_conv)
  have late: "ebt_timestamp e < k" if "e \<in> set (closed s)" for e
    using nice_step_after [OF inv(1), of "er_timestamp ev"] assms(3) inv(5) [OF that] by (simp add: k_def)
  have found: "om_find ?m k = Some e \<longleftrightarrow> (k, e) \<in> set ?m" for e
    using om.find_iff_entry [OF inv(2)] by simp
  have ts0: "ebt_timestamp e0 = k"
    using inv(3) [of k] found by (auto simp: e0_def split: option.splits)
  have ok0: "slot_ok s e0"
  proof (cases "om_find ?m k")
    case None
    then have "k \<notin> ebt_timestamp ` set (slots s)"
      using late inv(3) found by (force simp: slots_def)
    then have "filter (\<lambda>(t, d). t = k \<and> ed_metric d = m) (accepted s) = []" for m
      using inv(8) by (auto simp: filter_empty_conv)
    with None show ?thesis by (simp add: e0_def slot_ok_def metric_data_def)
  next
    case (Some e)
    then have "e \<in> set (slots s)" using found [of e] by (force simp: slots_def)
    with Some inv(7) show ?thesis by (simp add: e0_def)
  qed
  have ok1: "slot_ok s' e1"
    using ok0 fold_add_to_slot_data [of "ebt_data e0" "er_data ev"]
    by (simp add: slot_ok_def s'_def e1_def ts0 filter_map comp_def)
  have other: "slot_ok s' e" if "slot_ok s e" "ebt_timestamp e \<noteq> k" for e
    using that by (simp add: slot_ok_def s'_def filter_map comp_def)
  have set_m: "(t, e) \<in> set (om_upd k e1 ?m) \<longleftrightarrow> (t, e) = (k, e1) \<or> (t \<noteq> k \<and> (t, e) \<in> set ?m)" for t e
    using om.find_iff_entry [OF om_wf_upd [OF inv(2)], of k e1 t e] om.find_iff_entry [OF inv(2), of t e]
    by (cases "t = k") (auto simp: om_find_upd [OF inv(2)])
  have in_slots: "e \<in> set (slots s) \<longleftrightarrow> e \<in> set (closed s) \<or> (\<exists>t. (t, e) \<in> set ?m)" for e
    by (force simp: slots_def)
  have in_slots': "e \<in> set (slots s') \<longleftrightarrow> e \<in> set (closed s) \<or> e = e1 \<or> (\<exists>t. t \<noteq> k \<and> (t, e) \<in> set ?m)" for e
    using set_m by (force simp: slots_def s'_def)
  have ts1: "ebt_timestamp e1 = k" by (simp add: e1_def ts0)
  have slots1: "e = e1 \<or> (e \<in> set (slots s) \<and> ebt_timestamp e \<noteq> k)" if "e \<in> set (slots s')" for e
  proof -
    from that consider "e \<in> set (closed s)" | "e = e1" | t where "t \<noteq> k" "(t, e) \<in> set ?m"
      using in_slots' by blast
    then show ?thesis
    proof cases
      case 1
      with late [OF 1] in_slots show ?thesis by auto
    next
      case (3 t)
      with inv(3) [OF 3(2)] in_slots show ?thesis by blast
    qed simp
  qed
  have slots2: "\<exists>e'\<in>set (slots s'). ebt_timestamp e' = ebt_timestamp e" if "e \<in> set (slots s)" for e
  proof -
    from that consider "e \<in> set (closed s)" | t where "(t, e) \<in> set ?m"
      using in_slots by blast
    then show ?thesis
    proof cases
      case (2 t)
      with inv(3) [OF 2] in_slots' ts1 show ?thesis by (cases "t = k") blast+
    qed (use in_slots' in blast)
  qed
  have "tl_inv s'"
    unfolding tl_inv_def
  proof (intro conjI)
    show "\<forall>e\<in>set (slots s'). slot_ok s' e" using slots1 ok1 other inv(7) by blast
    have "k \<in> ebt_timestamp ` set (slots s')" using in_slots' [of e1] ts1 by blast
    moreover have "ebt_timestamp ` set (slots s) \<subseteq> ebt_timestamp ` set (slots s')"
      using slots2 by (metis image_eqI image_subsetI)
    moreover have "fst ` set (accepted s') \<subseteq> insert k (fst ` set (accepted s))"
      by (auto simp: s'_def)
    ultimately show "fst ` set (accepted s') \<subseteq> ebt_timestamp ` set (slots s')"
      using inv(8) by (meson insert_subset order_trans)
    show "\<forall>(t, e)\<in>set (events (handler s')). ebt_timestamp e = t"
      using set_m inv(3) ts0 by (auto simp: s'_def e1_def)
    show "\<forall>e\<in>set (closed s'). \<forall>t\<in>fst ` set (events (handler s')). ebt_timestamp e < t"
      using late inv(6) by (auto simp: s'_def om_upd_keys)
  qed (use inv in \<open>simp_all add: s'_def om_wf_upd\<close>)
  then show ?thesis by (simp add: s'_def h')
qed

lemma tl_inv_step: "tl_step s s' \<Longrightarrow> tl_inv s \<Longrightarrow> tl_inv s'"
proof (erule tl_stepE)
  fix ev
  assume "tl_inv s" and s': "s' = s\<lparr>handler := snd (eh_add_event (clock s) ev (handler s)),
      accepted := accepted s @ taken_in (clock s) ev (handler s)\<rparr>"
  then show "tl_inv s'"
  proof (cases "er_service ev = eh_service (handler s) \<and>
      clock s - er_timestamp ev \<le> event_linger (eh_conf (handler s))")
    case True
    then have "eh_add_event (clock s) ev (handler s) = do_add_event (er_timestamp ev) (er_data ev) (handler s)"
      by (simp add: eh_add_event_def)
    with True s' tl_inv_report_accepted [OF \<open>tl_inv s\<close>, of ev] show ?thesis
      by (simp add: taken_in_def do_add_event_def Let_def)
  next
    case False
    then have "eh_add_event (clock s) ev (handler s) = (-1, handler s)"
      by (auto simp: eh_add_event_def)
    with \<open>tl_inv s\<close> s' show ?thesis by (simp add: taken_in_def)
  qed
qed (auto intro: tl_inv_tick tl_inv_linger tl_inv_work)

lemma tl_inv_reach: "tl_reach s0 s \<Longrightarrow> tl_inv s0 \<Longrightarrow> tl_inv s"
  by (induction rule: tl_reach.induct) (auto intro: tl_inv_step)

lemma tl_inv_fresh: "0 < event_step (eh_conf h) \<Longrightarrow> events h = [] \<Longrightarrow> tl_inv (fresh_timeline t h)"
  by (simp add: tl_inv_def fresh_timeline_def slots_def)

text \<open>
  C6. In every run of a handler whose step is positive, with the clock going forward: slots are handed
  to the process queue in strictly ascending order of time, so no slot is ever closed twice and a late
  report never reopens one; and a closed slot holds, for each metric and in order of arrival,
  exactly the data of all accepted reports that fall into it, before and after it was closed.
\<close>
theorem slots_close_once:
  assumes "tl_reach (fresh_timeline t0 h) s" "0 < event_step (eh_conf h)" "events h = []"
  shows "sorted_wrt (<) (map ebt_timestamp (closed s)) \<and>
         (\<forall>e\<in>set (closed s). \<forall>m. metric_data (ebt_data e) m =
            map snd (filter (\<lambda>(t, d). t = ebt_timestamp e \<and> ed_metric d = m) (accepted s)))"
  using tl_inv_reach [OF assms(1) tl_inv_fresh [OF assms(2,3)]]
  by (simp add: tl_inv_def slots_def slot_ok_def)

text \<open>Witness: one report at time 100 under step 10 and linger 5, closed at time 120.\<close>

definition example_handler :: EventHandler where
  "example_handler = (mk_EventHandler ''svc'' '''')
     \<lparr>eh_conf := \<lparr>event_linger = 5, event_step = 10, additional_process_step_size = 3, store_type = ''leveldb''\<rparr>\<rparr>"

definition example_report :: event_report_t where
  "example_report = \<lparr>er_version = ''1.0.0'', er_timestamp = 100, er_service = ''svc'', er_entity_idx = '''',
     er_data = [\<lparr>ed_msgid = 1, ed_metric = ''m'', ed_tag = ''t'', ed_value = 7\<rparr>]\<rparr>"

definition example_timeline :: timeline where
  "example_timeline =
     (let s0 = fresh_timeline 100 example_handler;
          s1 = s0\<lparr>handler := snd (eh_add_event (clock s0) example_report (handler s0)),
                  accepted := accepted s0 @ taken_in (clock s0) example_report (handler s0)\<rparr>;
          s2 = s1\<lparr>clock := 120\<rparr>
      in s2\<lparr>handler := linger_check_run (clock s2) (handler s2),
             closed := closed s2 @ newly_closed (clock s2) (handler s2)\<rparr>)"

lemma example_timeline_reach: "tl_reach (fresh_timeline 100 example_handler) example_timeline"
  unfolding example_timeline_def Let_def
  by (rule tl_reach.step [OF tl_reach.step [OF tl_reach.step [OF tl_reach.start tl_step.report] tl_step.tick]
        tl_step.linger]) (simp add: fresh_timeline_def)

lemma slots_close_once_witness:
  "\<exists>e. closed example_timeline = [e] \<and> ebt_timestamp e = 110 \<and>
       (\<forall>m. metric_data (ebt_data e) m =
          map snd (filter (\<lambda>(t, d). t = 110 \<and> ed_metric d = m) (accepted example_timeline)))"
proof -
  have "map ebt_timestamp (closed example_timeline) = [110]"
    by (simp add: example_timeline_def Let_def fresh_timeline_def newly_closed_def linger_check_run_def
        eh_add_event_def do_add_event_def example_report_def example_handler_def mk_EventHandler_def
        nice_step_def empty_queue_def PUSH_def add_to_slot_def)
  then obtain e where e: "closed example_timeline = [e]" "ebt_timestamp e = 110"
    by (auto simp: map_eq_Cons_conv)
  moreover have "0 < event_step (eh_conf example_handler)" "events example_handler = []"
    by (simp_all add: example_handler_def mk_EventHandler_def)
  note slots_close_once [OF example_timeline_reach this]
  ultimately show ?thesis by simp
qed

end
