(* ===== verification/EventStats.thy ===== *)
theory EventStats
  imports EventHandler
begin

text \<open>
  What the handler of \<open>source/Business/EventHandler.cpp\<close> computes from a slot: the deduplicated data of a
  metric, the statistics of each tag, and the rows that reach the store.
\<close>

section \<open>What is aggregated\<close>

text \<open>The reference: of the data of one metric the first with each message id counts.\<close>

fun dedup_first :: "event_data_t list \<Rightarrow> event_data_t list" where
  "dedup_first [] = []"
| "dedup_first (d # ds) = d # filter (\<lambda>x. ed_msgid x \<noteq> ed_msgid d) (dedup_first ds)"

lemma dedup_first_subset: "set (dedup_first ds) \<subseteq> set ds"
  by (induction ds) auto

lemma dedup_first_ids: "ed_msgid ` set (dedup_first ds) = ed_msgid ` set ds"
proof (induction ds)
  case (Cons d ds)
  have "ed_msgid ` {x \<in> S. ed_msgid x \<noteq> i} = ed_msgid ` S - {i}" for S i by blast
  from this [of "set (dedup_first ds)" "ed_msgid d"] Cons show ?case by simp
qed simp

lemma distinct_dedup_first: "distinct (map ed_msgid (dedup_first ds))"
  by (induction ds) (auto simp: distinct_map intro: inj_on_subset)

lemma dedup_first_distinct: "distinct (map ed_msgid ds) \<Longrightarrow> dedup_first ds = ds"
proof (induction ds)
  case (Cons d ds)
  have "\<forall>x\<in>set ds. ed_msgid x \<noteq> ed_msgid d"
    using Cons.prems by (simp add: image_iff) metis
  then have "filter (\<lambda>x. ed_msgid x \<noteq> ed_msgid d) ds = ds" by (simp add: filter_id_conv)
  with Cons show ?case by simp
qed simp

lemma dedup_loop_first: "dedup_loop ids ds = filter (\<lambda>d. ed_msgid d \<in> set ids) (dedup_first ds)"
proof (induction ds arbitrary: ids)
  case (Cons d ds)
  show ?case
  proof (cases "ed_msgid d \<in> set ids")
    case True
    then show ?thesis by (simp add: Cons conj_commute)
  next
    case False
    then have "filter (\<lambda>x. ed_msgid x \<in> set ids) (dedup_first ds) =
        filter (\<lambda>x. ed_msgid x \<in> set ids \<and> ed_msgid x \<noteq> ed_msgid d) (dedup_first ds)"
      by (intro filter_cong) auto
    with False show ?thesis by (simp add: Cons conj_commute)
  qed
qed simp

lemma fold_os_insert:
  "sorted_wrt (<) s \<Longrightarrow>
   sorted_wrt (<) (fold (\<lambda>d s. os_insert (f d) s) ds s) \<and>
   set (fold (\<lambda>d s. os_insert (f d) s) ds s) = f ` set ds \<union> set s"
  by (induction ds arbitrary: s) (auto simp: set_os_insert sorted_os_insert)

lemma strict_sorted_length: "sorted_wrt (<) (s :: 'a::linorder list) \<Longrightarrow> length s = card (set s)"
  by (simp add: distinct_card strict_sorted_iff)

lemma calc_dedup: "fst (calc_event_info_each_metric data infos) = dedup_first data"
proof -
  define ids where "ids = fold (\<lambda>d s. os_insert (ed_msgid d) s) data []"
  have set_ids: "set ids = ed_msgid ` set data" and len: "length ids = card (ed_msgid ` set data)"
    using fold_os_insert [of "[]" ed_msgid data] strict_sorted_length [of ids] by (simp_all add: ids_def)
  have "dedup_loop ids data = dedup_first data"
    using dedup_first_subset by (fastforce simp: dedup_loop_first set_ids filter_id_conv)
  moreover have "dedup_first data = data" if "length ids = length data"
  proof -
    have "card (set (map ed_msgid data)) = length (map ed_msgid data)" using that len by simp
    then show ?thesis by (intro dedup_first_distinct) (rule card_distinct)
  qed
  ultimately show ?thesis
    by (simp add: calc_event_info_each_metric_def Let_def flip: ids_def)
qed

text \<open>The statistics of the values of one tag.\<close>

definition tag_values :: "string \<Rightarrow> event_data_t list \<Rightarrow> int list" where
  "tag_values tag ds = map ed_value (filter (\<lambda>d. ed_tag d = tag) ds)"

definition stat_of :: "int list \<Rightarrow> stat_info_t" where
  "stat_of vs =
     (let n = length vs; ws = map to_i32 vs; s = to_i64 (sum_list vs)
      in \<lparr>si_count = int n, si_value_sum = s, si_value_avg = to_i32 (s sdiv int n),
          si_value_min = Min (set ws), si_value_max = Max (set ws),
          si_value_p10 = sort ws ! (n div 10), si_value_p50 = sort ws ! (n div 2),
          si_value_p90 = sort ws ! (9 * n div 10), si_values = ws\<rparr>)"

lemma sort_first: "xs \<noteq> [] \<Longrightarrow> sort xs ! 0 = Min (set (xs :: int list))"
proof (rule Min_eqI [symmetric])
  fix y
  assume "y \<in> set xs"
  then obtain i where "i < length (sort xs)" "sort xs ! i = y" by (metis in_set_conv_nth set_sort)
  then show "sort xs ! 0 \<le> y" using sorted_nth_mono [OF sorted_sort, of 0 i xs] by simp
next
  assume "xs \<noteq> []"
  then show "sort xs ! 0 \<in> set xs" by (metis length_greater_0_conv length_sort nth_mem set_sort)
qed simp

lemma sort_last: "xs \<noteq> [] \<Longrightarrow> rev (sort xs) ! 0 = Max (set (xs :: int list))"
proof (rule Max_eqI [symmetric])
  fix y
  assume "xs \<noteq> []" "y \<in> set xs"
  then obtain i where "i < length (sort xs)" "sort xs ! i = y" by (metis in_set_conv_nth set_sort)
  moreover from this have "sort xs ! i \<le> sort xs ! (length xs - 1)"
    by (intro sorted_nth_mono) auto
  ultimately show "y \<le> rev (sort xs) ! 0" using \<open>xs \<noteq> []\<close> by (simp add: rev_nth)
next
  assume "xs \<noteq> []"
  then show "rev (sort xs) ! 0 \<in> set xs"
    by (metis length_greater_0_conv length_rev length_sort nth_mem set_rev set_sort)
qed simp

lemma finish_info_stat:
  assumes "vs \<noteq> []" "length vs < 2 ^ 31"
  shows "finish_info (zero_stat\<lparr>si_values := map to_i32 vs, si_count := int (length vs),
                       si_value_sum := to_i64 (sum_list vs)\<rparr>) = stat_of vs"
  using assms sort_first [of "map to_i32 vs"] sort_last [of "map to_i32 vs"]
  by (simp add: finish_info_def stat_of_def zero_stat_def nth_element_def nth_greater_def Let_def)

lemma tag_values_snoc:
  "tag_values tag (ds @ [d]) = tag_values tag ds @ (if ed_tag d = tag then [ed_value d] else [])"
  by (simp add: tag_values_def)

lemma tag_values_Nil_iff: "tag_values tag ds = [] \<longleftrightarrow> tag \<notin> ed_tag ` set ds"
  by (auto simp: tag_values_def filter_empty_conv)

lemma aggregate_all:
  "om_wf (fold aggregate_by_tag ds []) \<and>
   om_find (fold aggregate_by_tag ds []) tag =
     (if tag_values tag ds = [] then None
      else Some (zero_stat\<lparr>si_values := map to_i32 (tag_values tag ds),
                           si_count := to_i32 (int (length (tag_values tag ds))),
                           si_value_sum := to_i64 (sum_list (tag_values tag ds))\<rparr>))"
proof (induction ds arbitrary: tag rule: rev_induct)
  case Nil
  then show ?case by (simp add: tag_values_def)
next
  case (snoc d ds)
  let ?m = "fold aggregate_by_tag ds []"
  have wf: "om_wf ?m" using snoc by simp
  show ?case
  proof (cases "ed_tag d = tag")
    case True
    show ?thesis
      using snoc [of tag] True wf
      by (cases "tag_values tag ds = []")
        (simp_all add: aggregate_by_tag_def om_wf_upd om_find_upd tag_values_snoc zero_stat_def
          to_i32_add to_i64_add add.commute [of 1] Let_def)
  next
    case False
    with snoc [of tag] wf show ?thesis
      by (simp add: aggregate_by_tag_def om_wf_upd om_find_upd tag_values_snoc Let_def)
  qed
qed

lemma om_find_map: "om_find (map (\<lambda>(k, v). (k, f v)) m) k = map_option f (om_find m k)"
  by (induction m) auto

lemma om_wf_map: "om_wf (map (\<lambda>(k, v). (k, f v)) m) = om_wf m"
  by (simp add: om_wf_def comp_def split_beta)

lemma length_dedup_first: "length (dedup_first ds) \<le> length ds"
  by (induction ds) (auto intro: le_trans [OF length_filter_le])

lemma calc_infos:
  assumes "length data < 2 ^ 31"
  shows "om_wf (snd (calc_event_info_each_metric data []))"
    and "om_find (snd (calc_event_info_each_metric data [])) tag =
           (if tag \<in> ed_tag ` set (dedup_first data)
            then Some (stat_of (tag_values tag (dedup_first data))) else None)"
proof -
  define infos where "infos = fold aggregate_by_tag (dedup_first data) []"
  have snd_eq: "snd (calc_event_info_each_metric data []) = map (\<lambda>(tag, i). (tag, finish_info i)) infos"
    using calc_dedup [of data "[]"] by (simp add: calc_event_info_each_metric_def Let_def infos_def)
  have "length (tag_values tag (dedup_first data)) < 2 ^ 31" for tag
    using le_trans [OF length_filter_le length_dedup_first, of "\<lambda>d. ed_tag d = tag" data] assms
    by (simp add: tag_values_def)
  moreover from this have "to_i32 (int (length (tag_values tag (dedup_first data)))) =
      int (length (tag_values tag (dedup_first data)))" for tag
    by (simp add: to_i32_id is_i32_def)
  ultimately have "om_find (map (\<lambda>(tag, i). (tag, finish_info i)) infos) tag =
      (if tag \<in> ed_tag ` set (dedup_first data)
       then Some (stat_of (tag_values tag (dedup_first data))) else None)" for tag
    using aggregate_all [of "dedup_first data" tag] finish_info_stat [of "tag_values tag (dedup_first data)"]
    by (simp add: om_find_map infos_def tag_values_Nil_iff)
  then show "om_find (snd (calc_event_info_each_metric data [])) tag =
           (if tag \<in> ed_tag ` set (dedup_first data)
            then Some (stat_of (tag_values tag (dedup_first data))) else None)"
    by (simp add: snd_eq)
  show "om_wf (snd (calc_event_info_each_metric data []))"
    using aggregate_all [of "dedup_first data"] by (simp add: snd_eq om_wf_map infos_def)
qed

text \<open>
  C7. \<open>calc_event_info_each_metric\<close> counts, of the data of a metric, the first with each message id,
  and yields for every tag among them exactly one entry: the number of values, their \<open>int64_t\<close> sum,
  the truncated average, the least and greatest of the values as \<open>int32_t\<close>, and the values
  at the ranks \<open>n/10\<close>, \<open>n/2\<close> and \<open>9n/10\<close> of the sorted values.
\<close>
theorem calc_event_info_spec:
  assumes "length data < 2 ^ 31"
  shows "case calc_event_info_each_metric data [] of (data', infos) \<Rightarrow>
           data' = dedup_first data \<and> om_wf infos \<and>
           (\<forall>tag. om_find infos tag =
              (if tag \<in> ed_tag ` set (dedup_first data)
               then Some (stat_of (tag_values tag (dedup_first data))) else None))"
  using calc_dedup [of data "[]"] calc_infos [OF assms] by (simp add: split_beta)

text \<open>Witness: message 1 reported twice, message 2 once.\<close>

lemma calc_event_info_spec_witness:
  "let data = [\<lparr>ed_msgid = 1, ed_metric = ''m'', ed_tag = ''ok'', ed_value = 5\<rparr>,
               \<lparr>ed_msgid = 1, ed_metric = ''m'', ed_tag = ''ok'', ed_value = 6\<rparr>,
               \<lparr>ed_msgid = 2, ed_metric = ''m'', ed_tag = ''bad'', ed_value = -4\<rparr>]
   in map ed_msgid (dedup_first data) = [1, 2] \<and>
      (case calc_event_info_each_metric data [] of (data', infos) \<Rightarrow>
           data' = dedup_first data \<and> om_wf infos \<and>
           (\<forall>tag. om_find infos tag =
              (if tag \<in> ed_tag ` set (dedup_first data)
               then Some (stat_of (tag_values tag (dedup_first data))) else None)))"
  unfolding Let_def by (intro conjI, simp, rule calc_event_info_spec, simp)

section \<open>The rows of a slot\<close>

definition metric_rows :: "event_insert_t \<Rightarrow> string \<Rightarrow> event_data_t list \<Rightarrow> event_insert_t list" where
  "metric_rows stat metric data =
     map (\<lambda>(tag, i). fill_stat metric tag i stat) (snd (calc_event_info_each_metric data []))"

definition event_rows :: "events_by_time_t \<Rightarrow> event_insert_t \<Rightarrow> event_insert_t list" where
  "event_rows e stat = concat (map (\<lambda>(metric, data). metric_rows stat metric data) (ebt_data e))"

definition insert_rows :: "(event_insert_t \<Rightarrow> 'st \<Rightarrow> int \<times> 'st) \<Rightarrow> event_insert_t list \<Rightarrow> 'st \<Rightarrow> 'st" where
  "insert_rows insf rows st = fold (\<lambda>r st. snd (insf r st)) rows st"

lemma fill_stat_fill_stat [simp]: "fill_stat m t i (fill_stat m' t' i' s) = fill_stat m t i s"
  by (simp add: fill_stat_def)

lemma store_tags_rows:
  "snd (store_tags True insf metric infos s st) =
     insert_rows insf (map (\<lambda>(tag, i). fill_stat metric tag i s) infos) st \<and>
   fill_stat m t i (fst (store_tags True insf metric infos s st)) = fill_stat m t i s"
  by (induction True insf metric infos s st rule: store_tags.induct) (auto simp: insert_rows_def Let_def)

lemma store_metrics_rows:
  "(\<And>m t i. fill_stat m t i s = fill_stat m t i s0) \<Longrightarrow>
   store_metrics True insf slot s st =
     insert_rows insf (concat (map (\<lambda>(metric, data). metric_rows s0 metric data) slot)) st"
proof (induction True insf slot s st rule: store_metrics.induct)
  case (2 insf metric data m s st)
  obtain d' infos where c: "calc_event_info_each_metric data [] = (d', infos)" by fastforce
  obtain s' st' where t: "store_tags True insf metric infos s st = (s', st')" by fastforce
  have "st' = insert_rows insf (metric_rows s0 metric data) st" "fill_stat x y z s' = fill_stat x y z s0" for x y z
    using store_tags_rows [of insf metric infos s st x y z] "2.prems" by (simp_all add: t metric_rows_def c)
  with "2.hyps" [OF c [symmetric] refl t [symmetric] refl] show ?case
    by (simp add: c t insert_rows_def)
qed (simp add: insert_rows_def)

lemma process_event_rows:
  "do_process_event ok insf e stat st =
     (0, if ok then insert_rows insf (event_rows e stat) st else st)"
proof (cases ok)
  case True
  then show ?thesis by (simp add: do_process_event_def event_rows_def store_metrics_rows)
next
  case False
  have tags: "snd (store_tags False insf metric infos s st) = st" for metric infos s st
    by (induction False insf metric infos s st rule: store_tags.induct) (simp_all add: Let_def)
  have "store_metrics False insf slot s st = st" for slot s st
  proof (induction slot arbitrary: s st)
    case (Cons a slot)
    then show ?case by (cases a) (simp add: split_beta tags Let_def)
  qed simp
  with False show ?thesis by (simp add: do_process_event_def)
qed

text \<open>The tags with a row: exactly those of the data that count, once each.\<close>

lemma infos_of_metric:
  assumes "length data < 2 ^ 31"
  shows "snd (calc_event_info_each_metric data []) =
           map (\<lambda>tag. (tag, stat_of (tag_values tag (dedup_first data)))) (sorted_list_of_set (ed_tag ` set (dedup_first data)))"
proof -
  let ?ds = "dedup_first data"
  define infos where "infos = snd (calc_event_info_each_metric data [])"
  have wf: "om_wf infos" and find: "om_find infos tag =
      (if tag \<in> ed_tag ` set ?ds then Some (stat_of (tag_values tag ?ds)) else None)" for tag
    using calc_infos [OF assms] by (simp_all add: infos_def)
  have entry: "snd e = stat_of (tag_values (fst e) ?ds)" if "e \<in> set infos" for e
    using that om.find_iff_entry [OF wf, of "fst e" "snd e"] by (simp add: find split: if_splits)
  have "set (map fst infos) = ed_tag ` set ?ds"
    using om.keys_find [OF wf] by (auto simp: find dom_def)
  then have keys: "map fst infos = sorted_list_of_set (ed_tag ` set ?ds)"
    using om.entries_sorted [OF wf] strict_sorted_equal [of "map fst infos" "sorted_list_of_set (ed_tag ` set ?ds)"] by simp
  have "infos = map (\<lambda>e. (fst e, stat_of (tag_values (fst e) ?ds))) infos"
    using entry by (intro map_idI [symmetric]) (simp add: prod_eq_iff)
  also have "\<dots> = map (\<lambda>tag. (tag, stat_of (tag_values tag ?ds))) (map fst infos)" by simp
  finally show ?thesis by (simp only: keys) (simp add: infos_def)
qed

lemma metric_rows_tags:
  assumes "length data < 2 ^ 31"
  shows "metric_rows stat metric data =
           map (\<lambda>tag. fill_stat metric tag (stat_of (tag_values tag (dedup_first data))) stat)
             (sorted_list_of_set (ed_tag ` set (dedup_first data)))"
  by (simp add: metric_rows_def infos_of_metric [OF assms] comp_def)

text \<open>
  The rows of a slot, written out: for each metric in turn and each tag that occurs in its data, in ascending order, one
  row with the number of the values that count (\<open>vs\<close>), their sum, the truncated average, the extremes and the values at the
  ranks \<open>n/10\<close>, \<open>n/2\<close> and \<open>9n/10\<close>.
\<close>

definition stat_row :: "string \<Rightarrow> string \<Rightarrow> int \<Rightarrow> int \<Rightarrow> string \<Rightarrow> string \<Rightarrow> int list \<Rightarrow> event_insert_t" where
  "stat_row service entity time step metric tag vs =
     (let n = length vs; ws = map to_i32 vs
      in \<lparr>ins_service = service, ins_entity_idx = entity, ins_timestamp = time, ins_step = step,
          ins_metric = metric, ins_tag = tag,
          ins_count = int n, ins_value_sum = to_i64 (sum_list vs),
          ins_value_avg = to_i32 (to_i64 (sum_list vs) sdiv int n),
          ins_value_min = Min (set ws), ins_value_max = Max (set ws),
          ins_value_p10 = sort ws ! (n div 10), ins_value_p50 = sort ws ! (n div 2),
          ins_value_p90 = sort ws ! (9 * n div 10)\<rparr>)"

definition stat_rows :: "string \<Rightarrow> string \<Rightarrow> int \<Rightarrow> int \<Rightarrow> (string, event_data_t list) omap \<Rightarrow> event_insert_t list" where
  "stat_rows service entity time step slot =
     concat (map (\<lambda>(metric, data).
        map (\<lambda>tag. stat_row service entity time step metric tag (tag_values tag (dedup_first data)))
          (sorted_list_of_set (ed_tag ` set (dedup_first data)))) slot)"

lemma fill_stat_row:
  "fill_stat metric tag (stat_of vs) stat =
     stat_row (ins_service stat) (ins_entity_idx stat) (ins_timestamp stat) (ins_step stat) metric tag vs"
  by (cases stat) (simp add: fill_stat_def stat_of_def stat_row_def Let_def)

lemma event_rows_of:
  assumes "\<forall>(metric, data)\<in>set (ebt_data e). length data < 2 ^ 31"
  shows "event_rows e stat =
           stat_rows (ins_service stat) (ins_entity_idx stat) (ins_timestamp stat) (ins_step stat) (ebt_data e)"
proof -
  have "metric_rows stat metric data =
      map (\<lambda>tag. stat_row (ins_service stat) (ins_entity_idx stat) (ins_timestamp stat) (ins_step stat) metric tag
             (tag_values tag (dedup_first data))) (sorted_list_of_set (ed_tag ` set (dedup_first data)))"
    if "(metric, data) \<in> set (ebt_data e)" for metric data
  proof -
    have "length data < 2 ^ 31" using assms that by fastforce
    then show ?thesis by (simp add: metric_rows_tags fill_stat_row)
  qed
  then show ?thesis
    unfolding event_rows_def stat_rows_def by (intro arg_cong [where f = concat] map_cong) auto
qed

text \<open>
  C27. \<open>do_process_event\<close> inserts exactly one row per metric and tag of the slot, metrics in their order and tags
  ascending, each with the service, entity, time and step it was called for and the count, sum, average, extremes and
  ranks of the values of its own tag, of every message id the first; whatever the store answers. Without a store it
  inserts nothing. It always returns 0.
\<close>
theorem do_process_event_rows:
  assumes "\<forall>(metric, data)\<in>set (ebt_data e). length data < 2 ^ 31"
  shows "do_process_event ok insf e stat st =
           (0, if ok
               then insert_rows insf
                      (stat_rows (ins_service stat) (ins_entity_idx stat) (ins_timestamp stat) (ins_step stat) (ebt_data e)) st
               else st)"
  by (simp add: process_event_rows event_rows_of [OF assms])

text \<open>Witness: one metric, a message id sent twice and a second tag; the store is the list of the rows inserted.\<close>

definition two_tags :: "event_data_t list" where
  "two_tags =
     [\<lparr>ed_msgid = 1, ed_metric = ''m'', ed_tag = ''ok'', ed_value = 5\<rparr>,
      \<lparr>ed_msgid = 1, ed_metric = ''m'', ed_tag = ''ok'', ed_value = 6\<rparr>,
      \<lparr>ed_msgid = 2, ed_metric = ''m'', ed_tag = ''bad'', ed_value = -4\<rparr>,
      \<lparr>ed_msgid = 3, ed_metric = ''m'', ed_tag = ''ok'', ed_value = 8\<rparr>]"

lemma two_tags_values:
  "sorted_list_of_set (ed_tag ` set (dedup_first two_tags)) = [''bad'', ''ok'']"
  "tag_values ''bad'' (dedup_first two_tags) = [-4]" "tag_values ''ok'' (dedup_first two_tags) = [5, 8]"
  "length two_tags < 2 ^ 31"
proof -
  have d: "map ed_tag (dedup_first two_tags) = [''ok'', ''bad'', ''ok'']" by (simp add: two_tags_def)
  have "ed_tag ` set (dedup_first two_tags) = set [''ok'', ''bad'', ''ok'']" by (metis d set_map)
  then show "sorted_list_of_set (ed_tag ` set (dedup_first two_tags)) = [''bad'', ''ok'']"
    by (simp only: sorted_list_of_set_sort_remdups) simp
qed (simp_all add: two_tags_def tag_values_def)

lemma do_process_event_rows_witness:
  "map (\<lambda>r. (ins_metric r, ins_tag r, ins_count r, ins_value_sum r, ins_value_min r, ins_value_max r))
     (snd (do_process_event True (\<lambda>r rs. (-1, rs @ [r])) \<lparr>ebt_timestamp = 110, ebt_step = 10, ebt_data = [(''m'', two_tags)]\<rparr>
        zero_insert [])) =
   [(''m'', ''bad'', 1, -4, -4, -4), (''m'', ''ok'', 2, 13, 5, 8)]"
  using two_tags_values(4) by (subst do_process_event_rows)
    (simp_all add: stat_rows_def two_tags_values stat_row_def insert_rows_def Let_def to_i64_def to_i32_def)

text \<open>Each value that counts is in the row of its own tag.\<close>

lemma sum_over_tags:
  fixes f :: "event_data_t \<Rightarrow> int"
  shows "sum_list (map (\<lambda>tag. sum_list (map f (filter (\<lambda>d. ed_tag d = tag) ds))) (sorted_list_of_set (ed_tag ` set ds))) =
           sum_list (map f ds)"
proof -
  have "(\<Sum>tag\<in>A. sum_list (map f (filter (\<lambda>d. ed_tag d = tag) ds))) = sum_list (map f ds)"
    if "finite A" "ed_tag ` set ds \<subseteq> A" for A
    using that(2)
  proof (induction ds)
    case (Cons d ds)
    have "sum_list (map f (filter (\<lambda>x. ed_tag x = tag) (d # ds))) =
        (if tag = ed_tag d then f d else 0) + sum_list (map f (filter (\<lambda>x. ed_tag x = tag) ds))" for tag
      by simp
    with Cons \<open>finite A\<close> show ?case by (simp add: sum.distrib del: filter.simps)
  qed simp
  then show ?thesis by (simp add: sum_list_distinct_conv_sum_set)
qed

text \<open>
  The counts of the rows of one metric add up to the number of different message ids reported for it, and
  their sums to the sum of the values that count.
\<close>

lemma metric_rows_account:
  assumes "length data < 2 ^ 31"
  shows "sum_list (map ins_count (metric_rows stat metric data)) = int (card (ed_msgid ` set data))"
    and "to_i64 (x + sum_list (map ins_value_sum (metric_rows stat metric data))) =
           to_i64 (x + sum_list (map ed_value (dedup_first data)))"
proof -
  let ?ds = "dedup_first data" and ?tags = "sorted_list_of_set (ed_tag ` set (dedup_first data))"
  have "map ins_count (metric_rows stat metric data) =
      map (\<lambda>tag. sum_list (map (\<lambda>d. 1) (filter (\<lambda>d. ed_tag d = tag) ?ds))) ?tags"
    by (simp add: metric_rows_tags [OF assms] fill_stat_def stat_of_def tag_values_def Let_def sum_list_triv)
  moreover have "card (ed_msgid ` set data) = length ?ds"
    using distinct_card [OF distinct_dedup_first [of data]] by (simp add: dedup_first_ids)
  ultimately show "sum_list (map ins_count (metric_rows stat metric data)) = int (card (ed_msgid ` set data))"
    by (simp only: sum_over_tags) (simp add: sum_list_triv)
  have wrap: "to_i64 (x + sum_list (map (\<lambda>t. to_i64 (g t)) ts)) = to_i64 (x + sum_list (map g ts))" for g ts x
  proof (induction ts arbitrary: x)
    case (Cons t ts)
    from Cons [of "x + to_i64 (g t)"] to_i64_add [of "g t" "x + sum_list (map g ts)"] show ?case
      by (simp add: ac_simps)
  qed simp
  have "map ins_value_sum (metric_rows stat metric data) =
      map (\<lambda>tag. to_i64 (sum_list (map ed_value (filter (\<lambda>d. ed_tag d = tag) ?ds)))) ?tags"
    by (simp add: metric_rows_tags [OF assms] fill_stat_def stat_of_def tag_values_def Let_def)
  then show "to_i64 (x + sum_list (map ins_value_sum (metric_rows stat metric data))) =
           to_i64 (x + sum_list (map ed_value (dedup_first data)))"
    by (simp only: wrap sum_over_tags)
qed

section \<open>The processing thread\<close>

lemma drain_batches_spec:
  assumes "0 < n" "n < 2 ^ 30" "drain_batches n q = (bs, q')"
  shows "items q = concat bs @ items q' \<and> (\<forall>b\<in>set bs. int (length b) = n) \<and>
         int (length (items q')) \<le> 2 * n \<and> (items q \<noteq> [] \<longrightarrow> items q' \<noteq> [])"
  using assms
proof (induction n q arbitrary: bs q' rule: drain_batches.induct)
  case (1 n q)
  have cast: "to_u64 (to_i32 (2 * n)) = 2 * n" "nat (to_u64 n) = nat n"
    using "1.prems"(1,2) by (simp_all add: to_i32_id is_i32_def to_u64_def)
  show ?case
  proof (cases "int (length (items q)) > 2 * n")
    case False
    then have "drain_batches n q = ([], q)" by (subst drain_batches.simps) (simp add: SIZE_def cast)
    with False "1.prems" show ?thesis by simp
  next
    case True
    define k where "k = nat n"
    let ?q = "q\<lparr>items := drop k (items q)\<rparr>"
    have k: "0 < k" "int k = n" "k < length (items q)" "items q \<noteq> []"
      using True "1.prems"(1) by (auto simp: k_def)
    then have pop: "POP_batch [] [] (nat (to_u64 n)) q = (k, take k (items q), ?q)"
      by (simp add: POP_batch_now cast Let_def max_def min_def flip: k_def)
    obtain bs1 q1 where d: "drain_batches n ?q = (bs1, q1)" by fastforce
    have bs: "bs = take k (items q) # bs1" "q' = q1"
      using "1.prems"(3) True k(1) by (simp_all add: drain_batches.simps [of n q] SIZE_def cast(1) pop d)
    have "int (SIZE q) > to_u64 (to_i32 (2 * n))" using True by (simp add: SIZE_def cast)
    from "1.IH" [OF this pop [symmetric] refl, of bs1 q1] k "1.prems"(1,2) d
    have IH: "items ?q = concat bs1 @ items q1 \<and> (\<forall>b\<in>set bs1. int (length b) = n) \<and>
         int (length (items q1)) \<le> 2 * n \<and> (items ?q \<noteq> [] \<longrightarrow> items q1 \<noteq> [])"
      by simp
    have "items q = take k (items q) @ drop k (items q)" by simp
    with IH bs k show ?thesis by simp
  qed
qed

text \<open>How many full batches leave: as long as more than twice the batch size waits.\<close>

lemma drain_batches_rest:
  assumes "0 < n" "n < 2 ^ 30" "drain_batches n q = (bs, q')" "bs \<noteq> []"
  shows "n < int (length (items q'))"
  using assms
proof (induction n q arbitrary: bs q' rule: drain_batches.induct)
  case (1 n q)
  have cast: "to_u64 (to_i32 (2 * n)) = 2 * n" "nat (to_u64 n) = nat n"
    using "1.prems"(1,2) by (simp_all add: to_i32_id is_i32_def to_u64_def)
  have more: "int (length (items q)) > 2 * n"
    using "1.prems"(3,4) by (auto simp: drain_batches.simps [of n q] SIZE_def cast split: if_splits)
  define k where "k = nat n"
  let ?q = "q\<lparr>items := drop k (items q)\<rparr>"
  have k: "0 < k" "int k = n" "k < length (items q)" "items q \<noteq> []"
    using more "1.prems"(1) by (auto simp: k_def)
  then have pop: "POP_batch [] [] (nat (to_u64 n)) q = (k, take k (items q), ?q)"
    by (simp add: POP_batch_now cast Let_def max_def min_def flip: k_def)
  obtain bs1 q1 where d: "drain_batches n ?q = (bs1, q1)" by fastforce
  have bs: "bs = take k (items q) # bs1" "q' = q1"
    using "1.prems"(3) more k(1) by (simp_all add: drain_batches.simps [of n q] SIZE_def cast(1) pop d)
  show ?case
  proof (cases "bs1 = []")
    case False
    have "int (SIZE q) > to_u64 (to_i32 (2 * n))" using more by (simp add: SIZE_def cast)
    from "1.IH" [OF this pop [symmetric] refl, of bs1 q1] k(1) "1.prems"(1,2) d False bs(2) show ?thesis by simp
  next
    case True
    then have "items q1 = drop k (items q)" using drain_batches_spec [OF "1.prems"(1,2) d] by simp
    with more k bs(2) show ?thesis by simp
  qed
qed

lemma drain_batches_number:
  assumes "0 < n" "n < 2 ^ 30" "drain_batches n q = (bs, q')"
  shows "length bs = (length (items q) - nat n - 1) div nat n"
proof -
  note spec = drain_batches_spec [OF assms] and rest = drain_batches_rest [OF assms]
  define k r where "k = nat n" and "r = length (items q')"
  have k: "0 < k" "int k = n" using assms(1) by (simp_all add: k_def)
  have "map length bs = replicate (length bs) k"
    using spec k(2) by (intro replicate_eqI) (auto simp flip: of_nat_eq_iff)
  then have total: "length (items q) = length bs * k + r"
    using spec by (simp add: length_concat sum_list_replicate r_def)
  have r: "r \<le> 2 * k" "bs \<noteq> [] \<Longrightarrow> k < r"
    using spec rest k(2) by (simp_all add: r_def flip: of_nat_le_iff [where 'a = int] of_nat_less_iff [where 'a = int])
  show ?thesis
  proof (cases "bs = []")
    case True
    with total r(1) k(1) have "length (items q) - k - 1 < k" by simp
    with True show ?thesis by (simp flip: k_def)
  next
    case False
    with r have "length (items q) - k - 1 = length bs * k + (r - k - 1)" "r - k - 1 < k" using total k(1) by auto
    then show ?thesis using k(1) by (simp flip: k_def)
  qed
qed

text \<open>
  C28. One turn of the processing thread, with no slot arriving meanwhile: as long as more than twice the batch size
  waits, a full batch is cut off the front for a helper thread (with \<open>N\<close> waiting slots and batches of \<open>n\<close> that is
  \<open>(N - n - 1) div n\<close> times); then the next slot, if there is one, is taken by this thread, which inserts exactly the rows of that
  slot into its store; the rest keeps waiting in order. Nothing else of the handler changes.
\<close>
theorem run_turn_spec:
  assumes "\<not> thread_terminate h" "n = additional_process_step_size (eh_conf h)" "0 < n" "n < 2 ^ 30"
    and "\<forall>e\<in>set (items (process_queue h)). \<forall>(metric, data)\<in>set (ebt_data e). length data < 2 ^ 31"
  shows "\<exists>bs ev h' st'. run_turn [] insf h st = Some (bs, ev, h', st') \<and>
           items (process_queue h) =
             concat bs @ (case ev of None \<Rightarrow> [] | Some e \<Rightarrow> [e]) @ items (process_queue h') \<and>
           (\<forall>b\<in>set bs. int (length b) = n) \<and>
           length bs = (length (items (process_queue h)) - nat n - 1) div nat n \<and>
           (ev = None \<longleftrightarrow> items (process_queue h) = []) \<and>
           h' = h\<lparr>process_queue := process_queue h'\<rparr> \<and>
           st' = (case ev of
                    None \<Rightarrow> st
                  | Some e \<Rightarrow>
                      if has_store h
                      then insert_rows insf
                             (stat_rows (eh_service h) (eh_entity_idx h) (ebt_timestamp e) (to_u8 (ebt_step e)) (ebt_data e)) st
                      else st)"
proof -
  obtain bs q1 where d: "drain_batches n (process_queue h) = (bs, q1)" by fastforce
  note dr = drain_batches_spec [OF assms(3,4) d] and num = drain_batches_number [OF assms(3,4) d]
  show ?thesis
  proof (cases "items q1")
    case Nil
    then have "POP_timed [] q1 = (None, q1)" by (simp add: POP_timed_def pop_front_def)
    with assms(1,2) d dr num Nil show ?thesis by (auto simp: run_turn_def Let_def)
  next
    case (Cons e es)
    have "e \<in> set (items (process_queue h))" using dr Cons by auto
    then have "event_rows e (stat_for h e) =
        stat_rows (eh_service h) (eh_entity_idx h) (ebt_timestamp e) (to_u8 (ebt_step e)) (ebt_data e)"
      using assms(5) by (simp add: event_rows_of stat_for_def)
    moreover have "POP_timed [] q1 = (Some e, q1\<lparr>items := es\<rparr>)" using Cons by (simp add: POP_timed_def pop_front_def)
    ultimately show ?thesis
      using assms(1,2) d dr num Cons by (auto simp: run_turn_def process_event_rows Let_def)
  qed
qed

text \<open>Witness: seven slots wait with batches of three; the first three go to a helper, the fourth to the thread.\<close>

lemma run_turn_spec_witness:
  "\<exists>bs e h' st'. run_turn [] (\<lambda>r rs. (0, rs @ [r]))
      (example_handler\<lparr>process_queue := \<lparr>items = map (\<lambda>t. \<lparr>ebt_timestamp = t, ebt_step = 10, ebt_data = []\<rparr>) [10, 20, 30, 40, 50, 60, 70]\<rparr>\<rparr>)
      [] = Some (bs, Some e, h', st') \<and> length bs = 1"
proof -
  let ?es = "map (\<lambda>t. \<lparr>ebt_timestamp = t, ebt_step = 10, ebt_data = []\<rparr>) [10, 20, 30, 40, 50, 60, 70]"
  let ?h = "example_handler\<lparr>process_queue := \<lparr>items = ?es\<rparr>\<rparr>"
  have h: "\<not> thread_terminate ?h" "3 = additional_process_step_size (eh_conf ?h)"
    by (simp_all add: example_handler_def mk_EventHandler_def)
  have "\<forall>e\<in>set (items (process_queue ?h)). \<forall>(metric, data)\<in>set (ebt_data e). length data < 2 ^ 31" by simp
  from run_turn_spec [OF h _ _ this, of "\<lambda>r rs. (0, rs @ [r])" "[]"] obtain bs ev h' st' where
    "run_turn [] (\<lambda>r rs. (0, rs @ [r])) ?h [] = Some (bs, ev, h', st')" "length bs = 1" "ev \<noteq> None"
    by auto
  then show ?thesis by auto
qed

end
