(* ===== verification/StatStore.thy ===== *)
theory StatStore
  imports EventStats
begin

text \<open>
  What \<open>EventHandler\<close> relies on when it hands rows to a \<open>StoreIf\<close> (\<open>source/Business/StoreIf.h\<close>): a row that the store can
  take is added to its table, as the store encodes it, and changes nothing else. The lemmas of the
  interface follow the rows of a slot and of a batch of slots into the table; \<open>StorePipeline\<close> provides
  it for the LevelDB store, \<open>SqlPipeline\<close> for the MySQL store.
\<close>

text \<open>
  \<open>accepts rs s\<close> says that the store in state \<open>s\<close> can take the rows \<open>rs\<close> one after the other; \<open>rows\<close> is the content of
  the table, \<open>enc\<close> the form in which a row is kept.
\<close>

locale stat_store =
  fixes ins :: "event_insert_t \<Rightarrow> 's \<Rightarrow> int \<times> 's"
    and accepts :: "event_insert_t list \<Rightarrow> 's \<Rightarrow> bool"
    and rows :: "'s \<Rightarrow> 'r multiset"
    and enc :: "event_insert_t \<Rightarrow> 'r"
  assumes insert_first:
    "accepts (r # rs) s \<Longrightarrow>
       fst (ins r s) = 0 \<and> rows (snd (ins r s)) = add_mset (enc r) (rows s) \<and> accepts rs (snd (ins r s))"
begin

lemma insert_front:
  "accepts (rs @ rs') s \<Longrightarrow>
     rows (insert_rows ins rs s) = rows s + mset (map enc rs) \<and> accepts rs' (insert_rows ins rs s)"
proof (induction rs arbitrary: s)
  case (Cons r rs)
  then have "accepts (r # rs @ rs') s" by simp
  from insert_first [OF this] Cons.IH [of "snd (ins r s)"] show ?case by (simp add: insert_rows_def)
qed (simp add: insert_rows_def)

lemma insert_all:
  "accepts rs s \<Longrightarrow> rows (insert_rows ins rs s) = rows s + mset (map enc rs) \<and> accepts [] (insert_rows ins rs s)"
  using insert_front [of rs "[]"] by simp

text \<open>A batch of slots, as a helper thread works through it.\<close>

lemma batch_stored:
  assumes "has_store h" "accepts (concat (map (\<lambda>e. event_rows e (stat_for h e)) es)) s"
  shows "rows (run_once_task ins es h s) = rows s + mset (map enc (concat (map (\<lambda>e. event_rows e (stat_for h e)) es))) \<and>
           accepts [] (run_once_task ins es h s)"
  using assms(2)
proof (induction es arbitrary: s)
  case (Cons e es)
  let ?s = "insert_rows ins (event_rows e (stat_for h e)) s"
  have "run_once_task ins (e # es) h s = run_once_task ins es h ?s"
    using assms(1) by (simp add: run_once_task_def process_event_rows)
  with insert_front [of "event_rows e (stat_for h e)" _ s] Cons.IH [of ?s] Cons.prems show ?case by simp
qed (simp add: run_once_task_def)

end

end
