(* ===== verification/EventRepos.thy ===== *)
theory EventRepos
  imports EventHandler
begin

text \<open>
  \<open>source/Business/EventRepos.cpp\<close>, \<open>source/Business/StoreFactory.cpp\<close> and the interface
  \<open>source/Business/StoreIf.h\<close>: the handlers by identity, the stores behind them, and the operations the
  RPC service calls.

  A store is known by its \<open>StoreIf\<close> operations on its own state; the two implementations are the arguments
  \<open>sql\<close> and \<open>ldb\<close>, and what their \<open>init\<close> gives is part of \<open>store_env\<close>. Each operation of \<open>EventRepos\<close> is one
  step on the repository and the stores; \<open>lock_\<close> is held wherever the map of handlers changes.
\<close>

section \<open>Stores\<close>

text \<open>
  \<open>StoreIf\<close>: a selection that does not end or is undefined gives \<open>None\<close>.
\<close>

record 's StoreIf =
  insert_ev_stat :: "event_insert_t \<Rightarrow> 's \<Rightarrow> int \<times> 's"
  select_ev_stat :: "event_cond_t \<Rightarrow> event_select_t \<Rightarrow> int \<Rightarrow> 's \<Rightarrow> (int \<times> event_select_t \<times> 's) option"
  select_metrics :: "string \<Rightarrow> string list \<Rightarrow> 's \<Rightarrow> (int \<times> string list \<times> 's) option"
  select_services :: "string list \<Rightarrow> 's \<Rightarrow> int \<times> string list \<times> 's"

datatype StoreKind = StoreSql_obj | StoreLevelDB_obj

text \<open>The function-local statics \<open>mysql_\<close> and \<open>leveldb_\<close>, and what a first initialisation of each gives.\<close>

record ('q, 'l) stores_t =
  mysql_ptr :: "'q option"
  leveldb_ptr :: "'l option"

record ('q, 'l) store_env =
  sql :: "'q StoreIf"
  ldb :: "'l StoreIf"
  conf_ready :: bool
  sql_init :: "'q option"
  ldb_init_result :: "'l option"

definition StoreFactory ::
    "('q, 'l) store_env \<Rightarrow> string \<Rightarrow> ('q, 'l) stores_t \<Rightarrow> StoreKind option \<times> ('q, 'l) stores_t" where
  "StoreFactory env storeType ss =
     (if storeType = ''mysql'' then
        (case mysql_ptr ss of
           Some _ \<Rightarrow> (Some StoreSql_obj, ss)
         | None \<Rightarrow>
             if \<not> conf_ready env then (None, ss)
             else (case sql_init env of
                     Some q \<Rightarrow> (Some StoreSql_obj, ss\<lparr>mysql_ptr := Some q\<rparr>)
                   | None \<Rightarrow> (None, ss)))
      else if storeType = ''redis'' then (None, ss)
      else if storeType = ''leveldb'' then
        (case leveldb_ptr ss of
           Some _ \<Rightarrow> (Some StoreLevelDB_obj, ss)
         | None \<Rightarrow>
             if \<not> conf_ready env then (None, ss)
             else (case ldb_init_result env of
                     Some l \<Rightarrow> (Some StoreLevelDB_obj, ss\<lparr>leveldb_ptr := Some l\<rparr>)
                   | None \<Rightarrow> (None, ss)))
      else (None, ss))"

text \<open>A virtual call on the object the factory returned; \<open>f\<close> and \<open>g\<close> are the two overriders.\<close>

definition virtual_call ::
    "('q \<Rightarrow> ('r \<times> 'q) option) \<Rightarrow> ('l \<Rightarrow> ('r \<times> 'l) option) \<Rightarrow> StoreKind \<Rightarrow> ('q, 'l) stores_t \<Rightarrow>
     ('r \<times> ('q, 'l) stores_t) option" where
  "virtual_call f g k ss =
     (case k of
        StoreSql_obj \<Rightarrow>
          (case mysql_ptr ss of
             None \<Rightarrow> None
           | Some q \<Rightarrow> map_option (\<lambda>(r, q'). (r, ss\<lparr>mysql_ptr := Some q'\<rparr>)) (f q))
      | StoreLevelDB_obj \<Rightarrow>
          (case leveldb_ptr ss of
             None \<Rightarrow> None
           | Some l \<Rightarrow> map_option (\<lambda>(r, l'). (r, ss\<lparr>leveldb_ptr := Some l'\<rparr>)) (g l)))"

section \<open>The repository\<close>

text \<open>The parts of a configuration file that are read here: top-level values and \<open>rpc.business.services\<close>.\<close>

record Config =
  conf_top :: cfg_group
  conf_services :: "cfg_group list option"

text \<open>\<open>handlers\<close> is \<open>None\<close> while the pointer is null, before \<open>init\<close> and after \<open>destory_handlers\<close>.\<close>

record EventRepos =
  handlers :: "(string, EventHandler) omap option"
  support_process_task_size :: int
  has_task_helper :: bool
  default_handler_conf :: "EventHandlerConf option"

definition empty_EventRepos :: EventRepos where
  "empty_EventRepos =
     \<lparr>handlers = None, support_process_task_size = 1, has_task_helper = False, default_handler_conf = None\<rparr>"

text \<open>The template of the group \<open>[default]\<close>; \<open>value_i\<close> starts as \<open>junk\<close> and survives a missing name.\<close>

definition default_conf_of :: "int \<Rightarrow> cfg_group \<Rightarrow> bool \<times> EventHandlerConf" where
  "default_conf_of junk g =
     (let v1 = lookupValue (cfg_int g) ''event_linger'' junk;
          v2 = lookupValue (cfg_int g) ''event_step'' v1;
          v3 = lookupValue (cfg_int g) ''additional_process_step_size'' v2;
          st = lookupValue (cfg_str g) ''store_type'' '''';
          c0 = default_EventHandlerConf;
          c1 = c0\<lparr>event_linger := v1\<rparr>;
          c2 = c1\<lparr>event_step := v2\<rparr>;
          c3 = c2\<lparr>additional_process_step_size := v3\<rparr>
      in if v1 \<le> 0 then (False, c0)
         else if v2 \<le> 0 then (False, c1)
         else if v3 \<le> 0 then (False, c2)
         else if st \<noteq> ''mysql'' \<and> st \<noteq> ''redis'' \<and> st \<noteq> ''leveldb'' then (False, c3)
         else (True, c3\<lparr>store_type := st\<rparr>))"

definition repos_init ::
    "('q, 'l) store_env \<Rightarrow> int \<Rightarrow> Config option \<Rightarrow> bool \<Rightarrow> EventRepos \<times> ('q, 'l) stores_t \<Rightarrow>
     bool \<times> EventRepos \<times> ('q, 'l) stores_t" where
  "repos_init env junk conf_ptr task_helper_ok rs =
     (case rs of
        (r0, ss) \<Rightarrow>
          let r1 = r0\<lparr>handlers := Some []\<rparr>
          in case conf_ptr of
               None \<Rightarrow> (False, r1, ss)
             | Some conf \<Rightarrow>
                 let r2 = r1\<lparr>support_process_task_size :=
                              lookupValue (cfg_int (conf_top conf)) ''rpc.business.support_process_task_size''
                                (support_process_task_size r1)\<rparr>
                 in if support_process_task_size r2 \<le> 0 then (False, r2, ss)
                    else if \<not> task_helper_ok then (False, r2\<lparr>has_task_helper := True\<rparr>, ss)
                    else
                      let r3 = r2\<lparr>has_task_helper := True\<rparr>;
                          (ok, r4) =
                            (case conf_services conf of
                               None \<Rightarrow> (True, r3)
                             | Some gs \<Rightarrow>
                                 (case find_group ''service_name'' ''[default]'' gs of
                                    None \<Rightarrow> (True, r3)
                                  | Some g \<Rightarrow>
                                      (fst (default_conf_of junk g),
                                       r3\<lparr>default_handler_conf := Some (snd (default_conf_of junk g))\<rparr>)))
                      in if \<not> ok then (False, r4, ss)
                         else
                           (case default_handler_conf r4 of
                              None \<Rightarrow> (False, r4, ss)
                            | Some c \<Rightarrow>
                                (case StoreFactory env (store_type c) ss of
                                   (None, ss') \<Rightarrow> (False, r4, ss')
                                 | (Some _, ss') \<Rightarrow> (True, r4, ss'))))"

definition destory_handlers :: "EventRepos \<Rightarrow> int \<times> EventRepos" where
  "destory_handlers r = (0, r\<lparr>handlers := None\<rparr>)"

text \<open>
  \<open>find_create_event_handler\<close>: \<open>None\<close> where the code would follow a null pointer. \<open>services\<close> is the file
  the new handler reads, \<open>timer_ok\<close> whether its timer was added. On failure the new handler is dropped; the
  store it made may stay.
\<close>

definition find_create_event_handler ::
    "('q, 'l) store_env \<Rightarrow> int \<Rightarrow> cfg_group list option option \<Rightarrow> bool \<Rightarrow> string \<Rightarrow> string \<Rightarrow>
     EventRepos \<times> ('q, 'l) stores_t \<Rightarrow> (string option \<times> EventRepos \<times> ('q, 'l) stores_t) option" where
  "find_create_event_handler env junk services timer_ok service entity_idx rs =
     (case rs of
        (r, ss) \<Rightarrow>
          let identity = construct_identity service entity_idx
          in case handlers r of
               None \<Rightarrow> None
             | Some hs \<Rightarrow>
                 (case om_find hs identity of
                    Some h \<Rightarrow> Some (Some identity, rs)
                  | None \<Rightarrow>
                      if service = [] then Some (None, rs)
                      else
                        (case default_handler_conf r of
                           None \<Rightarrow> None
                         | Some conf \<Rightarrow>
                             let (ok, h) = eh_init conf junk services
                                             (\<lambda>t. fst (StoreFactory env t ss) \<noteq> None) timer_ok
                                             (mk_EventHandler service entity_idx);
                                 ss' = (if services = None then ss
                                        else snd (StoreFactory env (store_type (eh_conf h)) ss))
                             in if \<not> ok then Some (None, r, ss')
                                else Some (Some identity, r\<lparr>handlers := Some (om_upd identity h hs)\<rparr>, ss'))))"

definition repos_add_event ::
    "('q, 'l) store_env \<Rightarrow> int \<Rightarrow> cfg_group list option option \<Rightarrow> bool \<Rightarrow> int \<Rightarrow> event_report_t \<Rightarrow>
     EventRepos \<times> ('q, 'l) stores_t \<Rightarrow> (int \<times> EventRepos \<times> ('q, 'l) stores_t) option" where
  "repos_add_event env junk services timer_ok now evs rs =
     (if er_version evs \<noteq> ''1.0.0'' \<or> er_timestamp evs \<le> 0 \<or> er_service evs = [] \<or> er_data evs = []
      then Some (-1, rs)
      else
        (case find_create_event_handler env junk services timer_ok (er_service evs) (er_entity_idx evs) rs of
           None \<Rightarrow> None
         | Some (None, rs') \<Rightarrow> Some (-1, rs')
         | Some (Some identity, r, ss) \<Rightarrow>
             (case handlers r of
                None \<Rightarrow> None
              | Some hs \<Rightarrow>
                  (case om_find hs identity of
                     None \<Rightarrow> None
                   | Some h \<Rightarrow>
                       (case eh_add_event now evs h of
                          (ret, h') \<Rightarrow> Some (ret, r\<lparr>handlers := Some (om_upd identity h' hs)\<rparr>, ss))))))"

text \<open>\<open>EventHandler::get_event\<close>: the store of the handler is the one of its \<open>store_type\<close>.\<close>

definition store_kind :: "string \<Rightarrow> StoreKind" where
  "store_kind t = (if t = ''mysql'' then StoreSql_obj else StoreLevelDB_obj)"

definition eh_get_event ::
    "('q, 'l) store_env \<Rightarrow> event_cond_t \<Rightarrow> event_select_t \<Rightarrow> EventHandler \<Rightarrow> ('q, 'l) stores_t \<Rightarrow>
     (int \<times> event_select_t \<times> ('q, 'l) stores_t) option" where
  "eh_get_event env cond stat h ss =
     (if \<not> has_store h then Some (-1, stat, ss)
      else
        let linger = event_linger (eh_conf h)
        in case virtual_call
                  (\<lambda>q. map_option (\<lambda>(ret, st, s). ((ret, st), s)) (select_ev_stat (sql env) cond stat linger q))
                  (\<lambda>l. map_option (\<lambda>(ret, st, s). ((ret, st), s)) (select_ev_stat (ldb env) cond stat linger l))
                  (store_kind (store_type (eh_conf h))) ss of
             None \<Rightarrow> None
           | Some ((ret, st), ss') \<Rightarrow> Some (ret, st, ss'))"

definition repos_get_event ::
    "('q, 'l) store_env \<Rightarrow> int \<Rightarrow> cfg_group list option option \<Rightarrow> bool \<Rightarrow> event_cond_t \<Rightarrow> event_select_t \<Rightarrow>
     EventRepos \<times> ('q, 'l) stores_t \<Rightarrow> (int \<times> event_select_t \<times> EventRepos \<times> ('q, 'l) stores_t) option" where
  "repos_get_event env junk services timer_ok cond stat rs =
     (if ec_version cond \<noteq> ''1.0.0'' \<or> ec_service cond = [] \<or> ec_tm_interval cond < 0 \<or> ec_metric cond = []
      then Some (-1, stat, rs)
      else
        (case find_create_event_handler env junk services timer_ok (ec_service cond) (ec_entity_idx cond) rs of
           None \<Rightarrow> None
         | Some (None, rs') \<Rightarrow> Some (-1, stat, rs')
         | Some (Some identity, r, ss) \<Rightarrow>
             (case handlers r of
                None \<Rightarrow> None
              | Some hs \<Rightarrow>
                  (case om_find hs identity of
                     None \<Rightarrow> None
                   | Some h \<Rightarrow>
                       (case eh_get_event env cond stat h ss of
                          None \<Rightarrow> None
                        | Some (ret, st, ss') \<Rightarrow> Some (ret, st, r, ss'))))))"

text \<open>One of the three blocks of \<open>get_metrics\<close> and of \<open>get_services\<close>: what it adds to \<open>unique_store\<close>.\<close>

definition metrics_block ::
    "('q, 'l) store_env \<Rightarrow> string \<Rightarrow> string \<Rightarrow> string list \<times> ('q, 'l) stores_t \<Rightarrow>
     (string list \<times> ('q, 'l) stores_t) option" where
  "metrics_block env service storeType us =
     (case us of
        (unique_store, ss) \<Rightarrow>
          (case StoreFactory env storeType ss of
             (None, ss1) \<Rightarrow> Some (unique_store, ss1)
           | (Some k, ss1) \<Rightarrow>
               (case virtual_call
                       (\<lambda>q. map_option (\<lambda>(ret, ms, s). ((ret, ms), s)) (select_metrics (sql env) service [] q))
                       (\<lambda>l. map_option (\<lambda>(ret, ms, s). ((ret, ms), s)) (select_metrics (ldb env) service [] l))
                       k ss1 of
                  None \<Rightarrow> None
                | Some ((ret, ms), ss2) \<Rightarrow>
                    Some (if ret \<noteq> 0 then unique_store else fold os_insert ms unique_store, ss2))))"

definition repos_get_metrics ::
    "('q, 'l) store_env \<Rightarrow> string \<Rightarrow> string \<Rightarrow> string list \<Rightarrow> ('q, 'l) stores_t \<Rightarrow>
     (int \<times> string list \<times> ('q, 'l) stores_t) option" where
  "repos_get_metrics env version service metric_stat ss =
     (if version \<noteq> ''1.0.0'' \<or> service = [] then Some (-1, metric_stat, ss)
      else
        map_option (\<lambda>(unique_store, ss'). (0, unique_store, ss'))
          (Option.bind (Option.bind (metrics_block env service ''mysql'' ([], ss)) (metrics_block env service ''redis''))
             (metrics_block env service ''leveldb'')))"

definition services_block ::
    "('q, 'l) store_env \<Rightarrow> string \<Rightarrow> string list \<times> ('q, 'l) stores_t \<Rightarrow> (string list \<times> ('q, 'l) stores_t) option" where
  "services_block env storeType us =
     (case us of
        (unique_store, ss) \<Rightarrow>
          (case StoreFactory env storeType ss of
             (None, ss1) \<Rightarrow> Some (unique_store, ss1)
           | (Some k, ss1) \<Rightarrow>
               (case virtual_call
                       (\<lambda>q. Some (case select_services (sql env) [] q of (ret, ms, s) \<Rightarrow> ((ret, ms), s)))
                       (\<lambda>l. Some (case select_services (ldb env) [] l of (ret, ms, s) \<Rightarrow> ((ret, ms), s)))
                       k ss1 of
                  None \<Rightarrow> None
                | Some ((ret, ms), ss2) \<Rightarrow>
                    Some (if ret \<noteq> 0 then unique_store else fold os_insert ms unique_store, ss2))))"

definition repos_get_services ::
    "('q, 'l) store_env \<Rightarrow> string \<Rightarrow> string list \<Rightarrow> ('q, 'l) stores_t \<Rightarrow>
     (int \<times> string list \<times> ('q, 'l) stores_t) option" where
  "repos_get_services env version service_stat ss =
     (if version \<noteq> ''1.0.0'' then Some (-1, service_stat, ss)
      else
        map_option (\<lambda>(unique_store, ss'). (0, unique_store, ss'))
          (Option.bind (Option.bind (services_block env ''mysql'' ([], ss)) (services_block env ''redis''))
             (services_block env ''leveldb'')))"

definition repos_module_runtime :: "Config \<Rightarrow> EventRepos \<Rightarrow> (int \<times> EventRepos) option" where
  "repos_module_runtime conf r =
     (let upd = (case conf_services conf of
                   None \<Rightarrow> Some (default_handler_conf r)
                 | Some gs \<Rightarrow>
                     (case find_group ''service_name'' ''[default]'' gs of
                        None \<Rightarrow> Some (default_handler_conf r)
                      | Some g \<Rightarrow>
                          (case default_handler_conf r of
                             None \<Rightarrow> None
                           | Some c \<Rightarrow> Some (Some (runtime_conf g c)))))
      in case (upd, handlers r) of
           (Some dc, Some hs) \<Rightarrow>
             Some (sum_list (map (\<lambda>e. fst (eh_update_runtime_conf (conf_services conf) (snd e))) hs),
                   r\<lparr>default_handler_conf := dc,
                     handlers := Some (map (\<lambda>e. (fst e, snd (eh_update_runtime_conf (conf_services conf) (snd e)))) hs)\<rparr>)
         | _ \<Rightarrow> None)"

text \<open>\<open>strncmp(iter->first.c_str(), service.c_str(), service.size()) == 0\<close>.\<close>

definition strncmp_eq :: "string \<Rightarrow> string \<Rightarrow> nat \<Rightarrow> bool" where
  "strncmp_eq a b n \<longleftrightarrow> take n (c_str a) = take n (c_str b)"

definition find_event_handler :: "string \<Rightarrow> EventRepos \<Rightarrow> EventHandler option option" where
  "find_event_handler service r =
     (if service = [] then Some None
      else map_option (\<lambda>hs. map_option snd (List.find (\<lambda>e. strncmp_eq (fst e) service (length service)) hs))
             (handlers r))"

definition get_service_conf :: "string \<Rightarrow> EventHandlerConf \<Rightarrow> EventRepos \<Rightarrow> (int \<times> EventHandlerConf) option" where
  "get_service_conf service handler_conf r =
     map_option (\<lambda>f. case f of None \<Rightarrow> (-1, handler_conf) | Some h \<Rightarrow> (0, eh_conf h)) (find_event_handler service r)"

section \<open>The invariant of the repository\<close>

definition conf_valid :: "EventHandlerConf \<Rightarrow> bool" where
  "conf_valid c \<longleftrightarrow> 0 < event_linger c \<and> 0 < event_step c \<and> 0 < additional_process_step_size c"

definition has_ptr :: "StoreKind \<Rightarrow> ('q, 'l) stores_t \<Rightarrow> bool" where
  "has_ptr k ss \<longleftrightarrow> (case k of StoreSql_obj \<Rightarrow> mysql_ptr ss \<noteq> None | StoreLevelDB_obj \<Rightarrow> leveldb_ptr ss \<noteq> None)"

definition handler_valid :: "('q, 'l) stores_t \<Rightarrow> string \<Rightarrow> EventHandler \<Rightarrow> bool" where
  "handler_valid ss k h \<longleftrightarrow>
     k = construct_identity (eh_service h) (eh_entity_idx h) \<and> eh_service h \<noteq> [] \<and> conf_valid (eh_conf h) \<and>
     has_store h \<and> has_ptr (store_kind (store_type (eh_conf h))) ss"

text \<open>
  After a successful \<open>init\<close>: the handlers are filed under their own identity, every configuration has a
  positive step, linger and batch size, and every handler's store exists.
\<close>

definition repos_inv :: "EventRepos \<times> ('q, 'l) stores_t \<Rightarrow> bool" where
  "repos_inv rs \<longleftrightarrow>
     (\<exists>hs c. handlers (fst rs) = Some hs \<and> default_handler_conf (fst rs) = Some c \<and> conf_valid c \<and> om_wf hs \<and>
             (\<forall>(k, h)\<in>set hs. handler_valid (snd rs) k h))"

definition ptrs_kept :: "('q, 'l) stores_t \<Rightarrow> ('q, 'l) stores_t \<Rightarrow> bool" where
  "ptrs_kept ss ss' \<longleftrightarrow> (\<forall>k. has_ptr k ss \<longrightarrow> has_ptr k ss')"

lemma ptrs_kept_refl [simp]: "ptrs_kept ss ss"
  by (simp add: ptrs_kept_def)

lemma ptrs_kept_trans: "ptrs_kept a b \<Longrightarrow> ptrs_kept b c \<Longrightarrow> ptrs_kept a c"
  by (simp add: ptrs_kept_def)

lemma StoreFactory_ptr:
  "ptrs_kept ss (snd (StoreFactory env t ss))"
  "fst (StoreFactory env t ss) = Some k \<Longrightarrow> has_ptr k (snd (StoreFactory env t ss)) \<and> k = store_kind t"
proof -
  consider "t = ''mysql''" | "t = ''leveldb''" | "t \<noteq> ''mysql'' \<and> t \<noteq> ''leveldb''" by blast
  then show "ptrs_kept ss (snd (StoreFactory env t ss))"
    by cases (simp_all add: StoreFactory_def ptrs_kept_def has_ptr_def split: option.splits StoreKind.splits)
  consider "t = ''mysql''" | "t = ''leveldb''" | "t \<noteq> ''mysql'' \<and> t \<noteq> ''leveldb''" by blast
  then show "has_ptr k (snd (StoreFactory env t ss)) \<and> k = store_kind t" if "fst (StoreFactory env t ss) = Some k"
    using that by cases (auto simp: StoreFactory_def has_ptr_def store_kind_def split: option.splits if_splits)
qed

lemma StoreFactory_ok:
  "fst (StoreFactory env t ss) \<noteq> None \<Longrightarrow> has_ptr (store_kind t) (snd (StoreFactory env t ss))"
  using StoreFactory_ptr(2) by fastforce

lemma virtual_call_ptr: "virtual_call f g k ss = Some (r, ss') \<Longrightarrow> ptrs_kept ss ss'"
  by (auto simp: virtual_call_def ptrs_kept_def has_ptr_def split: StoreKind.splits option.splits)

lemma handler_valid_kept: "handler_valid ss k h \<Longrightarrow> ptrs_kept ss ss' \<Longrightarrow> handler_valid ss' k h"
  by (simp add: handler_valid_def ptrs_kept_def)

lemma repos_inv_kept: "repos_inv (r, ss) \<Longrightarrow> ptrs_kept ss ss' \<Longrightarrow> repos_inv (r, ss')"
  unfolding repos_inv_def by (fastforce intro: handler_valid_kept)

lemma repos_inv_handler:
  assumes "repos_inv (r, ss)" "handlers r = Some hs" "handler_valid ss k h"
  shows "repos_inv (r\<lparr>handlers := Some (om_upd k h hs)\<rparr>, ss)"
proof -
  have wf: "om_wf hs" using assms(1,2) by (auto simp: repos_inv_def)
  have "\<forall>(k, h)\<in>set (om_upd k h hs). handler_valid ss k h"
    using assms om.entries_upd_set [OF wf, of k h] by (auto simp: repos_inv_def)
  with assms(1,2) wf show ?thesis by (auto simp: repos_inv_def om_wf_upd)
qed

lemma override_conf_valid: "conf_valid c \<Longrightarrow> conf_valid (override_conf junk g c)"
  by (simp add: override_conf_def conf_valid_def Let_def)

lemma runtime_conf_valid: "conf_valid c \<Longrightarrow> conf_valid (runtime_conf g c)"
  by (simp add: runtime_conf_def conf_valid_def positive_update_def split: option.splits)

lemma runtime_conf_store [simp]: "store_type (runtime_conf g c) = store_type c"
  by (simp add: runtime_conf_def)

lemma eh_init_true:
  assumes "eh_init c junk services ok timer_ok (mk_EventHandler service entity_idx) = (initialised, h)" initialised "conf_valid c"
  shows "conf_valid (eh_conf h) \<and> has_store h \<and> eh_service h = service \<and> eh_entity_idx h = entity_idx \<and>
         service \<noteq> [] \<and> services \<noteq> None \<and> ok (store_type (eh_conf h)) \<and> events h = []"
  using assms by (auto simp: eh_init_def mk_EventHandler_def Let_def override_conf_valid
      split: if_splits option.splits)

lemma find_create_cases:
  assumes inv: "repos_inv (r, ss)" and
    f: "find_create_event_handler env junk services timer_ok service entity_idx (r, ss) = Some (res, r', ss')"
  shows "repos_inv (r', ss')"
    and "res = None \<Longrightarrow> r' = r"
    and "res = Some i \<Longrightarrow> i = construct_identity service entity_idx \<and>
           (\<exists>hs hs'. handlers r = Some hs \<and> handlers r' = Some hs' \<and> om_find hs' i \<noteq> None \<and>
              (\<forall>j. j \<noteq> i \<longrightarrow> om_find hs' j = om_find hs j) \<and> (om_find hs i \<noteq> None \<longrightarrow> hs' = hs))"
proof -
  let ?i = "construct_identity service entity_idx"
  obtain hs c where hs: "handlers r = Some hs" "default_handler_conf r = Some c" "conf_valid c" "om_wf hs"
    using inv by (auto simp: repos_inv_def)
  obtain ok h where i: "eh_init c junk services (\<lambda>t. fst (StoreFactory env t ss) \<noteq> None) timer_ok
      (mk_EventHandler service entity_idx) = (ok, h)" by fastforce
  let ?ss = "if services = None then ss else snd (StoreFactory env (store_type (eh_conf h)) ss)"
  have kept: "ptrs_kept ss ?ss" using StoreFactory_ptr(1) by auto
  have new: "repos_inv (r\<lparr>handlers := Some (om_upd ?i h hs)\<rparr>, ?ss)" if "ok"
  proof -
    from eh_init_true [OF i that hs(3)] have "handler_valid ?ss ?i h" using StoreFactory_ok [of env _ ss] by (auto simp: handler_valid_def)
    with repos_inv_handler [OF repos_inv_kept [OF inv kept] hs(1)] show ?thesis .
  qed
  note f' = f [unfolded find_create_event_handler_def, simplified hs i Let_def prod.case option.case]
  show "repos_inv (r', ss')"
    using f' inv new repos_inv_kept [OF inv kept] by (auto split: option.splits if_splits)
  show "res = None \<Longrightarrow> r' = r" using f' by (auto split: option.splits if_splits)
  show "res = Some i \<Longrightarrow> i = construct_identity service entity_idx \<and>
           (\<exists>hs hs'. handlers r = Some hs \<and> handlers r' = Some hs' \<and> om_find hs' i \<noteq> None \<and>
              (\<forall>j. j \<noteq> i \<longrightarrow> om_find hs' j = om_find hs j) \<and> (om_find hs i \<noteq> None \<longrightarrow> hs' = hs))"
    using f' hs by (auto simp: om_find_upd split: option.splits if_splits)
qed

lemma find_create_defined:
  assumes "repos_inv (r, ss)"
  shows "find_create_event_handler env junk services timer_ok service entity_idx (r, ss) \<noteq> None"
proof -
  obtain hs c where hs: "handlers r = Some hs" "default_handler_conf r = Some c"
    using assms by (auto simp: repos_inv_def)
  then show ?thesis by (auto simp: find_create_event_handler_def Let_def case_prod_unfold split: option.splits)
qed

text \<open>
  What can happen to the repository while it runs: requests, a configuration update, the timer of a handler,
  its thread, and a batch it gave to a helper thread. The handler inserts through its store.
\<close>

definition store_insert :: "('q, 'l) store_env \<Rightarrow> EventHandler \<Rightarrow> event_insert_t \<Rightarrow> ('q, 'l) stores_t \<Rightarrow> int \<times> ('q, 'l) stores_t" where
  "store_insert env h st ss =
     (case virtual_call (\<lambda>q. Some (insert_ev_stat (sql env) st q)) (\<lambda>l. Some (insert_ev_stat (ldb env) st l))
             (store_kind (store_type (eh_conf h))) ss of
        None \<Rightarrow> (-1, ss)
      | Some r \<Rightarrow> r)"

inductive repos_step ::
    "('q, 'l) store_env \<Rightarrow> EventRepos \<times> ('q, 'l) stores_t \<Rightarrow> EventRepos \<times> ('q, 'l) stores_t \<Rightarrow> bool" for env where
  add: "repos_add_event env junk services timer_ok now evs rs = Some (ret, rs') \<Longrightarrow> repos_step env rs rs'"
| get: "repos_get_event env junk services timer_ok cond stat rs = Some (ret, stat', rs') \<Longrightarrow> repos_step env rs rs'"
| metrics: "repos_get_metrics env version service ms ss = Some (ret, ms', ss') \<Longrightarrow> repos_step env (r, ss) (r, ss')"
| services: "repos_get_services env version sv ss = Some (ret, sv', ss') \<Longrightarrow> repos_step env (r, ss) (r, ss')"
| runtime: "repos_module_runtime conf r = Some (ret, r') \<Longrightarrow> repos_step env (r, ss) (r', ss)"
| linger: "handlers r = Some hs \<Longrightarrow> om_find hs i = Some h \<Longrightarrow>
     repos_step env (r, ss) (r\<lparr>handlers := Some (om_upd i (linger_check_run now h) hs)\<rparr>, ss)"
| work: "handlers r = Some hs \<Longrightarrow> om_find hs i = Some h \<Longrightarrow>
     run_turn ws (store_insert env h) h ss = Some (bs, ev, h', ss') \<Longrightarrow>
     repos_step env (r, ss) (r\<lparr>handlers := Some (om_upd i h' hs)\<rparr>, ss')"
| helper: "handlers r = Some hs \<Longrightarrow> om_find hs i = Some h \<Longrightarrow>
     repos_step env (r, ss) (r, run_once_task (store_insert env h) evs h ss)"

inductive repos_reach ::
    "('q, 'l) store_env \<Rightarrow> EventRepos \<times> ('q, 'l) stores_t \<Rightarrow> EventRepos \<times> ('q, 'l) stores_t \<Rightarrow> bool" for env s0 where
  start: "repos_reach env s0 s0"
| step: "repos_reach env s0 s \<Longrightarrow> repos_step env s s' \<Longrightarrow> repos_reach env s0 s'"

lemma virtual_call_defined:
  assumes "has_ptr k ss" "\<And>q. f q \<noteq> None" "\<And>l. g l \<noteq> None"
  shows "virtual_call f g k ss \<noteq> None"
  using assms by (auto simp: virtual_call_def has_ptr_def split: StoreKind.splits option.splits)

lemma store_insert_kept: "ptrs_kept ss (snd (store_insert env h st ss))"
proof (cases "virtual_call (\<lambda>q. Some (insert_ev_stat (sql env) st q)) (\<lambda>l. Some (insert_ev_stat (ldb env) st l))
             (store_kind (store_type (eh_conf h))) ss")
  case (Some r)
  then show ?thesis using virtual_call_ptr by (cases r) (auto simp: store_insert_def)
qed (simp add: store_insert_def)

lemma store_tags_kept: "ptrs_kept ss (snd (store_tags ok (store_insert env h) metric m s ss))"
proof (induction m arbitrary: s ss)
  case (Cons e m)
  obtain tag i where e: "e = (tag, i)" by fastforce
  let ?s = "fill_stat metric tag i s"
  have "ptrs_kept ss (if ok then snd (store_insert env h ?s ss) else ss)" by (simp add: store_insert_kept)
  from ptrs_kept_trans [OF this Cons.IH [where s = ?s]] show ?case by (simp add: e Let_def)
qed simp

lemma store_metrics_kept: "ptrs_kept ss (store_metrics ok (store_insert env h) m s ss)"
proof (induction m arbitrary: s ss)
  case (Cons e m)
  obtain metric data where e: "e = (metric, data)" by fastforce
  let ?t = "store_tags ok (store_insert env h) metric (snd (calc_event_info_each_metric data [])) s ss"
  from ptrs_kept_trans [OF store_tags_kept Cons.IH [where s = "fst ?t" and ss = "snd ?t"]]
  show ?case by (simp add: e Let_def case_prod_unfold)
qed simp

lemma run_turn_kept:
  assumes "run_turn ws (store_insert env h) h ss = Some (bs, ev, h', ss')"
  shows "ptrs_kept ss ss' \<and> (\<exists>q. h' = h\<lparr>process_queue := q\<rparr>)"
  using assms store_metrics_kept
  by (auto simp: run_turn_def do_process_event_def Let_def split: if_splits prod.splits option.splits)

lemma run_once_task_kept: "ptrs_kept ss (run_once_task (store_insert env h) evs h ss)"
proof (induction evs arbitrary: ss)
  case (Cons e evs)
  have "ptrs_kept ss (snd (do_process_event (has_store h) (store_insert env h) e (stat_for h e) ss))"
    by (simp add: do_process_event_def store_metrics_kept)
  with Cons show ?case by (auto simp: run_once_task_def intro: ptrs_kept_trans)
qed (simp add: run_once_task_def)

lemma metrics_block_kept: "metrics_block env service t (u, ss) = Some (u', ss') \<Longrightarrow> ptrs_kept ss ss'"
  using StoreFactory_ptr(1) [of ss env t] virtual_call_ptr
  by (fastforce simp: metrics_block_def split: prod.splits option.splits intro: ptrs_kept_trans)

lemma services_block_kept: "services_block env t (u, ss) = Some (u', ss') \<Longrightarrow> ptrs_kept ss ss'"
  using StoreFactory_ptr(1) [of ss env t] virtual_call_ptr
  by (fastforce simp: services_block_def split: prod.splits option.splits intro: ptrs_kept_trans)

lemma repos_get_metrics_kept:
  assumes "repos_get_metrics env version service ms ss = Some (ret, ms', ss')"
  shows "ptrs_kept ss ss'"
proof (cases "version \<noteq> ''1.0.0'' \<or> service = []")
  case False
  with assms obtain u1 s1 u2 s2 u3 where "metrics_block env service ''mysql'' ([], ss) = Some (u1, s1)"
    "metrics_block env service ''redis'' (u1, s1) = Some (u2, s2)"
    "metrics_block env service ''leveldb'' (u2, s2) = Some (u3, ss')"
    by (auto simp: repos_get_metrics_def bind_eq_Some_conv)
  then show ?thesis by (meson metrics_block_kept ptrs_kept_trans)
qed (use assms in \<open>auto simp: repos_get_metrics_def\<close>)

lemma repos_get_services_kept:
  assumes "repos_get_services env version sv ss = Some (ret, sv', ss')"
  shows "ptrs_kept ss ss'"
proof (cases "version \<noteq> ''1.0.0''")
  case False
  with assms obtain u1 s1 u2 s2 u3 where "services_block env ''mysql'' ([], ss) = Some (u1, s1)"
    "services_block env ''redis'' (u1, s1) = Some (u2, s2)" "services_block env ''leveldb'' (u2, s2) = Some (u3, ss')"
    by (auto simp: repos_get_services_def bind_eq_Some_conv)
  then show ?thesis by (meson services_block_kept ptrs_kept_trans)
qed (use assms in \<open>auto simp: repos_get_services_def\<close>)

text \<open>Changes of a handler that keep it valid.\<close>

lemma handler_valid_frame:
  assumes "handler_valid ss k h" "eh_service h' = eh_service h" "eh_entity_idx h' = eh_entity_idx h"
    "eh_conf h' = eh_conf h" "has_store h' = has_store h"
  shows "handler_valid ss k h'"
  using assms by (simp add: handler_valid_def)

lemma eh_add_event_frame:
  "eh_service (snd (eh_add_event now ev h)) = eh_service h" "eh_entity_idx (snd (eh_add_event now ev h)) = eh_entity_idx h"
  "eh_conf (snd (eh_add_event now ev h)) = eh_conf h" "has_store (snd (eh_add_event now ev h)) = has_store h"
  by (simp_all add: eh_add_event_def do_add_event_def Let_def)

lemma linger_frame:
  "eh_service (linger_check_run now h) = eh_service h" "eh_entity_idx (linger_check_run now h) = eh_entity_idx h"
  "eh_conf (linger_check_run now h) = eh_conf h" "has_store (linger_check_run now h) = has_store h"
  by (simp_all add: linger_check_run_def case_prod_unfold)

lemma repos_inv_lookup:
  assumes "repos_inv (r, ss)" "handlers r = Some hs" "om_find hs k = Some h"
  shows "handler_valid ss k h"
proof -
  have hs: "om_wf hs" "\<forall>(k, h)\<in>set hs. handler_valid ss k h" using assms(1,2) by (auto simp: repos_inv_def)
  then have "(k, h) \<in> set hs" using assms(3) om.find_iff_entry [OF hs(1)] by blast
  with hs(2) show ?thesis by blast
qed

lemma repos_inv_update:
  assumes "repos_inv (r, ss)" "handlers r = Some hs" "om_find hs k = Some h"
    "eh_service h' = eh_service h" "eh_entity_idx h' = eh_entity_idx h" "eh_conf h' = eh_conf h" "has_store h' = has_store h"
  shows "repos_inv (r\<lparr>handlers := Some (om_upd k h' hs)\<rparr>, ss)"
  using repos_inv_handler [OF assms(1,2) handler_valid_frame [OF repos_inv_lookup [OF assms(1-3)] assms(4-7)]] .

lemma module_runtime_inv:
  assumes inv: "repos_inv (r, ss)"
  shows "\<exists>r'. repos_module_runtime conf r = Some (0, r') \<and> repos_inv (r', ss)"
proof -
  obtain hs c where hs: "handlers r = Some hs" "default_handler_conf r = Some c" "conf_valid c" "om_wf hs"
    "\<forall>(k, h)\<in>set hs. handler_valid ss k h"
    using inv by (auto simp: repos_inv_def)
  let ?h = "\<lambda>h. snd (eh_update_runtime_conf (conf_services conf) h)"
  have h: "handler_valid ss k (?h h)" if "handler_valid ss k h" for k h
    using that by (auto simp: eh_update_runtime_conf_def handler_valid_def runtime_conf_valid split: option.splits)
  have sum: "sum_list (map (\<lambda>e. fst (eh_update_runtime_conf (conf_services conf) (snd e))) hs) = 0"
    by (induction hs) (simp_all add: eh_update_runtime_conf_def)
  have "om_wf (map (\<lambda>e. (fst e, ?h (snd e))) hs)" using hs(4) by (simp add: om_wf_def comp_def)
  with hs h sum show ?thesis
    by (auto simp: repos_module_runtime_def repos_inv_def runtime_conf_valid split: option.splits)
qed

text \<open>The two requests that go to a handler: what they do once the handler is found.\<close>

lemma repos_add_event_found:
  assumes "er_version evs = ''1.0.0''" "0 < er_timestamp evs" "er_service evs \<noteq> []" "er_data evs \<noteq> []"
    and "find_create_event_handler env junk services timer_ok (er_service evs) (er_entity_idx evs) rs = Some (res, r, ss)"
    and "handlers r = Some hs"
  shows "repos_add_event env junk services timer_ok now evs rs =
    (case res of
       None \<Rightarrow> Some (-1, r, ss)
     | Some i \<Rightarrow>
         (case om_find hs i of
            None \<Rightarrow> None
          | Some h \<Rightarrow> Some (fst (eh_add_event now evs h),
                            r\<lparr>handlers := Some (om_upd i (snd (eh_add_event now evs h)) hs)\<rparr>, ss)))"
  using assms by (auto simp: repos_add_event_def case_prod_unfold split: option.splits)

lemma find_create_found:
  assumes "repos_inv rs"
  obtains res r ss hs where
    "find_create_event_handler env junk services timer_ok service entity_idx rs = Some (res, r, ss)"
    "repos_inv (r, ss)" "handlers r = Some hs"
    "\<And>i. res = Some i \<Longrightarrow> i = construct_identity service entity_idx \<and> om_find hs i \<noteq> None"
proof -
  obtain r0 ss0 where rs: "rs = (r0, ss0)" by fastforce
  obtain res r ss where f: "find_create_event_handler env junk services timer_ok service entity_idx rs = Some (res, r, ss)"
    using find_create_defined assms rs by (metis option.exhaust_sel prod_cases3)
  note c = find_create_cases [OF assms [unfolded rs] f [unfolded rs]]
  obtain hs where hs: "handlers r = Some hs" using c(1) by (auto simp: repos_inv_def)
  show thesis using that [OF f c(1) hs] c(3) hs by fastforce
qed

lemma repos_add_event_inv:
  assumes inv: "repos_inv rs"
  shows "\<exists>ret rs'. repos_add_event env junk services timer_ok now evs rs = Some (ret, rs') \<and> repos_inv rs'"
proof (cases "er_version evs \<noteq> ''1.0.0'' \<or> er_timestamp evs \<le> 0 \<or> er_service evs = [] \<or> er_data evs = []")
  case True
  with inv show ?thesis by (simp add: repos_add_event_def)
next
  case False
  obtain res r ss hs where
    f: "find_create_event_handler env junk services timer_ok (er_service evs) (er_entity_idx evs) rs = Some (res, r, ss)"
    "repos_inv (r, ss)" "handlers r = Some hs"
    "\<And>i. res = Some i \<Longrightarrow> i = construct_identity (er_service evs) (er_entity_idx evs) \<and> om_find hs i \<noteq> None"
    using find_create_found [OF inv] by metis
  have eq: "repos_add_event env junk services timer_ok now evs rs =
    (case res of None \<Rightarrow> Some (-1, r, ss)
     | Some i \<Rightarrow> (case om_find hs i of None \<Rightarrow> None
          | Some h \<Rightarrow> Some (fst (eh_add_event now evs h),
                            r\<lparr>handlers := Some (om_upd i (snd (eh_add_event now evs h)) hs)\<rparr>, ss)))"
    using False by (intro repos_add_event_found [OF _ _ _ _ f(1,3)]) simp_all
  show ?thesis
  proof (cases res)
    case None
    with eq f show ?thesis by simp
  next
    case (Some i)
    then obtain h where h: "om_find hs i = Some h" using f(4) by blast
    with eq Some repos_inv_update [OF f(2,3) h eh_add_event_frame] show ?thesis by simp
  qed
qed

lemma eh_get_event_kept: "eh_get_event env cond stat h ss = Some (ret, st, ss') \<Longrightarrow> ptrs_kept ss ss'"
  by (auto simp: eh_get_event_def Let_def split: if_splits option.splits prod.splits dest: virtual_call_ptr)

lemma repos_get_event_inv:
  assumes inv: "repos_inv rs" and g: "repos_get_event env junk services timer_ok cond stat rs = Some (ret, stat', rs')"
  shows "repos_inv rs'"
proof -
  obtain res r ss hs where
    f: "find_create_event_handler env junk services timer_ok (ec_service cond) (ec_entity_idx cond) rs = Some (res, r, ss)"
    "repos_inv (r, ss)"
    using find_create_found [OF inv] by metis
  with g inv eh_get_event_kept repos_inv_kept [OF f(2)] show ?thesis
    by (fastforce simp: repos_get_event_def split: if_splits option.splits)
qed

lemma repos_step_inv: "repos_step env s s' \<Longrightarrow> repos_inv s \<Longrightarrow> repos_inv s'"
proof (induction rule: repos_step.induct)
  case (add junk services timer_ok now evs rs ret rs')
  then show ?case using repos_add_event_inv [OF add(2), of env junk services timer_ok now evs] by auto
next
  case (get junk services timer_ok cond stat rs ret stat' rs')
  then show ?case using repos_get_event_inv by blast
next
  case (metrics version service ms ss ret ms' ss' r)
  then show ?case using repos_inv_kept repos_get_metrics_kept by blast
next
  case (services version sv ss ret sv' ss' r)
  then show ?case using repos_inv_kept repos_get_services_kept by blast
next
  case (runtime conf r ret r' ss)
  then show ?case using module_runtime_inv [of r ss conf] by auto
next
  case (linger r hs i h ss now)
  then show ?case using repos_inv_update linger_frame by blast
next
  case (work r hs i h ws ss bs ev h' ss')
  from run_turn_kept [OF work(3)] repos_inv_kept [OF work(4)] show ?case
    by (auto intro: repos_inv_update [OF _ work(1,2)])
next
  case (helper r hs i h ss evs)
  then show ?case using repos_inv_kept run_once_task_kept by blast
qed

lemma repos_reach_inv: "repos_reach env s0 s \<Longrightarrow> repos_inv s0 \<Longrightarrow> repos_inv s"
  by (induction rule: repos_reach.induct) (auto intro: repos_step_inv)

lemma default_conf_of_valid: "fst (default_conf_of junk g) \<Longrightarrow> conf_valid (snd (default_conf_of junk g))"
  by (simp add: default_conf_of_def conf_valid_def Let_def split: if_splits)

lemma repos_init_inv:
  assumes "repos_init env junk conf_ptr task_helper_ok (empty_EventRepos, ss) = (True, s0)"
  shows "repos_inv s0"
proof -
  obtain conf gs g where g: "conf_ptr = Some conf" "conf_services conf = Some gs"
    "find_group ''service_name'' ''[default]'' gs = Some g" "fst (default_conf_of junk g)"
    using assms by (auto simp: repos_init_def empty_EventRepos_def Let_def split: option.splits if_splits)
  with default_conf_of_valid [OF g(4)] assms show ?thesis
    by (auto simp: repos_init_def repos_inv_def Let_def split: if_splits prod.splits option.splits)
qed

text \<open>
  C12. After a successful start, whatever requests, timer ticks, processing turns and configuration updates
  follow: every handler is filed under the identity of its own service and entity, has a positive step,
  linger and batch size and an existing store; and a report is always answered.
\<close>
theorem repos_stays_valid:
  assumes "repos_init env junk conf_ptr task_helper_ok (empty_EventRepos, ss0) = (True, s0)"
    and "repos_reach env s0 (r, ss)"
  shows "\<exists>hs. handlers r = Some hs \<and> om_wf hs \<and>
           (\<forall>k h. om_find hs k = Some h \<longrightarrow>
              k = construct_identity (eh_service h) (eh_entity_idx h) \<and> 0 < event_step (eh_conf h) \<and>
              0 < event_linger (eh_conf h) \<and> 0 < additional_process_step_size (eh_conf h) \<and>
              has_store h \<and> has_ptr (store_kind (store_type (eh_conf h))) ss) \<and>
           (\<forall>junk services timer_ok now evs. \<exists>ret s'.
              repos_add_event env junk services timer_ok now evs (r, ss) = Some (ret, s'))"
proof -
  have inv: "repos_inv (r, ss)" using repos_reach_inv [OF assms(2) repos_init_inv [OF assms(1)]] .
  then obtain hs where hs: "handlers r = Some hs" "om_wf hs" by (auto simp: repos_inv_def)
  have "handler_valid ss k h" if "om_find hs k = Some h" for k h using repos_inv_lookup [OF inv hs(1) that] .
  with hs repos_add_event_inv [OF inv, of env] show ?thesis
    by (auto simp: handler_valid_def conf_valid_def simp del: split_paired_Ex) meson
qed

text \<open>
  What a new handler needs to be initialised: the server's configuration is loaded, the store of the kind
  that the handler's configuration names can be had, and the timer is set. The configuration is the
  default one, overridden by the entry of the service if there is one.
\<close>

definition conf_of_service :: "EventHandlerConf \<Rightarrow> int \<Rightarrow> cfg_group list option option \<Rightarrow> string \<Rightarrow> EventHandlerConf" where
  "conf_of_service c junk services service =
     (case services of
        Some (Some gs) \<Rightarrow> (case find_group ''instance_name'' service gs of None \<Rightarrow> c | Some g \<Rightarrow> override_conf junk g c)
      | _ \<Rightarrow> c)"

definition store_available :: "('q, 'l) store_env \<Rightarrow> ('q, 'l) stores_t \<Rightarrow> string \<Rightarrow> bool" where
  "store_available env ss t \<longleftrightarrow>
     t = ''mysql'' \<and> (mysql_ptr ss \<noteq> None \<or> conf_ready env \<and> sql_init env \<noteq> None) \<or>
     t = ''leveldb'' \<and> (leveldb_ptr ss \<noteq> None \<or> conf_ready env \<and> ldb_init_result env \<noteq> None)"

lemma store_available_factory: "fst (StoreFactory env t ss) \<noteq> None \<longleftrightarrow> store_available env ss t"
  by (auto simp: StoreFactory_def store_available_def split: option.splits)

lemma eh_init_cases:
  assumes "service \<noteq> []"
  shows "fst (eh_init c junk services ok timer_ok (mk_EventHandler service entity)) \<longleftrightarrow>
           services \<noteq> None \<and> ok (store_type (conf_of_service c junk services service)) \<and> timer_ok"
    and "fst (eh_init c junk services ok timer_ok (mk_EventHandler service entity)) \<Longrightarrow>
         snd (eh_init c junk services ok timer_ok (mk_EventHandler service entity)) =
           (mk_EventHandler service entity)\<lparr>eh_conf := conf_of_service c junk services service, has_store := True\<rparr>"
  using assms
  by (auto simp: eh_init_def mk_EventHandler_def conf_of_service_def Let_def split: option.splits if_splits)

text \<open>A handler without slots takes its first report into one slot, by metric and in order, unless it comes too late.\<close>

lemma first_report:
  assumes "eh_service h = er_service evs" "events h = []"
  shows "if now - er_timestamp evs \<le> event_linger (eh_conf h)
         then fst (eh_add_event now evs h) = 0 \<and>
              (\<exists>e. events (snd (eh_add_event now evs h)) = [(nice_step (eh_conf h) (er_timestamp evs), e)] \<and>
                   ebt_timestamp e = nice_step (eh_conf h) (er_timestamp evs) \<and>
                   (\<forall>m. metric_data (ebt_data e) m = filter (\<lambda>d. ed_metric d = m) (er_data evs)))
         else fst (eh_add_event now evs h) = -1 \<and> snd (eh_add_event now evs h) = h"
proof -
  have "metric_data (fold add_to_slot (er_data evs) []) m = filter (\<lambda>d. ed_metric d = m) (er_data evs)" for m
    using fold_add_to_slot_data [of "[]" "er_data evs" m] by (simp add: metric_data_def om_wf_def)
  then show ?thesis using assms by (simp add: eh_add_event_def do_add_event_def Let_def)
qed

text \<open>
  C29. A well-formed report reaches the handler of its service and entity and no other one. The handler filed
  under that identity takes it exactly as \<open>EventHandler::add_event\<close> does (and rejects it when it
  belongs to another service, as \<open>a#b\<close> and \<open>a\<close>, \<open>b\<close> share an identity). Where there is none yet, a new handler of that
  service and entity, with the service's configuration, is filed exactly when the server is configured, the store it names can be had
  and the timer is set; it then holds the report's data, by metric and in order, in one slot (unless the report comes too late). Only
  when one of these fails is the answer \<open>-1\<close> without a new handler.
\<close>
theorem add_event_isolated:
  assumes inv: "repos_inv (r, ss)" and hs: "handlers r = Some hs" and dc: "default_handler_conf r = Some c"
    and wf: "er_version evs = ''1.0.0''" "0 < er_timestamp evs" "er_service evs \<noteq> []" "er_data evs \<noteq> []"
    and conf: "conf = conf_of_service c junk services (er_service evs)"
  shows "\<exists>ret r' ss' hs'. repos_add_event env junk services timer_ok now evs (r, ss) = Some (ret, r', ss') \<and>
           handlers r' = Some hs' \<and>
           (let i = construct_identity (er_service evs) (er_entity_idx evs)
            in (\<forall>j. j \<noteq> i \<longrightarrow> om_find hs' j = om_find hs j) \<and>
               (case om_find hs i of
                  Some h \<Rightarrow> ret = fst (eh_add_event now evs h) \<and> om_find hs' i = Some (snd (eh_add_event now evs h)) \<and> ss' = ss
                | None \<Rightarrow>
                    if services \<noteq> None \<and> store_available env ss (store_type conf) \<and> timer_ok
                    then (\<exists>h. om_find hs' i = Some h \<and> eh_service h = er_service evs \<and> eh_entity_idx h = er_entity_idx evs \<and>
                              eh_conf h = conf \<and> has_store h \<and> items (process_queue h) = [] \<and>
                              (if now - er_timestamp evs \<le> event_linger conf
                               then ret = 0 \<and>
                                    (\<exists>e. events h = [(nice_step conf (er_timestamp evs), e)] \<and>
                                         ebt_timestamp e = nice_step conf (er_timestamp evs) \<and>
                                         (\<forall>m. metric_data (ebt_data e) m = filter (\<lambda>d. ed_metric d = m) (er_data evs)))
                               else ret = -1 \<and> events h = []))
                    else ret = -1 \<and> hs' = hs))"
proof -
  let ?i = "construct_identity (er_service evs) (er_entity_idx evs)"
  have c: "om_wf hs" using inv hs by (auto simp: repos_inv_def)
  show ?thesis
  proof (cases "om_find hs ?i")
    case (Some h)
    then have "find_create_event_handler env junk services timer_ok (er_service evs) (er_entity_idx evs) (r, ss) =
        Some (Some ?i, r, ss)" by (simp add: find_create_event_handler_def hs)
    from repos_add_event_found [OF wf this hs, of now] Some c show ?thesis by (simp add: om_find_upd Let_def)
  next
    case None
    let ?ok = "\<lambda>t. fst (StoreFactory env t ss) \<noteq> None"
    obtain ok h where i: "eh_init c junk services ?ok timer_ok (mk_EventHandler (er_service evs) (er_entity_idx evs)) = (ok, h)"
      by fastforce
    let ?ss = "if services = None then ss else snd (StoreFactory env (store_type (eh_conf h)) ss)"
    have f: "find_create_event_handler env junk services timer_ok (er_service evs) (er_entity_idx evs) (r, ss) =
        Some (if ok then (Some ?i, r\<lparr>handlers := Some (om_upd ?i h hs)\<rparr>, ?ss) else (None, r, ?ss))"
      using None by (simp add: find_create_event_handler_def hs dc i wf(3) Let_def del: not_None_eq)
    have ready: "ok \<longleftrightarrow> services \<noteq> None \<and> store_available env ss (store_type conf) \<and> timer_ok"
      using eh_init_cases(1) [OF wf(3), of c junk services ?ok timer_ok "er_entity_idx evs", unfolded i fst_conv]
      unfolding conf store_available_factory .
    show ?thesis
    proof (cases ok)
      case True
      have h: "h = (mk_EventHandler (er_service evs) (er_entity_idx evs))\<lparr>eh_conf := conf, has_store := True\<rparr>"
        using eh_init_cases(2) [OF wf(3), of c junk services ?ok timer_ok "er_entity_idx evs"] True unfolding conf by (simp only: i fst_conv snd_conv)
      then have hf: "eh_service h = er_service evs" "eh_entity_idx h = er_entity_idx evs" "events h = []" "eh_conf h = conf"
        "has_store h" "items (process_queue h) = []" by (simp_all add: mk_EventHandler_def empty_queue_def)
      define h' where "h' = snd (eh_add_event now evs h)"
      have kept: "eh_service h' = er_service evs" "eh_entity_idx h' = er_entity_idx evs" "eh_conf h' = conf" "has_store h'"
        "items (process_queue h') = []"
        using hf by (simp_all add: h'_def eh_add_event_def do_add_event_def Let_def)
      from f True have "find_create_event_handler env junk services timer_ok (er_service evs) (er_entity_idx evs) (r, ss) =
        Some (Some ?i, r\<lparr>handlers := Some (om_upd ?i h hs)\<rparr>, ?ss)" by simp
      from repos_add_event_found [OF wf this, of "om_upd ?i h hs" now] c
      have "repos_add_event env junk services timer_ok now evs (r, ss) =
          Some (fst (eh_add_event now evs h), r\<lparr>handlers := Some (om_upd ?i h' (om_upd ?i h hs))\<rparr>, ?ss)"
        by (simp add: om_find_upd h'_def)
      moreover have "om_find (om_upd ?i h' (om_upd ?i h hs)) j = (if j = ?i then Some h' else om_find hs j)" for j
        using c by (simp add: om_find_upd om_wf_upd)
      moreover have "if now - er_timestamp evs \<le> event_linger conf
          then fst (eh_add_event now evs h) = 0 \<and>
               (\<exists>e. events h' = [(nice_step conf (er_timestamp evs), e)] \<and> ebt_timestamp e = nice_step conf (er_timestamp evs) \<and>
                    (\<forall>m. metric_data (ebt_data e) m = filter (\<lambda>d. ed_metric d = m) (er_data evs)))
          else fst (eh_add_event now evs h) = -1 \<and> events h' = []"
        using first_report [OF hf(1,3), of now] hf(3,4) by (auto simp: h'_def split: if_splits)
      ultimately show ?thesis
        using None True ready kept by (simp add: Let_def)
    next
      case False
      with f have "find_create_event_handler env junk services timer_ok (er_service evs) (er_entity_idx evs) (r, ss) =
        Some (None, r, ?ss)" by simp
      from repos_add_event_found [OF wf this hs, of now] None hs False ready show ?thesis by (simp add: Let_def)
    qed
  qed
qed

text \<open>What one kind of store contributes to the lists: its answer, if it exists and answers 0.\<close>

definition answered :: "(int \<times> string list \<times> 's) option \<Rightarrow> string set option" where
  "answered r = (case r of None \<Rightarrow> None | Some (ret, ms, s) \<Rightarrow> Some (if ret = 0 then set ms else {}))"

definition metrics_answer ::
    "('q, 'l) store_env \<Rightarrow> string \<Rightarrow> StoreKind \<Rightarrow> ('q, 'l) stores_t \<Rightarrow> string set option" where
  "metrics_answer env service k ss =
     (case k of
        StoreSql_obj \<Rightarrow>
          (case mysql_ptr (snd (StoreFactory env ''mysql'' ss)) of
             None \<Rightarrow> Some {} | Some q \<Rightarrow> answered (select_metrics (sql env) service [] q))
      | StoreLevelDB_obj \<Rightarrow>
          (case leveldb_ptr (snd (StoreFactory env ''leveldb'' ss)) of
             None \<Rightarrow> Some {} | Some l \<Rightarrow> answered (select_metrics (ldb env) service [] l)))"

lemma fold_os_insert_sorted:
  "sorted_wrt (<) u \<Longrightarrow> sorted_wrt (<) (fold os_insert ms u) \<and> set (fold os_insert ms u) = set ms \<union> set u"
  by (induction ms arbitrary: u) (auto simp: sorted_os_insert set_os_insert)

lemma metrics_block_spec:
  assumes "metrics_answer env service (store_kind t) ss = Some A" "t \<in> {''mysql'', ''leveldb''}" "sorted_wrt (<) u"
  shows "\<exists>u' ss'. metrics_block env service t (u, ss) = Some (u', ss') \<and> sorted_wrt (<) u' \<and> set u' = set u \<union> A \<and>
           (t = ''mysql'' \<longrightarrow> leveldb_ptr ss' = leveldb_ptr ss)"
proof -
  consider (sql) "t = ''mysql''" | (ldb) "t = ''leveldb''" using assms(2) by blast
  then show ?thesis
  proof cases
    case sql
    with assms(1,3) show ?thesis
      by (auto simp: metrics_answer_def answered_def metrics_block_def StoreFactory_def store_kind_def virtual_call_def Let_def
          fold_os_insert_sorted Un_commute split: option.splits prod.splits if_splits)
  next
    case ldb
    with assms(1,3) show ?thesis
      by (auto simp: metrics_answer_def answered_def metrics_block_def StoreFactory_def store_kind_def virtual_call_def Let_def
          fold_os_insert_sorted Un_commute split: option.splits prod.splits if_splits)
  qed
qed

text \<open>
  \<open>get_metrics\<close> of a service succeeds whenever the stores return, and lists in ascending order and
  without repetition the metrics of every store that answered; a store that is missing or fails hides nothing
  of the other.
\<close>
theorem get_metrics_union:
  assumes "service \<noteq> []" "metrics_answer env service StoreSql_obj ss = Some A"
    "metrics_answer env service StoreLevelDB_obj ss = Some B"
  shows "\<exists>ss'. repos_get_metrics env ''1.0.0'' service metric_stat ss = Some (0, sorted_list_of_set (A \<union> B), ss')"
proof -
  obtain u1 s1 where b1: "metrics_block env service ''mysql'' ([], ss) = Some (u1, s1)" "sorted_wrt (<) u1"
    "set u1 = A" "leveldb_ptr s1 = leveldb_ptr ss"
    using metrics_block_spec [of env service "''mysql''" ss A "[]"] assms(2) by (auto simp: store_kind_def)
  have b2: "metrics_block env service ''redis'' (u1, s1) = Some (u1, s1)"
    by (simp add: metrics_block_def StoreFactory_def)
  have "metrics_answer env service StoreLevelDB_obj s1 = Some B"
    using assms(3) b1(4) by (simp add: metrics_answer_def StoreFactory_def Let_def split: option.splits if_splits)
  then obtain u3 s3 where b3: "metrics_block env service ''leveldb'' (u1, s1) = Some (u3, s3)" "sorted_wrt (<) u3"
    "set u3 = A \<union> B"
    using metrics_block_spec [of env service "''leveldb''" s1 B u1] b1 by (auto simp: store_kind_def)
  then have "u3 = sorted_list_of_set (A \<union> B)"
    by (metis sorted_list_of_set.idem_if_sorted_distinct strict_sorted_iff)
  with assms(1) b1 b2 b3 show ?thesis by (simp add: repos_get_metrics_def)
qed

section \<open>Witnesses\<close>

text \<open>Only a LevelDB store, which knows one metric and whose other operations answer nothing.\<close>

definition example_store_if :: "unit StoreIf" where
  "example_store_if =
     \<lparr>insert_ev_stat = \<lambda>st s. (0, s), select_ev_stat = \<lambda>cond st linger s. Some (0, st, s),
      select_metrics = \<lambda>service ms s. Some (0, [''rps''], s), select_services = \<lambda>sv s. (0, [''svc''], s)\<rparr>"

definition example_env :: "(unit, unit) store_env" where
  "example_env =
     \<lparr>sql = example_store_if, ldb = example_store_if, conf_ready = True, sql_init = None, ldb_init_result = Some ()\<rparr>"

definition no_stores :: "(unit, unit) stores_t" where
  "no_stores = \<lparr>mysql_ptr = None, leveldb_ptr = None\<rparr>"

definition example_group :: cfg_group where
  "example_group =
     \<lparr>cfg_int = [''event_linger'' \<mapsto> 5, ''event_step'' \<mapsto> 10, ''additional_process_step_size'' \<mapsto> 3],
      cfg_str = [''service_name'' \<mapsto> ''[default]'', ''store_type'' \<mapsto> ''leveldb'']\<rparr>"

definition example_config :: Config where
  "example_config =
     \<lparr>conf_top = \<lparr>cfg_int = [''rpc.business.support_process_task_size'' \<mapsto> 2], cfg_str = \<lambda>_. None\<rparr>,
      conf_services = Some [example_group]\<rparr>"

definition example_repos :: EventRepos where
  "example_repos =
     \<lparr>handlers = Some [], support_process_task_size = 2, has_task_helper = True,
      default_handler_conf = Some \<lparr>event_linger = 5, event_step = 10, additional_process_step_size = 3,
                                  store_type = ''leveldb''\<rparr>\<rparr>"

lemma example_init:
  "repos_init example_env 0 (Some example_config) True (empty_EventRepos, no_stores) =
     (True, example_repos, no_stores\<lparr>leveldb_ptr := Some ()\<rparr>)"
  by (simp add: repos_init_def example_env_def example_config_def example_group_def empty_EventRepos_def example_repos_def
      default_conf_of_def default_EventHandlerConf_def lookupValue_def StoreFactory_def no_stores_def Let_def)

theorem repos_stays_valid_witness:
  "\<exists>hs ret s'. handlers example_repos = Some hs \<and> om_wf hs \<and>
     repos_add_event example_env 0 (Some None) True 100 example_report
       (example_repos, no_stores\<lparr>leveldb_ptr := Some ()\<rparr>) = Some (ret, s')"
  using repos_stays_valid [OF example_init repos_reach.start] by blast

text \<open>The first report of a service: a handler is made for it.\<close>
theorem add_event_isolated_witness:
  "\<exists>ret r' ss' hs' h. repos_add_event example_env 0 (Some None) True (er_timestamp example_report) example_report
       (example_repos, no_stores\<lparr>leveldb_ptr := Some ()\<rparr>) = Some (ret, r', ss') \<and> handlers r' = Some hs' \<and>
       om_find hs' (construct_identity (er_service example_report) (er_entity_idx example_report)) = Some h \<and>
       ret = 0 \<and> length (events h) = 1 \<and> om_find hs' ''other'' = None"
proof -
  let ?i = "construct_identity (er_service example_report) (er_entity_idx example_report)"
  have inv: "repos_inv (example_repos, no_stores\<lparr>leveldb_ptr := Some ()\<rparr>)" by (rule repos_init_inv [OF example_init])
  have hs: "handlers example_repos = Some []" by (simp add: example_repos_def)
  obtain c where dc: "default_handler_conf example_repos = Some c" "store_type c = ''leveldb''" "0 \<le> event_linger c"
    by (simp add: example_repos_def)
  have wf: "er_version example_report = ''1.0.0''" "0 < er_timestamp example_report" "er_service example_report \<noteq> []"
    "er_data example_report \<noteq> []" "''other'' \<noteq> ?i"
    by (simp_all add: example_report_def construct_identity_def)
  let ?conf = "conf_of_service c 0 (Some None) (er_service example_report)"
  have conf: "?conf = c" by (simp add: conf_of_service_def)
  have av: "store_available example_env (no_stores\<lparr>leveldb_ptr := Some ()\<rparr>) (store_type c)"
    by (simp add: store_available_def dc(2))
  show ?thesis
    using add_event_isolated [OF inv hs dc(1) wf(1-4) refl, where env = example_env and junk = 0 and services = "Some None"
        and timer_ok = True and now = "er_timestamp example_report"]
      wf(5) av dc(3)
    by (auto simp: conf Let_def)
qed

theorem get_metrics_union_witness:
  "\<exists>ss'. repos_get_metrics example_env ''1.0.0'' ''svc'' [] no_stores = Some (0, [''rps''], ss')"
  using get_metrics_union [of "''svc''" example_env no_stores "{}" "{''rps''}" "[]"]
  by (simp add: metrics_answer_def answered_def example_env_def no_stores_def StoreFactory_def example_store_if_def Let_def)

end
