(* ===== verification/StoreLevelDB.thy ===== *)
theory StoreLevelDB
  imports EventTypes
begin

text \<open>
  \<open>source/Business/StoreLevelDB.h\<close> and \<open>source/Business/StoreLevelDB.cpp\<close>: rows kept in one LevelDB per
  service and month, under the key \<open>metric#timestamp#tag#entity_idx\<close> with the timestamp
  counted down, so that iteration meets the newest rows first.

  LevelDB itself is the parameter \<open>api\<close>: what \<open>DB::Open\<close>, \<open>DB::Put\<close> and an iterator's \<open>Seek\<close>,
  \<open>SeekToFirst\<close> and \<open>Next\<close> return. An iterator stands on an entry or is not \<open>Valid\<close> (\<open>None\<close>).
  What the code relies on is the hypothesis \<open>leveldb_ok\<close> of the theorems. The default comparator orders
  keys bytewise, which is the order of HOL's strings here. \<open>localtime\<close> gives \<open>tm_year\<close> and \<open>tm_mon\<close>.

  Loops over an iterator are partial functions into \<open>option\<close>: \<open>None\<close> is a loop that does not end, and
  in \<open>select_ev_stat\<close> also the undefined behaviour of a descending sort.
\<close>

record ('h, 'd) leveldb_api =
  DB_Open :: "string \<Rightarrow> 'd \<Rightarrow> 'h option \<times> 'd"
  DB_Put :: "'h \<Rightarrow> string \<Rightarrow> string \<Rightarrow> 'd \<Rightarrow> bool \<times> 'd"
  It_Seek :: "'h \<Rightarrow> 'd \<Rightarrow> string \<Rightarrow> (string \<times> string) option"
  It_SeekToFirst :: "'h \<Rightarrow> 'd \<Rightarrow> (string \<times> string) option"
  It_Next :: "'h \<Rightarrow> 'd \<Rightarrow> string \<Rightarrow> (string \<times> string) option"

section \<open>The stored layout\<close>

record leveldb_internal_layout_t =
  l_d :: "8 word"
  l_step :: "8 word"
  l_count :: "32 word"
  l_sum :: "64 word"
  l_avg :: "32 word"
  l_min :: "32 word"
  l_max :: "32 word"
  l_p10 :: "32 word"
  l_p50 :: "32 word"
  l_p90 :: "32 word"

definition sizeof_layout :: nat where "sizeof_layout = 38"

definition layout_from_net_endian :: "leveldb_internal_layout_t \<Rightarrow> leveldb_internal_layout_t" where
  "layout_from_net_endian l =
     l\<lparr>l_count := be32toh (l_count l), l_sum := be64toh (l_sum l), l_avg := be32toh (l_avg l),
       l_min := be32toh (l_min l), l_max := be32toh (l_max l), l_p10 := be32toh (l_p10 l),
       l_p50 := be32toh (l_p50 l), l_p90 := be32toh (l_p90 l)\<rparr>"

definition layout_to_net_endian :: "leveldb_internal_layout_t \<Rightarrow> leveldb_internal_layout_t" where
  "layout_to_net_endian l =
     l\<lparr>l_count := htobe32 (l_count l), l_sum := htobe64 (l_sum l), l_avg := htobe32 (l_avg l),
       l_min := htobe32 (l_min l), l_max := htobe32 (l_max l), l_p10 := htobe32 (l_p10 l),
       l_p50 := htobe32 (l_p50 l), l_p90 := htobe32 (l_p90 l)\<rparr>"

definition layout_bytes :: "leveldb_internal_layout_t \<Rightarrow> string" where
  "layout_bytes l =
     le_enc 1 (unat (l_d l)) @ le_enc 1 (unat (l_step l)) @ le_enc 4 (unat (l_count l)) @
     le_enc 8 (unat (l_sum l)) @ le_enc 4 (unat (l_avg l)) @ le_enc 4 (unat (l_min l)) @
     le_enc 4 (unat (l_max l)) @ le_enc 4 (unat (l_p10 l)) @ le_enc 4 (unat (l_p50 l)) @
     le_enc 4 (unat (l_p90 l))"

definition layout_of_bytes :: "string \<Rightarrow> leveldb_internal_layout_t" where
  "layout_of_bytes s =
     \<lparr>l_d = of_nat (le_dec (take 1 s)), l_step = of_nat (le_dec (take 1 (drop 1 s))),
      l_count = of_nat (le_dec (take 4 (drop 2 s))), l_sum = of_nat (le_dec (take 8 (drop 6 s))),
      l_avg = of_nat (le_dec (take 4 (drop 14 s))), l_min = of_nat (le_dec (take 4 (drop 18 s))),
      l_max = of_nat (le_dec (take 4 (drop 22 s))), l_p10 = of_nat (le_dec (take 4 (drop 26 s))),
      l_p50 = of_nat (le_dec (take 4 (drop 30 s))), l_p90 = of_nat (le_dec (take 4 (drop 34 s)))\<rparr>"

section \<open>Keys and tables\<close>

definition timestamp_exchange :: "int \<Rightarrow> int" where
  "timestamp_exchange t = 9999999999 - t"

definition timestamp_exchange_str :: "int \<Rightarrow> string" where
  "timestamp_exchange_str t = dec_int (9999999999 - t)"

definition get_table_suffix :: "(int \<Rightarrow> int \<times> int) \<Rightarrow> int \<Rightarrow> string" where
  "get_table_suffix localtime time_sec =
     (case localtime time_sec of
        (tm_year, tm_mon) \<Rightarrow> zero_pad 4 (dec_int (tm_year + 1900)) @ zero_pad 2 (dec_int (tm_mon + 1)))"

record 'h leveldb_handler_t =
  current_suffix :: string
  ldb_handler :: 'h

record 'h StoreLevelDB =
  levelDBs :: "(string, 'h leveldb_handler_t) omap"
  filepath :: string
  table_prefix :: string

text \<open>\<open>cfg\<close>: the two string settings; \<open>writable\<close>: whether \<open>access(filepath, W_OK)\<close> succeeds.\<close>

definition ldb_init :: "(string \<Rightarrow> string option) \<Rightarrow> (string \<Rightarrow> bool) \<Rightarrow> 'h StoreLevelDB \<Rightarrow> bool \<times> 'h StoreLevelDB" where
  "ldb_init cfg writable s =
     (case cfg ''rpc.business.leveldb.filepath'' of
        None \<Rightarrow> (False, s)
      | Some fp \<Rightarrow>
          (case cfg ''rpc.business.leveldb.table_prefix'' of
             None \<Rightarrow> (False, s\<lparr>filepath := fp\<rparr>)
           | Some tp \<Rightarrow>
               let s1 = s\<lparr>filepath := fp, table_prefix := tp\<rparr>
               in if fp = [] \<or> tp = [] then (False, s1)
                  else if \<not> writable fp then (False, s1)
                  else (True, s1\<lparr>levelDBs := []\<rparr>)))"

definition table_path :: "'h StoreLevelDB \<Rightarrow> string \<Rightarrow> string \<Rightarrow> string" where
  "table_path s service sfx =
     take 4095 (c_str (filepath s) @ ''/'' @ c_str (table_prefix s) @ ''__'' @ c_str service @ ''__events_'' @
                sfx)"

definition get_leveldb_handler ::
    "('h, 'd) leveldb_api \<Rightarrow> (int \<Rightarrow> int \<times> int) \<Rightarrow> int \<Rightarrow> string \<Rightarrow> 'h StoreLevelDB \<times> 'd \<Rightarrow>
     'h option \<times> 'h StoreLevelDB \<times> 'd" where
  "get_leveldb_handler api localtime now service sd =
     (if service = [] then (None, sd)
      else
        let (s, d) = sd;
            now_suffix = get_table_suffix localtime now;
            cached = (case om_find (levelDBs s) service of
                        None \<Rightarrow> None
                      | Some h \<Rightarrow> if now_suffix = current_suffix h then Some (ldb_handler h) else None)
        in case cached of
             Some h \<Rightarrow> (Some h, sd)
           | None \<Rightarrow>
               (case DB_Open api (table_path s service now_suffix) d of
                  (None, d') \<Rightarrow> (None, s, d')
                | (Some db, d') \<Rightarrow>
                    (Some db,
                     s\<lparr>levelDBs := om_upd service \<lparr>current_suffix = now_suffix, ldb_handler = db\<rparr> (levelDBs s)\<rparr>,
                     d')))"

section \<open>Insertion\<close>

text \<open>\<open>%lu\<close> prints the \<open>time_t\<close> as unsigned; \<open>snprintf\<close> keeps at most 4095 characters.\<close>

definition row_key :: "string \<Rightarrow> int \<Rightarrow> string \<Rightarrow> string \<Rightarrow> string" where
  "row_key metric t tag entity_idx =
     take 4095 (c_str metric @ ''#'' @ dec_int (to_u64 (timestamp_exchange t)) @ ''#'' @ c_str tag @ ''#'' @
                c_str entity_idx)"

definition layout_of_stat :: "event_insert_t \<Rightarrow> leveldb_internal_layout_t" where
  "layout_of_stat st =
     \<lparr>l_d = of_char CHR ''D'', l_step = word_of_int (ins_step st), l_count = word_of_int (ins_count st),
      l_sum = word_of_int (ins_value_sum st), l_avg = word_of_int (ins_value_avg st),
      l_min = word_of_int (ins_value_min st), l_max = word_of_int (ins_value_max st),
      l_p10 = word_of_int (ins_value_p10 st), l_p50 = word_of_int (ins_value_p50 st),
      l_p90 = word_of_int (ins_value_p90 st)\<rparr>"

definition ldb_insert_ev_stat ::
    "('h, 'd) leveldb_api \<Rightarrow> (int \<Rightarrow> int \<times> int) \<Rightarrow> int \<Rightarrow> event_insert_t \<Rightarrow> 'h StoreLevelDB \<times> 'd \<Rightarrow>
     int \<times> 'h StoreLevelDB \<times> 'd" where
  "ldb_insert_ev_stat api localtime now st sd =
     (if ins_service st = [] \<or> ins_metric st = [] \<or> ins_timestamp st = 0 then (-1, sd)
      else
        let tag = (if ins_tag st = [] then ''T'' else ins_tag st)
        in case get_leveldb_handler api localtime now (ins_service st) sd of
             (None, sd') \<Rightarrow> (-1, sd')
           | (Some h, s, d) \<Rightarrow>
               (case DB_Put api h (row_key (ins_metric st) (ins_timestamp st) tag (ins_entity_idx st))
                       (layout_bytes (layout_to_net_endian (layout_of_stat st))) d of
                  (ok, d') \<Rightarrow> (if ok then 0 else -1, s, d')))"

section \<open>Selection\<close>

text \<open>The loop \<open>for (it->Seek(...); it->Valid(); it->Next())\<close> with the break at \<open>t_lower\<close>.\<close>

partial_function (option) scan ::
    "('h, 'd) leveldb_api \<Rightarrow> 'h \<Rightarrow> 'd \<Rightarrow> string \<Rightarrow> (string \<Rightarrow> string \<Rightarrow> 's \<Rightarrow> 's) \<Rightarrow>
     (string \<times> string) option \<Rightarrow> 's \<Rightarrow> 's option" where
  "scan api h d t_lower body pos st =
     (case pos of
        None \<Rightarrow> Some st
      | Some (k, v) \<Rightarrow>
          if k > t_lower then Some st
          else scan api h d t_lower body (It_Next api h d k) (body k v st))"

text \<open>What the three loops do with one entry before they use it; \<open>None\<close> is \<open>continue\<close>.\<close>

definition parse_key :: "string \<Rightarrow> (string \<times> string \<times> string \<times> string) option" where
  "parse_key k =
     (case split_on CHR ''#'' k of
        [m, t, tag, e] \<Rightarrow> if m = [] \<or> t = [] \<or> tag = [] then None else Some (m, t, tag, e)
      | _ \<Rightarrow> None)"

definition item_of_layout :: "leveldb_internal_layout_t \<Rightarrow> event_info_t" where
  "item_of_layout data =
     zero_info\<lparr>ei_count := sint (l_count data), ei_value_sum := sint (l_sum data),
               ei_value_avg := sint (l_avg data), ei_value_min := sint (l_min data),
               ei_value_max := sint (l_max data), ei_value_p10 := sint (l_p10 data),
               ei_value_p50 := sint (l_p50 data), ei_value_p90 := sint (l_p90 data)\<rparr>"

definition read_entry :: "event_cond_t \<Rightarrow> string \<Rightarrow> string \<Rightarrow> (string \<times> string \<times> event_info_t) option" where
  "read_entry cond k v =
     (case parse_key k of
        None \<Rightarrow> None
      | Some (m, t, tag, e) \<Rightarrow>
          if ec_tag cond \<noteq> [] \<and> tag \<noteq> ec_tag cond then None
          else if ec_entity_idx cond \<noteq> [] \<and> e \<noteq> ec_entity_idx cond then None
          else if length v \<noteq> sizeof_layout \<or> v ! 0 \<noteq> CHR ''D'' then None
          else Some (t, tag, item_of_layout (layout_from_net_endian (layout_of_bytes v))))"

text \<open>Adding an item to a running total, and closing a total.\<close>

definition start_total :: event_info_t where
  "start_total = zero_info\<lparr>ei_value_min := INT32_MAX, ei_value_max := INT32_MIN\<rparr>"

definition add_item :: "event_info_t \<Rightarrow> event_info_t \<Rightarrow> event_info_t" where
  "add_item item tot =
     tot\<lparr>ei_count := to_i32 (ei_count tot + ei_count item),
         ei_value_sum := to_i64 (ei_value_sum tot + ei_value_sum item),
         ei_value_p10 := to_i32 (ei_value_p10 tot + ei_value_p10 item),
         ei_value_p50 := to_i32 (ei_value_p50 tot + ei_value_p50 item),
         ei_value_p90 := to_i32 (ei_value_p90 tot + ei_value_p90 item),
         ei_value_min := (if ei_value_min item < ei_value_min tot then ei_value_min item else ei_value_min tot),
         ei_value_max := (if ei_value_max item > ei_value_max tot then ei_value_max item else ei_value_max tot)\<rparr>"

definition close_summary :: "int \<Rightarrow> event_info_t \<Rightarrow> event_info_t" where
  "close_summary iterat_count s =
     (if ei_count s \<noteq> 0 \<and> iterat_count \<noteq> 0
      then s\<lparr>ei_value_avg := to_i32 (ei_value_sum s sdiv ei_count s),
             ei_value_p10 := ei_value_p10 s sdiv iterat_count,
             ei_value_p50 := ei_value_p50 s sdiv iterat_count,
             ei_value_p90 := ei_value_p90 s sdiv iterat_count\<rparr>
      else s\<lparr>ei_value_min := 0, ei_value_max := 0\<rparr>)"

text \<open>Here the divisor is \<open>iter->second.size()\<close>, a \<open>size_t\<close>: the dividend is converted to unsigned.\<close>

definition close_collect :: "nat \<Rightarrow> event_info_t \<Rightarrow> event_info_t" where
  "close_collect sz c =
     (if ei_count c > 0
      then c\<lparr>ei_value_avg := to_i32 (ei_value_sum c sdiv ei_count c),
             ei_value_p10 := to_i32 (to_u64 (ei_value_p10 c) div int sz),
             ei_value_p50 := to_i32 (to_u64 (ei_value_p50 c) div int sz),
             ei_value_p90 := to_i32 (to_u64 (ei_value_p90 c) div int sz)\<rparr>
      else c\<lparr>ei_value_min := 0, ei_value_max := 0\<rparr>)"

definition t_upper :: "event_cond_t \<Rightarrow> event_select_t \<Rightarrow> string" where
  "t_upper cond st = ec_metric cond @ ''#'' @ timestamp_exchange_str (es_timestamp st)"

definition t_lower :: "event_cond_t \<Rightarrow> event_select_t \<Rightarrow> string" where
  "t_lower cond st =
     (if es_tm_interval st > 0
      then ec_metric cond @ ''#'' @ timestamp_exchange_str (es_timestamp st - ec_tm_interval cond)
      else ec_metric cond @ ''$'')"

definition push_group :: "'k::linorder \<Rightarrow> event_info_t \<Rightarrow> ('k, event_info_t list) omap \<Rightarrow> ('k, event_info_t list) omap" where
  "push_group k item m =
     om_upd k ((case om_find m k of None \<Rightarrow> [] | Some xs \<Rightarrow> xs) @ [item]) m"

definition ts_body ::
    "event_cond_t \<Rightarrow> string \<Rightarrow> string \<Rightarrow> (int, event_info_t list) omap \<times> event_info_t \<times> int \<Rightarrow>
     (int, event_info_t list) omap \<times> event_info_t \<times> int" where
  "ts_body cond k v acc =
     (case acc of
        (groups, summary, n) \<Rightarrow>
          (case read_entry cond k v of
             None \<Rightarrow> acc
           | Some (t, tag, item0) \<Rightarrow>
               let item = item0\<lparr>ei_timestamp := timestamp_exchange (atoll t)\<rparr>
               in (push_group (ei_timestamp item) item groups, add_item item summary, to_i32 (n + 1))))"

definition tag_body ::
    "event_cond_t \<Rightarrow> string \<Rightarrow> string \<Rightarrow> (string, event_info_t list) omap \<times> event_info_t \<times> int \<Rightarrow>
     (string, event_info_t list) omap \<times> event_info_t \<times> int" where
  "tag_body cond k v acc =
     (case acc of
        (groups, summary, n) \<Rightarrow>
          (case read_entry cond k v of
             None \<Rightarrow> acc
           | Some (t, tag, item0) \<Rightarrow>
               let item = item0\<lparr>ei_tag := tag\<rparr>
               in (push_group tag item groups, add_item item summary, to_i32 (n + 1))))"

definition none_body :: "event_cond_t \<Rightarrow> string \<Rightarrow> string \<Rightarrow> event_info_t \<times> int \<Rightarrow> event_info_t \<times> int" where
  "none_body cond k v acc =
     (case acc of
        (summary, n) \<Rightarrow>
          (case read_entry cond k v of
             None \<Rightarrow> acc
           | Some (t, tag, item) \<Rightarrow> (add_item item summary, to_i32 (n + 1))))"

definition collect_ts :: "int \<times> event_info_t list \<Rightarrow> event_info_t" where
  "collect_ts g = close_collect (length (snd g)) (fold add_item (snd g) (start_total\<lparr>ei_timestamp := fst g\<rparr>))"

definition collect_tag :: "string \<times> event_info_t list \<Rightarrow> event_info_t" where
  "collect_tag g = close_collect (length (snd g)) (fold add_item (snd g) (start_total\<lparr>ei_tag := fst g\<rparr>))"

text \<open>The three selections, given the open handle: the iteration, then the closing of the totals.\<close>

definition select_ev_stat_by_timestamp ::
    "('h, 'd) leveldb_api \<Rightarrow> 'h \<Rightarrow> 'd \<Rightarrow> event_cond_t \<Rightarrow> event_select_t \<Rightarrow> event_select_t option" where
  "select_ev_stat_by_timestamp api h d cond st =
     (case scan api h d (t_lower cond st) (ts_body cond) (It_Seek api h d (t_upper cond st)) ([], start_total, 0) of
        None \<Rightarrow> None
      | Some (groups, summary, n) \<Rightarrow>
          Some (st\<lparr>es_info := es_info st @ map collect_ts groups, es_summary := close_summary n summary\<rparr>))"

definition select_ev_stat_by_tag ::
    "('h, 'd) leveldb_api \<Rightarrow> 'h \<Rightarrow> 'd \<Rightarrow> event_cond_t \<Rightarrow> event_select_t \<Rightarrow> event_select_t option" where
  "select_ev_stat_by_tag api h d cond st =
     (case scan api h d (t_lower cond st) (tag_body cond) (It_Seek api h d (t_upper cond st)) ([], start_total, 0) of
        None \<Rightarrow> None
      | Some (groups, summary, n) \<Rightarrow>
          Some (st\<lparr>es_info := es_info st @ map collect_tag groups, es_summary := close_summary n summary\<rparr>))"

definition select_ev_stat_by_none ::
    "('h, 'd) leveldb_api \<Rightarrow> 'h \<Rightarrow> 'd \<Rightarrow> event_cond_t \<Rightarrow> event_select_t \<Rightarrow> event_select_t option" where
  "select_ev_stat_by_none api h d cond st =
     (case scan api h d (t_lower cond st) (none_body cond) (It_Seek api h d (t_upper cond st)) (start_total, 0) of
        None \<Rightarrow> None
      | Some (summary, n) \<Rightarrow> Some (st\<lparr>es_summary := close_summary n summary\<rparr>))"

text \<open>\<open>stat.info.size() > cond.limit\<close> compares as \<open>size_t\<close>.\<close>

definition sort_and_limit :: "event_cond_t \<Rightarrow> event_select_t \<Rightarrow> event_select_t option" where
  "sort_and_limit cond st =
     (if ec_orderby cond = kOrderByNone \<or> ec_limit cond = 0 then Some st
      else if es_info st = [] then Some st
      else
        (case do_sort (es_info st) (ec_orderby cond) (ec_orders cond) of
           None \<Rightarrow> None
         | Some info \<Rightarrow>
             Some (st\<lparr>es_info := (if int (length info) > to_u64 (ec_limit cond)
                                  then take (nat (ec_limit cond)) info else info)\<rparr>)))"

definition query_head :: "int \<Rightarrow> event_cond_t \<Rightarrow> int \<Rightarrow> event_select_t \<Rightarrow> event_select_t" where
  "query_head now cond linger_hint st =
     st\<lparr>es_timestamp := (if ec_tm_start cond > 0 then min (now - linger_hint) (ec_tm_start cond)
                         else now - linger_hint),
        es_service := ec_service cond, es_tm_interval := ec_tm_interval cond, es_metric := ec_metric cond,
        es_entity_idx := ec_entity_idx cond, es_tag := ec_tag cond\<rparr>"

definition ldb_select_ev_stat ::
    "('h, 'd) leveldb_api \<Rightarrow> (int \<Rightarrow> int \<times> int) \<Rightarrow> int \<Rightarrow> event_cond_t \<Rightarrow> int \<Rightarrow> event_select_t \<Rightarrow>
     'h StoreLevelDB \<times> 'd \<Rightarrow> (int \<times> event_select_t \<times> 'h StoreLevelDB \<times> 'd) option" where
  "ldb_select_ev_stat api localtime now cond linger_hint st0 sd =
     (if ec_service cond = [] then Some (-1, st0, sd)
      else
        let st = query_head now cond linger_hint st0
        in case get_leveldb_handler api localtime now (ec_service cond) sd of
             (None, sd') \<Rightarrow>
               (case (if ec_groupby cond = kGroupNone then Some st else sort_and_limit cond st) of
                  None \<Rightarrow> None | Some st' \<Rightarrow> Some (-1, st', sd'))
           | (Some h, s, d) \<Rightarrow>
               (case (case ec_groupby cond of
                        kGroupbyTimestamp \<Rightarrow>
                          Option.bind (select_ev_stat_by_timestamp api h d cond st) (sort_and_limit cond)
                      | kGroupbyTag \<Rightarrow>
                          Option.bind (select_ev_stat_by_tag api h d cond st) (sort_and_limit cond)
                      | kGroupNone \<Rightarrow> select_ev_stat_by_none api h d cond st) of
                  None \<Rightarrow> None
                | Some st' \<Rightarrow> Some (0, st', s, d)))"

section \<open>Metrics and services\<close>

partial_function (option) metrics_loop ::
    "('h, 'd) leveldb_api \<Rightarrow> 'h \<Rightarrow> 'd \<Rightarrow> (string \<times> string) option \<Rightarrow> string \<Rightarrow> string list \<Rightarrow> string list option" where
  "metrics_loop api h d pos cached found =
     (case pos of
        None \<Rightarrow> Some found
      | Some (k, v) \<Rightarrow>
          (case parse_key k of
             None \<Rightarrow> metrics_loop api h d (It_Next api h d k) cached found
           | Some (m, t, tag, e) \<Rightarrow>
               metrics_loop api h d (It_Seek api h d (m @ ''$'')) m
                 (if cached \<noteq> m then os_insert m found else found)))"

definition ldb_select_metrics ::
    "('h, 'd) leveldb_api \<Rightarrow> (int \<Rightarrow> int \<times> int) \<Rightarrow> int \<Rightarrow> string \<Rightarrow> string list \<Rightarrow> 'h StoreLevelDB \<times> 'd \<Rightarrow>
     (int \<times> string list \<times> 'h StoreLevelDB \<times> 'd) option" where
  "ldb_select_metrics api localtime now service metrics sd =
     (if service = [] then Some (-1, metrics, sd)
      else
        (case get_leveldb_handler api localtime now service sd of
           (None, sd') \<Rightarrow> Some (-1, metrics, sd')
         | (Some h, s, d) \<Rightarrow>
             (case metrics_loop api h d (It_SeekToFirst api h d) '''' [] of
                None \<Rightarrow> None
              | Some found \<Rightarrow> Some (0, found, s, d))))"

text \<open>
  \<open>select_services\<close>: \<open>dir\<close> is the listing of \<open>filepath\<close> (\<open>None\<close> when \<open>opendir\<close> fails), each name with whether
  \<open>stat\<close> says it is a directory.
\<close>

definition service_of_table :: "string \<Rightarrow> string \<Rightarrow> string option" where
  "service_of_table pfx t_name =
     (if length t_name > length pfx + 2 + 15
      then (let rest = drop (length pfx + 2) t_name in Some (take (length rest - 15) rest))
      else None)"

definition ldb_select_services ::
    "(string \<times> bool) list option \<Rightarrow> string list \<Rightarrow> 'h StoreLevelDB \<Rightarrow> int \<times> string list" where
  "ldb_select_services dir services s =
     (case dir of
        None \<Rightarrow> (-1, services)
      | Some listing \<Rightarrow>
          let files = map fst (filter (\<lambda>(name, isdir). take 1 name \<noteq> ''.'' \<and> isdir \<and>
                                        take (length (table_prefix s)) name = table_prefix s) listing)
          in (0, List.map_filter (service_of_table (table_prefix s)) files))"

end
