(* ===== verification/Totals.thy ===== *)
theory Totals
  imports StoreLevelDB
begin

text \<open>
  The totals of \<open>source/Business/StoreLevelDB.cpp\<close> and \<open>source/Business/StoreSql.cpp\<close> in closed form. Both stores
  add the rows of a query one by one to a running total and close it with divisions; here a total is
  written without the loop, as wrapped sums, least and greatest elements and quotients, and shown equal to
  what the loops compute.
\<close>

section \<open>Running totals\<close>

lemma Min_insert2_step:
  "finite A \<Longrightarrow> Min (insert (if (a::int) < b then a else b) A) = Min (insert b (insert a A))"
  by (cases "A = {}") (auto simp: min_def)

lemma Max_insert2_step:
  "finite A \<Longrightarrow> Max (insert (if (b::int) < a then a else b) A) = Max (insert b (insert a A))"
  by (cases "A = {}") (auto simp: max_def)

text \<open>The running totals in closed form.\<close>

lemma fold_add_item_sums:
  assumes "is_i32 (ei_count tot)" "is_i64 (ei_value_sum tot)" "is_i32 (ei_value_p10 tot)"
    "is_i32 (ei_value_p50 tot)" "is_i32 (ei_value_p90 tot)"
  shows "fold add_item xs tot =
    tot\<lparr>ei_count := to_i32 (ei_count tot + sum_list (map ei_count xs)),
        ei_value_sum := to_i64 (ei_value_sum tot + sum_list (map ei_value_sum xs)),
        ei_value_p10 := to_i32 (ei_value_p10 tot + sum_list (map ei_value_p10 xs)),
        ei_value_p50 := to_i32 (ei_value_p50 tot + sum_list (map ei_value_p50 xs)),
        ei_value_p90 := to_i32 (ei_value_p90 tot + sum_list (map ei_value_p90 xs)),
        ei_value_min := Min (insert (ei_value_min tot) (set (map ei_value_min xs))),
        ei_value_max := Max (insert (ei_value_max tot) (set (map ei_value_max xs)))\<rparr>"
  using assms
proof (induction xs arbitrary: tot)
  case Nil
  then show ?case by (simp add: to_i32_id to_i64_id)
next
  case (Cons x xs)
  have "fold add_item (x # xs) tot = fold add_item xs (add_item x tot)" by simp
  also have "\<dots> = (add_item x tot)\<lparr>
      ei_count := to_i32 (ei_count (add_item x tot) + sum_list (map ei_count xs)),
      ei_value_sum := to_i64 (ei_value_sum (add_item x tot) + sum_list (map ei_value_sum xs)),
      ei_value_p10 := to_i32 (ei_value_p10 (add_item x tot) + sum_list (map ei_value_p10 xs)),
      ei_value_p50 := to_i32 (ei_value_p50 (add_item x tot) + sum_list (map ei_value_p50 xs)),
      ei_value_p90 := to_i32 (ei_value_p90 (add_item x tot) + sum_list (map ei_value_p90 xs)),
      ei_value_min := Min (insert (ei_value_min (add_item x tot)) (set (map ei_value_min xs))),
      ei_value_max := Max (insert (ei_value_max (add_item x tot)) (set (map ei_value_max xs)))\<rparr>"
    by (rule Cons.IH) (simp_all add: add_item_def to_i32_range to_i64_range)
  also have "\<dots> = tot\<lparr>
      ei_count := to_i32 (ei_count tot + sum_list (map ei_count (x # xs))),
      ei_value_sum := to_i64 (ei_value_sum tot + sum_list (map ei_value_sum (x # xs))),
      ei_value_p10 := to_i32 (ei_value_p10 tot + sum_list (map ei_value_p10 (x # xs))),
      ei_value_p50 := to_i32 (ei_value_p50 tot + sum_list (map ei_value_p50 (x # xs))),
      ei_value_p90 := to_i32 (ei_value_p90 tot + sum_list (map ei_value_p90 (x # xs))),
      ei_value_min := Min (insert (ei_value_min tot) (set (map ei_value_min (x # xs)))),
      ei_value_max := Max (insert (ei_value_max tot) (set (map ei_value_max (x # xs))))\<rparr>"
    by (simp add: add_item_def to_i32_add to_i64_add add.assoc Min_insert2_step Max_insert2_step)
  finally show ?case .
qed

text \<open>What a query's summary should say, when nothing overflows.\<close>

definition summary_of :: "event_info_t list \<Rightarrow> event_info_t" where
  "summary_of xs =
     \<lparr>ei_timestamp = 0, ei_tag = [], ei_count = sum_list (map ei_count xs),
      ei_value_sum = sum_list (map ei_value_sum xs),
      ei_value_avg = to_i32 (sum_list (map ei_value_sum xs) sdiv sum_list (map ei_count xs)),
      ei_value_min = Min (set (map ei_value_min xs)), ei_value_max = Max (set (map ei_value_max xs)),
      ei_value_p10 = sum_list (map ei_value_p10 xs) div int (length xs),
      ei_value_p50 = sum_list (map ei_value_p50 xs) div int (length xs),
      ei_value_p90 = sum_list (map ei_value_p90 xs) div int (length xs)\<rparr>"

definition in_range :: "event_info_t list \<Rightarrow> bool" where
  "in_range xs \<longleftrightarrow>
     0 < sum_list (map ei_count xs) \<and> is_i32 (sum_list (map ei_count xs)) \<and> is_i64 (sum_list (map ei_value_sum xs)) \<and>
     (\<forall>f\<in>{ei_value_p10, ei_value_p50, ei_value_p90}. 0 \<le> sum_list (map f xs) \<and> is_i32 (sum_list (map f xs)))"

lemma Min_from_top: "xs \<noteq> [] \<Longrightarrow> \<forall>x\<in>set xs. is_i32 (f x) \<Longrightarrow> Min (insert INT32_MAX (f ` set xs)) = Min (f ` set xs)"
proof -
  assume xs: "xs \<noteq> []" "\<forall>x\<in>set xs. is_i32 (f x)"
  then have "Min (f ` set xs) \<in> f ` set xs" by (intro Min_in) simp_all
  then obtain x where x: "Min (f ` set xs) = f x" "x \<in> set xs" by (rule imageE)
  with xs(2) have "f x \<le> INT32_MAX" by (auto simp: is_i32_def INT32_MAX_def)
  with x(1) have "Min (f ` set xs) \<le> INT32_MAX" by (simp only:)
  with xs show ?thesis by (simp add: min_absorb2)
qed

lemma Max_from_bottom: "xs \<noteq> [] \<Longrightarrow> \<forall>x\<in>set xs. is_i32 (f x) \<Longrightarrow> Max (insert INT32_MIN (f ` set xs)) = Max (f ` set xs)"
proof -
  assume xs: "xs \<noteq> []" "\<forall>x\<in>set xs. is_i32 (f x)"
  then have "Max (f ` set xs) \<in> f ` set xs" by (intro Max_in) simp_all
  then obtain x where x: "Max (f ` set xs) = f x" "x \<in> set xs" by (rule imageE)
  with xs(2) have "INT32_MIN \<le> f x" by (auto simp: is_i32_def INT32_MIN_def)
  with x(1) have "INT32_MIN \<le> Max (f ` set xs)" by (simp only:)
  with xs show ?thesis by (simp add: max_absorb2)
qed

lemma mean_in_range:
  assumes "0 \<le> s" "is_i32 s" "n \<noteq> 0"
  shows "to_i32 (to_u64 s div int n) = s div int n"
proof -
  have "s div int n \<le> s" "0 \<le> s div int n"
    using assms(1,3) zdiv_mono2 [of s 1 "int n"] by (simp_all add: pos_imp_zdiv_nonneg_iff)
  with assms show ?thesis by (simp add: to_u64_id to_i32_id is_i32_def)
qed

section \<open>Closed totals\<close>

text \<open>
  What the LevelDB store reports for rows \<open>xs\<close>: the summary of a query, and a detail line of a group. The two
  differ in the division of the percentile sums, signed in the one and unsigned in the other, and in a
  total count that has wrapped to a negative number.
\<close>

definition wrapped_sums :: "event_info_t list \<Rightarrow> event_info_t" where
  "wrapped_sums xs =
     \<lparr>ei_timestamp = 0, ei_tag = [], ei_count = to_i32 (sum_list (map ei_count xs)),
      ei_value_sum = to_i64 (sum_list (map ei_value_sum xs)), ei_value_avg = 0, ei_value_min = 0, ei_value_max = 0,
      ei_value_p10 = to_i32 (sum_list (map ei_value_p10 xs)),
      ei_value_p50 = to_i32 (sum_list (map ei_value_p50 xs)),
      ei_value_p90 = to_i32 (sum_list (map ei_value_p90 xs))\<rparr>"

definition with_means :: "(int \<Rightarrow> int) \<Rightarrow> event_info_t list \<Rightarrow> event_info_t \<Rightarrow> event_info_t" where
  "with_means mean xs s =
     s\<lparr>ei_value_avg := to_i32 (ei_value_sum s sdiv ei_count s),
       ei_value_min := Min (ei_value_min ` set xs), ei_value_max := Max (ei_value_max ` set xs),
       ei_value_p10 := mean (ei_value_p10 s), ei_value_p50 := mean (ei_value_p50 s),
       ei_value_p90 := mean (ei_value_p90 s)\<rparr>"

definition summary_total :: "event_info_t list \<Rightarrow> event_info_t" where
  "summary_total xs =
     (let s = wrapped_sums xs; n = to_i32 (int (length xs))
      in if ei_count s \<noteq> 0 \<and> n \<noteq> 0 then with_means (\<lambda>p. p sdiv n) xs s else s)"

definition group_total :: "event_info_t list \<Rightarrow> event_info_t" where
  "group_total xs =
     (let s = wrapped_sums xs
      in if ei_count s > 0 then with_means (\<lambda>p. to_i32 (to_u64 p div int (length xs))) xs s else s)"

definition info_fits :: "event_info_t \<Rightarrow> bool" where
  "info_fits x \<longleftrightarrow> is_i32 (ei_value_min x) \<and> is_i32 (ei_value_max x)"

lemma fold_start_total:
  assumes "xs \<noteq> []" "\<forall>x\<in>set xs. info_fits x"
  shows "fold add_item xs start_total =
    (wrapped_sums xs)\<lparr>ei_value_min := Min (ei_value_min ` set xs), ei_value_max := Max (ei_value_max ` set xs)\<rparr>"
proof -
  have "Min (insert INT32_MAX (ei_value_min ` set xs)) = Min (ei_value_min ` set xs)"
    "Max (insert INT32_MIN (ei_value_max ` set xs)) = Max (ei_value_max ` set xs)"
    using assms by (intro Min_from_top Max_from_bottom; simp add: info_fits_def)+
  then show ?thesis
    by (subst fold_add_item_sums)
      (simp_all add: start_total_def zero_info_def wrapped_sums_def is_i32_def is_i64_def)
qed

lemma wrapped_sums_Nil: "wrapped_sums [] = zero_info"
  by (simp add: wrapped_sums_def zero_info_def to_i32_id to_i64_id is_i32_def is_i64_def)

lemma summary_total_eq:
  assumes "\<forall>x\<in>set xs. info_fits x"
  shows "close_summary (to_i32 (int (length xs))) (fold add_item xs start_total) = summary_total xs"
proof (cases "xs = []")
  case True
  then show ?thesis
    by (simp add: close_summary_def summary_total_def wrapped_sums_Nil start_total_def zero_info_def Let_def)
next
  case False
  from fold_start_total [OF this assms] show ?thesis
    by (simp add: close_summary_def summary_total_def with_means_def Let_def) (simp add: wrapped_sums_def)
qed

lemma add_item_fold_frame:
  "fold add_item xs (tot\<lparr>ei_timestamp := t\<rparr>) = (fold add_item xs tot)\<lparr>ei_timestamp := t\<rparr>"
  "fold add_item xs (tot\<lparr>ei_tag := g\<rparr>) = (fold add_item xs tot)\<lparr>ei_tag := g\<rparr>"
proof -
  have "add_item x (tot\<lparr>ei_timestamp := t\<rparr>) = (add_item x tot)\<lparr>ei_timestamp := t\<rparr>"
    "add_item x (tot\<lparr>ei_tag := g\<rparr>) = (add_item x tot)\<lparr>ei_tag := g\<rparr>" for x tot
    by (simp_all add: add_item_def)
  then show "fold add_item xs (tot\<lparr>ei_timestamp := t\<rparr>) = (fold add_item xs tot)\<lparr>ei_timestamp := t\<rparr>"
    "fold add_item xs (tot\<lparr>ei_tag := g\<rparr>) = (fold add_item xs tot)\<lparr>ei_tag := g\<rparr>"
    by (induction xs arbitrary: tot) simp_all
qed

lemma close_collect_frame:
  "close_collect n (c\<lparr>ei_timestamp := t\<rparr>) = (close_collect n c)\<lparr>ei_timestamp := t\<rparr>"
  "close_collect n (c\<lparr>ei_tag := g\<rparr>) = (close_collect n c)\<lparr>ei_tag := g\<rparr>"
  by (simp_all add: close_collect_def)

lemma group_total_eq:
  assumes "\<forall>x\<in>set xs. info_fits x"
  shows "close_collect (length xs) (fold add_item xs start_total) = group_total xs"
proof (cases "xs = []")
  case True
  then show ?thesis
    by (simp add: close_collect_def group_total_def wrapped_sums_Nil start_total_def zero_info_def Let_def)
next
  case False
  from fold_start_total [OF this assms] show ?thesis
    by (simp add: close_collect_def group_total_def with_means_def Let_def) (simp add: wrapped_sums_def)
qed

lemma collect_total_eq:
  assumes "\<forall>x\<in>set xs. info_fits x"
  shows "collect_ts (t, xs) = (group_total xs)\<lparr>ei_timestamp := t\<rparr>"
    and "collect_tag (g, xs) = (group_total xs)\<lparr>ei_tag := g\<rparr>"
  using group_total_eq [OF assms]
  by (simp_all add: collect_ts_def collect_tag_def add_item_fold_frame close_collect_frame)

text \<open>Without overflow and with non-negative percentiles both are the summary one expects.\<close>

lemma totals_in_range:
  assumes "in_range xs" "is_i32 (int (length xs))"
  shows "summary_total xs = summary_of xs" "group_total xs = summary_of xs"
proof -
  have "xs \<noteq> []" using assms(1) by (auto simp: in_range_def)
  moreover have "s sdiv int (length xs) = s div int (length xs)" if "0 \<le> s" for s
    using that by (simp add: signed_divide_int_def sgn_if)
  ultimately show "summary_total xs = summary_of xs" "group_total xs = summary_of xs"
    using assms
    by (simp_all add: summary_total_def group_total_def with_means_def wrapped_sums_def summary_of_def in_range_def
        to_i32_id to_i64_id mean_in_range Let_def)
qed

end
