(* ===== verification/LevelDBQuery.thy ===== *)
theory LevelDBQuery
  imports Totals
begin

text \<open>
  What the store of \<open>source/Business/StoreLevelDB.cpp\<close> answers: the byte order of its keys is the order of
  time within a metric, a range query meets exactly the rows of its interval, the skipping scan for
  metrics finds every metric, and a stored row reads back as it was written.
\<close>

section \<open>The order of keys\<close>

lemma append_less_same [simp]: "(m @ s < m @ t) = (s < (t :: 'a::linorder list))"
  by (induction m) auto

lemma append_le_same [simp]: "(m @ s \<le> m @ t) = (s \<le> (t :: 'a::linorder list))"
  by (induction m) auto

lemma append_le_equal_length:
  "length a = length b \<Longrightarrow> (b \<le> a @ x) = (b \<le> (a :: 'a::linorder list))"
  "length a = length b \<Longrightarrow> (a @ x \<le> b) = (a < b \<or> a = b \<and> x = [])"
  by (induction a b rule: list_induct2) auto

lemma prefix_between:
  assumes "m @ [CHR ''#''] \<le> k" "k < m @ [CHR ''$'']"
  shows "\<exists>r. k = m @ CHR ''#'' # r"
  using assms
proof (induction m arbitrary: k)
  case Nil
  then obtain c r where k: "k = c # r" by (cases k) auto
  with Nil have "(35::nat) \<le> of_char c" "of_char c < (36::nat)" by (auto simp: less_char_def)
  then have "of_char c = (of_char CHR ''#'' :: nat)" by simp
  then have "c = CHR ''#''" by (simp only: of_char_eq_iff)
  with k show ?case by simp
next
  case (Cons a m)
  then obtain c r where k: "k = c # r" by (cases k) auto
  with Cons show ?case by auto
qed

text \<open>Decimal numbers of the same length compare as strings like their values.\<close>

lemma digits_val_Cons: "digits_val (c # s) = (of_char c - 48) * 10 ^ length s + digits_val s"
  by (induction s rule: rev_induct) (simp_all add: digits_val_def flip: append_Cons)

lemma digits_val_bound: "(\<And>c. c \<in> set s \<Longrightarrow> is_digit c) \<Longrightarrow> digits_val s < 10 ^ length s"
proof (induction s)
  case (Cons c s)
  have "is_digit c" using Cons.prems [of c] by simp
  then have "of_char c - 48 \<le> (9::nat)" unfolding is_digit_def by linarith
  then have "(of_char c - 48) * 10 ^ length s \<le> (9::nat) * 10 ^ length s" by (rule mult_le_mono1)
  moreover have "digits_val s < 10 ^ length s" using Cons by simp
  ultimately show ?case by (simp only: digits_val_Cons length_Cons power_Suc)
qed (simp add: digits_val_def)

lemma digits_less:
  assumes "length s = length t" "s < t"
    and "\<And>c. c \<in> set s \<Longrightarrow> is_digit c" "\<And>c. c \<in> set t \<Longrightarrow> is_digit c"
  shows "digits_val s < digits_val t"
  using assms
proof (induction s t rule: list_induct2)
  case (Cons c s d t)
  show ?case
  proof (cases "c = d")
    case True
    with Cons show ?thesis by (simp add: digits_val_Cons)
  next
    case False
    with Cons.prems(1) have "(of_char c :: nat) < of_char d" by (simp add: less_char_def)
    moreover have "48 \<le> (of_char c :: nat)" using Cons.prems(2) [of c] by (simp add: is_digit_def)
    ultimately have "(of_char c - 48 :: nat) + 1 \<le> of_char d - 48" by simp
    then have "((of_char c - 48 :: nat) + 1) * 10 ^ length s \<le> (of_char d - 48) * 10 ^ length s"
      by (rule mult_le_mono1)
    moreover have "digits_val s < 10 ^ length s" using Cons.prems(2) by (intro digits_val_bound) simp
    ultimately show ?thesis using Cons.hyps by (simp add: digits_val_Cons)
  qed
qed simp

lemma dec_nat_less:
  assumes "length (dec_nat a) = length (dec_nat b)"
  shows "dec_nat a < dec_nat b \<longleftrightarrow> a < b"
proof -
  have "dec_nat x < dec_nat y \<Longrightarrow> x < y" if "length (dec_nat x) = length (dec_nat y)" for x y
    using digits_less [OF that] dec_nat_digits by (simp add: digits_val_dec_nat)
  note less = this [OF assms] this [OF assms [symmetric]]
  show ?thesis
  proof (cases "dec_nat a" "dec_nat b" rule: linorder_cases)
    case greater
    with less(2) show ?thesis by simp
  qed (use less(1) in simp_all)
qed

lemma length_dec_nat: "10 ^ k \<le> n \<Longrightarrow> n < 10 ^ Suc k \<Longrightarrow> length (dec_nat n) = Suc k"
proof (induction k arbitrary: n)
  case 0
  then show ?case by (simp add: dec_nat.simps [of n])
next
  case (Suc k)
  then have "10 ^ k \<le> n div 10" "n div 10 < 10 ^ Suc k" "\<not> n < 10"
    by (simp_all add: less_eq_div_iff_mult_less_eq div_less_iff_less_mult)
      (metis less_le_trans power_Suc one_le_numeral one_le_power mult_le_mono2 nat_mult_1_right not_less)
  with Suc.IH [of "n div 10"] show ?case by (simp add: dec_nat.simps [of n])
qed

text \<open>The times whose count-down has ten digits: from 1970 to 2255.\<close>

definition good_time :: "int \<Rightarrow> bool" where
  "good_time t \<longleftrightarrow> 0 \<le> t \<and> t \<le> 8999999999"

definition countdown :: "int \<Rightarrow> string" where
  "countdown t = dec_nat (nat (9999999999 - t))"

lemma length_countdown: "good_time t \<Longrightarrow> length (countdown t) = 10"
  unfolding countdown_def using length_dec_nat [of 9 "nat (9999999999 - t)"]
  by (simp add: good_time_def le_nat_iff nat_less_iff)

lemma countdown_less: "good_time t \<Longrightarrow> good_time u \<Longrightarrow> countdown t < countdown u \<longleftrightarrow> u < t"
  using dec_nat_less [of "nat (9999999999 - t)" "nat (9999999999 - u)"] length_countdown [of t] length_countdown [of u]
  by (simp add: countdown_def good_time_def)

lemma countdown_le: "good_time t \<Longrightarrow> good_time u \<Longrightarrow> countdown t \<le> countdown u \<longleftrightarrow> u \<le> t"
  using countdown_less [of u t] by (simp add: not_less [symmetric])

lemma timestamp_exchange_str_countdown: "good_time t \<Longrightarrow> timestamp_exchange_str t = countdown t"
  by (simp add: timestamp_exchange_str_def countdown_def dec_int_def good_time_def)

lemma atoll_countdown: "good_time t \<Longrightarrow> timestamp_exchange (atoll (countdown t)) = t"
  by (simp add: countdown_def atoll_dec_nat timestamp_exchange_def good_time_def)

lemma countdown_no_sep [simp]: "CHR ''#'' \<notin> set (countdown t)"
  by (simp add: countdown_def)

lemma countdown_nonempty [simp]: "countdown t \<noteq> []"
  by (simp add: countdown_def)

section \<open>What the code relies on in LevelDB\<close>

text \<open>
  The documented behaviour of a database \<open>h\<close> with the contents \<open>contents h d\<close>: entries are in ascending
  key order, \<open>Seek\<close> stands on the first key not below its target, \<open>Next\<close> on the first key above the
  current one, a successful \<open>Put\<close> sets one key and a failed one nothing.
\<close>

definition leveldb_ok :: "('h, 'd) leveldb_api \<Rightarrow> ('h \<Rightarrow> 'd \<Rightarrow> (string, string) omap) \<Rightarrow> bool" where
  "leveldb_ok api contents \<longleftrightarrow>
     (\<forall>h d. om_wf (contents h d)) \<and>
     (\<forall>h d k. It_Seek api h d k = List.find (\<lambda>e. k \<le> fst e) (contents h d)) \<and>
     (\<forall>h d. It_SeekToFirst api h d = List.find (\<lambda>e. True) (contents h d)) \<and>
     (\<forall>h d k. It_Next api h d k = List.find (\<lambda>e. k < fst e) (contents h d)) \<and>
     (\<forall>h k v d. contents h (snd (DB_Put api h k v d)) =
        (if fst (DB_Put api h k v d) then om_upd k v (contents h d) else contents h d))"

text \<open>An instance: a log of the writes, whose contents are the writes replayed in order.\<close>

definition log_contents :: "unit \<Rightarrow> (string \<times> string) list \<Rightarrow> (string, string) omap" where
  "log_contents h d = fold (\<lambda>e. om_upd (fst e) (snd e)) d []"

definition log_leveldb :: "(unit, (string \<times> string) list) leveldb_api" where
  "log_leveldb =
     \<lparr>DB_Open = \<lambda>path d. (Some (), d), DB_Put = \<lambda>h k v d. (True, d @ [(k, v)]),
      It_Seek = \<lambda>h d k. List.find (\<lambda>e. k \<le> fst e) (log_contents h d),
      It_SeekToFirst = \<lambda>h d. List.find (\<lambda>e. True) (log_contents h d),
      It_Next = \<lambda>h d k. List.find (\<lambda>e. k < fst e) (log_contents h d)\<rparr>"

lemma log_contents_wf: "om_wf (log_contents h d)"
  unfolding log_contents_def by (induction d rule: rev_induct) (simp_all add: om_wf_upd)

lemma log_leveldb_ok: "leveldb_ok log_leveldb log_contents"
  by (simp add: leveldb_ok_def log_leveldb_def log_contents_wf) (simp add: log_contents_def)

lemma leveldb_okD:
  assumes "leveldb_ok api contents"
  shows "om_wf (contents h d)" "It_Seek api h d k = List.find (\<lambda>e. k \<le> fst e) (contents h d)"
    "It_SeekToFirst api h d = List.find (\<lambda>e. True) (contents h d)"
    "It_Next api h d k = List.find (\<lambda>e. k < fst e) (contents h d)"
    "contents h (snd (DB_Put api h k v d)) =
        (if fst (DB_Put api h k v d) then om_upd k v (contents h d) else contents h d)"
  using assms by (auto simp: leveldb_ok_def)

text \<open>Finding in an ascending list: the rest from the place found.\<close>

lemma find_dropWhile: "List.find P xs = (case dropWhile (\<lambda>x. \<not> P x) xs of [] \<Rightarrow> None | x # _ \<Rightarrow> Some x)"
  by (induction xs) auto

lemma find_next:
  assumes "om_wf (xs @ (k, v) # ys)"
  shows "List.find (\<lambda>e. k < fst e) (xs @ (k, v) # ys) = List.find (\<lambda>e. True) ys"
proof -
  have "\<forall>e\<in>set xs. \<not> k < fst e" "\<forall>e\<in>set ys. k < fst e"
    using assms by (auto simp: om_wf_def sorted_wrt_append)
  then show ?thesis by (induction xs) (cases ys; simp)+
qed

lemma scan_suffix:
  assumes ok: "leveldb_ok api contents" and "contents h d = xs @ ys"
  shows "scan api h d lower body (List.find (\<lambda>e. True) ys) st =
           Some (fold (\<lambda>e. body (fst e) (snd e)) (takeWhile (\<lambda>e. fst e \<le> lower) ys) st)"
  using assms(2)
proof (induction ys arbitrary: xs st)
  case Nil
  then show ?case by (simp add: scan.simps)
next
  case (Cons e ys)
  obtain k v where e: "e = (k, v)" by fastforce
  have "It_Next api h d k = List.find (\<lambda>e. True) ys"
    using leveldb_okD(1) [OF ok, of h d] find_next [of xs k v ys]
    by (simp add: leveldb_okD(4) [OF ok] Cons.prems e)
  with Cons.IH [of "xs @ [e]"] Cons.prems show ?case
    by (auto simp: scan.simps [of api h d lower body "Some (k, v)"] e not_le)
qed

lemma takeWhile_filter_sorted:
  "om_wf m \<Longrightarrow> takeWhile (\<lambda>e. fst e \<le> b) (dropWhile (\<lambda>e. \<not> a \<le> fst e) m) = filter (\<lambda>e. a \<le> fst e \<and> fst e \<le> b) m"
proof (induction m)
  case (Cons e m)
  then have m: "om_wf m" and less: "\<forall>e'\<in>set m. fst e < fst e'"
    by (cases e; auto simp: om_wf_Cons)+
  show ?case
  proof (cases "a \<le> fst e")
    case True
    then have "\<forall>e'\<in>set m. a \<le> fst e'" using less by auto
    then have "dropWhile (\<lambda>e. \<not> a \<le> fst e) m = m" by (cases m) auto
    moreover have "filter (\<lambda>e. a \<le> fst e \<and> fst e \<le> b) m = []" if "\<not> fst e \<le> b"
      using that less by (auto simp: filter_empty_conv)
    ultimately show ?thesis using True Cons.IH [OF m] by auto
  next
    case False
    with Cons.IH [OF m] show ?thesis by simp
  qed
qed simp

lemma scan_range:
  assumes ok: "leveldb_ok api contents"
  shows "scan api h d lower body (It_Seek api h d upper) st =
           Some (fold (\<lambda>e. body (fst e) (snd e))
                   (filter (\<lambda>e. upper \<le> fst e \<and> fst e \<le> lower) (contents h d)) st)"
proof -
  let ?m = "contents h d"
  define ys where "ys = dropWhile (\<lambda>e. \<not> upper \<le> fst e) ?m"
  have "It_Seek api h d upper = List.find (\<lambda>e. True) ys"
    by (simp add: leveldb_okD(2) [OF ok] find_dropWhile ys_def split: list.splits)
  moreover have "?m = takeWhile (\<lambda>e. \<not> upper \<le> fst e) ?m @ ys" by (simp add: ys_def)
  note scan_suffix [OF ok this, of lower body st]
  ultimately show ?thesis
    using takeWhile_filter_sorted [OF leveldb_okD(1) [OF ok, of h d], of lower upper] by (simp add: ys_def)
qed

section \<open>Rows\<close>

lemma length_layout_bytes [simp]: "length (layout_bytes l) = sizeof_layout"
  by (simp add: layout_bytes_def sizeof_layout_def)

lemma of_nat_le_dec_enc: "n < 256 ^ k \<Longrightarrow> of_nat (le_dec (le_enc k n)) = (of_nat n :: 'a::len word)"
  by (simp add: le_dec_le_enc)

lemma layout_of_bytes_bytes [simp]: "layout_of_bytes (layout_bytes l) = l"
  using unat_lt8 unat_lt32 unat_lt64
  by (simp add: layout_of_bytes_def layout_bytes_def of_nat_le_dec_enc)

lemma layout_net_roundtrip [simp]: "layout_from_net_endian (layout_to_net_endian l) = l"
  by (simp add: layout_from_net_endian_def layout_to_net_endian_def)

text \<open>An entry that some row gave rise to.\<close>

definition key_of :: "string \<Rightarrow> int \<Rightarrow> string \<Rightarrow> string \<Rightarrow> string" where
  "key_of m t tag x = m @ ''#'' @ countdown t @ ''#'' @ tag @ ''#'' @ x"

definition good_row :: "string \<Rightarrow> int \<Rightarrow> string \<Rightarrow> string \<Rightarrow> bool" where
  "good_row m t tag x \<longleftrightarrow>
     CHR ''#'' \<notin> set m \<and> CHR ''#'' \<notin> set tag \<and> CHR ''#'' \<notin> set x \<and> m \<noteq> [] \<and> tag \<noteq> [] \<and> good_time t"

definition stored_row :: "string \<times> string \<Rightarrow> bool" where
  "stored_row e \<longleftrightarrow>
     (\<exists>m t tag x l. good_row m t tag x \<and> fst e = key_of m t tag x \<and> l_d l = of_char CHR ''D'' \<and>
        snd e = layout_bytes (layout_to_net_endian l))"

definition entry_item :: "string \<times> string \<Rightarrow> event_info_t" where
  "entry_item e = item_of_layout (layout_from_net_endian (layout_of_bytes (snd e)))"

definition entry_time :: "string \<times> string \<Rightarrow> int" where
  "entry_time e = (case parse_key (fst e) of None \<Rightarrow> 0 | Some (m, t, tag, x) \<Rightarrow> timestamp_exchange (atoll t))"

definition entry_tag :: "string \<times> string \<Rightarrow> string" where
  "entry_tag e = (case parse_key (fst e) of None \<Rightarrow> [] | Some (m, t, tag, x) \<Rightarrow> tag)"

text \<open>The meaning of a query up to time \<open>T\<close>: the rows of the metric in \<open>(T - interval, T]\<close>.\<close>

definition in_query :: "event_cond_t \<Rightarrow> int \<Rightarrow> string \<times> string \<Rightarrow> bool" where
  "in_query cond T e =
     (case parse_key (fst e) of
        None \<Rightarrow> False
      | Some (m, t, tag, x) \<Rightarrow>
          m = ec_metric cond \<and> timestamp_exchange (atoll t) \<le> T \<and>
          (0 < ec_tm_interval cond \<longrightarrow> T - ec_tm_interval cond < timestamp_exchange (atoll t)) \<and>
          (ec_tag cond = [] \<or> tag = ec_tag cond) \<and> (ec_entity_idx cond = [] \<or> x = ec_entity_idx cond))"

lemma parse_key_of: "good_row m t tag x \<Longrightarrow> parse_key (key_of m t tag x) = Some (m, countdown t, tag, x)"
  by (simp add: parse_key_def key_of_def good_row_def split_on_sep split_on_no_sep)

lemma sep_unique:
  assumes "CHR ''#'' \<notin> set m" "CHR ''#'' \<notin> set m'" "m @ CHR ''#'' # r = m' @ CHR ''#'' # r'"
  shows "m = m'"
proof -
  have "split_on CHR ''#'' (m @ CHR ''#'' # r) = m # split_on CHR ''#'' r"
    "split_on CHR ''#'' (m' @ CHR ''#'' # r') = m' # split_on CHR ''#'' r'"
    using assms(1,2) by (simp_all add: split_on_sep)
  with assms(3) show ?thesis by (simp del: split_on.simps)
qed

lemma read_entry_stored:
  assumes "good_row m t tag x" "l_d l = of_char CHR ''D''"
  shows "read_entry cond (key_of m t tag x) (layout_bytes (layout_to_net_endian l)) =
           (if (ec_tag cond = [] \<or> tag = ec_tag cond) \<and> (ec_entity_idx cond = [] \<or> x = ec_entity_idx cond)
            then Some (countdown t, tag, item_of_layout l) else None)"
proof -
  have "layout_bytes (layout_to_net_endian l) ! 0 = CHR ''D''"
    using assms(2) by (simp add: layout_bytes_def layout_to_net_endian_def le_enc_def char_of_eq_iff)
  then show ?thesis
    using assms(1) by (auto simp: read_entry_def parse_key_of)
qed

lemma range_is_interval:
  assumes row: "good_row m t tag x" and M: "CHR ''#'' \<notin> set M" and T: "good_time T"
    and L: "lower = M @ ''$'' \<or> (good_time L \<and> lower = M @ ''#'' @ countdown L)"
  shows "M @ ''#'' @ countdown T \<le> key_of m t tag x \<and> key_of m t tag x \<le> lower \<longleftrightarrow>
           m = M \<and> t \<le> T \<and> (lower \<noteq> M @ ''$'' \<longrightarrow> L < t)"
proof (cases "m = M")
  case True
  have t: "good_time t" using row by (simp add: good_row_def)
  have len: "length (countdown t) = length (countdown T)" using t T by (simp add: length_countdown)
  have up: "M @ ''#'' @ countdown T \<le> key_of m t tag x \<longleftrightarrow> t \<le> T"
    using append_le_equal_length(1) [OF len] countdown_le [OF T t] by (simp add: key_of_def True)
  have low: "key_of m t tag x \<le> lower \<longleftrightarrow> (lower \<noteq> M @ ''$'' \<longrightarrow> L < t)"
  proof (cases "lower = M @ ''$''")
    case True
    then show ?thesis by (simp add: key_of_def \<open>m = M\<close> less_char_def)
  next
    case False
    with L have L': "good_time L" "lower = M @ ''#'' @ countdown L" by auto
    then have "length (countdown t) = length (countdown L)" using t by (simp add: length_countdown)
    with L' False countdown_less [OF t L'(1)] show ?thesis
      by (simp add: key_of_def True append_le_equal_length(2))
  qed
  from up low True show ?thesis by simp
next
  case False
  have "\<not> (M @ ''#'' @ countdown T \<le> key_of m t tag x \<and> key_of m t tag x \<le> lower)"
  proof
    assume a: "M @ ''#'' @ countdown T \<le> key_of m t tag x \<and> key_of m t tag x \<le> lower"
    have "M @ [CHR ''#''] \<le> M @ ''#'' @ countdown T" by simp
    with a have lo: "M @ [CHR ''#''] \<le> key_of m t tag x" by (meson order_trans)
    have lower: "lower \<le> M @ ''$''" using L by (auto simp: less_char_def)
    have ne: "key_of m t tag x \<noteq> M @ ''$''"
    proof
      assume "key_of m t tag x = M @ ''$''"
      moreover have "CHR ''#'' \<in> set (key_of m t tag x)" by (simp add: key_of_def)
      ultimately show False using M by simp
    qed
    from a have "key_of m t tag x \<le> lower" by (rule conjunct2)
    from order_le_neq_trans [OF order_trans [OF this lower] ne] prefix_between [OF lo] obtain r where "key_of m t tag x = M @ CHR ''#'' # r" by blast
    then have "m @ CHR ''#'' # (countdown t @ ''#'' @ tag @ ''#'' @ x) = M @ CHR ''#'' # r"
      by (simp add: key_of_def)
    from sep_unique [OF _ M this] row have "m = M" by (simp add: good_row_def)
    with False show False ..
  qed
  with False show ?thesis by simp
qed

section \<open>Queries\<close>

text \<open>The queries covered: a metric without separator and a window whose ends have ten-digit count-downs.\<close>

definition query_ok :: "event_cond_t \<Rightarrow> event_select_t \<Rightarrow> bool" where
  "query_ok cond st \<longleftrightarrow>
     CHR ''#'' \<notin> set (ec_metric cond) \<and> good_time (es_timestamp st) \<and> es_tm_interval st = ec_tm_interval cond \<and>
     0 \<le> ec_tm_interval cond \<and> ec_tm_interval cond \<le> es_timestamp st"

lemma query_entry:
  assumes "query_ok cond st" "stored_row e"
  shows "t_upper cond st \<le> fst e \<and> fst e \<le> t_lower cond st \<and> read_entry cond (fst e) (snd e) \<noteq> None \<longleftrightarrow>
           in_query cond (es_timestamp st) e"
    and "read_entry cond (fst e) (snd e) \<noteq> None \<Longrightarrow>
           \<exists>t. read_entry cond (fst e) (snd e) = Some (t, entry_tag e, entry_item e) \<and>
               timestamp_exchange (atoll t) = entry_time e"
proof -
  obtain m t tag x l where row: "good_row m t tag x" "l_d l = of_char CHR ''D''"
    and e: "fst e = key_of m t tag x" "snd e = layout_bytes (layout_to_net_endian l)"
    using assms(2) by (auto simp: stored_row_def)
  have t: "timestamp_exchange (atoll (countdown t)) = t" using row(1) by (simp add: atoll_countdown good_row_def)
  note rd = read_entry_stored [OF row, of cond]
  let ?T = "es_timestamp st" and ?I = "ec_tm_interval cond"
  have T: "good_time ?T" and M: "CHR ''#'' \<notin> set (ec_metric cond)" using assms(1) by (simp_all add: query_ok_def)
  have L: "good_time (?T - ?I)" using assms(1) by (simp add: query_ok_def good_time_def)
  have up: "t_upper cond st = ec_metric cond @ ''#'' @ countdown ?T"
    by (simp add: t_upper_def timestamp_exchange_str_countdown [OF T])
  have lo: "t_lower cond st = (if ?I > 0 then ec_metric cond @ ''#'' @ countdown (?T - ?I) else ec_metric cond @ ''$'')"
    using assms(1) by (simp add: t_lower_def timestamp_exchange_str_countdown [OF L] query_ok_def)
  have "t_upper cond st \<le> fst e \<and> fst e \<le> t_lower cond st \<longleftrightarrow>
      m = ec_metric cond \<and> t \<le> ?T \<and> (?I > 0 \<longrightarrow> ?T - ?I < t)"
    using range_is_interval [OF row(1) M T, of "t_lower cond st" "?T - ?I"] L by (auto simp: up lo e)
  then show "t_upper cond st \<le> fst e \<and> fst e \<le> t_lower cond st \<and> read_entry cond (fst e) (snd e) \<noteq> None \<longleftrightarrow>
           in_query cond ?T e"
    by (auto simp: in_query_def e rd parse_key_of [OF row(1)] t)
  show "\<exists>t. read_entry cond (fst e) (snd e) = Some (t, entry_tag e, entry_item e) \<and>
               timestamp_exchange (atoll t) = entry_time e" if "read_entry cond (fst e) (snd e) \<noteq> None"
    using that by (auto simp: e rd entry_tag_def entry_item_def entry_time_def parse_key_of [OF row(1)] split: if_splits)
qed

lemma add_item_frame [simp]:
  "add_item (item\<lparr>ei_timestamp := t\<rparr>) tot = add_item item tot"
  "add_item (item\<lparr>ei_tag := g\<rparr>) tot = add_item item tot"
  by (simp_all add: add_item_def)

lemma count_up: "to_i32 (to_i32 (n + 1) + int k) = to_i32 (n + int (Suc k))"
  by (simp add: to_i32_add add.assoc)

text \<open>The entries a loop uses, and what it makes of them.\<close>

definition used :: "event_cond_t \<Rightarrow> (string \<times> string) list \<Rightarrow> (string \<times> string) list" where
  "used cond xs = filter (\<lambda>e. read_entry cond (fst e) (snd e) \<noteq> None) xs"

lemma used_query:
  assumes "query_ok cond st" "\<forall>e\<in>set xs. stored_row e"
  shows "used cond (filter (\<lambda>e. t_upper cond st \<le> fst e \<and> fst e \<le> t_lower cond st) xs) =
           filter (in_query cond (es_timestamp st)) xs"
  unfolding used_def filter_filter
proof (rule filter_cong [OF refl])
  fix e
  assume "e \<in> set xs"
  then have "stored_row e" using assms(2) by blast
  from query_entry(1) [OF assms(1) this]
  show "((t_upper cond st \<le> fst e \<and> fst e \<le> t_lower cond st) \<and> read_entry cond (fst e) (snd e) \<noteq> None) =
      in_query cond (es_timestamp st) e"
    by blast
qed

lemma none_fold:
  assumes "query_ok cond st" "\<forall>e\<in>set xs. stored_row e" "is_i32 n"
  shows "fold (\<lambda>e. none_body cond (fst e) (snd e)) xs (tot, n) =
           (fold add_item (map entry_item (used cond xs)) tot, to_i32 (n + int (length (used cond xs))))"
  using assms(2,3)
proof (induction xs arbitrary: tot n)
  case Nil
  then show ?case by (simp add: used_def to_i32_id)
next
  case (Cons e xs)
  show ?case
  proof (cases "read_entry cond (fst e) (snd e)")
    case None
    with Cons show ?thesis by (simp add: none_body_def used_def)
  next
    case (Some r)
    then obtain t where "read_entry cond (fst e) (snd e) = Some (t, entry_tag e, entry_item e)"
      using query_entry(2) [OF assms(1), of e] Cons.prems by auto
    with Cons show ?thesis
      by (simp add: none_body_def used_def to_i32_range count_up del: of_nat_Suc)
  qed
qed

lemma groups_fold:
  fixes key :: "'e \<Rightarrow> 'k::linorder"
  shows "om_wf (fold (\<lambda>e. push_group (key e) (f e)) es []) \<and>
         om_find (fold (\<lambda>e. push_group (key e) (f e)) es []) k =
           (if k \<in> key ` set es then Some (map f (filter (\<lambda>e. key e = k) es)) else None)"
proof (induction es arbitrary: k rule: rev_induct)
  case (snoc e es)
  have wf: "om_wf (fold (\<lambda>e. push_group (key e) (f e)) es [])" using snoc by simp
  have empty: "filter (\<lambda>x. key x = key e) es = []" if "key e \<notin> key ` set es"
    using that by (simp add: filter_empty_conv) (metis image_eqI)
  show ?case
    using snoc [of k] snoc [of "key e"] wf empty
    by (auto simp: push_group_def om_wf_upd om_find_upd split: option.splits if_splits)
qed simp

lemma groups_list:
  fixes key :: "'e \<Rightarrow> 'k::linorder"
  shows "fold (\<lambda>e. push_group (key e) (f e)) es [] =
           map (\<lambda>k. (k, map f (filter (\<lambda>e. key e = k) es))) (sorted_list_of_set (key ` set es))"
proof -
  define m where "m = fold (\<lambda>e. push_group (key e) (f e)) es []"
  have wf: "om_wf m" and find: "om_find m k =
      (if k \<in> key ` set es then Some (map f (filter (\<lambda>e. key e = k) es)) else None)" for k
    using groups_fold [of key f es] by (simp_all add: m_def)
  have "set (map fst m) = key ` set es" using om.keys_find [OF wf] by (auto simp: find dom_def)
  then have keys: "map fst m = sorted_list_of_set (key ` set es)"
    using om.entries_sorted [OF wf] strict_sorted_equal [of "map fst m" "sorted_list_of_set (key ` set es)"] by simp
  have "m = map (\<lambda>k. (k, map f (filter (\<lambda>e. key e = k) es))) (map fst m)"
  proof (rule nth_equalityI)
    fix i
    assume "i < length m"
    then have "(fst (m ! i), snd (m ! i)) \<in> set m" by simp
    then have "om_find m (fst (m ! i)) = Some (snd (m ! i))" using om.find_iff_entry [OF wf] by blast
    then show "m ! i = map (\<lambda>k. (k, map f (filter (\<lambda>e. key e = k) es))) (map fst m) ! i"
      using \<open>i < length m\<close> by (simp add: find prod_eq_iff split: if_splits)
  qed simp
  then show ?thesis by (simp only: keys) (simp only: m_def)
qed

lemma ts_fold:
  assumes "query_ok cond st" "\<forall>e\<in>set xs. stored_row e" "is_i32 n"
  shows "fold (\<lambda>e. ts_body cond (fst e) (snd e)) xs (g, tot, n) =
           (fold (\<lambda>e. push_group (entry_time e) ((entry_item e)\<lparr>ei_timestamp := entry_time e\<rparr>)) (used cond xs) g,
            fold add_item (map entry_item (used cond xs)) tot, to_i32 (n + int (length (used cond xs))))"
  using assms(2,3)
proof (induction xs arbitrary: g tot n)
  case Nil
  then show ?case by (simp add: used_def to_i32_id)
next
  case (Cons e xs)
  show ?case
  proof (cases "read_entry cond (fst e) (snd e)")
    case None
    with Cons show ?thesis by (simp add: ts_body_def used_def)
  next
    case (Some r)
    then obtain t where "read_entry cond (fst e) (snd e) = Some (t, entry_tag e, entry_item e)"
      "timestamp_exchange (atoll t) = entry_time e"
      using query_entry(2) [OF assms(1), of e] Cons.prems by auto
    with Cons show ?thesis
      by (simp add: ts_body_def used_def to_i32_range count_up Let_def del: of_nat_Suc)
  qed
qed

lemma tag_fold:
  assumes "query_ok cond st" "\<forall>e\<in>set xs. stored_row e" "is_i32 n"
  shows "fold (\<lambda>e. tag_body cond (fst e) (snd e)) xs (g, tot, n) =
           (fold (\<lambda>e. push_group (entry_tag e) ((entry_item e)\<lparr>ei_tag := entry_tag e\<rparr>)) (used cond xs) g,
            fold add_item (map entry_item (used cond xs)) tot, to_i32 (n + int (length (used cond xs))))"
  using assms(2,3)
proof (induction xs arbitrary: g tot n)
  case Nil
  then show ?case by (simp add: used_def to_i32_id)
next
  case (Cons e xs)
  show ?case
  proof (cases "read_entry cond (fst e) (snd e)")
    case None
    with Cons show ?thesis by (simp add: tag_body_def used_def)
  next
    case (Some r)
    then obtain t where "read_entry cond (fst e) (snd e) = Some (t, entry_tag e, entry_item e)"
      using query_entry(2) [OF assms(1), of e] Cons.prems by auto
    with Cons show ?thesis
      by (simp add: tag_body_def used_def to_i32_range count_up Let_def del: of_nat_Suc)
  qed
qed

text \<open>The rows a query is about, newest first, and what they hold.\<close>

definition hits :: "('h \<Rightarrow> 'd \<Rightarrow> (string, string) omap) \<Rightarrow> 'h \<Rightarrow> 'd \<Rightarrow> event_cond_t \<Rightarrow> event_select_t \<Rightarrow> (string \<times> string) list" where
  "hits contents h d cond st = filter (in_query cond (es_timestamp st)) (contents h d)"

definition row_items :: "(string \<times> string) list \<Rightarrow> event_info_t list" where
  "row_items q = map entry_item q"

lemma zero_i32: "is_i32 0" by (simp add: is_i32_def)

lemma row_items_fit: "x \<in> set (row_items q) \<Longrightarrow> info_fits x"
  using sint_greater_eq [where 'a = 32] sint_less [where 'a = 32]
  by (auto simp: row_items_def entry_item_def item_of_layout_def info_fits_def is_i32_def)

lemma summary_of_hits:
  "close_summary (to_i32 (int (length q))) (fold add_item (map entry_item q) start_total) = summary_total (row_items q)"
  using summary_total_eq [of "row_items q"] row_items_fit [of _ q] by (simp add: row_items_def)

lemma lines_of_hits:
  "collect_ts (t, map (\<lambda>e. (entry_item e)\<lparr>ei_timestamp := entry_time e\<rparr>) q) = (group_total (row_items q))\<lparr>ei_timestamp := t\<rparr>"
  "collect_tag (g, map (\<lambda>e. (entry_item e)\<lparr>ei_tag := entry_tag e\<rparr>) q) = (group_total (row_items q))\<lparr>ei_tag := g\<rparr>"
proof -
  have "fold add_item (map (\<lambda>e. (entry_item e)\<lparr>ei_timestamp := entry_time e\<rparr>) q) tot = fold add_item (row_items q) tot"
    "fold add_item (map (\<lambda>e. (entry_item e)\<lparr>ei_tag := entry_tag e\<rparr>) q) tot = fold add_item (row_items q) tot" for tot
    by (induction q arbitrary: tot) (simp_all add: row_items_def)
  moreover have "length (row_items q) = length q" by (simp add: row_items_def)
  ultimately show "collect_ts (t, map (\<lambda>e. (entry_item e)\<lparr>ei_timestamp := entry_time e\<rparr>) q) = (group_total (row_items q))\<lparr>ei_timestamp := t\<rparr>"
    "collect_tag (g, map (\<lambda>e. (entry_item e)\<lparr>ei_tag := entry_tag e\<rparr>) q) = (group_total (row_items q))\<lparr>ei_tag := g\<rparr>"
    using collect_total_eq [of "row_items q"] row_items_fit [of _ q] by (simp_all add: collect_ts_def collect_tag_def)
qed

lemma select_by_none:
  assumes "leveldb_ok api contents" "query_ok cond st" "\<forall>e\<in>set (contents h d). stored_row e"
  shows "select_ev_stat_by_none api h d cond st =
           Some (st\<lparr>es_summary := summary_total (row_items (hits contents h d cond st))\<rparr>)"
  using none_fold [OF assms(2) _ zero_i32] used_query [OF assms(2,3)] assms(3)
  by (simp add: select_ev_stat_by_none_def scan_range [OF assms(1)] hits_def flip: summary_of_hits)

text \<open>
  C9. \<open>select_ev_stat_by_none\<close> returns, and its summary is the total over exactly the stored rows of the
  metric whose time lies in \<open>(T - interval, T]\<close> (all up to \<open>T\<close> without interval) and whose tag and
  entity match the condition, whatever other metrics the database holds: the sums of counts and values
  modulo their width, the extremes, the quotient of the sums and the mean percentiles.
\<close>
theorem select_by_none_spec:
  assumes "leveldb_ok api contents" "query_ok cond st" "\<forall>e\<in>set (contents h d). stored_row e"
  shows "select_ev_stat_by_none api h d cond st =
           Some (st\<lparr>es_summary := summary_total (row_items (hits contents h d cond st))\<rparr>)"
  using assms by (rule select_by_none)

text \<open>
  C10. \<open>select_ev_stat_by_timestamp\<close> returns one detail line per distinct time among the rows of the query,
  in ascending order of time, each the total of the rows of its time, beside the same summary.
\<close>
theorem select_by_timestamp_spec:
  assumes "leveldb_ok api contents" "query_ok cond st" "\<forall>e\<in>set (contents h d). stored_row e"
  shows "select_ev_stat_by_timestamp api h d cond st =
           (let q = hits contents h d cond st
            in Some (st\<lparr>es_info := es_info st @
                          map (\<lambda>t. (group_total (row_items (filter (\<lambda>e. entry_time e = t) q)))\<lparr>ei_timestamp := t\<rparr>)
                            (sorted_list_of_set (entry_time ` set q)),
                        es_summary := summary_total (row_items q)\<rparr>))"
  using ts_fold [OF assms(2) _ zero_i32] used_query [OF assms(2,3)] assms(3)
  by (simp add: select_ev_stat_by_timestamp_def scan_range [OF assms(1)] hits_def groups_list
      comp_def Let_def lines_of_hits summary_of_hits)

text \<open>
  C11. \<open>select_ev_stat_by_tag\<close> likewise returns one detail line per distinct tag, in ascending order.
\<close>
theorem select_by_tag_spec:
  assumes "leveldb_ok api contents" "query_ok cond st" "\<forall>e\<in>set (contents h d). stored_row e"
  shows "select_ev_stat_by_tag api h d cond st =
           (let q = hits contents h d cond st
            in Some (st\<lparr>es_info := es_info st @
                          map (\<lambda>g. (group_total (row_items (filter (\<lambda>e. entry_tag e = g) q)))\<lparr>ei_tag := g\<rparr>)
                            (sorted_list_of_set (entry_tag ` set q)),
                        es_summary := summary_total (row_items q)\<rparr>))"
  using tag_fold [OF assms(2) _ zero_i32] used_query [OF assms(2,3)] assms(3)
  by (simp add: select_ev_stat_by_tag_def scan_range [OF assms(1)] hits_def groups_list
      comp_def Let_def lines_of_hits summary_of_hits)

section \<open>Metrics\<close>

definition entry_metric :: "string \<times> string \<Rightarrow> string option" where
  "entry_metric e = (case parse_key (fst e) of None \<Rightarrow> None | Some (m, t, tag, x) \<Rightarrow> Some m)"

lemma parse_key_metric: "parse_key k = Some (m, t, tag, x) \<Longrightarrow> m \<noteq> [] \<and> CHR ''#'' \<notin> set m \<and> (\<exists>r. k = m @ CHR ''#'' # r)"
  using split_on_head [of "CHR ''#''" k m "[t, tag, x]"]
  by (auto simp: parse_key_def split: list.splits if_splits)

lemma metric_of_prefix:
  assumes "CHR ''#'' \<notin> set m" "fst e = m @ CHR ''#'' # r" "entry_metric e = Some m'"
  shows "m' = m"
proof -
  obtain t tag x where "parse_key (fst e) = Some (m', t, tag, x)"
    using assms(3) by (auto simp: entry_metric_def split: option.splits)
  from parse_key_metric [OF this] assms(1,2) sep_unique show ?thesis by metis
qed

text \<open>
  A jump to \<open>m$\<close> from an entry of metric \<open>m\<close> passes over entries of \<open>m\<close> only, and over at least one.
\<close>

lemma jump_skips:
  assumes wf: "om_wf (xs @ e # ys)" and m: "entry_metric e = Some m"
  shows "\<exists>skipped rest. ys = skipped @ rest \<and> (\<forall>s\<in>set skipped. entry_metric s \<in> {None, Some m}) \<and>
           List.find (\<lambda>e. m @ ''$'' \<le> fst e) (xs @ e # ys) = List.find (\<lambda>e. True) rest"
proof -
  obtain t tag x where "parse_key (fst e) = Some (m, t, tag, x)"
    using m by (auto simp: entry_metric_def split: option.splits)
  note pk = parse_key_metric [OF this]
  then obtain r where r: "fst e = m @ CHR ''#'' # r" by blast
  define skipped where "skipped = takeWhile (\<lambda>e. \<not> m @ ''$'' \<le> fst e) ys"
  define rest where "rest = dropWhile (\<lambda>e. \<not> m @ ''$'' \<le> fst e) ys"
  have below: "fst e < m @ ''$''" by (simp add: r less_char_def)
  have before: "\<forall>s\<in>set xs. \<not> m @ ''$'' \<le> fst s"
  proof
    fix s
    assume "s \<in> set xs"
    then have "fst s < fst e" using wf by (simp add: om_wf_def sorted_wrt_append)
    with below show "\<not> m @ ''$'' \<le> fst s" by (meson order.strict_trans not_le)
  qed
  have "entry_metric s \<in> {None, Some m}" if "s \<in> set skipped" for s
  proof -
    have "s \<in> set ys" "\<not> m @ ''$'' \<le> fst s" using that set_takeWhileD unfolding skipped_def by fast+
    then have "fst e < fst s" "fst s < m @ ''$''" using wf by (simp_all add: om_wf_def sorted_wrt_append)
    moreover have "m @ [CHR ''#''] \<le> fst e" by (simp add: r)
    ultimately obtain r' where "fst s = m @ CHR ''#'' # r'"
      using prefix_between [of m "fst s"] by (meson order.strict_implies_order order.trans)
    with pk metric_of_prefix [of m s r'] show ?thesis by (cases "entry_metric s") auto
  qed
  moreover have "List.find (\<lambda>e. m @ ''$'' \<le> fst e) (xs @ e # ys) = List.find (\<lambda>e. True) rest"
  proof -
    have "List.find (\<lambda>e. m @ ''$'' \<le> fst e) (xs @ zs) = List.find (\<lambda>e. m @ ''$'' \<le> fst e) zs" for zs
      using before by (induction xs) auto
    moreover have "\<not> m @ ''$'' \<le> fst e" using below by simp
    ultimately show ?thesis by (simp add: find_dropWhile rest_def split: list.splits)
  qed
  ultimately show ?thesis by (intro exI [of _ skipped] exI [of _ rest]) (simp add: skipped_def rest_def)
qed

lemma metrics_suffix:
  assumes ok: "leveldb_ok api contents" and "contents h d = xs @ ys"
    and "sorted_wrt (<) found" "cached = [] \<or> cached \<in> set found"
  shows "\<exists>ms. metrics_loop api h d (List.find (\<lambda>e. True) ys) cached found = Some ms \<and> sorted_wrt (<) ms \<and>
           set ms = set found \<union> {m. \<exists>e\<in>set ys. entry_metric e = Some m}"
  using assms(2-)
proof (induction ys arbitrary: xs cached found rule: length_induct)
  case (1 ys)
  show ?case
  proof (cases ys)
    case Nil
    with 1 show ?thesis by (simp add: metrics_loop.simps)
  next
    case (Cons e ys')
    obtain k v where e: "e = (k, v)" by fastforce
    have wf: "om_wf (xs @ e # ys')" using leveldb_okD(1) [OF ok, of h d] 1(2) Cons by simp
    have IH: "\<exists>ms. metrics_loop api h d (List.find (\<lambda>e. True) rest) c f = Some ms \<and> sorted_wrt (<) ms \<and>
           set ms = set f \<union> {m. \<exists>e\<in>set rest. entry_metric e = Some m}"
      if "ys' = pre @ rest" "sorted_wrt (<) f" "c = [] \<or> c \<in> set f" for pre rest c f
      using 1(1) [rule_format, of rest "xs @ e # pre" f c] that 1(2) Cons by simp
    show ?thesis
    proof (cases "entry_metric e")
      case None
      then have p: "parse_key k = None" by (simp add: e entry_metric_def split: option.splits prod.splits)
      have "It_Next api h d k = List.find (\<lambda>e. True) ys'"
        using wf find_next [of xs k v ys'] 1(2) by (simp add: leveldb_okD(4) [OF ok] Cons e)
      with IH [of "[]" ys' found cached] 1(3,4) None p show ?thesis
        by (simp add: Cons e metrics_loop.simps [of api h d "Some (k, v)"])
    next
      case (Some m)
      then obtain t tag x where p: "parse_key k = Some (m, t, tag, x)"
        by (auto simp: e entry_metric_def split: option.splits)
      obtain skipped rest where s: "ys' = skipped @ rest" "\<forall>s\<in>set skipped. entry_metric s \<in> {None, Some m}"
        "List.find (\<lambda>e. m @ ''$'' \<le> fst e) (xs @ e # ys') = List.find (\<lambda>e. True) rest"
        using jump_skips [OF wf Some] by blast
      define f where "f = (if cached \<noteq> m then os_insert m found else found)"
      have f: "set f = insert m (set found)" "sorted_wrt (<) f"
        using 1(3,4) parse_key_metric [OF p] by (auto simp: f_def set_os_insert sorted_os_insert)
      have seek: "It_Seek api h d (m @ ''$'') = List.find (\<lambda>e. True) rest"
        using s(3) 1(2) by (simp add: leveldb_okD(2) [OF ok] Cons)
      obtain ms where ms: "metrics_loop api h d (List.find (\<lambda>e. True) rest) m f = Some ms" "sorted_wrt (<) ms"
        "set ms = set f \<union> {m. \<exists>e\<in>set rest. entry_metric e = Some m}"
        using IH [OF s(1) f(2), of m] f(1) by auto
      have "{m'. \<exists>e'\<in>set ys. entry_metric e' = Some m'} = insert m {m. \<exists>e\<in>set rest. entry_metric e = Some m}"
        using s(2) Some by (auto simp: Cons s(1))
      with ms f p seek show ?thesis
        by (simp add: Cons e metrics_loop.simps [of api h d "Some (k, v)"] flip: f_def)
    qed
  qed
qed

lemma metrics_loop_all:
  assumes "leveldb_ok api contents"
  shows "metrics_loop api h d (It_SeekToFirst api h d) [] [] =
           Some (sorted_list_of_set {m. \<exists>e\<in>set (contents h d). entry_metric e = Some m})"
proof -
  obtain ms where "metrics_loop api h d (It_SeekToFirst api h d) [] [] = Some ms" "sorted_wrt (<) ms"
    "set ms = {m. \<exists>e\<in>set (contents h d). entry_metric e = Some m}"
    using metrics_suffix [OF assms, of h d "[]" "contents h d" "[]" "[]"]
    by (auto simp: leveldb_okD(3) [OF assms])
  then show ?thesis by (metis sorted_list_of_set.idem_if_sorted_distinct strict_sorted_iff)
qed

text \<open>
  C32. \<open>select_metrics\<close> ends and returns every metric that has a well-formed key in the table of the service,
  once each and in ascending order, although it jumps over all but the first key of a metric.
\<close>
theorem select_metrics_spec:
  assumes "leveldb_ok api contents" "service \<noteq> []"
    and "get_leveldb_handler api localtime now service sd = (Some h, s, d)"
  shows "ldb_select_metrics api localtime now service metrics sd =
           Some (0, sorted_list_of_set {m. \<exists>e\<in>set (contents h d). entry_metric e = Some m}, s, d)"
  using assms by (simp add: ldb_select_metrics_def metrics_loop_all [OF assms(1)])

section \<open>Rows read back as written\<close>

text \<open>A row with fields in the range of their C types and a key that fits the 4096-byte buffer.\<close>

definition insert_ok :: "event_insert_t \<Rightarrow> bool" where
  "insert_ok st \<longleftrightarrow>
     ins_service st \<noteq> [] \<and> ins_metric st \<noteq> [] \<and> 0 < ins_timestamp st \<and> good_time (ins_timestamp st) \<and>
     (\<forall>f\<in>{ins_metric st, ins_tag st, ins_entity_idx st}. CHR ''#'' \<notin> set f \<and> char_of (0::nat) \<notin> set f) \<and>
     length (ins_metric st) + length (ins_tag st) + length (ins_entity_idx st) < 4000 \<and>
     is_i64 (ins_value_sum st) \<and>
     (\<forall>v\<in>{ins_count st, ins_value_avg st, ins_value_min st, ins_value_max st, ins_value_p10 st,
           ins_value_p50 st, ins_value_p90 st}. is_i32 v)"

definition stored_tag :: "event_insert_t \<Rightarrow> string" where
  "stored_tag st = (if ins_tag st = [] then ''T'' else ins_tag st)"

definition info_of_insert :: "event_insert_t \<Rightarrow> event_info_t" where
  "info_of_insert st =
     zero_info\<lparr>ei_count := ins_count st, ei_value_sum := ins_value_sum st, ei_value_avg := ins_value_avg st,
               ei_value_min := ins_value_min st, ei_value_max := ins_value_max st,
               ei_value_p10 := ins_value_p10 st, ei_value_p50 := ins_value_p50 st,
               ei_value_p90 := ins_value_p90 st\<rparr>"

lemma sint_word_of_int32: "is_i32 x \<Longrightarrow> sint (word_of_int x :: 32 word) = x"
  by (simp add: is_i32_def int_word_sint)

lemma sint_word_of_int64: "is_i64 x \<Longrightarrow> sint (word_of_int x :: 64 word) = x"
  by (simp add: is_i64_def int_word_sint)

lemma item_of_stored: "insert_ok st \<Longrightarrow> item_of_layout (layout_of_stat st) = info_of_insert st"
  by (simp add: insert_ok_def item_of_layout_def layout_of_stat_def info_of_insert_def sint_word_of_int32
      sint_word_of_int64)

lemma row_key_of:
  assumes "insert_ok st"
  shows "row_key (ins_metric st) (ins_timestamp st) (stored_tag st) (ins_entity_idx st) =
           key_of (ins_metric st) (ins_timestamp st) (stored_tag st) (ins_entity_idx st)"
proof -
  have t: "good_time (ins_timestamp st)" using assms by (simp add: insert_ok_def)
  then have c: "dec_int (to_u64 (timestamp_exchange (ins_timestamp st))) = countdown (ins_timestamp st)"
    by (simp add: countdown_def timestamp_exchange_def dec_int_def good_time_def to_u64_id)
  have cs: "c_str (ins_metric st) = ins_metric st" "c_str (stored_tag st) = stored_tag st"
    "c_str (ins_entity_idx st) = ins_entity_idx st"
    using assms by (auto simp: insert_ok_def stored_tag_def char_of_eq_iff intro!: c_str_no_nul)
  have "length (key_of (ins_metric st) (ins_timestamp st) (stored_tag st) (ins_entity_idx st)) \<le> 4095"
    using assms length_countdown [OF t] by (simp add: insert_ok_def stored_tag_def key_of_def)
  from take_all [OF this] show ?thesis unfolding row_key_def cs c by (simp only: key_of_def)
qed

lemma good_row_insert:
  "insert_ok st \<Longrightarrow> good_row (ins_metric st) (ins_timestamp st) (stored_tag st) (ins_entity_idx st)"
  by (simp add: insert_ok_def good_row_def stored_tag_def)

definition stored_entry :: "event_insert_t \<Rightarrow> string \<times> string" where
  "stored_entry st =
     (key_of (ins_metric st) (ins_timestamp st) (stored_tag st) (ins_entity_idx st),
      layout_bytes (layout_to_net_endian (layout_of_stat st)))"

lemma stored_row_entry: "insert_ok st \<Longrightarrow> stored_row (stored_entry st)"
  using good_row_insert [of st] unfolding stored_row_def stored_entry_def fst_conv snd_conv
  by (intro exI [of _ "layout_of_stat st"] exI conjI) (auto simp: layout_of_stat_def)

lemma entry_of_insert:
  assumes "insert_ok st"
  shows "entry_item (stored_entry st) = info_of_insert st" "entry_time (stored_entry st) = ins_timestamp st"
    "entry_tag (stored_entry st) = stored_tag st" "entry_metric (stored_entry st) = Some (ins_metric st)"
  using assms parse_key_of [OF good_row_insert [OF assms]]
  by (simp_all add: entry_item_def entry_time_def entry_tag_def entry_metric_def stored_entry_def item_of_stored
      atoll_countdown insert_ok_def)

lemma ldb_insert_eq:
  assumes "leveldb_ok api contents" "insert_ok st"
    and "get_leveldb_handler api localtime now (ins_service st) sd = (Some h, s, d)"
    and "ldb_insert_ev_stat api localtime now st sd = (0, s', d')"
  shows "s' = s \<and> contents h d' = om_upd (fst (stored_entry st)) (snd (stored_entry st)) (contents h d)"
proof -
  have ne: "ins_service st \<noteq> []" "ins_metric st \<noteq> []" "ins_timestamp st \<noteq> 0" using assms(2) by (auto simp: insert_ok_def)
  note put = leveldb_okD(5) [OF assms(1), of h "fst (stored_entry st)" "snd (stored_entry st)" d]
  from assms(3,4) ne show ?thesis
    using put row_key_of [OF assms(2)]
    by (auto simp: ldb_insert_ev_stat_def stored_entry_def stored_tag_def Let_def split: prod.splits if_splits)
qed

text \<open>
  C8. A successful \<open>insert_ev_stat\<close> of a row of ordinary form stores one entry, which reads back with exactly
  the numbers, time and tag of the row (tag \<open>T\<close> for none); every other key keeps its value, and a table of
  rows stays a table of rows, so the selections keep their meaning.
\<close>
theorem insert_read_back:
  assumes "leveldb_ok api contents" "insert_ok st" "\<forall>e\<in>set (contents h d). stored_row e"
    and "get_leveldb_handler api localtime now (ins_service st) sd = (Some h, s, d)"
    and "ldb_insert_ev_stat api localtime now st sd = (0, s', d')"
  shows "\<exists>e\<in>set (contents h d'). stored_row e \<and> entry_metric e = Some (ins_metric st) \<and>
           entry_time e = ins_timestamp st \<and> entry_tag e = stored_tag st \<and> entry_item e = info_of_insert st \<and>
           set (contents h d') = insert e {x \<in> set (contents h d). fst x \<noteq> fst e} \<and>
           (\<forall>x\<in>set (contents h d'). stored_row x)"
proof -
  have c: "contents h d' = om_upd (fst (stored_entry st)) (snd (stored_entry st)) (contents h d)"
    using ldb_insert_eq [OF assms(1,2,4,5)] ..
  have set: "set (contents h d') = insert (stored_entry st) {x \<in> set (contents h d). fst x \<noteq> fst (stored_entry st)}"
    using om.entries_upd_set [OF leveldb_okD(1) [OF assms(1)]] by (simp add: c)
  have "\<forall>e\<in>set (contents h d'). stored_row e" using assms(3) stored_row_entry [OF assms(2)] by (simp add: set)
  then show ?thesis
    using set stored_row_entry [OF assms(2)] entry_of_insert [OF assms(2)]
    by (intro bexI [of _ "stored_entry st"]) simp_all
qed

section \<open>Detail lines and services\<close>

text \<open>
  A query in ascending order with a positive limit returns the first lines of the sorted detail:
  at most \<open>limit\<close> of them, none of which has a line left out that should come before it.
\<close>
theorem sort_and_limit_spec:
  assumes "ec_orders cond = kOrderAsc" "ec_orderby cond \<noteq> kOrderByNone" "0 < ec_limit cond" "is_i32 (ec_limit cond)"
  shows "\<exists>top cut. sort_and_limit cond st = Some (st\<lparr>es_info := top\<rparr>) \<and> mset top + mset cut = mset (es_info st) \<and>
           length top = min (nat (ec_limit cond)) (length (es_info st)) \<and>
           sorted_wrt (\<lambda>a b. \<not> sort_by (ec_orderby cond) b a) (top @ cut)"
proof (cases "es_info st = []")
  case True
  with assms show ?thesis by (intro exI [of _ "[]"]) (simp add: sort_and_limit_def event_select_t.surjective)
next
  case False
  obtain r where r: "do_sort (es_info st) (ec_orderby cond) kOrderAsc = Some r" "mset r = mset (es_info st)"
    "sorted_wrt (\<lambda>a b. \<not> sort_by (ec_orderby cond) b a) r"
    using sorts_ascending by blast
  let ?n = "nat (ec_limit cond)"
  have len: "length r = length (es_info st)" using r(2) by (rule mset_eq_length)
  have lim: "to_u64 (ec_limit cond) = ec_limit cond" using assms(3,4) by (simp add: to_u64_id is_i32_def)
  have take: "(if int (length r) > to_u64 (ec_limit cond) then take ?n r else r) = take ?n r"
    using assms(3) by (simp add: lim)
  have "mset (take ?n r) + mset (drop ?n r) = mset (es_info st)"
    using r(2) by (simp flip: mset_append)
  with r(1,3) assms(1-3) False len take show ?thesis
    by (intro exI [of _ "take ?n r"] exI [of _ "drop ?n r"]) (simp add: sort_and_limit_def)
qed

theorem sort_and_limit_spec_witness:
  "\<exists>top. sort_and_limit (default_cond\<lparr>ec_orderby := kOrderByCount, ec_orders := kOrderAsc, ec_limit := 1\<rparr>)
           (empty_select\<lparr>es_info := [zero_info\<lparr>ei_count := 5\<rparr>, zero_info\<lparr>ei_count := 3\<rparr>]\<rparr>) =
         Some (empty_select\<lparr>es_info := top\<rparr>) \<and> length top = 1"
  using sort_and_limit_spec [of "default_cond\<lparr>ec_orderby := kOrderByCount, ec_orders := kOrderAsc, ec_limit := 1\<rparr>"
      "empty_select\<lparr>es_info := [zero_info\<lparr>ei_count := 5\<rparr>, zero_info\<lparr>ei_count := 3\<rparr>]\<rparr>"]
  by (auto simp: is_i32_def)

text \<open>
  The percentiles of a detail line are wrong when they are negative: the divisor is a \<open>size_t\<close>, so
  three rows with tenth percentile \<open>-1\<close> give 1431655764, while the summary of the same rows gives \<open>-1\<close>.
\<close>
theorem negative_percentiles_differ:
  "let rows = replicate 3 (zero_info\<lparr>ei_count := 1, ei_value_p10 := -1\<rparr>)
   in ei_value_p10 (collect_tag (''T'', rows)) = 1431655764 \<and>
      ei_value_p10 (close_summary 3 (fold add_item rows start_total)) = -1"
  by (simp add: Let_def collect_tag_def close_collect_def close_summary_def add_item_def start_total_def zero_info_def
      numeral_3_eq_3 to_i32_def to_u64_def signed_divide_int_def)

text \<open>
  \<open>select_services\<close> reads the services back from the directory names under which
  \<open>get_leveldb_handler\<close> opens their tables, one entry per table.
\<close>
theorem select_services_tables:
  assumes "\<forall>(svc, sfx)\<in>set tables. svc \<noteq> [] \<and> length sfx = 6" "take 1 (table_prefix s) \<noteq> ''.''" "table_prefix s \<noteq> []"
  shows "ldb_select_services
           (Some (map (\<lambda>(svc, sfx). (table_prefix s @ ''__'' @ svc @ ''__events_'' @ sfx, True)) tables)) services s =
         (0, map fst tables)"
proof -
  have one: "service_of_table p (p @ ''__'' @ svc @ ''__events_'' @ sfx) = Some svc" if "svc \<noteq> []" "length sfx = 6"
    for p svc sfx using that by (simp add: service_of_table_def Let_def)
  have hidden: "take 1 (table_prefix s @ r) \<noteq> ''.''" for r using assms(2,3) by (cases "table_prefix s") simp_all
  show ?thesis
    using assms(1) hidden by (induction tables) (auto simp: ldb_select_services_def one [simplified] List.map_filter_def)
qed

theorem select_services_tables_witness:
  "ldb_select_services (Some (map (\<lambda>(svc, sfx). (''heracles'' @ ''__'' @ svc @ ''__events_'' @ sfx, True))
      [(''pay'', ''201907''), (''pay'', ''201908'')])) [] \<lparr>levelDBs = ([] :: (string, unit leveldb_handler_t) omap),
       filepath = ''db'', table_prefix = ''heracles''\<rparr> = (0, [''pay'', ''pay''])"
  using select_services_tables [of "[(''pay'', ''201907''), (''pay'', ''201908'')]"
      "\<lparr>levelDBs = [], filepath = ''db'', table_prefix = ''heracles''\<rparr>" "[]"]
  by simp

section \<open>Witnesses\<close>

text \<open>A table with three rows of metric \<open>rps\<close>, of which the query of the last minute meets two.\<close>

definition example_insert :: "int \<Rightarrow> string \<Rightarrow> int \<Rightarrow> event_insert_t" where
  "example_insert t tag v =
     zero_insert\<lparr>ins_service := ''svc'', ins_metric := ''rps'', ins_timestamp := t, ins_tag := tag, ins_entity_idx := ''1'',
                 ins_step := 1, ins_count := 2, ins_value_sum := v, ins_value_min := v, ins_value_max := v\<rparr>"

definition example_db :: "(string \<times> string) list" where
  "example_db = map stored_entry [example_insert 1000 '''' 10, example_insert 1060 ''ok'' 40, example_insert 1030 ''ok'' 7]"

definition example_cond :: event_cond_t where
  "example_cond = default_cond\<lparr>ec_service := ''svc'', ec_metric := ''rps'', ec_tm_interval := 60\<rparr>"

definition example_select :: event_select_t where
  "example_select = empty_select\<lparr>es_timestamp := 1060, es_tm_interval := 60\<rparr>"

lemma example_insert_ok:
  assumes "t \<in> {1000, 1030, 1060}" "tag \<in> {'''', ''ok''}" "v \<in> {7, 10, 40}"
  shows "insert_ok (example_insert t tag v)"
proof -
  have "is_i32 0" "is_i32 2" "is_i32 v" "is_i64 v" using assms(3) by (auto simp: is_i32_def is_i64_def)
  moreover have "0 < t" "good_time t" using assms(1) by (auto simp: good_time_def)
  moreover have "length tag < 3" "CHR ''#'' \<notin> set tag" "char_of (0::nat) \<notin> set tag"
    using assms(2) by (auto simp: char_of_eq_iff)
  ultimately show ?thesis
    by (simp add: insert_ok_def example_insert_def zero_insert_def char_of_eq_iff)
qed

lemma key_of_less: "good_time t \<Longrightarrow> good_time u \<Longrightarrow> u < t \<Longrightarrow> key_of m t tag x < key_of m u tag' x'"
proof -
  assume t: "good_time t" "good_time u" "u < t"
  have "a @ r < b @ r'" if "a < b" "length a = length b" for a b r r' :: string
    using that(2,1) by (induction a b rule: list_induct2) auto
  with t countdown_less [of t u] length_countdown show ?thesis by (simp add: key_of_def)
qed

lemma om_upd_entry:
  "om_upd k v (e # m) =
     (if k < fst e then (k, v) # e # m else if k = fst e then (k, v) # m else e # om_upd k v m)"
  by (cases e) simp

lemma example_contents:
  "log_contents () example_db =
     map stored_entry [example_insert 1060 ''ok'' 40, example_insert 1030 ''ok'' 7, example_insert 1000 '''' 10]"
proof -
  have less: "fst (stored_entry (example_insert t tag v)) < fst (stored_entry (example_insert u tag' v'))"
    if "u < t" "t \<in> {1000, 1030, 1060}" "u \<in> {1000, 1030, 1060}" for t u tag tag' v v'
    using that key_of_less [of t u] by (auto simp: stored_entry_def example_insert_def good_time_def)
  from this [THEN less_not_sym] this [THEN less_imp_neq] this [THEN less_imp_neq, THEN not_sym] this show ?thesis
    by (simp add: example_db_def log_contents_def om_upd_entry)
qed

lemma example_db_rows: "\<forall>e\<in>set (log_contents () example_db). stored_row e"
  by (simp add: example_contents stored_row_entry example_insert_ok)

lemma example_query_ok: "query_ok example_cond example_select"
  by (simp add: query_ok_def example_cond_def example_select_def default_cond_def empty_select_def good_time_def)

lemma example_in_query:
  assumes "t \<in> {1000, 1030, 1060}" "tag \<in> {'''', ''ok''}" "v \<in> {7, 10, 40}"
  shows "in_query example_cond 1060 (stored_entry (example_insert t tag v)) \<longleftrightarrow> 1000 < t"
proof -
  have "good_time t" using assms(1) by (auto simp: good_time_def)
  with parse_key_of [OF good_row_insert [OF example_insert_ok [OF assms]]] assms(1) show ?thesis
    by (auto simp: in_query_def stored_entry_def example_insert_def example_cond_def default_cond_def atoll_countdown)
qed

lemma example_hits:
  "hits log_contents () example_db example_cond example_select =
     map stored_entry [example_insert 1060 ''ok'' 40, example_insert 1030 ''ok'' 7]"
  by (simp add: hits_def example_contents example_in_query example_select_def)

lemma example_select_empty: "es_info example_select = []"
  by (simp add: example_select_def empty_select_def)

lemma example_items:
  "row_items (map stored_entry [example_insert 1060 ''ok'' 40, example_insert 1030 ''ok'' 7]) =
     [zero_info\<lparr>ei_count := 2, ei_value_sum := 40, ei_value_min := 40, ei_value_max := 40\<rparr>,
      zero_info\<lparr>ei_count := 2, ei_value_sum := 7, ei_value_min := 7, ei_value_max := 7\<rparr>]"
  using entry_of_insert(1) [OF example_insert_ok]
  by (simp add: row_items_def info_of_insert_def example_insert_def zero_insert_def zero_info_def)

theorem select_by_none_spec_witness:
  "select_ev_stat_by_none log_leveldb () example_db example_cond example_select =
     Some (example_select\<lparr>es_summary := zero_info\<lparr>ei_count := 4, ei_value_sum := 47, ei_value_avg := 11,
                                                 ei_value_min := 7, ei_value_max := 40\<rparr>\<rparr>)"
  using select_by_none_spec [OF log_leveldb_ok example_query_ok example_db_rows]
  by (simp only: example_hits example_items)
    (simp add: summary_total_def wrapped_sums_def with_means_def zero_info_def Let_def to_i32_id to_i64_id
      is_i32_def is_i64_def signed_divide_int_def)

lemma example_entry_time:
  "entry_time (stored_entry (example_insert 1060 ''ok'' 40)) = 1060"
  "entry_time (stored_entry (example_insert 1030 ''ok'' 7)) = 1030"
  "entry_tag (stored_entry (example_insert 1060 ''ok'' 40)) = ''ok''"
  "entry_tag (stored_entry (example_insert 1030 ''ok'' 7)) = ''ok''"
  using entry_of_insert(2,3) [OF example_insert_ok]
  by (simp_all add: example_insert_def stored_tag_def)

theorem select_by_timestamp_spec_witness:
  "\<exists>st. select_ev_stat_by_timestamp log_leveldb () example_db example_cond example_select = Some st \<and>
        map ei_timestamp (es_info st) = [1030, 1060]"
  using select_by_timestamp_spec [OF log_leveldb_ok example_query_ok example_db_rows]
  by (simp add: example_hits Let_def example_entry_time example_select_empty)

theorem select_by_tag_spec_witness:
  "\<exists>st. select_ev_stat_by_tag log_leveldb () example_db example_cond example_select = Some st \<and>
        map ei_tag (es_info st) = [''ok'']"
  using select_by_tag_spec [OF log_leveldb_ok example_query_ok example_db_rows]
  by (simp add: example_hits Let_def example_entry_time example_select_empty)

definition example_store :: "unit StoreLevelDB" where
  "example_store = \<lparr>levelDBs = [(''svc'', \<lparr>current_suffix = ''201908'', ldb_handler = ()\<rparr>)], filepath = ''db'', table_prefix = ''t''\<rparr>"

lemma example_handler:
  "get_leveldb_handler log_leveldb (\<lambda>_. (119, 7)) 1566000000 ''svc'' (example_store, example_db) =
     (Some (), example_store, example_db)"
  by (simp add: get_leveldb_handler_def example_store_def get_table_suffix_def zero_pad_def dec_int_def dec_nat.simps
      digit_def char_of_eq_iff)

theorem select_metrics_spec_witness:
  "ldb_select_metrics log_leveldb (\<lambda>_. (119, 7)) 1566000000 ''svc'' [] (example_store, example_db) =
     Some (0, [''rps''], example_store, example_db)"
proof -
  have "{m. \<exists>e\<in>set (log_contents () example_db). entry_metric e = Some m} = {''rps''}"
    using entry_of_insert(4) [OF example_insert_ok] by (auto simp: example_contents example_insert_def)
  then show ?thesis using select_metrics_spec [OF log_leveldb_ok _ example_handler] by simp
qed

theorem insert_read_back_witness:
  "\<exists>e d'. ldb_insert_ev_stat log_leveldb (\<lambda>_. (119, 7)) 1566000000 (example_insert 1030 '''' 7) (example_store, example_db) =
           (0, example_store, d') \<and>
         e \<in> set (log_contents () d') \<and> entry_time e = 1030 \<and> entry_tag e = ''T'' \<and> ei_value_sum (entry_item e) = 7"
proof -
  let ?st = "example_insert 1030 '''' 7"
  define d' where "d' = snd (snd (ldb_insert_ev_stat log_leveldb (\<lambda>_. (119, 7)) 1566000000 ?st (example_store, example_db)))"
  have h: "get_leveldb_handler log_leveldb (\<lambda>_. (119, 7)) 1566000000 (ins_service ?st) (example_store, example_db) =
     (Some (), example_store, example_db)"
    using example_handler by (simp add: example_insert_def)
  have ins: "ldb_insert_ev_stat log_leveldb (\<lambda>_. (119, 7)) 1566000000 ?st (example_store, example_db) =
      (0, example_store, d')"
    unfolding d'_def ldb_insert_ev_stat_def h
    by (simp add: log_leveldb_def example_insert_def zero_insert_def)
  have "insert_ok ?st" by (simp add: example_insert_ok)
  from insert_read_back [OF log_leveldb_ok this example_db_rows h ins]
  obtain e where "e \<in> set (log_contents () d')" "entry_time e = 1030" "entry_tag e = ''T''" "entry_item e = info_of_insert ?st"
    by (auto simp: example_insert_def stored_tag_def zero_insert_def)
  moreover have "ei_value_sum (info_of_insert ?st) = 7" by (simp add: info_of_insert_def example_insert_def)
  ultimately show ?thesis using ins by metis
qed

end
