(* ===== verification/StorePipeline.thy ===== *)
theory StorePipeline
  imports StatStore EventRepos LevelDBQuery
begin

text \<open>
  The way of a slot through the server: \<open>EventHandler::do_process_event\<close> (\<open>source/Business/EventHandler.cpp\<close>)
  aggregates it and inserts its rows through \<open>StoreIf\<close> into the LevelDB store
  (\<open>source/Business/StoreLevelDB.cpp\<close>), and \<open>EventHandler::get_event\<close> answers a query from the same store. Here
  the store parameter of the handler and of the repository is the model of the LevelDB store, and what a
  client learns from a query is stated in terms of the data that were reported.
\<close>

section \<open>The LevelDB store behind its interface\<close>

text \<open>
  \<open>StoreLevelDB\<close> as a \<open>StoreIf\<close>. \<open>now\<close> is the clock that the operations read, \<open>dir\<close> the listing of the data
  directory. The state is the object and the databases.
\<close>

definition leveldb_store ::
    "('h, 'd) leveldb_api \<Rightarrow> (int \<Rightarrow> int \<times> int) \<Rightarrow> int \<Rightarrow> (string \<times> bool) list option \<Rightarrow>
     ('h StoreLevelDB \<times> 'd) StoreIf" where
  "leveldb_store api localtime now dir =
     \<lparr>insert_ev_stat = ldb_insert_ev_stat api localtime now,
      select_ev_stat = \<lambda>cond st linger_hint sd. ldb_select_ev_stat api localtime now cond linger_hint st sd,
      select_metrics = ldb_select_metrics api localtime now,
      select_services = \<lambda>services sd. (case ldb_select_services dir services (fst sd) of (ret, sv) \<Rightarrow> (ret, sv, sd))\<rparr>"

definition on_leveldb ::
    "('h, 'd) leveldb_api \<Rightarrow> (int \<Rightarrow> int \<times> int) \<Rightarrow> int \<Rightarrow> ('q, 'h StoreLevelDB \<times> 'd) store_env \<Rightarrow>
     ('q, 'h StoreLevelDB \<times> 'd) store_env" where
  "on_leveldb api localtime now env = env\<lparr>ldb := leveldb_store api localtime now None\<rparr>"

text \<open>Once opened, the table of a service is found in the map as long as the month stays the same.\<close>

lemma handler_cached:
  assumes "get_leveldb_handler api localtime now service sd = (Some h, s, d)" "om_wf (levelDBs (fst sd))"
  shows "service \<noteq> [] \<and> om_wf (levelDBs s) \<and>
         (\<exists>r. om_find (levelDBs s) service = Some r \<and> current_suffix r = get_table_suffix localtime now \<and> ldb_handler r = h)"
  using assms
  by (cases sd)
    (auto simp: get_leveldb_handler_def Let_def om_find_upd om_wf_upd split: if_splits option.splits prod.splits)

lemma handler_stays_open:
  assumes "get_leveldb_handler api localtime now service sd = (Some h, s, d)" "om_wf (levelDBs (fst sd))"
    and "get_table_suffix localtime now' = get_table_suffix localtime now"
  shows "get_leveldb_handler api localtime now' service (s, d') = (Some h, s, d')"
  using handler_cached [OF assms(1,2)] assms(3) by (auto simp: get_leveldb_handler_def Let_def)

lemma store_insert_leveldb:
  assumes "store_type (eh_conf h) = ''leveldb''" "leveldb_ptr ss = Some sd"
  shows "snd (store_insert (on_leveldb api localtime now env) h r ss) =
           ss\<lparr>leveldb_ptr := Some (snd (ldb_insert_ev_stat api localtime now r sd))\<rparr>"
  using assms
  by (simp add: store_insert_def virtual_call_def store_kind_def on_leveldb_def leveldb_store_def split: prod.splits)

lemma insert_rows_leveldb:
  assumes "store_type (eh_conf h) = ''leveldb''" "leveldb_ptr ss = Some sd"
  shows "insert_rows (store_insert (on_leveldb api localtime now env) h) rows ss =
           ss\<lparr>leveldb_ptr := Some (insert_rows (ldb_insert_ev_stat api localtime now) rows sd)\<rparr>"
  using assms(2)
proof (induction rows arbitrary: ss sd)
  case (Cons r rows)
  from Cons.IH [of "ss\<lparr>leveldb_ptr := Some (snd (ldb_insert_ev_stat api localtime now r sd))\<rparr>"]
    store_insert_leveldb [OF assms(1) Cons.prems]
  show ?case by (simp add: insert_rows_def)
qed (simp add: insert_rows_def)

section \<open>Inserting the rows of a slot\<close>

definition puts_succeed :: "('h, 'd) leveldb_api \<Rightarrow> 'h \<Rightarrow> bool" where
  "puts_succeed api h \<longleftrightarrow> (\<forall>k v d. fst (DB_Put api h k v d))"

lemma mset_om_upd: "k \<notin> fst ` set m \<Longrightarrow> mset (om_upd k v m) = add_mset (k, v) (mset m)"
proof (induction m)
  case (Cons e m)
  then show ?case by (cases e) auto
qed simp

lemma ldb_insert_one:
  assumes "leveldb_ok api contents" "puts_succeed api h" "insert_ok r"
    and "get_leveldb_handler api localtime now (ins_service r) (s, d) = (Some h, s, d)"
  shows "\<exists>d'. ldb_insert_ev_stat api localtime now r (s, d) = (0, s, d') \<and>
           contents h d' = om_upd (fst (stored_entry r)) (snd (stored_entry r)) (contents h d)"
proof -
  have "ins_service r \<noteq> []" "ins_metric r \<noteq> []" "ins_timestamp r \<noteq> 0" using assms(3) by (auto simp: insert_ok_def)
  then have "\<exists>d'. ldb_insert_ev_stat api localtime now r (s, d) = (0, s, d')"
    using assms(2,4) by (simp add: ldb_insert_ev_stat_def puts_succeed_def Let_def split: prod.splits) (metis fst_conv)
  with ldb_insert_eq [OF assms(1,3,4)] show ?thesis by blast
qed

text \<open>
  The LevelDB store as a provider of the interface: it takes rows with new and different keys for the open table \<open>hn\<close>,
  and the object \<open>s\<close> stays as it is.
\<close>

definition ldb_accepts ::
    "('h, 'd) leveldb_api \<Rightarrow> ('h \<Rightarrow> 'd \<Rightarrow> (string, string) omap) \<Rightarrow> (int \<Rightarrow> int \<times> int) \<Rightarrow> int \<Rightarrow> 'h \<Rightarrow> 'h StoreLevelDB \<Rightarrow>
     event_insert_t list \<Rightarrow> 'h StoreLevelDB \<times> 'd \<Rightarrow> bool" where
  "ldb_accepts api contents localtime now hn s rs sd \<longleftrightarrow>
     leveldb_ok api contents \<and> puts_succeed api hn \<and> om_wf (levelDBs s) \<and> fst sd = s \<and>
     (\<forall>r\<in>set rs. insert_ok r \<and> get_leveldb_handler api localtime now (ins_service r) sd = (Some hn, sd)) \<and>
     distinct (map (fst \<circ> stored_entry) rs) \<and> (\<forall>r\<in>set rs. fst (stored_entry r) \<notin> fst ` set (contents hn (snd sd)))"

interpretation ldbs: stat_store "ldb_insert_ev_stat api localtime now" "ldb_accepts api contents localtime now hn s"
  "\<lambda>sd. mset (contents hn (snd sd))" stored_entry
  for api contents localtime now hn s
proof
  fix r rs and sd :: "'a StoreLevelDB \<times> 'b"
  assume acc: "ldb_accepts api contents localtime now hn s (r # rs) sd"
  obtain d where sd: "sd = (s, d)" using acc by (cases sd) (simp add: ldb_accepts_def)
  have "leveldb_ok api contents" "puts_succeed api hn" "insert_ok r" "get_leveldb_handler api localtime now (ins_service r) (s, d) = (Some hn, s, d)"
    using acc by (simp_all add: ldb_accepts_def sd)
  from ldb_insert_one [OF this]
  obtain d1 where d1: "ldb_insert_ev_stat api localtime now r sd = (0, s, d1)"
    "contents hn d1 = om_upd (fst (stored_entry r)) (snd (stored_entry r)) (contents hn d)"
    unfolding sd by blast
  have ms: "mset (contents hn d1) = add_mset (stored_entry r) (mset (contents hn d))"
    using acc by (simp add: d1(2) mset_om_upd ldb_accepts_def sd)
  have fresh: "\<forall>r'\<in>set rs. fst (stored_entry r') \<notin> fst ` set (contents hn d1)"
    unfolding d1(2) om_upd_keys using acc by (auto simp: ldb_accepts_def sd comp_def) (metis image_eqI)+
  have "get_leveldb_handler api localtime now (ins_service r') (s, d1) = (Some hn, s, d1)" if "r' \<in> set rs" for r'
    using handler_stays_open [of api localtime now "ins_service r'" "(s, d)" hn s d now d1] acc that
    by (simp add: ldb_accepts_def sd)
  with acc fresh d1(1) ms show "fst (ldb_insert_ev_stat api localtime now r sd) = 0 \<and>
      mset (contents hn (snd (snd (ldb_insert_ev_stat api localtime now r sd)))) = add_mset (stored_entry r) (mset (contents hn (snd sd))) \<and>
      ldb_accepts api contents localtime now hn s rs (snd (ldb_insert_ev_stat api localtime now r sd))"
    by (simp add: ldb_accepts_def sd)
qed

text \<open>Rows with new and different keys are added to the table, and nothing else changes.\<close>

lemma insert_rows_contents:
  assumes "leveldb_ok api contents" "puts_succeed api h" "om_wf (levelDBs s)"
    and "get_leveldb_handler api localtime now service (s, d) = (Some h, s, d)"
    and "\<forall>r\<in>set rows. insert_ok r \<and> ins_service r = service"
    and "distinct (map (fst \<circ> stored_entry) rows)"
    and "\<forall>r\<in>set rows. fst (stored_entry r) \<notin> fst ` set (contents h d)"
  shows "\<exists>d'. insert_rows (ldb_insert_ev_stat api localtime now) rows (s, d) = (s, d') \<and>
           mset (contents h d') = mset (contents h d) + mset (map stored_entry rows)"
proof -
  let ?sd = "insert_rows (ldb_insert_ev_stat api localtime now) rows (s, d)"
  have "ldb_accepts api contents localtime now h s rows (s, d)" using assms by (simp add: ldb_accepts_def)
  from ldbs.insert_all [OF this] have "fst ?sd = s" "mset (contents h (snd ?sd)) = mset (contents h d) + mset (map stored_entry rows)"
    by (simp_all add: ldb_accepts_def)
  then show ?thesis by (metis prod.collapse)
qed

section \<open>The rows of a slot\<close>

definition entry_entity :: "string \<times> string \<Rightarrow> string" where
  "entry_entity e = (case parse_key (fst e) of None \<Rightarrow> [] | Some (m, t, tag, x) \<Rightarrow> x)"

definition plain :: "string \<Rightarrow> bool" where
  "plain s \<longleftrightarrow> CHR ''#'' \<notin> set s \<and> char_of (0::nat) \<notin> set s"

text \<open>
  The slots covered: names without separator that fit a key, and no metric with both the empty tag and the
  tag \<open>T\<close>, which the store writes under one key.
\<close>

definition storable :: "EventHandler \<Rightarrow> events_by_time_t \<Rightarrow> bool" where
  "storable h e \<longleftrightarrow>
     eh_service h \<noteq> [] \<and> 0 < ebt_timestamp e \<and> good_time (ebt_timestamp e) \<and> plain (eh_entity_idx h) \<and>
     om_wf (ebt_data e) \<and>
     (\<forall>(m, data)\<in>set (ebt_data e).
        m \<noteq> [] \<and> plain m \<and> length data < 2 ^ 31 \<and> \<not> {'''', ''T''} \<subseteq> ed_tag ` set data \<and>
        (\<forall>d\<in>set data. plain (ed_tag d) \<and> length m + length (ed_tag d) + length (eh_entity_idx h) < 4000))"

lemma storableD:
  assumes "storable h e" "(m, data) \<in> set (ebt_data e)"
  shows "m \<noteq> []" "plain m" "length data < 2 ^ 31" "\<not> {'''', ''T''} \<subseteq> ed_tag ` set data"
    "d \<in> set data \<Longrightarrow> plain (ed_tag d) \<and> length m + length (ed_tag d) + length (eh_entity_idx h) < 4000"
proof -
  have "case (m, data) of (m, data) \<Rightarrow>
        m \<noteq> [] \<and> plain m \<and> length data < 2 ^ 31 \<and> \<not> {'''', ''T''} \<subseteq> ed_tag ` set data \<and>
        (\<forall>d\<in>set data. plain (ed_tag d) \<and> length m + length (ed_tag d) + length (eh_entity_idx h) < 4000)"
    using assms unfolding storable_def by (elim conjE) (rule bspec)
  then show "m \<noteq> []" "plain m" "length data < 2 ^ 31" "\<not> {'''', ''T''} \<subseteq> ed_tag ` set data"
    "d \<in> set data \<Longrightarrow> plain (ed_tag d) \<and> length m + length (ed_tag d) + length (eh_entity_idx h) < 4000"
    by simp_all
qed

lemma stat_of_fits:
  assumes "vs \<noteq> []" "length vs < 2 ^ 31"
  shows "is_i32 (si_count (stat_of vs))" "is_i64 (si_value_sum (stat_of vs))" "is_i32 (si_value_avg (stat_of vs))"
    "is_i32 (si_value_min (stat_of vs))" "is_i32 (si_value_max (stat_of vs))" "is_i32 (si_value_p10 (stat_of vs))"
    "is_i32 (si_value_p50 (stat_of vs))" "is_i32 (si_value_p90 (stat_of vs))"
proof -
  let ?ws = "map to_i32 vs"
  have in_set: "is_i32 x" if "x \<in> set ?ws" for x using that to_i32_range by auto
  have "is_i32 (sort ?ws ! k)" if "k < length vs" for k
    using that by (intro in_set) (metis length_map length_sort nth_mem set_sort)
  moreover have "length vs div 10 < length vs" "length vs div 2 < length vs" "9 * length vs div 10 < length vs"
    using assms(1) by (auto simp: div_less_iff_less_mult)
  ultimately show "is_i32 (si_value_p10 (stat_of vs))" "is_i32 (si_value_p50 (stat_of vs))" "is_i32 (si_value_p90 (stat_of vs))"
    by (simp_all add: stat_of_def Let_def)
  have "Min (set ?ws) \<in> set ?ws" "Max (set ?ws) \<in> set ?ws" using assms(1) by (intro Min_in Max_in; simp)+
  then show "is_i32 (si_value_min (stat_of vs))" "is_i32 (si_value_max (stat_of vs))"
    using in_set by (simp_all add: stat_of_def Let_def)
  show "is_i32 (si_count (stat_of vs))" "is_i64 (si_value_sum (stat_of vs))" "is_i32 (si_value_avg (stat_of vs))"
    using assms(2) to_i32_range to_i64_range by (simp_all add: stat_of_def Let_def is_i32_def)
qed

definition slot_row :: "EventHandler \<Rightarrow> events_by_time_t \<Rightarrow> string \<Rightarrow> event_data_t list \<Rightarrow> string \<Rightarrow> event_insert_t" where
  "slot_row h e m data tag = fill_stat m tag (stat_of (tag_values tag (dedup_first data))) (stat_for h e)"

lemma slot_row_simps [simp]:
  "ins_metric (slot_row h e m data tag) = m" "ins_tag (slot_row h e m data tag) = tag"
  "ins_service (slot_row h e m data tag) = eh_service h" "ins_entity_idx (slot_row h e m data tag) = eh_entity_idx h"
  "ins_timestamp (slot_row h e m data tag) = ebt_timestamp e"
  "stored_tag (slot_row h e m data tag) = (if tag = [] then ''T'' else tag)"
  by (simp_all add: slot_row_def fill_stat_def stat_for_def stored_tag_def)

lemma set_metric_rows:
  assumes "storable h e" "(m, data) \<in> set (ebt_data e)"
  shows "set (metric_rows (stat_for h e) m data) = slot_row h e m data ` (ed_tag ` set (dedup_first data))"
  by (simp add: metric_rows_tags [OF storableD(3) [OF assms]] slot_row_def)

lemma slot_rows:
  assumes "storable h e" "r \<in> set (event_rows e (stat_for h e))"
  shows "\<exists>m data tag. r = slot_row h e m data tag \<and> (m, data) \<in> set (ebt_data e) \<and> tag \<in> ed_tag ` set (dedup_first data)"
proof -
  obtain m data where m: "(m, data) \<in> set (ebt_data e)" "r \<in> set (metric_rows (stat_for h e) m data)"
    using assms(2) by (auto simp: event_rows_def)
  with set_metric_rows [OF assms(1) m(1)] show ?thesis by blast
qed

lemma slot_row_ok:
  assumes "storable h e" "(m, data) \<in> set (ebt_data e)" "tag \<in> ed_tag ` set (dedup_first data)"
  shows "insert_ok (slot_row h e m data tag)"
proof -
  have "tag_values tag (dedup_first data) \<noteq> []" using assms(3) by (simp add: tag_values_Nil_iff)
  moreover have "length (tag_values tag (dedup_first data)) < 2 ^ 31"
    using assms(1,2) le_trans [OF length_filter_le length_dedup_first, of "\<lambda>d. ed_tag d = tag" data]
    by (auto simp: storable_def tag_values_def)
  ultimately have fits: "is_i32 (f (slot_row h e m data tag))"
    if "f \<in> {ins_count, ins_value_avg, ins_value_min, ins_value_max, ins_value_p10, ins_value_p50, ins_value_p90}" for f
    using that stat_of_fits [of "tag_values tag (dedup_first data)"] by (auto simp: slot_row_def fill_stat_def)
  have sum: "is_i64 (ins_value_sum (slot_row h e m data tag))"
    by (simp add: slot_row_def fill_stat_def stat_of_def Let_def to_i64_range)
  from assms(3) dedup_first_subset obtain d where "d \<in> set data" "ed_tag d = tag" by fastforce
  then have "m \<noteq> []" "plain m" "plain tag" "length m + length tag + length (eh_entity_idx h) < 4000"
    using assms(1,2) by (auto simp: storable_def)
  with fits sum assms(1) show ?thesis by (simp add: insert_ok_def storable_def plain_def)
qed

lemma stored_entry_eqD:
  assumes "insert_ok r" "insert_ok r'" "fst (stored_entry r) = fst (stored_entry r')"
  shows "ins_metric r = ins_metric r' \<and> stored_tag r = stored_tag r'"
  using parse_key_of [OF good_row_insert [OF assms(1)]] parse_key_of [OF good_row_insert [OF assms(2)]] assms(3)
  by (simp add: stored_entry_def)

lemma distinct_concat_keys:
  assumes "distinct (map fst m)" "\<And>k v. (k, v) \<in> set m \<Longrightarrow> distinct (map g (f k v))"
    and "\<And>k v k' v' x y. (k, v) \<in> set m \<Longrightarrow> (k', v') \<in> set m \<Longrightarrow> x \<in> set (f k v) \<Longrightarrow> y \<in> set (f k' v') \<Longrightarrow>
           g x = g y \<Longrightarrow> k = k'"
  shows "distinct (map g (concat (map (\<lambda>(k, v). f k v) m)))"
  using assms
proof (induction m)
  case (Cons e m)
  obtain k v where e: "e = (k, v)" by fastforce
  have "g ` set (f k v) \<inter> g ` set (concat (map (\<lambda>(k, v). f k v) m)) = {}"
    using Cons.prems(1,3) unfolding e by (fastforce simp: image_iff)
  moreover have "distinct (map g (concat (map (\<lambda>(k, v). f k v) m)))"
  proof (rule Cons.IH)
    show "distinct (map fst m)" using Cons.prems(1) by simp
    show "distinct (map g (f k v))" if "(k, v) \<in> set m" for k v using Cons.prems(2) [of k v] that by simp
    show "k = k'" if "(k, v) \<in> set m" "(k', v') \<in> set m" "x \<in> set (f k v)" "y \<in> set (f k' v')" "g x = g y" for k v k' v' x y
      using Cons.prems(3) [of k v k' v' x y] that by simp
  qed
  ultimately show ?case using Cons.prems(2) [of k v] by (simp add: e image_Un)
qed simp

text \<open>The keys of the rows of a slot are all different.\<close>

lemma slot_keys_distinct:
  assumes "storable h e"
  shows "distinct (map (fst \<circ> stored_entry) (event_rows e (stat_for h e)))"
  unfolding event_rows_def
proof (rule distinct_concat_keys)
  show "distinct (map fst (ebt_data e))" using assms om.entries_distinct by (auto simp: storable_def)
next
  fix m data
  assume m: "(m, data) \<in> set (ebt_data e)"
  let ?T = "ed_tag ` set (dedup_first data)"
  have "\<not> {'''', ''T''} \<subseteq> ed_tag ` set data" by (rule storableD(4) [OF assms m])
  moreover have "?T \<subseteq> ed_tag ` set data" by (rule image_mono [OF dedup_first_subset])
  ultimately have tags: "\<not> {'''', ''T''} \<subseteq> ?T" by blast
  have "inj_on (\<lambda>tag. fst (stored_entry (slot_row h e m data tag))) ?T"
  proof (rule inj_onI)
    fix a b
    assume a: "a \<in> ?T" and b: "b \<in> ?T"
      and eq: "fst (stored_entry (slot_row h e m data a)) = fst (stored_entry (slot_row h e m data b))"
    from stored_entry_eqD [OF slot_row_ok [OF assms m a] slot_row_ok [OF assms m b] eq]
    show "a = b" using a b tags by (auto split: if_splits)
  qed
  then show "distinct (map (fst \<circ> stored_entry) (metric_rows (stat_for h e) m data))"
    by (simp add: metric_rows_tags [OF storableD(3) [OF assms m]] distinct_map comp_def flip: slot_row_def)
next
  fix m data m' data' r r'
  assume m: "(m, data) \<in> set (ebt_data e)" "(m', data') \<in> set (ebt_data e)"
    and r: "r \<in> set (metric_rows (stat_for h e) m data)" "r' \<in> set (metric_rows (stat_for h e) m' data')"
    and eq: "(fst \<circ> stored_entry) r = (fst \<circ> stored_entry) r'"
  obtain tag where "r = slot_row h e m data tag" "insert_ok r"
    using r(1) set_metric_rows [OF assms m(1)] slot_row_ok [OF assms m(1)] by auto
  moreover obtain tag' where "r' = slot_row h e m' data' tag'" "insert_ok r'"
    using r(2) set_metric_rows [OF assms m(2)] slot_row_ok [OF assms m(2)] by auto
  ultimately show "m = m'" using stored_entry_eqD [of r r'] eq by simp
qed

lemma filter_concat_keys:
  assumes "distinct (map fst m)" "(k, v) \<in> set m" "\<And>k' v' r. (k', v') \<in> set m \<Longrightarrow> r \<in> set (f k' v') \<Longrightarrow> key r = k'"
  shows "filter (\<lambda>r. key r = k) (concat (map (\<lambda>(k, v). f k v) m)) = f k v"
  using assms
proof (induction m)
  case (Cons e m)
  obtain k' v' where e: "e = (k', v')" by fastforce
  have head: "\<forall>r\<in>set (f k' v'). key r = k'" using Cons.prems(3) [of k' v'] by (simp add: e)
  have rest: "filter (\<lambda>r. key r = k) (concat (map (\<lambda>(k, v). f k v) m)) = []" if "k \<notin> fst ` set m"
    using that Cons.prems(3) by (force simp: filter_empty_conv)
  show ?case
  proof (cases "(k, v) = e")
    case True
    with Cons.prems(1) head rest show ?thesis by (auto simp: e)
  next
    case False
    with Cons.prems have k: "(k, v) \<in> set m" "distinct (map fst m)" by auto
    then have "k \<noteq> k'" using Cons.prems(1) by (force simp: e)
    moreover have "filter (\<lambda>r. key r = k) (concat (map (\<lambda>(k, v). f k v) m)) = f k v"
      using k Cons.prems(3) by (intro Cons.IH) auto
    ultimately show ?thesis using head by (simp add: e filter_empty_conv)
  qed
qed simp

lemma slot_rows_of_metric:
  assumes "storable h e" "(m, data) \<in> set (ebt_data e)"
  shows "filter (\<lambda>r. ins_metric r = m) (event_rows e (stat_for h e)) = metric_rows (stat_for h e) m data"
  unfolding event_rows_def
proof (rule filter_concat_keys [OF _ assms(2)])
  show "distinct (map fst (ebt_data e))" using assms(1) om.entries_distinct by (auto simp: storable_def)
  show "ins_metric r = m'" if "(m', data') \<in> set (ebt_data e)" "r \<in> set (metric_rows (stat_for h e) m' data')" for m' data' r
    using that(2) set_metric_rows [OF assms(1) that(1)] by auto
qed

section \<open>From the report to the query\<close>

text \<open>The query looks at the whole slot: no tag, this entity or none, the time of the slot inside its window.\<close>

definition covers :: "event_cond_t \<Rightarrow> int \<Rightarrow> EventHandler \<Rightarrow> events_by_time_t \<Rightarrow> bool" where
  "covers cond T h e \<longleftrightarrow>
     ec_groupby cond = kGroupNone \<and> ec_tag cond = [] \<and> ec_entity_idx cond \<in> {[], eh_entity_idx h} \<and>
     ec_service cond = eh_service h \<and> ebt_timestamp e \<le> T \<and>
     (0 < ec_tm_interval cond \<longrightarrow> T - ec_tm_interval cond < ebt_timestamp e)"

lemma in_query_row:
  assumes "covers cond T h e" "insert_ok r" "ins_timestamp r = ebt_timestamp e" "ins_entity_idx r = eh_entity_idx h"
  shows "in_query cond T (stored_entry r) \<longleftrightarrow> ins_metric r = ec_metric cond"
  using parse_key_of [OF good_row_insert [OF assms(2)]] assms(1-4)
  by (auto simp: in_query_def stored_entry_def covers_def insert_ok_def atoll_countdown)

lemma sum_list_mset_split:
  fixes f :: "'a \<Rightarrow> int"
  shows "mset xs = mset ys + mset zs \<Longrightarrow> sum_list (map f xs) = sum_list (map f ys) + sum_list (map f zs)"
  by (metis map_append mset_append mset_map sum_list_append sum_mset_sum_list)

lemma hits_after_slot:
  assumes "storable h e" "covers cond (es_timestamp st) h e" "(ec_metric cond, data) \<in> set (ebt_data e)"
    and "mset (contents hn d') = mset (contents hn d) + mset (map stored_entry (event_rows e (stat_for h e)))"
  shows "mset (hits contents hn d' cond st) =
           mset (hits contents hn d cond st) + mset (map stored_entry (metric_rows (stat_for h e) (ec_metric cond) data))"
proof -
  let ?rows = "event_rows e (stat_for h e)"
  have "in_query cond (es_timestamp st) (stored_entry r) \<longleftrightarrow> ins_metric r = ec_metric cond" if "r \<in> set ?rows" for r
    using slot_rows [OF assms(1) that] slot_row_ok [OF assms(1)] in_query_row [OF assms(2)] by auto
  then have "filter (in_query cond (es_timestamp st)) (map stored_entry ?rows) =
      map stored_entry (filter (\<lambda>r. ins_metric r = ec_metric cond) ?rows)"
    by (simp add: filter_map comp_def cong: filter_cong)
  moreover have "mset (hits contents hn d' cond st) =
      mset (hits contents hn d cond st) + mset (filter (in_query cond (es_timestamp st)) (map stored_entry ?rows))"
    unfolding hits_def using assms(4) by (metis filter_union_mset mset_filter)
  ultimately show ?thesis using slot_rows_of_metric [OF assms(1,3)] by simp
qed

text \<open>What a query without grouping adds up.\<close>

definition counted :: "(string \<times> string) list \<Rightarrow> int" where
  "counted q = sum_list (map (ei_count \<circ> entry_item) q)"

definition summed :: "(string \<times> string) list \<Rightarrow> int" where
  "summed q = sum_list (map (ei_value_sum \<circ> entry_item) q)"

lemma counted_after_slot:
  assumes "storable h e" "covers cond (es_timestamp st) h e" "(ec_metric cond, data) \<in> set (ebt_data e)"
    and "mset (contents hn d') = mset (contents hn d) + mset (map stored_entry (event_rows e (stat_for h e)))"
  shows "counted (hits contents hn d' cond st) = counted (hits contents hn d cond st) + int (card (ed_msgid ` set data))"
    and "to_i64 (summed (hits contents hn d' cond st)) =
           to_i64 (summed (hits contents hn d cond st) + sum_list (map ed_value (dedup_first data)))"
proof -
  let ?rows = "metric_rows (stat_for h e) (ec_metric cond) data"
  have "entry_item (stored_entry r) = info_of_insert r" if "r \<in> set ?rows" for r
    using that set_metric_rows [OF assms(1,3)] slot_row_ok [OF assms(1,3)] entry_of_insert(1) by auto
  then have rows: "map (ei_count \<circ> entry_item) (map stored_entry ?rows) = map ins_count ?rows"
    "map (ei_value_sum \<circ> entry_item) (map stored_entry ?rows) = map ins_value_sum ?rows"
    by (simp_all add: info_of_insert_def)
  note split = sum_list_mset_split [OF hits_after_slot [where contents = contents and hn = hn and d = d and d' = d', OF assms]]
    and account = metric_rows_account [OF storableD(3) [OF assms(1,3)]]
  from split [of "ei_count \<circ> entry_item"] account(1) show
    "counted (hits contents hn d' cond st) = counted (hits contents hn d cond st) + int (card (ed_msgid ` set data))"
    by (simp only: counted_def rows)
  from split [of "ei_value_sum \<circ> entry_item"] account(2) show
    "to_i64 (summed (hits contents hn d' cond st)) =
       to_i64 (summed (hits contents hn d cond st) + sum_list (map ed_value (dedup_first data)))"
    by (simp only: summed_def rows)
qed

text \<open>
  The table of the handler's service after the slot was processed: the rows before, with the rows of the slot.
\<close>

lemma slot_stored:
  assumes "leveldb_ok api contents" "puts_succeed api hn" "storable h e"
    and "has_store h" "store_type (eh_conf h) = ''leveldb''" "leveldb_ptr ss = Some (s, d)" "om_wf (levelDBs s)"
    and "get_leveldb_handler api localtime now (eh_service h) (s, d) = (Some hn, s, d)"
    and "\<forall>x\<in>set (contents hn d). stored_row x \<and> \<not> (entry_time x = ebt_timestamp e \<and> entry_entity x = eh_entity_idx h)"
  shows "\<exists>d'. snd (do_process_event (has_store h) (store_insert (on_leveldb api localtime now env) h) e (stat_for h e) ss) =
             ss\<lparr>leveldb_ptr := Some (s, d')\<rparr> \<and>
           mset (contents hn d') = mset (contents hn d) + mset (map stored_entry (event_rows e (stat_for h e))) \<and>
           (\<forall>x\<in>set (contents hn d'). stored_row x)"
proof -
  let ?rows = "event_rows e (stat_for h e)"
  have row: "insert_ok r" "ins_service r = eh_service h" "ins_timestamp r = ebt_timestamp e" "ins_entity_idx r = eh_entity_idx h"
    if "r \<in> set ?rows" for r
    using slot_rows [OF assms(3) that] slot_row_ok [OF assms(3)] by auto
  have fresh: "fst (stored_entry r) \<notin> fst ` set (contents hn d)" if "r \<in> set ?rows" for r
  proof
    assume "fst (stored_entry r) \<in> fst ` set (contents hn d)"
    then obtain x where x: "x \<in> set (contents hn d)" "fst x = fst (stored_entry r)" by auto
    then have "entry_time x = ebt_timestamp e \<and> entry_entity x = eh_entity_idx h"
      using parse_key_of [OF good_row_insert [OF row(1) [OF that]]] row [OF that]
      by (simp add: entry_time_def entry_entity_def stored_entry_def atoll_countdown insert_ok_def)
    with x(1) assms(9) show False by blast
  qed
  obtain d' where d': "insert_rows (ldb_insert_ev_stat api localtime now) ?rows (s, d) = (s, d')"
    "mset (contents hn d') = mset (contents hn d) + mset (map stored_entry ?rows)"
    using insert_rows_contents [OF assms(1,2,7,8) _ slot_keys_distinct [OF assms(3)]] row fresh by blast
  have "set (contents hn d') = set (contents hn d) \<union> stored_entry ` set ?rows"
    using arg_cong [OF d'(2), of set_mset] by simp
  then have "\<forall>x\<in>set (contents hn d'). stored_row x" using assms(9) row(1) stored_row_entry by auto
  with d' assms(4) insert_rows_leveldb [OF assms(5,6)] show ?thesis by (auto simp: process_event_rows intro: exI [of _ d'])
qed

text \<open>
  After a slot has been processed, a query without grouping over it reports for every metric of the slot
  what it reported before plus the number of different message ids, and the sum of their
  first values, that were collected for that metric: nothing is lost on the way from the handler through
  aggregation, the keys and the stored bytes back to the client, and a repeated report counts once. Slots of
  other times and other entities are not touched.
\<close>
theorem slot_then_query:
  assumes "leveldb_ok api contents" "puts_succeed api hn" "storable h e"
    and "has_store h" "store_type (eh_conf h) = ''leveldb''" "leveldb_ptr ss = Some (s, d)" "om_wf (levelDBs s)"
    and "get_leveldb_handler api localtime now (eh_service h) (s, d) = (Some hn, s, d)"
    and "\<forall>x\<in>set (contents hn d). stored_row x \<and> \<not> (entry_time x = ebt_timestamp e \<and> entry_entity x = eh_entity_idx h)"
    and "get_table_suffix localtime later = get_table_suffix localtime now"
    and "st = query_head later cond (event_linger (eh_conf h)) empty_select" "query_ok cond st"
    and "covers cond (es_timestamp st) h e" "(ec_metric cond, data) \<in> set (ebt_data e)"
  shows "case do_process_event (has_store h) (store_insert (on_leveldb api localtime now env) h) e (stat_for h e) ss of
           (_, ss') \<Rightarrow>
             (case eh_get_event (on_leveldb api localtime later env) cond empty_select h ss' of
                None \<Rightarrow> False
              | Some (ret, answer, _) \<Rightarrow>
                  ret = 0 \<and>
                  ei_count (es_summary answer) =
                    to_i32 (counted (hits contents hn d cond st) + int (card (ed_msgid ` set data))) \<and>
                  ei_value_sum (es_summary answer) =
                    to_i64 (summed (hits contents hn d cond st) + sum_list (map ed_value (dedup_first data))))"
proof -
  let ?rows = "event_rows e (stat_for h e)"
  obtain d' where d': "snd (do_process_event (has_store h) (store_insert (on_leveldb api localtime now env) h) e (stat_for h e) ss) =
      ss\<lparr>leveldb_ptr := Some (s, d')\<rparr>"
    "mset (contents hn d') = mset (contents hn d) + mset (map stored_entry ?rows)" "\<forall>x\<in>set (contents hn d'). stored_row x"
    using slot_stored [OF assms(1-9)] by blast
  have h: "get_leveldb_handler api localtime later (ec_service cond) (s, d') = (Some hn, s, d')"
    using handler_stays_open [OF assms(8) _ assms(10)] assms(7,13) by (simp add: covers_def)
  let ?answer = "st\<lparr>es_summary := summary_total (row_items (hits contents hn d' cond st))\<rparr>"
  have "eh_get_event (on_leveldb api localtime later env) cond empty_select h (ss\<lparr>leveldb_ptr := Some (s, d')\<rparr>) =
      Some (0, ?answer, ss\<lparr>leveldb_ptr := Some (s, d')\<rparr>)"
    using h assms(3-5,11,13) select_by_none [OF assms(1,12) d'(3)]
    by (simp add: eh_get_event_def virtual_call_def store_kind_def on_leveldb_def leveldb_store_def
        ldb_select_ev_stat_def covers_def storable_def Let_def)
  moreover have "ei_count (es_summary ?answer) = to_i32 (counted (hits contents hn d' cond st))"
    "ei_value_sum (es_summary ?answer) = to_i64 (summed (hits contents hn d' cond st))"
    by (simp_all add: summary_total_def with_means_def wrapped_sums_def Let_def row_items_def counted_def summed_def comp_def)
  ultimately show ?thesis
    using d'(1) counted_after_slot [where contents = contents and hn = hn and d = d and d' = d', OF assms(3,13,14) d'(2)] by (simp add: case_prod_unfold)
qed

section \<open>The empty tag and the tag \<open>T\<close>\<close>

lemma om_upd_again: "om_upd k v (om_upd k v' m) = om_upd k v m"
  by (induction m) auto

text \<open>
  C37. The store writes an empty tag as \<open>T\<close>, so the rows without tag and with tag \<open>T\<close> of one metric, time and
  entity have one key: the second insertion replaces the first, and the table is as if the untagged
  values had never been reported.
\<close>
theorem untagged_row_overwritten:
  assumes "leveldb_ok api contents" "puts_succeed api hn" "om_wf (levelDBs s)"
    and "get_leveldb_handler api localtime now (ins_service r) (s, d) = (Some hn, s, d)"
    and "insert_ok r" "ins_tag r = []" "r' = r\<lparr>ins_tag := ''T'', ins_count := n, ins_value_sum := v\<rparr>" "insert_ok r'"
  shows "contents hn (snd (insert_rows (ldb_insert_ev_stat api localtime now) [r, r'] (s, d))) =
         contents hn (snd (insert_rows (ldb_insert_ev_stat api localtime now) [r'] (s, d)))"
proof -
  have same: "ins_service r' = ins_service r" "fst (stored_entry r') = fst (stored_entry r)"
    using assms(6,7) by (simp_all add: stored_entry_def stored_tag_def)
  obtain d1 where d1: "ldb_insert_ev_stat api localtime now r (s, d) = (0, s, d1)"
    "contents hn d1 = om_upd (fst (stored_entry r)) (snd (stored_entry r)) (contents hn d)"
    using ldb_insert_one [OF assms(1,2,5,4)] by blast
  have "get_leveldb_handler api localtime now (ins_service r') (s, d1) = (Some hn, s, d1)"
    using handler_stays_open [OF assms(4)] assms(3) same(1) by simp
  from ldb_insert_one [OF assms(1,2,8) this] obtain d2 where d2: "ldb_insert_ev_stat api localtime now r' (s, d1) = (0, s, d2)"
    "contents hn d2 = om_upd (fst (stored_entry r')) (snd (stored_entry r')) (contents hn d1)"
    by blast
  obtain d3 where d3: "ldb_insert_ev_stat api localtime now r' (s, d) = (0, s, d3)"
    "contents hn d3 = om_upd (fst (stored_entry r')) (snd (stored_entry r')) (contents hn d)"
    using ldb_insert_one [OF assms(1,2,8)] assms(4) same(1) by metis
  from d1 d2 d3 show ?thesis by (simp add: insert_rows_def om_upd_again same(2))
qed

section \<open>Witnesses\<close>

text \<open>A slot with three reported values, one of them twice, and a query of the minute around it.\<close>

definition pipeline_handler :: EventHandler where
  "pipeline_handler =
     (mk_EventHandler ''svc'' ''1'')\<lparr>has_store := True, eh_conf := \<lparr>event_linger = 5, event_step = 10,
        additional_process_step_size = 3, store_type = ''leveldb''\<rparr>\<rparr>"

definition pipeline_data :: "event_data_t list" where
  "pipeline_data =
     [\<lparr>ed_msgid = 1, ed_metric = ''rps'', ed_tag = ''ok'', ed_value = 5\<rparr>,
      \<lparr>ed_msgid = 1, ed_metric = ''rps'', ed_tag = ''ok'', ed_value = 6\<rparr>,
      \<lparr>ed_msgid = 2, ed_metric = ''rps'', ed_tag = ''bad'', ed_value = -4\<rparr>]"

definition pipeline_slot :: events_by_time_t where
  "pipeline_slot = \<lparr>ebt_timestamp = 1030, ebt_step = 10, ebt_data = [(''rps'', pipeline_data)]\<rparr>"

definition pipeline_cond :: event_cond_t where
  "pipeline_cond =
     default_cond\<lparr>ec_service := ''svc'', ec_metric := ''rps'', ec_tm_interval := 60, ec_tm_start := 1060, ec_entity_idx := ''1''\<rparr>"

definition pipeline_stores :: "(unit, unit StoreLevelDB \<times> (string \<times> string) list) stores_t" where
  "pipeline_stores = \<lparr>mysql_ptr = None, leveldb_ptr = Some (example_store, [])\<rparr>"

definition pipeline_env :: "(unit, unit StoreLevelDB \<times> (string \<times> string) list) store_env" where
  "pipeline_env =
     \<lparr>sql = example_store_if, ldb = leveldb_store log_leveldb (\<lambda>_. (119, 7)) 1566000000 None, conf_ready = True,
      sql_init = None, ldb_init_result = None\<rparr>"

lemma pipeline_storable: "storable pipeline_handler pipeline_slot"
  by (simp add: storable_def pipeline_handler_def pipeline_slot_def pipeline_data_def mk_EventHandler_def good_time_def
      plain_def om_wf_def char_of_eq_iff)

lemma pipeline_table:
  "get_leveldb_handler log_leveldb (\<lambda>_. (119, 7)) 1566000000 ''svc'' (example_store, []) = (Some (), example_store, [])"
  by (rule handler_stays_open [OF example_handler _ refl]) (simp add: example_store_def om_wf_def)

theorem slot_then_query_witness:
  "case do_process_event (has_store pipeline_handler)
          (store_insert (on_leveldb log_leveldb (\<lambda>_. (119, 7)) 1566000000 pipeline_env) pipeline_handler) pipeline_slot
          (stat_for pipeline_handler pipeline_slot) pipeline_stores of
     (_, ss') \<Rightarrow>
       (case eh_get_event (on_leveldb log_leveldb (\<lambda>_. (119, 7)) 1566000007 pipeline_env) pipeline_cond empty_select pipeline_handler ss' of
          None \<Rightarrow> False
        | Some (ret, answer, _) \<Rightarrow>
            ret = 0 \<and> ei_count (es_summary answer) = 2 \<and> ei_value_sum (es_summary answer) = 1)"
proof -
  let ?st = "query_head 1566000007 pipeline_cond (event_linger (eh_conf pipeline_handler)) empty_select"
  have none: "log_contents () [] = []" by (simp add: log_contents_def)
  have ok: "puts_succeed log_leveldb ()" "om_wf (levelDBs example_store)"
    by (simp_all add: puts_succeed_def log_leveldb_def example_store_def om_wf_def)
  have h: "has_store pipeline_handler" "store_type (eh_conf pipeline_handler) = ''leveldb''" "eh_service pipeline_handler = ''svc''"
    "leveldb_ptr pipeline_stores = Some (example_store, [])"
    by (simp_all add: pipeline_handler_def mk_EventHandler_def pipeline_stores_def)
  have q: "query_ok pipeline_cond ?st" "covers pipeline_cond (es_timestamp ?st) pipeline_handler pipeline_slot"
    "(ec_metric pipeline_cond, pipeline_data) \<in> set (ebt_data pipeline_slot)"
    by (simp_all add: query_ok_def covers_def query_head_def pipeline_cond_def pipeline_handler_def pipeline_slot_def
        mk_EventHandler_def default_cond_def good_time_def empty_select_def)
  have "counted (hits log_contents () [] pipeline_cond ?st) = 0" "summed (hits log_contents () [] pipeline_cond ?st) = 0"
    by (simp_all add: hits_def none counted_def summed_def)
  moreover have "card (ed_msgid ` set pipeline_data) = 2" "sum_list (map ed_value (dedup_first pipeline_data)) = 1"
    by (simp_all add: pipeline_data_def)
  moreover have "to_i32 (0 + int 2) = 2" "to_i64 (0 + 1) = 1" by (simp_all add: to_i32_id to_i64_id is_i32_def is_i64_def)
  ultimately have nums: "to_i32 (counted (hits log_contents () [] pipeline_cond ?st) + int (card (ed_msgid ` set pipeline_data))) = 2"
    "to_i64 (summed (hits log_contents () [] pipeline_cond ?st) + sum_list (map ed_value (dedup_first pipeline_data))) = 1"
    by (simp_all only:)
  have "get_leveldb_handler log_leveldb (\<lambda>_. (119, 7)) 1566000000 (eh_service pipeline_handler) (example_store, []) =
      (Some (), example_store, [])"
    using pipeline_table by (simp only: h(3))
  from slot_then_query [OF log_leveldb_ok ok(1) pipeline_storable h(1,2,4) ok(2) this _ _ refl q, where env = pipeline_env]
  show ?thesis unfolding nums by (simp add: none get_table_suffix_def)
qed

theorem untagged_row_overwritten_witness:
  "log_contents () (snd (insert_rows (ldb_insert_ev_stat log_leveldb (\<lambda>_. (119, 7)) 1566000000)
       [example_insert 1030 '''' 7, (example_insert 1030 '''' 7)\<lparr>ins_tag := ''T'', ins_count := 1, ins_value_sum := 3\<rparr>] (example_store, []))) =
   log_contents () (snd (insert_rows (ldb_insert_ev_stat log_leveldb (\<lambda>_. (119, 7)) 1566000000)
       [(example_insert 1030 '''' 7)\<lparr>ins_tag := ''T'', ins_count := 1, ins_value_sum := 3\<rparr>] (example_store, [])))"
proof (rule untagged_row_overwritten [OF log_leveldb_ok])
  show "insert_ok (example_insert 1030 '''' 7)" by (simp add: example_insert_ok)
  then show "insert_ok ((example_insert 1030 '''' 7)\<lparr>ins_tag := ''T'', ins_count := 1, ins_value_sum := 3\<rparr>)"
    by (simp add: insert_ok_def example_insert_def char_of_eq_iff is_i32_def is_i64_def)
qed (use pipeline_table in \<open>simp_all add: puts_succeed_def log_leveldb_def example_store_def om_wf_def example_insert_def zero_insert_def\<close>)

end
