(* ===== verification/ServerRun.thy ===== *)
theory ServerRun
  imports StorePipeline
begin

text \<open>
  A whole run of one handler of the server with the LevelDB store behind it: reports arrive, the linger timer
  closes slots, the processing thread and the helper threads store them, in any order, and a client
  asks for the statistics. The steps are those of \<open>EventHandler\<close> (\<open>source/Business/EventHandler.cpp\<close>) with the store of
  \<open>StoreLevelDB\<close>; a helper thread is interleaved with the others slot by slot. What the client
  is told is stated in terms of the reports that were accepted.
\<close>

section \<open>The run\<close>

text \<open>
  \<open>helpers\<close> are the batches given to helper threads and not processed yet, each with the slots its
  \<open>run_once_task\<close> has left; \<open>processed\<close> lists the slots stored so far.
\<close>

record ('q, 'l) server_run =
  run_line :: timeline
  helpers :: "events_by_time_t list list"
  processed :: "events_by_time_t list"
  run_stores :: "('q, 'l) stores_t"

definition process_slot ::
    "('h, 'd) leveldb_api \<Rightarrow> (int \<Rightarrow> int \<times> int) \<Rightarrow> ('q, 'h StoreLevelDB \<times> 'd) store_env \<Rightarrow> timeline \<Rightarrow>
     events_by_time_t \<Rightarrow> ('q, 'h StoreLevelDB \<times> 'd) stores_t \<Rightarrow> ('q, 'h StoreLevelDB \<times> 'd) stores_t" where
  "process_slot api localtime env l e ss =
     snd (do_process_event (has_store (handler l)) (store_insert (on_leveldb api localtime (clock l) env) (handler l)) e
            (stat_for (handler l) e) ss)"

inductive run_step ::
    "('h, 'd) leveldb_api \<Rightarrow> (int \<Rightarrow> int \<times> int) \<Rightarrow> ('q, 'h StoreLevelDB \<times> 'd) store_env \<Rightarrow>
     ('q, 'h StoreLevelDB \<times> 'd) server_run \<Rightarrow> ('q, 'h StoreLevelDB \<times> 'd) server_run \<Rightarrow> bool"
  for api localtime env where
  run_tick: "l = run_line s \<Longrightarrow> clock l \<le> t \<Longrightarrow> run_step api localtime env s (s\<lparr>run_line := l\<lparr>clock := t\<rparr>\<rparr>)"
| run_report:
    "l = run_line s \<Longrightarrow>
     run_step api localtime env s
       (s\<lparr>run_line := l\<lparr>handler := snd (eh_add_event (clock l) ev (handler l)),
                        accepted := accepted l @ taken_in (clock l) ev (handler l)\<rparr>\<rparr>)"
| run_linger:
    "l = run_line s \<Longrightarrow>
     run_step api localtime env s
       (s\<lparr>run_line := l\<lparr>handler := linger_check_run (clock l) (handler l),
                        closed := closed l @ newly_closed (clock l) (handler l)\<rparr>\<rparr>)"
| run_work:
    "l = run_line s \<Longrightarrow>
     run_turn [] (store_insert (on_leveldb api localtime (clock l) env) (handler l)) (handler l) (run_stores s) =
       Some (bs, ev, h', ss') \<Longrightarrow>
     run_step api localtime env s
       (s\<lparr>run_line := l\<lparr>handler := h'\<rparr>, helpers := helpers s @ bs,
          processed := processed s @ (case ev of None \<Rightarrow> [] | Some e \<Rightarrow> [e]), run_stores := ss'\<rparr>)"
| run_helper:
    "helpers s = bs1 @ (e # b) # bs2 \<Longrightarrow>
     run_step api localtime env s
       (s\<lparr>helpers := bs1 @ b # bs2, processed := processed s @ [e],
          run_stores := process_slot api localtime env (run_line s) e (run_stores s)\<rparr>)"

inductive_cases run_stepE: "run_step api localtime env s s'"

inductive run_reach ::
    "('h, 'd) leveldb_api \<Rightarrow> (int \<Rightarrow> int \<times> int) \<Rightarrow> ('q, 'h StoreLevelDB \<times> 'd) store_env \<Rightarrow>
     ('q, 'h StoreLevelDB \<times> 'd) server_run \<Rightarrow> ('q, 'h StoreLevelDB \<times> 'd) server_run \<Rightarrow> bool"
  for api localtime env s0 where
  run_start: "run_reach api localtime env s0 s0"
| run_more: "run_reach api localtime env s0 s \<Longrightarrow> run_step api localtime env s s' \<Longrightarrow> run_reach api localtime env s0 s'"

definition fresh_run :: "int \<Rightarrow> EventHandler \<Rightarrow> ('q, 'l) stores_t \<Rightarrow> ('q, 'l) server_run" where
  "fresh_run t h ss = \<lparr>run_line = fresh_timeline t h, helpers = [], processed = [], run_stores = ss\<rparr>"

text \<open>The slots waiting somewhere between the timer and the store.\<close>

definition waiting_slots :: "('q, 'l) server_run \<Rightarrow> events_by_time_t list" where
  "waiting_slots s = concat (helpers s) @ items (process_queue (handler (run_line s)))"

section \<open>A run is a run of the handler\<close>

lemma drain_batches_split: "drain_batches n q = (bs, q') \<Longrightarrow> items q = concat bs @ items q'"
proof (induction n q arbitrary: bs q' rule: drain_batches.induct)
  case (1 n q)
  define k where "k = (if items q = [] then 0 else min (max 1 (nat (to_u64 n))) (length (items q)))"
  let ?q = "q\<lparr>items := drop k (items q)\<rparr>"
  have pop: "POP_batch [] [] (nat (to_u64 n)) q = (k, take k (items q), ?q)" by (simp add: POP_batch_now Let_def k_def)
  show ?case
  proof (cases "int (SIZE q) > to_u64 (to_i32 (2 * n)) \<and> k \<noteq> 0")
    case True
    obtain bs1 q1 where d: "drain_batches n ?q = (bs1, q1)" by fastforce
    with "1.prems" True have bs: "bs = take k (items q) # bs1" "q' = q1"
      by (simp_all add: drain_batches.simps [of n q] pop)
    from "1.IH" [OF conjunct1 [OF True] pop [symmetric] refl conjunct2 [OF True] d]
    have "drop k (items q) = concat bs1 @ items q1" by simp
    with bs append_take_drop_id [of k "items q"] show ?thesis by simp
  next
    case False
    then have "items q' = items q \<and> bs = []"
      using "1.prems" by (auto simp: drain_batches.simps [of n q] pop split: if_splits)
    then show ?thesis by simp
  qed
qed

lemma run_turn_parts:
  assumes "run_turn [] insf h st = Some (bs, ev, h', st')"
  shows "items (process_queue h) = concat bs @ (case ev of None \<Rightarrow> [] | Some e \<Rightarrow> [e]) @ items (process_queue h')"
    and "run_turn [] (\<lambda>_ _. (0, ())) h () = Some (bs, ev, h', ())"
    and "st' = (case ev of None \<Rightarrow> st | Some e \<Rightarrow> snd (do_process_event (has_store h) insf e (stat_for h e) st))"
    and "h' = h\<lparr>process_queue := process_queue h'\<rparr>"
proof -
  obtain bs1 q1 where d: "drain_batches (additional_process_step_size (eh_conf h)) (process_queue h) = (bs1, q1)" by fastforce
  have p: "POP_timed [] q1 = (case items q1 of [] \<Rightarrow> (None, q1) | e # es \<Rightarrow> (Some e, q1\<lparr>items := es\<rparr>))"
    by (simp add: POP_timed_def pop_front_def split: list.splits)
  from assms d have nt: "\<not> thread_terminate h" by (auto simp: run_turn_def split: if_splits)
  from assms d p nt show "items (process_queue h) = concat bs @ (case ev of None \<Rightarrow> [] | Some e \<Rightarrow> [e]) @ items (process_queue h')"
    using drain_batches_split [OF d] by (auto simp: run_turn_def Let_def split: list.splits)
  from assms d p nt show "run_turn [] (\<lambda>_ _. (0, ())) h () = Some (bs, ev, h', ())"
    "st' = (case ev of None \<Rightarrow> st | Some e \<Rightarrow> snd (do_process_event (has_store h) insf e (stat_for h e) st))"
    "h' = h\<lparr>process_queue := process_queue h'\<rparr>"
    by (auto simp: run_turn_def Let_def split: list.splits)
qed

text \<open>The store has no effect on the timeline: every step of a run is a step of the timeline, or none.\<close>

lemma run_step_line: "run_step api localtime env s s' \<Longrightarrow> tl_step (run_line s) (run_line s') \<or> run_line s' = run_line s"
  by (erule run_stepE) (auto intro: tl_step.intros dest: run_turn_parts(2))

lemma run_reach_line:
  assumes "run_reach api localtime env s0 s"
  shows "tl_reach (run_line s0) (run_line s)"
  using assms by induction (auto intro: tl_reach.intros dest: run_step_line)

section \<open>No slot is lost\<close>

definition same_handler :: "EventHandler \<Rightarrow> EventHandler \<Rightarrow> bool" where
  "same_handler h h' \<longleftrightarrow>
     eh_service h' = eh_service h \<and> eh_entity_idx h' = eh_entity_idx h \<and> eh_conf h' = eh_conf h \<and>
     has_store h' = has_store h \<and> thread_terminate h' = thread_terminate h"

definition filled :: "events_by_time_t \<Rightarrow> bool" where
  "filled e \<longleftrightarrow> (\<forall>(m, data)\<in>set (ebt_data e). data \<noteq> [])"

definition slots_inv :: "EventHandler \<Rightarrow> ('q, 'l) server_run \<Rightarrow> bool" where
  "slots_inv h s \<longleftrightarrow>
     same_handler h (handler (run_line s)) \<and> mset (closed (run_line s)) = mset (processed s) + mset (waiting_slots s) \<and>
     (\<forall>e\<in>set (slots (run_line s)). filled e)"

lemma om_upd_entries: "e \<in> set (om_upd k v m) \<Longrightarrow> e = (k, v) \<or> e \<in> set m"
  by (induction m) (auto split: if_splits)

lemma om_find_entry: "om_find m k = Some v \<Longrightarrow> (k, v) \<in> set m"
  by (induction m) (auto split: if_splits)

lemma fold_add_to_slot_filled:
  "\<forall>(m, data)\<in>set slot. data \<noteq> [] \<Longrightarrow> \<forall>(m, data)\<in>set (fold add_to_slot ds slot). data \<noteq> []"
proof (induction ds arbitrary: slot)
  case (Cons d ds)
  have "\<forall>(m, data)\<in>set (add_to_slot d slot). data \<noteq> []"
    using Cons.prems by (auto simp: add_to_slot_def Let_def dest!: om_upd_entries)
  with Cons.IH show ?case by simp
qed simp

lemma do_add_event_filled:
  assumes "\<forall>e\<in>set (map snd (events h)). filled e"
  shows "\<forall>e\<in>set (map snd (events (snd (do_add_event t data h)))). filled e"
proof -
  define k where "k = nice_step (eh_conf h) t"
  define e0 where "e0 = (case om_find (events h) k of
       None \<Rightarrow> \<lparr>ebt_timestamp = k, ebt_step = event_step (eh_conf h), ebt_data = []\<rparr> | Some e \<Rightarrow> e)"
  define e1 where "e1 = e0\<lparr>ebt_data := fold add_to_slot data (ebt_data e0)\<rparr>"
  have ev: "events (snd (do_add_event t data h)) = om_upd k e1 (events h)"
    unfolding do_add_event_def Let_def k_def e1_def e0_def by simp
  have "filled e0"
  proof (cases "om_find (events h) k")
    case (Some e)
    with assms om_find_entry [OF Some] show ?thesis by (force simp: e0_def)
  qed (simp add: e0_def filled_def)
  then have "filled e1" using fold_add_to_slot_filled by (simp add: filled_def e1_def)
  with assms show ?thesis by (auto simp: ev dest: om_upd_entries)
qed

lemma add_event_same:
  "same_handler h (snd (eh_add_event now ev h)) \<and> process_queue (snd (eh_add_event now ev h)) = process_queue h"
  by (simp add: eh_add_event_def do_add_event_def Let_def same_handler_def)

lemma eh_add_event_filled:
  assumes "\<forall>e\<in>set (map snd (events h)). filled e"
  shows "\<forall>e\<in>set (map snd (events (snd (eh_add_event now ev h)))). filled e"
  using do_add_event_filled [OF assms] assms by (simp only: eh_add_event_def snd_conv split: if_split) blast

lemma linger_check_frame:
  "same_handler h (linger_check_run now h)"
  "items (process_queue (linger_check_run now h)) = items (process_queue h) @ newly_closed now h"
  "newly_closed now h @ map snd (events (linger_check_run now h)) = map snd (events h)"
  by (simp_all add: linger_check_run_def newly_closed_def linger_loop_split same_handler_def flip: map_append)

lemma same_handler_trans: "same_handler h h' \<Longrightarrow> same_handler h' h'' \<Longrightarrow> same_handler h h''"
  by (simp add: same_handler_def)

lemma slots_inv_step:
  assumes "run_step api localtime env s s'" "slots_inv h s"
  shows "slots_inv h s'"
  using assms(1)
proof cases
  case (run_report l ev)
  define h' where "h' = snd (eh_add_event (clock l) ev (handler l))"
  have h': "same_handler (handler l) h'" "process_queue h' = process_queue (handler l)"
    using add_event_same by (simp_all add: h'_def)
  have old: "\<forall>e\<in>set (closed l). filled e" "\<forall>e\<in>set (map snd (events (handler l))). filled e"
    using assms(2) by (simp_all add: slots_inv_def slots_def run_report(2))
  have new: "slots (run_line s') = closed l @ map snd (events h')" by (simp add: run_report(1) slots_def h'_def)
  have "\<forall>e\<in>set (slots (run_line s')). filled e"
    using old(1) eh_add_event_filled [OF old(2), of "clock l" ev] unfolding new h'_def set_append ball_Un by blast
  with assms(2) h' same_handler_trans [OF _ h'(1)] show ?thesis
    by (simp add: slots_inv_def waiting_slots_def run_report h'_def)
next
  case (run_linger l)
  from linger_check_frame(3) [of "clock l" "handler l"]
  have "slots (run_line s') = slots l" by (simp add: run_linger slots_def)
  moreover have "mset (waiting_slots s') = mset (waiting_slots s) + mset (newly_closed (clock l) (handler l))"
    by (simp add: waiting_slots_def run_linger linger_check_frame(2))
  ultimately show ?thesis using assms(2) same_handler_trans [OF _ linger_check_frame(1)]
    by (simp add: slots_inv_def run_linger)
next
  case (run_work l bs ev h' ss')
  note parts = run_turn_parts [OF run_work(3)]
  have h': "same_handler (handler l) h'" "events h' = events (handler l)"
    by (subst parts(4), simp add: same_handler_def)+
  have "mset (waiting_slots s) = mset (case ev of None \<Rightarrow> [] | Some e \<Rightarrow> [e]) + mset (waiting_slots s')"
    using parts(1) by (simp add: run_work waiting_slots_def)
  moreover have "slots (run_line s') = slots l" by (simp add: run_work slots_def h'(2))
  ultimately show ?thesis using assms(2) same_handler_trans [OF _ h'(1)] by (simp add: slots_inv_def run_work)
next
  case (run_helper bs1 e b bs2)
  with assms(2) show ?thesis by (simp add: slots_inv_def waiting_slots_def)
qed (use assms(2) in \<open>simp add: slots_inv_def waiting_slots_def slots_def\<close>)

lemma slots_inv_reach:
  assumes "run_reach api localtime env (fresh_run t h ss) s" "events h = []" "items (process_queue h) = []"
  shows "slots_inv h s"
  using assms(1)
proof induction
  case run_start
  show ?case using assms(2,3) by (simp add: slots_inv_def fresh_run_def fresh_timeline_def waiting_slots_def slots_def same_handler_def)
qed (rule slots_inv_step)

section \<open>What is stored\<close>

text \<open>The reports covered: their slot and their names fit a key of the store, and they carry a tag.\<close>

definition reportable :: "EventHandler \<Rightarrow> int \<times> event_data_t \<Rightarrow> bool" where
  "reportable h x \<longleftrightarrow>
     (case x of (t, d) \<Rightarrow>
        0 < t \<and> good_time t \<and> ed_metric d \<noteq> [] \<and> plain (ed_metric d) \<and> ed_tag d \<noteq> [] \<and> plain (ed_tag d) \<and>
        length (ed_metric d) + length (ed_tag d) + length (eh_entity_idx h) < 4000)"

text \<open>\<open>base\<close> is the table when the run starts: no row of this entity in a slot of the run.\<close>

definition inputs_ok :: "EventHandler \<Rightarrow> (string \<times> string) list \<Rightarrow> timeline \<Rightarrow> bool" where
  "inputs_ok h base l \<longleftrightarrow>
     (\<forall>x\<in>set (accepted l). reportable h x) \<and> length (accepted l) < 2 ^ 31 \<and>
     (\<forall>x\<in>set base. stored_row x \<and> (entry_entity x = eh_entity_idx h \<longrightarrow> entry_time x \<notin> fst ` set (accepted l)))"

text \<open>The store of the handler is a LevelDB store in which the table of the service is open and takes writes.\<close>

definition store_ready ::
    "('h, 'd) leveldb_api \<Rightarrow> ('h \<Rightarrow> 'd \<Rightarrow> (string, string) omap) \<Rightarrow> (int \<Rightarrow> int \<times> int) \<Rightarrow> int \<Rightarrow> EventHandler \<Rightarrow> 'h \<Rightarrow>
     'h StoreLevelDB \<Rightarrow> 'd \<Rightarrow> bool" where
  "store_ready api contents localtime t0 h hn so d0 \<longleftrightarrow>
     leveldb_ok api contents \<and> puts_succeed api hn \<and> om_wf (levelDBs so) \<and> has_store h \<and>
     store_type (eh_conf h) = ''leveldb'' \<and> eh_service h \<noteq> [] \<and> plain (eh_entity_idx h) \<and>
     get_leveldb_handler api localtime t0 (eh_service h) (so, d0) = (Some hn, so, d0)"

definition slot_entries :: "EventHandler \<Rightarrow> events_by_time_t \<Rightarrow> (string \<times> string) list" where
  "slot_entries h e = map stored_entry (event_rows e (stat_for h e))"

definition stored ::
    "('h \<Rightarrow> 'd \<Rightarrow> (string, string) omap) \<Rightarrow> 'h \<Rightarrow> 'h StoreLevelDB \<Rightarrow> (string \<times> string) list \<Rightarrow> EventHandler \<Rightarrow>
     events_by_time_t list \<Rightarrow> ('q, 'h StoreLevelDB \<times> 'd) stores_t \<Rightarrow> bool" where
  "stored contents hn so base h es ss \<longleftrightarrow>
     (\<exists>d. leveldb_ptr ss = Some (so, d) \<and> mset (contents hn d) = mset base + mset (concat (map (slot_entries h) es)) \<and>
          (\<forall>x\<in>set (contents hn d). stored_row x))"

lemma metric_data_entry: "om_wf m \<Longrightarrow> (k, data) \<in> set m \<Longrightarrow> metric_data m k = data"
  using om.find_iff_entry [of m k data] by (simp add: metric_data_def)

lemma slot_of_reports:
  assumes "tl_inv l" "e \<in> set (slots l)" "filled e" "(m, data) \<in> set (ebt_data e)"
  shows "data \<noteq> [] \<and> length data \<le> length (accepted l) \<and> (\<forall>d\<in>set data. ed_metric d = m \<and> (ebt_timestamp e, d) \<in> set (accepted l))"
proof -
  have "slot_ok l e" using tl_invD(7) [OF assms(1,2)] .
  then have "om_wf (ebt_data e)"
    "metric_data (ebt_data e) m = map snd (filter (\<lambda>(t, d). t = ebt_timestamp e \<and> ed_metric d = m) (accepted l))"
    by (simp_all add: slot_ok_def)
  with metric_data_entry [OF this(1) assms(4)]
  have data: "data = map snd (filter (\<lambda>(t, d). t = ebt_timestamp e \<and> ed_metric d = m) (accepted l))" by simp
  with assms(3,4) show ?thesis by (auto simp: filled_def)
qed

lemma slot_storable:
  assumes "tl_inv l" "e \<in> set (slots l)" "filled e" "inputs_ok h base l" "eh_service h \<noteq> []" "plain (eh_entity_idx h)"
    and "ebt_data e \<noteq> []"
  shows "storable h e \<and> ebt_timestamp e \<in> fst ` set (accepted l)"
proof -
  note reports = slot_of_reports [OF assms(1-3)]
  have wf: "om_wf (ebt_data e)" using tl_invD(7) [OF assms(1,2)] by (simp add: slot_ok_def)
  have good: "reportable h (ebt_timestamp e, d)" if "(m, data) \<in> set (ebt_data e)" "d \<in> set data" for m data d
    using reports [OF that(1)] that(2) assms(4) by (auto simp: inputs_ok_def)
  obtain m0 data0 where m0: "(m0, data0) \<in> set (ebt_data e)" using assms(7) by (cases "ebt_data e") auto
  with reports [OF this] obtain d0 where d0: "d0 \<in> set data0" "(ebt_timestamp e, d0) \<in> set (accepted l)"
    by (meson hd_in_set)
  with good [OF m0 d0(1)]
  have time: "0 < ebt_timestamp e" "good_time (ebt_timestamp e)" "ebt_timestamp e \<in> fst ` set (accepted l)"
    by (force simp: reportable_def)+
  have "m \<noteq> [] \<and> plain m \<and> length data < 2 ^ 31 \<and> \<not> {'''', ''T''} \<subseteq> ed_tag ` set data \<and>
        (\<forall>d\<in>set data. plain (ed_tag d) \<and> length m + length (ed_tag d) + length (eh_entity_idx h) < 4000)"
    if m: "(m, data) \<in> set (ebt_data e)" for m data
  proof -
    note r = reports [OF m] good [OF m]
    then obtain d where "d \<in> set data" by (meson hd_in_set)
    with r have "m \<noteq> []" "plain m" by (auto simp: reportable_def)
    moreover have "[] \<notin> ed_tag ` set data" using r(2) by (force simp: reportable_def)
    moreover have "length data < 2 ^ 31" using r(1) assms(4) by (simp add: inputs_ok_def)
    ultimately show ?thesis using r by (auto simp: reportable_def)
  qed
  with time wf assms(5,6) show ?thesis by (auto simp: storable_def)
qed

lemma entry_of_slot:
  assumes "storable h e" "x \<in> set (slot_entries h e)"
  shows "stored_row x \<and> entry_time x = ebt_timestamp e"
  using slot_rows [OF assms(1)] slot_row_ok [OF assms(1)] assms(2) entry_of_insert(2) stored_row_entry
  by (fastforce simp: slot_entries_def)

lemma slot_entries_Nil: "ebt_data e = [] \<Longrightarrow> slot_entries h e = []"
  by (simp add: slot_entries_def event_rows_def)

lemma stat_for_same: "same_handler h h' \<Longrightarrow> stat_for h' e = stat_for h e"
  by (simp add: stat_for_def same_handler_def)

lemma storable_same: "same_handler h h' \<Longrightarrow> storable h' e = storable h e"
  by (simp add: storable_def same_handler_def)

text \<open>Every processed slot was closed once; the times of the processed slots differ.\<close>

lemma processed_slots:
  assumes "tl_inv (run_line s)" "slots_inv h s"
  shows "set (processed s) \<subseteq> set (slots (run_line s))" "\<forall>e\<in>set (processed s). filled e"
    "distinct (map ebt_timestamp (processed s))"
proof -
  have ms: "mset (closed (run_line s)) = mset (processed s @ waiting_slots s)" using assms(2) by (simp add: slots_inv_def)
  then have "set (closed (run_line s)) = set (processed s) \<union> set (waiting_slots s)" using mset_eq_setD [OF ms] by simp
  then show sub: "set (processed s) \<subseteq> set (slots (run_line s))" by (auto simp: slots_def)
  then show "\<forall>e\<in>set (processed s). filled e" using assms(2) by (auto simp: slots_inv_def)
  have "distinct (map ebt_timestamp (closed (run_line s)))"
    using tl_invD(4) [OF assms(1)] by (simp add: strict_sorted_iff)
  then have "distinct (map ebt_timestamp (processed s @ waiting_slots s))"
    using ms by (metis mset_eq_imp_distinct_iff mset_map)
  then show "distinct (map ebt_timestamp (processed s))" by simp
qed

lemma process_slot_stored:
  assumes ready: "store_ready api contents localtime t0 h hn so d0"
    and month: "get_table_suffix localtime (clock l) = get_table_suffix localtime t0"
    and same: "same_handler h (handler l)"
    and old: "stored contents hn so base h es ss"
    and inp: "inputs_ok h base l" "tl_inv l"
    and es: "set (es @ [e]) \<subseteq> set (slots l)" "\<forall>e'\<in>set (es @ [e]). filled e'" "distinct (map ebt_timestamp (es @ [e]))"
  shows "stored contents hn so base h (es @ [e]) (process_slot api localtime env l e ss)"
proof -
  obtain d where d: "leveldb_ptr ss = Some (so, d)" "mset (contents hn d) = mset base + mset (concat (map (slot_entries h) es))"
    "\<forall>x\<in>set (contents hn d). stored_row x"
    using old by (auto simp: stored_def)
  note r = ready [unfolded store_ready_def] and eqs = stat_for_same [OF same] storable_same [OF same]
  have stor: "storable h e' \<and> ebt_timestamp e' \<in> fst ` set (accepted l)" if "e' \<in> set (es @ [e])" "ebt_data e' \<noteq> []" for e'
    using slot_storable [OF inp(2) _ _ inp(1), of e'] es(1,2) that r by blast
  show ?thesis
  proof (cases "ebt_data e = []")
    case True
    then have "process_slot api localtime env l e ss = ss"
      by (simp add: process_slot_def process_event_rows event_rows_def insert_rows_def)
    with d True show ?thesis by (auto simp: stored_def slot_entries_Nil)
  next
    case False
    have set_d: "set (contents hn d) = set base \<union> (\<Union>e'\<in>set es. set (slot_entries h e'))"
      using arg_cong [OF d(2), of set_mset] by simp
    have "\<not> (entry_time x = ebt_timestamp e \<and> entry_entity x = eh_entity_idx h)" if x: "x \<in> set (contents hn d)" for x
    proof (cases "x \<in> set base")
      case True
      with stor [of e] False inp(1) show ?thesis by (force simp: inputs_ok_def)
    next
      case notbase: False
      with x set_d obtain e' where e': "e' \<in> set es" "x \<in> set (slot_entries h e')" by auto
      then have "ebt_data e' \<noteq> []" using slot_entries_Nil by force
      with stor [of e'] e' entry_of_slot [OF _ e'(2)] have "entry_time x = ebt_timestamp e'" by simp
      then show ?thesis using es(3) e'(1) by force
    qed
    then have fresh: "\<forall>x\<in>set (contents hn d). stored_row x \<and> \<not> (entry_time x = ebt_timestamp e \<and> entry_entity x = eh_entity_idx (handler l))"
      using d(3) same by (simp add: same_handler_def)
    have opened: "get_leveldb_handler api localtime (clock l) (eh_service (handler l)) (so, d) = (Some hn, so, d)"
      using handler_stays_open [of api localtime t0 "eh_service h" "(so, d0)" hn so d0 "clock l" d] r month same
      by (simp add: same_handler_def)
    have h: "has_store (handler l)" "store_type (eh_conf (handler l)) = ''leveldb''" "storable (handler l) e"
      using r same stor [of e] False by (simp_all add: same_handler_def eqs)
    have ok: "leveldb_ok api contents" "puts_succeed api hn" and wf: "om_wf (levelDBs so)" using r by blast+
    obtain d' where "process_slot api localtime env l e ss = ss\<lparr>leveldb_ptr := Some (so, d')\<rparr>"
      "mset (contents hn d') = mset (contents hn d) + mset (slot_entries h e)" "\<forall>x\<in>set (contents hn d'). stored_row x"
      using slot_stored [OF ok h(3,1,2) d(1) wf opened fresh, of env] by (auto simp: process_slot_def slot_entries_def eqs)
    with d(2) show ?thesis by (auto simp: stored_def)
  qed
qed

lemma run_step_mono:
  "run_step api localtime env s s' \<Longrightarrow>
     clock (run_line s) \<le> clock (run_line s') \<and> (\<exists>xs. accepted (run_line s') = accepted (run_line s) @ xs)"
  by (erule run_stepE) auto

lemma inputs_ok_before: "inputs_ok h base l' \<Longrightarrow> accepted l' = accepted l @ xs \<Longrightarrow> inputs_ok h base l"
  by (auto simp: inputs_ok_def)

text \<open>The hypotheses on a run, and what they give at every moment of it.\<close>

definition good_start :: "EventHandler \<Rightarrow> bool" where
  "good_start h \<longleftrightarrow> 0 < event_step (eh_conf h) \<and> events h = [] \<and> items (process_queue h) = []"

lemma run_invs:
  assumes "run_reach api localtime env (fresh_run t0 h ss) s" "good_start h"
  shows "tl_inv (run_line s)" "slots_inv h s" "t0 \<le> clock (run_line s)"
proof -
  from run_reach_line [OF assms(1)] assms(2) show "tl_inv (run_line s)"
    by (auto simp: fresh_run_def good_start_def intro: tl_inv_reach tl_inv_fresh)
  from slots_inv_reach [OF assms(1)] assms(2) show "slots_inv h s" by (simp add: good_start_def)
  from assms(1) show "t0 \<le> clock (run_line s)"
  proof induction
    case (run_more s s')
    with run_step_mono [OF run_more.hyps(2)] show ?case by simp
  qed (simp add: fresh_run_def fresh_timeline_def)
qed

lemma stored_step:
  assumes "run_step api localtime env s s'" "store_ready api contents localtime t0 h hn so d0"
    and "get_table_suffix localtime (clock (run_line s)) = get_table_suffix localtime t0"
    and "stored contents hn so base h (processed s) (run_stores s)" "inputs_ok h base (run_line s')"
    and "tl_inv (run_line s')" "slots_inv h s" "slots_inv h s'"
  shows "stored contents hn so base h (processed s') (run_stores s')"
proof -
  note past = processed_slots [OF assms(6,8)]
  have same: "same_handler h (handler (run_line s))" using assms(7) by (simp add: slots_inv_def)
  from assms(1) show ?thesis
  proof cases
    case (run_work l bs ev h' ss')
    note parts = run_turn_parts [OF run_work(3)]
    show ?thesis
    proof (cases ev)
      case None
      with parts(3) assms(4) show ?thesis by (simp add: run_work)
    next
      case (Some e)
      have "ss' = process_slot api localtime env l e (run_stores s)" using parts(3) by (simp add: Some process_slot_def)
      moreover have "slots (run_line s') = slots l" "tl_inv l" "inputs_ok h base l"
        using run_turn_frame [OF run_work(3)] assms(5,6)
        by (simp_all add: run_work slots_def tl_inv_def slot_ok_def inputs_ok_def)
      ultimately show ?thesis
        using process_slot_stored [OF assms(2) _ _ assms(4), of l e env] assms(3) same past by (simp add: run_work Some)
    qed
  next
    case (run_helper bs1 e b bs2)
    then show ?thesis
      using process_slot_stored [OF assms(2,3) same assms(4), of e env] assms(5,6) past by simp
  qed (use assms(4) in simp_all)
qed

lemma stored_reach:
  assumes "run_reach api localtime env (fresh_run t0 h ss) s" "good_start h"
    and "store_ready api contents localtime t0 h hn so d0" "leveldb_ptr ss = Some (so, d0)"
    and "inputs_ok h (contents hn d0) (run_line s)"
    and "clock (run_line s) \<le> later" "\<forall>t. t0 \<le> t \<and> t \<le> later \<longrightarrow> get_table_suffix localtime t = get_table_suffix localtime t0"
  shows "stored contents hn so (contents hn d0) h (processed s) (run_stores s)"
  using assms(1,5,6)
proof induction
  case run_start
  then show ?case using assms(4) by (auto simp: fresh_run_def stored_def inputs_ok_def)
next
  case (run_more s s')
  obtain xs where xs: "clock (run_line s) \<le> clock (run_line s')" "accepted (run_line s') = accepted (run_line s) @ xs"
    using run_step_mono [OF run_more.hyps(2)] by blast
  note inv = run_invs [OF run_more.hyps(1) assms(2)]
    and inv' = run_invs [OF run_reach.run_more [OF run_more.hyps] assms(2)]
  have "stored contents hn so (contents hn d0) h (processed s) (run_stores s)"
    using run_more.IH inputs_ok_before [OF run_more.prems(1) xs(2)] xs(1) run_more.prems(2) by simp
  moreover have "get_table_suffix localtime (clock (run_line s)) = get_table_suffix localtime t0"
    using assms(7) [rule_format, of "clock (run_line s)"] inv(3) xs(1) run_more.prems(2) by simp
  ultimately show ?case
    using stored_step [OF run_more.hyps(2) assms(3) _ _ run_more.prems(1) inv'(1) inv(2) inv'(2)] by blast
qed

section \<open>What a query answers\<close>

text \<open>The first report with its message id in its slot.\<close>

fun first_reports :: "(int \<times> event_data_t) list \<Rightarrow> (int \<times> event_data_t) list" where
  "first_reports [] = []"
| "first_reports (x # xs) = x # filter (\<lambda>y. (fst y, ed_msgid (snd y)) \<noteq> (fst x, ed_msgid (snd x))) (first_reports xs)"

definition in_window :: "event_cond_t \<Rightarrow> int \<Rightarrow> int \<Rightarrow> bool" where
  "in_window cond T t \<longleftrightarrow> t \<le> T \<and> (0 < ec_tm_interval cond \<longrightarrow> T - ec_tm_interval cond < t)"

text \<open>
  The reports that a query up to time \<open>T\<close> has to count: of its metric, in a slot of its window that has
  reached the store (\<open>ts\<close>), and each message id once in a slot.
\<close>

definition counting :: "event_cond_t \<Rightarrow> int \<Rightarrow> int list \<Rightarrow> (int \<times> event_data_t) list \<Rightarrow> event_data_t list" where
  "counting cond T ts reports =
     map snd (filter (\<lambda>(t, d). in_window cond T t \<and> t \<in> set ts)
                (first_reports (filter (\<lambda>(t, d). ed_metric d = ec_metric cond) reports)))"

text \<open>A query without grouping for the service, for all tags, for this entity or for all.\<close>

definition asks :: "event_cond_t \<Rightarrow> EventHandler \<Rightarrow> bool" where
  "asks cond h \<longleftrightarrow>
     ec_groupby cond = kGroupNone \<and> ec_tag cond = [] \<and> ec_entity_idx cond \<in> {[], eh_entity_idx h} \<and>
     ec_service cond = eh_service h"

lemma first_reports_slot:
  "map snd (filter (\<lambda>x. fst x = t) (first_reports xs)) = dedup_first (map snd (filter (\<lambda>x. fst x = t) xs))"
proof (induction xs)
  case (Cons x xs)
  show ?case
  proof (cases "fst x = t")
    case True
    have "filter (\<lambda>y. (fst y, ed_msgid (snd y)) \<noteq> (t, ed_msgid (snd x)) \<and> fst y = t) (first_reports xs) =
        filter (\<lambda>y. fst y = t \<and> ed_msgid (snd y) \<noteq> ed_msgid (snd x)) (first_reports xs)"
      by (rule filter_cong) auto
    moreover have "filter (\<lambda>d. ed_msgid d \<noteq> i) (dedup_first (map snd (filter (\<lambda>y. fst y = t) xs))) =
        map snd (filter (\<lambda>y. fst y = t \<and> ed_msgid (snd y) \<noteq> i) (first_reports xs))" for i
      by (simp add: filter_map comp_def flip: Cons.IH)
    ultimately show ?thesis using True by simp
  next
    case False
    then have "filter (\<lambda>y. (fst y, ed_msgid (snd y)) \<noteq> (fst x, ed_msgid (snd x)) \<and> fst y = t) (first_reports xs) =
        filter (\<lambda>y. fst y = t) (first_reports xs)"
      by (intro filter_cong) auto
    with False Cons.IH show ?thesis by simp
  qed
qed simp

lemma sum_over_times:
  fixes f :: "'a \<times> 'b \<Rightarrow> int"
  shows "distinct ts \<Longrightarrow> sum_list (map (\<lambda>t. sum_list (map f (filter (\<lambda>x. fst x = t) xs))) ts) =
      sum_list (map f (filter (\<lambda>x. fst x \<in> set ts) xs))"
proof (induction xs)
  case (Cons x xs)
  have "sum_list (map (\<lambda>t. sum_list (map f (filter (\<lambda>y. fst y = t) (x # xs)))) ts) =
      sum_list (map (\<lambda>t. if fst x = t then f x else 0) ts) +
      sum_list (map (\<lambda>t. sum_list (map f (filter (\<lambda>y. fst y = t) xs))) ts)"
    by (simp flip: sum_list_addf cong: map_cong) (rule arg_cong [of _ _ sum_list], simp)
  moreover have "sum_list (map (\<lambda>t. if fst x = t then f x else 0) ts) = (if fst x \<in> set ts then f x else 0)"
    using Cons.prems by (simp add: sum_list_distinct_conv_sum_set)
  ultimately show ?case using Cons by simp
qed simp

text \<open>The rows of the processed slots give the number of the reports that count, and the sum of their values.\<close>

definition slot_total :: "(event_data_t \<Rightarrow> int) \<Rightarrow> event_cond_t \<Rightarrow> int \<Rightarrow> events_by_time_t \<Rightarrow> int" where
  "slot_total g cond T e =
     (if in_window cond T (ebt_timestamp e)
      then sum_list (map g (dedup_first (metric_data (ebt_data e) (ec_metric cond)))) else 0)"

lemma sum_over_slots:
  fixes g :: "event_data_t \<Rightarrow> int"
  assumes "tl_inv l" "set es \<subseteq> set (slots l)" "distinct (map ebt_timestamp es)"
  shows "sum_list (map (slot_total g cond T) es) =
         sum_list (map g (counting cond T (map ebt_timestamp es) (accepted l)))"
proof -
  let ?W = "in_window cond T"
  let ?R = "filter (\<lambda>(t, d). ed_metric d = ec_metric cond) (accepted l)"
  let ?G = "first_reports ?R"
  have "dedup_first (metric_data (ebt_data e) (ec_metric cond)) = map snd (filter (\<lambda>x. fst x = ebt_timestamp e) ?G)"
    if "e \<in> set es" for e
  proof -
    have "slot_ok l e" using tl_invD(7) [OF assms(1), of e] assms(2) that by auto
    then have "metric_data (ebt_data e) (ec_metric cond) = map snd (filter (\<lambda>x. fst x = ebt_timestamp e) ?R)"
      by (simp add: slot_ok_def case_prod_unfold conj_commute)
    then show ?thesis by (simp add: first_reports_slot)
  qed
  then have "map (slot_total g cond T) es =
      map (\<lambda>e. if ?W (ebt_timestamp e) then sum_list (map (g \<circ> snd) (filter (\<lambda>x. fst x = ebt_timestamp e) ?G)) else 0) es"
    by (simp add: slot_total_def)
  moreover have "sum_list (map (\<lambda>e. if ?W (ebt_timestamp e) then F (ebt_timestamp e) else 0) es) =
      sum_list (map F (filter ?W (map ebt_timestamp es)))" for F :: "int \<Rightarrow> int"
    by (induction es) simp_all
  ultimately have "sum_list (map (slot_total g cond T) es) =
      sum_list (map (\<lambda>t. sum_list (map (g \<circ> snd) (filter (\<lambda>x. fst x = t) ?G))) (filter ?W (map ebt_timestamp es)))"
    by (simp only:)
  also have "\<dots> = sum_list (map (g \<circ> snd) (filter (\<lambda>x. fst x \<in> set (filter ?W (map ebt_timestamp es))) ?G))"
    using assms(3) by (intro sum_over_times) simp
  also have "\<dots> = sum_list (map g (counting cond T (map ebt_timestamp es) (accepted l)))"
    by (simp add: counting_def case_prod_unfold conj_commute)
  finally show ?thesis .
qed

lemma metric_rows_Nil: "metric_rows stat m [] = []"
  using metric_rows_tags [of "[]" stat m] by simp

lemma slot_rows_metric:
  assumes "storable h e"
  shows "filter (\<lambda>r. ins_metric r = m) (event_rows e (stat_for h e)) = metric_rows (stat_for h e) m (metric_data (ebt_data e) m)"
proof (cases "om_find (ebt_data e) m")
  case None
  have "om_wf (ebt_data e)" using assms by (simp add: storable_def)
  with None have "(m, data) \<notin> set (ebt_data e)" for data using om.find_iff_entry [of "ebt_data e" m data] by simp
  then have "filter (\<lambda>r. ins_metric r = m) (event_rows e (stat_for h e)) = []"
    using slot_rows [OF assms] by (fastforce simp: filter_empty_conv)
  with None show ?thesis by (simp add: metric_data_def metric_rows_Nil)
next
  case (Some data)
  with slot_rows_of_metric [OF assms om_find_entry [OF Some]] show ?thesis by (simp add: metric_data_def)
qed

lemma slot_hits:
  assumes "storable h e" "asks cond h"
  shows "filter (in_query cond T) (slot_entries h e) =
           (if in_window cond T (ebt_timestamp e)
            then map stored_entry (metric_rows (stat_for h e) (ec_metric cond) (metric_data (ebt_data e) (ec_metric cond))) else [])"
proof -
  have "in_query cond T (stored_entry r) \<longleftrightarrow> in_window cond T (ebt_timestamp e) \<and> ins_metric r = ec_metric cond"
    if r: "r \<in> set (event_rows e (stat_for h e))" for r
  proof -
    have ok: "insert_ok r" "ins_timestamp r = ebt_timestamp e" "ins_entity_idx r = eh_entity_idx h"
      using slot_rows [OF assms(1) r] slot_row_ok [OF assms(1)] by auto
    with parse_key_of [OF good_row_insert [OF ok(1)]] assms(2) show ?thesis
      by (auto simp: in_query_def stored_entry_def in_window_def asks_def insert_ok_def atoll_countdown)
  qed
  then have "filter (in_query cond T) (slot_entries h e) =
      map stored_entry (filter (\<lambda>r. in_window cond T (ebt_timestamp e) \<and> ins_metric r = ec_metric cond) (event_rows e (stat_for h e)))"
    by (simp add: slot_entries_def filter_map comp_def cong: filter_cong)
  then show ?thesis by (simp add: slot_rows_metric [OF assms(1)])
qed

lemma slot_account:
  assumes "ebt_data e = [] \<or> storable h e" "asks cond h"
  shows "counted (filter (in_query cond T) (slot_entries h e)) = slot_total (\<lambda>_. 1) cond T e"
    and "to_i64 (x + summed (filter (in_query cond T) (slot_entries h e))) = to_i64 (x + slot_total ed_value cond T e)"
proof -
  let ?data = "metric_data (ebt_data e) (ec_metric cond)"
  let ?rows = "metric_rows (stat_for h e) (ec_metric cond) ?data"
  have "counted (filter (in_query cond T) (slot_entries h e)) = slot_total (\<lambda>_. 1) cond T e \<and>
      to_i64 (x + summed (filter (in_query cond T) (slot_entries h e))) = to_i64 (x + slot_total ed_value cond T e)"
  proof (cases "?data = []")
    case True
    then have "filter (in_query cond T) (slot_entries h e) = []"
      using assms slot_hits [of h e cond T] by (auto simp: slot_entries_Nil metric_rows_Nil)
    with True show ?thesis by (simp add: slot_total_def counted_def summed_def)
  next
    case False
    then obtain data where found: "om_find (ebt_data e) (ec_metric cond) = Some data" "?data = data"
      by (auto simp: metric_data_def split: option.splits)
    then have st: "storable h e" and m: "(ec_metric cond, ?data) \<in> set (ebt_data e)"
      using assms(1) om_find_entry [OF found(1)] by auto
    have "entry_item (stored_entry r) = info_of_insert r" if "r \<in> set ?rows" for r
      using that set_metric_rows [OF st m] slot_row_ok [OF st m] entry_of_insert(1) by auto
    then have rows: "counted (map stored_entry ?rows) = sum_list (map ins_count ?rows)"
      "summed (map stored_entry ?rows) = sum_list (map ins_value_sum ?rows)"
      by (simp_all add: counted_def summed_def info_of_insert_def comp_def cong: map_cong)
    have ids: "card (ed_msgid ` set ?data) = length (dedup_first ?data)"
      using distinct_card [OF distinct_dedup_first [of ?data]] by (simp add: dedup_first_ids)
    show ?thesis
      using metric_rows_account [OF storableD(3) [OF st m]]
      by (simp add: slot_hits [OF st assms(2)] slot_total_def rows ids sum_list_triv)
        (simp add: counted_def summed_def)
  qed
  then show "counted (filter (in_query cond T) (slot_entries h e)) = slot_total (\<lambda>_. 1) cond T e"
    "to_i64 (x + summed (filter (in_query cond T) (slot_entries h e))) = to_i64 (x + slot_total ed_value cond T e)"
    by blast+
qed

lemma slots_account:
  assumes "\<forall>e\<in>set es. ebt_data e = [] \<or> storable h e" "asks cond h"
  shows "counted (filter (in_query cond T) (concat (map (slot_entries h) es))) = sum_list (map (slot_total (\<lambda>_. 1) cond T) es)"
    and "to_i64 (x + summed (filter (in_query cond T) (concat (map (slot_entries h) es)))) =
           to_i64 (x + sum_list (map (slot_total ed_value cond T) es))"
proof -
  have split: "counted (xs @ ys) = counted xs + counted ys" "summed (xs @ ys) = summed xs + summed ys" for xs ys
    by (simp_all add: counted_def summed_def)
  from assms(1) show "counted (filter (in_query cond T) (concat (map (slot_entries h) es))) =
      sum_list (map (slot_total (\<lambda>_. 1) cond T) es)"
    by (induction es) (simp_all add: split slot_account(1) [OF _ assms(2)], simp add: counted_def)
  from assms(1) show "to_i64 (x + summed (filter (in_query cond T) (concat (map (slot_entries h) es)))) =
      to_i64 (x + sum_list (map (slot_total ed_value cond T) es))"
  proof (induction es arbitrary: x)
    case (Cons e es)
    let ?f = "filter (in_query cond T)"
    have "to_i64 (x + summed (?f (slot_entries h e)) + summed (?f (concat (map (slot_entries h) es)))) =
        to_i64 (x + summed (?f (slot_entries h e)) + sum_list (map (slot_total ed_value cond T) es))"
      using Cons by simp
    also have "\<dots> = to_i64 ((x + sum_list (map (slot_total ed_value cond T) es)) + summed (?f (slot_entries h e)))"
      by (simp add: ac_simps)
    also have "\<dots> = to_i64 ((x + sum_list (map (slot_total ed_value cond T) es)) + slot_total ed_value cond T e)"
      using Cons.prems by (intro slot_account(2) [OF _ assms(2)]) simp
    finally show ?case by (simp add: split ac_simps)
  qed (simp add: summed_def)
qed

lemma eh_get_event_none:
  assumes "leveldb_ok api contents" "query_ok cond st" "\<forall>x\<in>set (contents hn d). stored_row x"
    and "st = query_head later cond (event_linger (eh_conf h)) empty_select" "asks cond h" "eh_service h \<noteq> []"
    and "store_type (eh_conf h) = ''leveldb''" "has_store h" "leveldb_ptr ss = Some (so, d)"
    and "get_leveldb_handler api localtime later (eh_service h) (so, d) = (Some hn, so, d)"
  shows "eh_get_event (on_leveldb api localtime later env) cond empty_select h ss =
           Some (0, st\<lparr>es_summary := summary_total (row_items (hits contents hn d cond st))\<rparr>, ss)"
proof -
  have "ss\<lparr>leveldb_ptr := Some (so, d)\<rparr> = ss" using assms(9) by (cases ss) simp
  with assms(4-) select_by_none [OF assms(1-3)] show ?thesis
    by (simp add: eh_get_event_def virtual_call_def store_kind_def on_leveldb_def leveldb_store_def
        ldb_select_ev_stat_def asks_def Let_def)
qed

lemma total_answer:
  "ei_count (summary_total (row_items q)) = to_i32 (counted q)"
  "ei_value_sum (summary_total (row_items q)) = to_i64 (summed q)"
  by (simp_all add: summary_total_def with_means_def wrapped_sums_def Let_def row_items_def counted_def summed_def comp_def)

text \<open>The answer of a query at any moment of a run.\<close>

definition told_sums ::
    "('h \<Rightarrow> 'd \<Rightarrow> (string, string) omap) \<Rightarrow> 'h \<Rightarrow> 'd \<Rightarrow> event_cond_t \<Rightarrow> event_select_t \<Rightarrow> event_data_t list \<Rightarrow> event_info_t \<Rightarrow> bool" where
  "told_sums contents hn d0 cond st told sm \<longleftrightarrow>
     ei_count sm = to_i32 (counted (hits contents hn d0 cond st) + int (length told)) \<and>
     ei_value_sum sm = to_i64 (summed (hits contents hn d0 cond st) + sum_list (map ed_value told))"

lemma run_answer:
  assumes "run_reach api localtime env (fresh_run t0 h ss) s" "good_start h"
    and "store_ready api contents localtime t0 h hn so d0" "leveldb_ptr ss = Some (so, d0)"
    and "inputs_ok h (contents hn d0) (run_line s)"
    and "clock (run_line s) \<le> later" "\<forall>t. t0 \<le> t \<and> t \<le> later \<longrightarrow> get_table_suffix localtime t = get_table_suffix localtime t0"
    and "asks cond h" "st = query_head later cond (event_linger (eh_conf h)) empty_select" "query_ok cond st"
    and "told = counting cond (es_timestamp st) (map ebt_timestamp (processed s)) (accepted (run_line s))"
  shows "\<exists>sm. eh_get_event (on_leveldb api localtime later env) cond empty_select (handler (run_line s)) (run_stores s) =
              Some (0, st\<lparr>es_summary := sm\<rparr>, run_stores s) \<and>
           told_sums contents hn d0 cond st told sm"
proof -
  let ?es = "processed s" and ?l = "run_line s" and ?T = "es_timestamp st"
  note inv = run_invs [OF assms(1,2)] and r = assms(3) [unfolded store_ready_def]
  obtain d where d: "leveldb_ptr (run_stores s) = Some (so, d)"
    "mset (contents hn d) = mset (contents hn d0) + mset (concat (map (slot_entries h) ?es))" "\<forall>x\<in>set (contents hn d). stored_row x"
    using stored_reach [OF assms(1-7)] unfolding stored_def by blast
  have same: "same_handler h (handler ?l)" using inv(2) by (simp add: slots_inv_def)
  have opened: "get_leveldb_handler api localtime later (eh_service h) (so, d) = (Some hn, so, d)"
    using handler_stays_open [of api localtime t0 "eh_service h" "(so, d0)" hn so d0 later d] r
      assms(7) [rule_format, of later] inv(3) assms(6) by simp
  have ldb: "leveldb_ok api contents" using r by blast
  have ans: "eh_get_event (on_leveldb api localtime later env) cond empty_select (handler ?l) (run_stores s) =
      Some (0, st\<lparr>es_summary := summary_total (row_items (hits contents hn d cond st))\<rparr>, run_stores s)"
    by (rule eh_get_event_none [OF ldb assms(10) d(3)])
      (use r same assms(8,9) d(1) opened in \<open>simp_all add: same_handler_def asks_def\<close>)
  note past = processed_slots [OF inv(1,2)]
  have ok: "\<forall>e\<in>set ?es. ebt_data e = [] \<or> storable h e"
    using slot_storable [OF inv(1) _ _ assms(5)] past(1,2) r by blast
  let ?new = "filter (in_query cond ?T) (concat (map (slot_entries h) ?es))"
  have hits: "mset (hits contents hn d cond st) = mset (hits contents hn d0 cond st) + mset ?new"
    unfolding hits_def using d(2) by (metis filter_union_mset mset_filter)
  have "counted (hits contents hn d cond st) = counted (hits contents hn d0 cond st) + counted ?new"
    "summed (hits contents hn d cond st) = summed (hits contents hn d0 cond st) + summed ?new"
    unfolding counted_def summed_def by (rule sum_list_mset_split [OF hits])+
  with slots_account(1) [OF ok assms(8), of ?T] slots_account(2) [OF ok assms(8), of "summed (hits contents hn d0 cond st)" ?T]
    sum_over_slots [OF inv(1) past(1,3), of _ cond ?T] assms(11)
  have "counted (hits contents hn d cond st) = counted (hits contents hn d0 cond st) + int (length told)"
    "to_i64 (summed (hits contents hn d cond st)) =
       to_i64 (summed (hits contents hn d0 cond st) + sum_list (map ed_value told))"
    by (simp_all add: sum_list_triv)
  then show ?thesis by (intro exI [of _ "summary_total (row_items (hits contents hn d cond st))"]) (simp add: ans total_answer told_sums_def)
qed

text \<open>
  C3. In every run of a handler over the LevelDB store, whatever the order in which reports arrive, slots are closed by
  the timer and stored by the processing thread and its helpers: a query without grouping returns, and
  reports for its metric, besides what the table held before, the number of the accepted reports in its
  window that have reached the store, each message id counted once in a slot, and the sum of their first
  values. Nothing is lost, counted twice or mixed up on the way from the reports through the slots,
  the queue, the batches, the aggregation and the bytes of the table.
\<close>
theorem reports_are_counted:
  assumes "run_reach api localtime env (fresh_run t0 h ss) s" "good_start h"
    and "store_ready api contents localtime t0 h hn so d0" "leveldb_ptr ss = Some (so, d0)"
    and "inputs_ok h (contents hn d0) (run_line s)"
    and "clock (run_line s) \<le> later" "\<forall>t. t0 \<le> t \<and> t \<le> later \<longrightarrow> get_table_suffix localtime t = get_table_suffix localtime t0"
    and "asks cond h" "st = query_head later cond (event_linger (eh_conf h)) empty_select" "query_ok cond st"
    and "told = counting cond (es_timestamp st) (map ebt_timestamp (processed s)) (accepted (run_line s))"
  shows "case eh_get_event (on_leveldb api localtime later env) cond empty_select (handler (run_line s)) (run_stores s) of
           None \<Rightarrow> False
         | Some (ret, answer, _) \<Rightarrow>
             ret = 0 \<and>
             ei_count (es_summary answer) = to_i32 (counted (hits contents hn d0 cond st) + int (length told)) \<and>
             ei_value_sum (es_summary answer) =
               to_i64 (summed (hits contents hn d0 cond st) + sum_list (map ed_value told))"
  using run_answer [OF assms] by (auto simp: told_sums_def)

section \<open>Everything accepted can reach the store\<close>

lemma run_reach_trans:
  assumes "run_reach api localtime env s0 s1" "run_reach api localtime env s1 s2"
  shows "run_reach api localtime env s0 s2"
  using assms(2,1) by induction (auto intro: run_reach.intros)

lemma run_turn_progress:
  assumes "\<not> thread_terminate h" "items (process_queue h) \<noteq> []"
  shows "\<exists>bs ev h' st'. run_turn [] insf h st = Some (bs, ev, h', st') \<and>
           length (items (process_queue h')) < length (items (process_queue h))"
proof -
  obtain bs q1 where d: "drain_batches (additional_process_step_size (eh_conf h)) (process_queue h) = (bs, q1)" by fastforce
  note parts = drain_batches_split [OF d]
  show ?thesis
  proof (cases "items q1")
    case Nil
    then have "POP_timed [] q1 = (None, q1)" by (simp add: POP_timed_def pop_front_def)
    with assms d Nil show ?thesis by (auto simp: run_turn_def Let_def)
  next
    case (Cons e es)
    then have "POP_timed [] q1 = (Some e, q1\<lparr>items := es\<rparr>)" by (simp add: POP_timed_def pop_front_def)
    with assms(1) d Cons parts show ?thesis by (auto simp: run_turn_def Let_def)
  qed
qed

text \<open>The processing thread empties the queue.\<close>

lemma queue_drains:
  assumes "\<not> thread_terminate (handler (run_line s))"
  shows "\<exists>s'. run_reach api localtime env s s' \<and> accepted (run_line s') = accepted (run_line s) \<and>
           events (handler (run_line s')) = events (handler (run_line s)) \<and> items (process_queue (handler (run_line s'))) = [] \<and>
           clock (run_line s') = clock (run_line s)"
  using assms
proof (induction "length (items (process_queue (handler (run_line s))))" arbitrary: s rule: less_induct)
  case less
  let ?l = "run_line s"
  show ?case
  proof (cases "items (process_queue (handler ?l)) = []")
    case True
    then show ?thesis using run_reach.run_start by blast
  next
    case False
    obtain bs ev h' ss' where t: "run_turn [] (store_insert (on_leveldb api localtime (clock ?l) env) (handler ?l)) (handler ?l) (run_stores s) =
        Some (bs, ev, h', ss')" "length (items (process_queue h')) < length (items (process_queue (handler ?l)))"
      using run_turn_progress [OF less.prems False, of "store_insert (on_leveldb api localtime (clock ?l) env) (handler ?l)" "run_stores s"]
      by blast
    define s1 where "s1 = s\<lparr>run_line := ?l\<lparr>handler := h'\<rparr>, helpers := helpers s @ bs,
        processed := processed s @ (case ev of None \<Rightarrow> [] | Some e \<Rightarrow> [e]), run_stores := ss'\<rparr>"
    have h': "thread_terminate h' = thread_terminate (handler ?l)" "events h' = events (handler ?l)"
      by (subst run_turn_parts(4) [OF t(1)], simp)+
    have step: "run_reach api localtime env s s1"
      unfolding s1_def by (rule run_reach.run_more [OF run_reach.run_start run_step.run_work [OF refl t(1)]])
    have "\<exists>s'. run_reach api localtime env s1 s' \<and> accepted (run_line s') = accepted (run_line s1) \<and>
        events (handler (run_line s')) = events (handler (run_line s1)) \<and> items (process_queue (handler (run_line s'))) = [] \<and>
        clock (run_line s') = clock (run_line s1)"
      using less.prems h' t(2) by (intro less.hyps) (simp_all add: s1_def)
    then show ?thesis using run_reach_trans [OF step] h' by (auto simp: s1_def)
  qed
qed

text \<open>The helper threads finish their batches.\<close>

lemma helpers_finish:
  "\<exists>s'. run_reach api localtime env s s' \<and> run_line s' = run_line s \<and> concat (helpers s') = []"
proof (induction "length (concat (helpers s))" arbitrary: s rule: less_induct)
  case less
  show ?case
  proof (cases "concat (helpers s) = []")
    case True
    then show ?thesis using run_reach.run_start by blast
  next
    case False
    then obtain b0 where "b0 \<in> set (helpers s)" "b0 \<noteq> []" by auto
    then obtain bs1 bs2 e b where h: "helpers s = bs1 @ (e # b) # bs2" by (metis split_list neq_Nil_conv)
    define s1 where "s1 = s\<lparr>helpers := bs1 @ b # bs2, processed := processed s @ [e],
        run_stores := process_slot api localtime env (run_line s) e (run_stores s)\<rparr>"
    have step: "run_reach api localtime env s s1"
      unfolding s1_def by (rule run_reach.run_more [OF run_reach.run_start run_step.run_helper [OF h]])
    have "\<exists>s'. run_reach api localtime env s1 s' \<and> run_line s' = run_line s1 \<and> concat (helpers s') = []"
      by (rule less.hyps) (simp add: s1_def h)
    then show ?thesis using run_reach_trans [OF step] by (auto simp: s1_def)
  qed
qed

text \<open>The timer closes every slot when the clock has passed the last one.\<close>

lemma timer_closes_all:
  assumes "clock (run_line s) \<le> t"
    and "\<forall>x\<in>set (events (handler (run_line s))). fst x + event_linger (eh_conf (handler (run_line s))) < t"
  shows "\<exists>s'. run_reach api localtime env s s' \<and> accepted (run_line s') = accepted (run_line s) \<and> events (handler (run_line s')) = [] \<and>
        thread_terminate (handler (run_line s')) = thread_terminate (handler (run_line s)) \<and> clock (run_line s') = t"
proof -
  let ?l = "run_line s"
  define s1 where "s1 = s\<lparr>run_line := ?l\<lparr>clock := t\<rparr>\<rparr>"
  define s2 where "s2 = s1\<lparr>run_line := (run_line s1)\<lparr>handler := linger_check_run (clock (run_line s1)) (handler (run_line s1)),
      closed := closed (run_line s1) @ newly_closed (clock (run_line s1)) (handler (run_line s1))\<rparr>\<rparr>"
  have "run_reach api localtime env s s2"
    unfolding s2_def s1_def
    by (rule run_reach.run_more [OF run_reach.run_more [OF run_reach.run_start run_step.run_tick [OF refl assms(1)]] run_step.run_linger [OF refl]])
  moreover have "events (handler (run_line s2)) = []"
    using assms(2) by (auto simp: s2_def s1_def linger_check_run_split(1))
  ultimately show ?thesis
    using linger_check_frame(1) [of "handler ?l" t] by (intro exI [of _ s2]) (simp add: s2_def s1_def same_handler_def)
qed

text \<open>All that was accepted gets into processed slots.\<close>

lemma accepted_processed:
  assumes "run_reach api localtime env (fresh_run t0 h ss) s" "good_start h" "\<not> thread_terminate h"
    and "clock (run_line s) \<le> later" "\<forall>x\<in>set (events (handler (run_line s))). fst x + event_linger (eh_conf h) < later"
  shows "\<exists>s'. run_reach api localtime env s s' \<and> accepted (run_line s') = accepted (run_line s) \<and>
           events (handler (run_line s')) = [] \<and> waiting_slots s' = [] \<and> clock (run_line s') = later \<and>
           fst ` set (accepted (run_line s)) \<subseteq> ebt_timestamp ` set (processed s')"
proof -
  have same: "same_handler h (handler (run_line s))"
    using run_invs(2) [OF assms(1,2)] by (simp add: slots_inv_def)
  then have run: "\<not> thread_terminate (handler (run_line s))" using assms(3) by (simp add: same_handler_def)
  obtain s1 where s1: "run_reach api localtime env s s1" "accepted (run_line s1) = accepted (run_line s)"
    "events (handler (run_line s1)) = []" "\<not> thread_terminate (handler (run_line s1))" "clock (run_line s1) = later"
    using timer_closes_all [OF assms(4), of api localtime env] assms(5) same run by (auto simp: same_handler_def)
  obtain s2 where s2: "run_reach api localtime env s1 s2" "accepted (run_line s2) = accepted (run_line s)"
    "events (handler (run_line s2)) = []" "items (process_queue (handler (run_line s2))) = []" "clock (run_line s2) = later"
    using queue_drains [OF s1(4), of api localtime env] s1(2,3,5) by auto
  obtain s3 where s3: "run_reach api localtime env s2 s3" "run_line s3 = run_line s2" "concat (helpers s3) = []"
    using helpers_finish by blast
  have path: "run_reach api localtime env s s3" by (rule run_reach_trans [OF run_reach_trans [OF s1(1) s2(1)] s3(1)])
  have pend: "waiting_slots s3 = []" using s2(4) s3(2,3) by (simp add: waiting_slots_def)
  note inv = run_invs [OF run_reach_trans [OF assms(1) path] assms(2)]
  have "mset (closed (run_line s3)) = mset (processed s3)" using inv(2) pend by (simp add: slots_inv_def)
  then have "slots (run_line s3) = closed (run_line s3)" "set (closed (run_line s3)) = set (processed s3)"
    using s2(3) s3(2) mset_eq_setD by (auto simp: slots_def)
  with tl_invD(8) [OF inv(1)] have "fst ` set (accepted (run_line s)) \<subseteq> ebt_timestamp ` set (processed s3)"
    using s2(2) s3(2) by simp
  with path pend s2 s3(2) show ?thesis by (intro exI [of _ s3]) simp
qed

lemma first_reports_subset: "set (first_reports xs) \<subseteq> set xs"
  by (induction xs) auto

lemma counting_all:
  assumes "fst ` set reports \<subseteq> set ts"
  shows "counting cond T ts reports = counting cond T (map fst reports) reports"
proof -
  have "fst x \<in> set ts \<and> fst x \<in> fst ` set reports"
    if "x \<in> set (first_reports (filter (\<lambda>(t, d). ed_metric d = ec_metric cond) reports))" for x
    using that first_reports_subset assms by fastforce
  then show ?thesis
    unfolding counting_def by (intro arg_cong [where f = "map snd"] filter_cong) (auto simp: case_prod_unfold)
qed

text \<open>
  C4. Everything accepted gets to the answers: from every state of a run of a handler that was not told to stop, the
  server can, once the clock has passed its open slots, get to a state with the same accepted reports and nothing left
  open, in the queue or with a helper, in which a query counts all the accepted reports of its window and metric, each message
  id once in a slot, and sums their first values. No report can get stuck between its acceptance and the store.
\<close>
theorem accepted_reach_store:
  assumes "run_reach api localtime env (fresh_run t0 h ss) s" "good_start h" "\<not> thread_terminate h"
    and "store_ready api contents localtime t0 h hn so d0" "leveldb_ptr ss = Some (so, d0)"
    and "inputs_ok h (contents hn d0) (run_line s)"
    and "clock (run_line s) \<le> later" "\<forall>x\<in>set (events (handler (run_line s))). fst x + event_linger (eh_conf h) < later"
    and "\<forall>t. t0 \<le> t \<and> t \<le> later \<longrightarrow> get_table_suffix localtime t = get_table_suffix localtime t0"
    and "asks cond h" "st = query_head later cond (event_linger (eh_conf h)) empty_select" "query_ok cond st"
    and "told = counting cond (es_timestamp st) (map fst (accepted (run_line s))) (accepted (run_line s))"
  shows "\<exists>s' answer ss'. run_reach api localtime env s s' \<and> accepted (run_line s') = accepted (run_line s) \<and>
           events (handler (run_line s')) = [] \<and> waiting_slots s' = [] \<and>
           eh_get_event (on_leveldb api localtime later env) cond empty_select (handler (run_line s')) (run_stores s') =
             Some (0, answer, ss') \<and>
           ei_count (es_summary answer) = to_i32 (counted (hits contents hn d0 cond st) + int (length told)) \<and>
           ei_value_sum (es_summary answer) =
             to_i64 (summed (hits contents hn d0 cond st) + sum_list (map ed_value told))"
proof -
  obtain s' where s': "run_reach api localtime env s s'" "accepted (run_line s') = accepted (run_line s)"
    "events (handler (run_line s')) = []" "waiting_slots s' = []" "clock (run_line s') = later"
    "fst ` set (accepted (run_line s)) \<subseteq> ebt_timestamp ` set (processed s')"
    using accepted_processed [OF assms(1-3,7,8)] by blast
  have inp: "inputs_ok h (contents hn d0) (run_line s')" using assms(6) s'(2) by (simp add: inputs_ok_def)
  have "told = counting cond (es_timestamp st) (map ebt_timestamp (processed s')) (accepted (run_line s'))"
    using counting_all [of "accepted (run_line s)" "map ebt_timestamp (processed s')"] s'(2,6) assms(13) by simp
  from run_answer [OF run_reach_trans [OF assms(1) s'(1)] assms(2,4,5) inp eq_refl [OF s'(5)] assms(9-12) this] s'
  show ?thesis by (auto simp: told_sums_def)
qed

section \<open>Witnesses\<close>

text \<open>The data of the slot above arrive in one report; the slot is closed, processed and asked for.\<close>

definition run_report_example :: event_report_t where
  "run_report_example =
     \<lparr>er_version = ''1.0.0'', er_timestamp = 1025, er_service = ''svc'', er_entity_idx = ''1'', er_data = pipeline_data\<rparr>"

definition gathered_line :: timeline where
  "gathered_line =
     \<lparr>clock = 1025, handler = pipeline_handler\<lparr>events := [(1030, pipeline_slot)]\<rparr>, closed = [],
      accepted = map (Pair 1030) pipeline_data\<rparr>"

definition closed_line :: timeline where
  "closed_line =
     \<lparr>clock = 1060, handler = pipeline_handler\<lparr>process_queue := \<lparr>items = [pipeline_slot]\<rparr>\<rparr>, closed = [pipeline_slot],
      accepted = map (Pair 1030) pipeline_data\<rparr>"

definition example_run :: "(unit, unit StoreLevelDB \<times> (string \<times> string) list) server_run" where
  "example_run =
     \<lparr>run_line = closed_line\<lparr>handler := pipeline_handler\<rparr>, helpers = [], processed = [pipeline_slot],
      run_stores = process_slot log_leveldb (\<lambda>_. (119, 7)) pipeline_env closed_line pipeline_slot pipeline_stores\<rparr>"

lemma pipeline_handler_fields [simp]:
  "eh_service pipeline_handler = ''svc''" "eh_entity_idx pipeline_handler = ''1''" "has_store pipeline_handler"
  "eh_conf pipeline_handler = \<lparr>event_linger = 5, event_step = 10, additional_process_step_size = 3, store_type = ''leveldb''\<rparr>"
  "events pipeline_handler = []" "process_queue pipeline_handler = \<lparr>items = []\<rparr>" "\<not> thread_terminate pipeline_handler"
  by (simp_all add: pipeline_handler_def mk_EventHandler_def empty_queue_def)

lemma gathered:
  "snd (eh_add_event 1025 run_report_example pipeline_handler) = handler gathered_line"
  "taken_in 1025 run_report_example pipeline_handler = accepted gathered_line"
  by (simp_all add: eh_add_event_def do_add_event_def run_report_example_def gathered_line_def taken_in_def nice_step_def
      pipeline_slot_def pipeline_data_def add_to_slot_def)

lemma lingered:
  "linger_check_run 1060 (handler gathered_line) = handler closed_line"
  "newly_closed 1060 (handler gathered_line) = [pipeline_slot]"
  by (simp_all add: linger_check_run_def newly_closed_def gathered_line_def closed_line_def PUSH_def)

lemma worked:
  "run_turn [] insf (handler closed_line) st =
     Some ([], Some pipeline_slot, pipeline_handler,
           snd (do_process_event (has_store (handler closed_line)) insf pipeline_slot (stat_for (handler closed_line) pipeline_slot) st))"
  by (simp add: run_turn_def closed_line_def drain_batches.simps SIZE_def to_i32_id is_i32_def to_u64_def POP_timed_def pop_front_def)

lemma example_gathered:
  "run_reach log_leveldb (\<lambda>_. (119, 7)) pipeline_env (fresh_run 1025 pipeline_handler pipeline_stores)
     \<lparr>run_line = gathered_line, helpers = [], processed = [], run_stores = pipeline_stores\<rparr>"
proof -
  have "run_step log_leveldb (\<lambda>_. (119, 7)) pipeline_env (fresh_run 1025 pipeline_handler pipeline_stores)
      \<lparr>run_line = gathered_line, helpers = [], processed = [], run_stores = pipeline_stores\<rparr>"
    using run_step.run_report [OF refl, where s = "fresh_run 1025 pipeline_handler pipeline_stores" and ev = run_report_example]
    by (simp add: fresh_run_def fresh_timeline_def gathered) (simp add: gathered_line_def)
  then show ?thesis by (rule run_reach.run_more [OF run_reach.run_start])
qed

lemma example_run_reach:
  "run_reach log_leveldb (\<lambda>_. (119, 7)) pipeline_env (fresh_run 1025 pipeline_handler pipeline_stores) example_run"
proof -
  let ?step = "run_step log_leveldb (\<lambda>_. (119, 7)) pipeline_env"
  let ?at = "\<lambda>l. \<lparr>run_line = l, helpers = [], processed = [], run_stores = pipeline_stores\<rparr>"
  note example_gathered
  moreover have "?step (?at gathered_line) (?at (gathered_line\<lparr>clock := 1060\<rparr>))"
    using run_step.run_tick [OF refl, where s = "?at gathered_line" and t = 1060] by (simp add: gathered_line_def)
  moreover have "?step (?at (gathered_line\<lparr>clock := 1060\<rparr>)) (?at closed_line)"
    using run_step.run_linger [OF refl, where s = "?at (gathered_line\<lparr>clock := 1060\<rparr>)"]
    by (simp add: lingered) (simp add: gathered_line_def closed_line_def)
  moreover have "?step (?at closed_line) example_run"
    using run_step.run_work [OF refl, where s = "?at closed_line"] by (simp add: worked example_run_def process_slot_def)
  ultimately show ?thesis by (meson run_reach.intros)
qed

lemma example_good_start: "good_start pipeline_handler"
  by (simp add: good_start_def)

lemma example_store_ready: "store_ready log_leveldb log_contents (\<lambda>_. (119, 7)) 1025 pipeline_handler () example_store []"
proof -
  have wf: "om_wf (levelDBs example_store)" by (simp add: example_store_def om_wf_def)
  then have "get_leveldb_handler log_leveldb (\<lambda>_. (119, 7)) 1025 ''svc'' (example_store, []) = (Some (), example_store, [])"
    using handler_stays_open [OF pipeline_table, of 1025 "[]"] by (simp add: get_table_suffix_def)
  with wf show ?thesis
    by (simp add: store_ready_def log_leveldb_ok puts_succeed_def plain_def char_of_eq_iff) (simp add: log_leveldb_def)
qed

theorem reports_are_counted_witness:
  "case eh_get_event (on_leveldb log_leveldb (\<lambda>_. (119, 7)) 1070 pipeline_env) pipeline_cond empty_select
          (handler (run_line example_run)) (run_stores example_run) of
     None \<Rightarrow> False
   | Some (ret, answer, _) \<Rightarrow> ret = 0 \<and> ei_count (es_summary answer) = 2 \<and> ei_value_sum (es_summary answer) = 1"
proof -
  let ?st = "query_head 1070 pipeline_cond (event_linger (eh_conf pipeline_handler)) empty_select"
  let ?told = "counting pipeline_cond (es_timestamp ?st) (map ebt_timestamp (processed example_run)) (accepted (run_line example_run))"
  have none: "log_contents () [] = []" by (simp add: log_contents_def)
  have inp: "inputs_ok pipeline_handler (log_contents () []) (run_line example_run)"
    by (simp add: inputs_ok_def none example_run_def closed_line_def pipeline_data_def reportable_def good_time_def plain_def char_of_eq_iff)
  have q: "asks pipeline_cond pipeline_handler" "query_ok pipeline_cond ?st" "leveldb_ptr pipeline_stores = Some (example_store, [])"
    "clock (run_line example_run) \<le> 1070"
    by (simp_all add: query_ok_def asks_def query_head_def pipeline_cond_def default_cond_def good_time_def empty_select_def
        pipeline_stores_def example_run_def closed_line_def)
  have told: "length ?told = 2" "sum_list (map ed_value ?told) = 1"
    by (simp_all add: counting_def example_run_def closed_line_def pipeline_data_def pipeline_slot_def pipeline_cond_def
        default_cond_def query_head_def in_window_def)
  have base: "counted (hits log_contents () [] pipeline_cond ?st) = 0" "summed (hits log_contents () [] pipeline_cond ?st) = 0"
    by (simp_all add: hits_def none counted_def summed_def)
  have wide: "to_i32 (0 + int 2) = 2" "to_i64 (0 + 1) = 1" by (simp_all add: to_i32_id to_i64_id is_i32_def is_i64_def)
  have "\<forall>t. 1025 \<le> t \<and> t \<le> 1070 \<longrightarrow> get_table_suffix (\<lambda>_. (119, 7)) t = get_table_suffix (\<lambda>_. (119, 7)) 1025"
    by (simp add: get_table_suffix_def)
  from reports_are_counted [OF example_run_reach example_good_start example_store_ready q(3) inp q(4) this q(1) refl q(2) refl]
  show ?thesis unfolding told base wide .
qed

text \<open>The report has just come in: its slot is still open.\<close>
theorem accepted_reach_store_witness:
  "\<exists>s' answer ss'. run_reach log_leveldb (\<lambda>_. (119, 7)) pipeline_env
           \<lparr>run_line = gathered_line, helpers = [], processed = [], run_stores = pipeline_stores\<rparr> s' \<and>
      waiting_slots s' = [] \<and>
      eh_get_event (on_leveldb log_leveldb (\<lambda>_. (119, 7)) 1070 pipeline_env) pipeline_cond empty_select
        (handler (run_line s')) (run_stores s') = Some (0, answer, ss') \<and>
      ei_count (es_summary answer) = 2 \<and> ei_value_sum (es_summary answer) = 1"
proof -
  let ?st = "query_head 1070 pipeline_cond (event_linger (eh_conf pipeline_handler)) empty_select"
  let ?s = "\<lparr>run_line = gathered_line, helpers = [], processed = [], run_stores = pipeline_stores\<rparr>"
  let ?told = "counting pipeline_cond (es_timestamp ?st) (map fst (accepted (run_line ?s))) (accepted (run_line ?s))"
  have none: "log_contents () [] = []" by (simp add: log_contents_def)
  have inp: "inputs_ok pipeline_handler (log_contents () []) (run_line ?s)"
    by (simp add: inputs_ok_def none gathered_line_def pipeline_data_def reportable_def good_time_def plain_def char_of_eq_iff)
  have q: "asks pipeline_cond pipeline_handler" "query_ok pipeline_cond ?st" "leveldb_ptr pipeline_stores = Some (example_store, [])"
    "clock (run_line ?s) \<le> 1070"
    "\<forall>x\<in>set (events (handler (run_line ?s))). fst x + event_linger (eh_conf pipeline_handler) < 1070"
    by (simp_all add: query_ok_def asks_def query_head_def pipeline_cond_def default_cond_def good_time_def empty_select_def
        pipeline_stores_def gathered_line_def)
  have told: "length ?told = 2" "sum_list (map ed_value ?told) = 1"
    by (simp_all add: counting_def gathered_line_def pipeline_data_def pipeline_cond_def
        default_cond_def query_head_def in_window_def)
  have base: "counted (hits log_contents () [] pipeline_cond ?st) = 0" "summed (hits log_contents () [] pipeline_cond ?st) = 0"
    by (simp_all add: hits_def none counted_def summed_def)
  have wide: "to_i32 (0 + int 2) = 2" "to_i64 (0 + 1) = 1" by (simp_all add: to_i32_id to_i64_id is_i32_def is_i64_def)
  have "\<forall>t. 1025 \<le> t \<and> t \<le> 1070 \<longrightarrow> get_table_suffix (\<lambda>_. (119, 7)) t = get_table_suffix (\<lambda>_. (119, 7)) 1025"
    by (simp add: get_table_suffix_def)
  from accepted_reach_store [OF example_gathered example_good_start pipeline_handler_fields(7) example_store_ready q(3) inp q(4,5) this
      q(1) refl q(2) refl]
  show ?thesis unfolding told base wide by blast
qed

end
