(* ===== verification/ConnPool.thy ===== *)
theory ConnPool
  imports Prelude
begin

text \<open>
  \<open>source/Connect/ConnPool.h\<close>: a bounded pool of connections that threads borrow and give back.

  A connection is known by its address, the key of \<open>conns_busy_\<close>; \<open>alloc\<close> is the address
  \<open>make_shared\<close> gives a new one. The connection class \<open>T\<close> is the argument \<open>ops\<close>: its \<open>init\<close>,
  \<open>is_health\<close> and \<open>ping_test\<close> on a world of type \<open>'w\<close>, which the client and the connections share. Every
  operation holds \<open>conn_notify_mutex_\<close> for its whole effect, so threads interleave operation by
  operation; a request that finds nothing available waits on the condition variable and is
  \<open>Blocked\<close> until a connection comes back. \<open>SAFE_ASSERT\<close> only logs.
\<close>

section \<open>Connection age\<close>

record PoolConnStat =
  start_sec :: "32 word"

definition touch :: "int \<Rightarrow> PoolConnStat \<Rightarrow> PoolConnStat" where
  "touch now c = c\<lparr>start_sec := word_of_int now\<rparr>"

definition expire :: "int \<Rightarrow> 32 word \<Rightarrow> PoolConnStat \<Rightarrow> bool" where
  "expire now linger c \<longleftrightarrow> linger < (word_of_int now :: 32 word)"

record ConnPoolStat =
  acquired_count :: "32 word"
  acquired_success :: "32 word"

definition incr_count :: "ConnPoolStat \<Rightarrow> ConnPoolStat" where
  "incr_count s = s\<lparr>acquired_count := acquired_count s + 1\<rparr>"

definition incr_success :: "ConnPoolStat \<Rightarrow> ConnPoolStat" where
  "incr_success s = s\<lparr>acquired_success := acquired_success s + 1\<rparr>"

section \<open>The pool\<close>

record 'w conn_ops =
  conn_init :: "nat \<Rightarrow> 'w \<Rightarrow> (bool \<times> 'w) blocking"
  is_health :: "nat \<Rightarrow> 'w \<Rightarrow> bool"
  ping_test :: "nat \<Rightarrow> 'w \<Rightarrow> (bool \<times> 'w) blocking"

text \<open>
  The pool; \<open>trim_timer\<close> and \<open>status_registered\<close> say what \<open>init\<close> has registered with \<open>Timer\<close> and
  \<open>Status\<close>.
\<close>

record ConnPool =
  pool_name :: string
  capacity :: nat
  conns_busy :: "nat list"
  conns_idle :: "nat list"
  pool_stat :: ConnPoolStat
  conn_trim_linger :: "32 word"
  trim_timer :: bool
  status_registered :: bool

text \<open>The constructor; the capacity is converted to \<open>size_t\<close>.\<close>

definition mk_ConnPool :: "string \<Rightarrow> int \<Rightarrow> 32 word \<Rightarrow> ConnPool" where
  "mk_ConnPool name cap linger_sec =
     \<lparr>pool_name = name, capacity = nat (to_u64 cap), conns_busy = [], conns_idle = [],
      pool_stat = \<lparr>acquired_count = 0, acquired_success = 0\<rparr>, conn_trim_linger = linger_sec,
      trim_timer = False, status_registered = False\<rparr>"

definition get_conn_capacity :: "ConnPool \<Rightarrow> nat" where
  "get_conn_capacity p = capacity p"

definition do_check_available :: "ConnPool \<Rightarrow> bool" where
  "do_check_available p \<longleftrightarrow> conns_idle p \<noteq> [] \<or> length (conns_idle p) + length (conns_busy p) < capacity p"

definition lend :: "nat \<Rightarrow> ConnPool \<Rightarrow> ConnPool" where
  "lend c p = p\<lparr>conns_busy := os_insert c (conns_busy p), pool_stat := incr_success (pool_stat p)\<rparr>"

definition do_request_conn ::
    "'w conn_ops \<Rightarrow> (ConnPool \<Rightarrow> nat) \<Rightarrow> ConnPool \<Rightarrow> 'w \<Rightarrow> (nat option \<times> ConnPool \<times> 'w) blocking" where
  "do_request_conn ops alloc p w =
     (case conns_idle p of
        c # cs \<Rightarrow> Returned (Some c, lend c (p\<lparr>conns_idle := cs\<rparr>), w)
      | [] \<Rightarrow>
          if length (conns_idle p) + length (conns_busy p) < capacity p
          then and_then (conn_init ops (alloc p) w) (\<lambda>(ok, w').
                 if ok then Returned (Some (alloc p), lend (alloc p) p, w') else Returned (None, p, w'))
          else Returned (None, p, w))"

text \<open>\<open>request_conn\<close>; \<open>request_scoped_conn\<close> adds the deleter that calls \<open>free_conn\<close>.\<close>

definition request_conn ::
    "'w conn_ops \<Rightarrow> (ConnPool \<Rightarrow> nat) \<Rightarrow> ConnPool \<Rightarrow> 'w \<Rightarrow> (nat option \<times> ConnPool \<times> 'w) blocking" where
  "request_conn ops alloc p w =
     (let p1 = p\<lparr>pool_stat := incr_count (pool_stat p)\<rparr>
      in if \<not> do_check_available p1 then Blocked else do_request_conn ops alloc p1 w)"

definition free_conn :: "'w conn_ops \<Rightarrow> nat \<Rightarrow> ConnPool \<Rightarrow> 'w \<Rightarrow> ConnPool" where
  "free_conn ops c p w =
     (let p1 = (if is_health ops c w then p\<lparr>conns_idle := conns_idle p @ [c]\<rparr> else p)
      in p1\<lparr>conns_busy := filter (\<lambda>b. b \<noteq> c) (conns_busy p1)\<rparr>)"

definition request_scoped_conn ::
    "'w conn_ops \<Rightarrow> (ConnPool \<Rightarrow> nat) \<Rightarrow> ConnPool \<Rightarrow> 'w \<Rightarrow> (bool \<times> nat option \<times> ConnPool \<times> 'w) blocking" where
  "request_scoped_conn ops alloc p w =
     (let p1 = p\<lparr>pool_stat := incr_count (pool_stat p)\<rparr>
      in if \<not> do_check_available p1 then Blocked
         else and_then (do_request_conn ops alloc p1 w) (\<lambda>(conn, p2, w').
                Returned (conn \<noteq> None, conn, p2, w')))"

text \<open>
  A client of the pool: borrow a connection into a local \<open>ConnPtr\<close>, do the work when there is one, and give
  it back when the pointer goes out of scope. \<open>failed\<close> is the result without a connection.
\<close>

definition with_scoped_conn ::
    "'w conn_ops \<Rightarrow> (ConnPool \<Rightarrow> nat) \<Rightarrow> 'r \<Rightarrow> (nat \<Rightarrow> 'w \<Rightarrow> ('r \<times> 'w) blocking) \<Rightarrow> ConnPool \<Rightarrow> 'w \<Rightarrow>
     ('r \<times> ConnPool \<times> 'w) blocking" where
  "with_scoped_conn ops alloc failed work p w =
     and_then (request_scoped_conn ops alloc p w) (\<lambda>(_, conn, p1, w1).
       case conn of
         None \<Rightarrow> Returned (failed, p1, w1)
       | Some c \<Rightarrow> and_then (work c w1) (\<lambda>(r, w2). Returned (r, free_conn ops c p1 w2, w2)))"

definition conn_pool_init ::
    "'w conn_ops \<Rightarrow> (ConnPool \<Rightarrow> nat) \<Rightarrow> ConnPool \<Rightarrow> 'w \<Rightarrow> (bool \<times> ConnPool \<times> 'w) blocking" where
  "conn_pool_init ops alloc p w =
     and_then (with_scoped_conn ops alloc False (ping_test ops) p w) (\<lambda>(ok, p1, w1).
       if \<not> ok then Returned (False, p1, w1)
       else Returned (True, p1\<lparr>trim_timer := (conn_trim_linger p1 \<noteq> 0 \<or> trim_timer p1), status_registered := True\<rparr>, w1))"

text \<open>
  \<open>do_conn_linger_trim\<close>: \<open>stats\<close> gives each connection's age record, \<open>slow n\<close> whether more than 20 ms have
  passed when the clock is read after \<open>n\<close> connections.
\<close>

fun trim_loop ::
    "(nat \<Rightarrow> PoolConnStat) \<Rightarrow> int \<Rightarrow> 32 word \<Rightarrow> (nat \<Rightarrow> bool) \<Rightarrow> nat \<Rightarrow> nat list \<Rightarrow> nat list" where
  "trim_loop stats now linger slow n [] = []"
| "trim_loop stats now linger slow n (c # cs) =
     (let kept = (if expire now linger (stats c) then [] else [c])
      in if Suc n mod 20 = 0 \<and> slow (Suc n) then kept @ cs
         else kept @ trim_loop stats now linger slow (Suc n) cs)"

definition do_conn_linger_trim ::
    "(nat \<Rightarrow> PoolConnStat) \<Rightarrow> int \<Rightarrow> (nat \<Rightarrow> bool) \<Rightarrow> ConnPool \<Rightarrow> ConnPool" where
  "do_conn_linger_trim stats now slow p =
     (if conns_idle p = [] then p
      else p\<lparr>conns_idle := trim_loop stats now (conn_trim_linger p) slow 0 (conns_idle p)\<rparr>)"

section \<open>The invariant\<close>

definition conn_pool_ok :: "ConnPool \<Rightarrow> bool" where
  "conn_pool_ok p \<longleftrightarrow>
     sorted_wrt (<) (conns_busy p) \<and> distinct (conns_idle p) \<and> set (conns_busy p) \<inter> set (conns_idle p) = {} \<and>
     length (conns_idle p) + length (conns_busy p) \<le> capacity p"

definition alloc_ok :: "(ConnPool \<Rightarrow> nat) \<Rightarrow> bool" where
  "alloc_ok alloc \<longleftrightarrow> (\<forall>p. alloc p \<notin> set (conns_busy p) \<and> alloc p \<notin> set (conns_idle p))"

lemma length_os_insert: "k \<notin> set s \<Longrightarrow> length (os_insert k s) = Suc (length s)"
  by (induction k s rule: os_insert.induct) auto

lemma conn_pool_ok_lend:
  assumes "conn_pool_ok p" "c \<notin> set (conns_busy p)" "c \<notin> set (conns_idle p)"
    and "length (conns_idle p) + length (conns_busy p) < capacity p"
  shows "conn_pool_ok (lend c p)"
  using assms by (auto simp: conn_pool_ok_def lend_def sorted_os_insert set_os_insert length_os_insert)

lemma set_busy_lend [simp]: "set (conns_busy (lend c p)) = insert c (set (conns_busy p))"
  by (simp add: lend_def set_os_insert)

lemma capacity_lend [simp]: "capacity (lend c p) = capacity p"
  by (simp add: lend_def)

text \<open>A successful request hands out a connection nobody holds.\<close>

lemma do_request_conn_some:
  assumes "conn_pool_ok p" "alloc_ok alloc" "do_request_conn ops alloc p w = Returned (Some c, p', w')"
  shows "c \<notin> set (conns_busy p) \<and> conn_pool_ok p' \<and> set (conns_busy p') = insert c (set (conns_busy p)) \<and>
    capacity p' = capacity p"
proof (cases "conns_idle p")
  case Nil
  from assms(3) Nil have "c = alloc p" "p' = lend (alloc p) p" and len: "length (conns_busy p) < capacity p"
    by (cases "conn_init ops (alloc p) w"; auto simp: do_request_conn_def split: if_splits)+
  with assms(1,2) Nil show ?thesis by (auto simp: alloc_ok_def intro!: conn_pool_ok_lend)
next
  case (Cons b cs)
  with assms(3) have c: "c = b" and p': "p' = lend b (p\<lparr>conns_idle := cs\<rparr>)"
    by (auto simp: do_request_conn_def)
  from assms(1) Cons have "conn_pool_ok (p\<lparr>conns_idle := cs\<rparr>)" "b \<notin> set (conns_busy p)" "b \<notin> set cs"
    "length cs + length (conns_busy p) < capacity p"
    by (auto simp: conn_pool_ok_def)
  with c p' show ?thesis by (auto intro!: conn_pool_ok_lend)
qed

lemma do_request_conn_none:
  "do_request_conn ops alloc p w = Returned (None, p', w') \<Longrightarrow> p' = p"
  by (cases "conn_init ops (alloc p) w") (auto simp: do_request_conn_def split: list.splits if_splits)

lemma do_request_conn_returns:
  assumes "\<exists>r. conn_init ops (alloc p) w = Returned r"
  shows "\<exists>r. do_request_conn ops alloc p w = Returned r"
proof -
  from assms obtain ok w' where "conn_init ops (alloc p) w = Returned (ok, w')" by auto
  then show ?thesis by (cases ok) (simp_all add: do_request_conn_def split: list.splits)
qed

lemma counted_pool_ok [simp]:
  "conn_pool_ok (p\<lparr>pool_stat := s\<rparr>) = conn_pool_ok p" "do_check_available (p\<lparr>pool_stat := s\<rparr>) = do_check_available p"
  by (simp_all add: conn_pool_ok_def do_check_available_def)

lemma request_scoped_conn_some:
  assumes "conn_pool_ok p" "alloc_ok alloc" "request_scoped_conn ops alloc p w = Returned (ok, Some c, p', w')"
  shows "ok \<and> c \<notin> set (conns_busy p) \<and> conn_pool_ok p' \<and> set (conns_busy p') = insert c (set (conns_busy p)) \<and>
    capacity p' = capacity p"
proof -
  let ?p = "p\<lparr>pool_stat := incr_count (pool_stat p)\<rparr>"
  from assms(3) have "ok" "do_request_conn ops alloc ?p w = Returned (Some c, p', w')"
    by (cases "do_request_conn ops alloc ?p w"; auto simp: request_scoped_conn_def split: if_splits)+
  with assms(1,2) do_request_conn_some [of ?p alloc ops w c p' w'] show ?thesis by simp
qed

lemma request_scoped_conn_none:
  assumes "request_scoped_conn ops alloc p w = Returned (ok, None, p', w')"
  shows "\<not> ok \<and> p' = p\<lparr>pool_stat := incr_count (pool_stat p)\<rparr>"
  using assms do_request_conn_none [of ops alloc "p\<lparr>pool_stat := incr_count (pool_stat p)\<rparr>" w]
  by (cases "do_request_conn ops alloc (p\<lparr>pool_stat := incr_count (pool_stat p)\<rparr>) w")
    (auto simp: request_scoped_conn_def split: if_splits)

lemma free_conn_simps [simp]:
  "conns_busy (free_conn ops c p w) = filter (\<lambda>b. b \<noteq> c) (conns_busy p)"
  "conns_idle (free_conn ops c p w) = (if is_health ops c w then conns_idle p @ [c] else conns_idle p)"
  "capacity (free_conn ops c p w) = capacity p"
  by (simp_all add: free_conn_def Let_def)

lemma length_filter_neq: "distinct xs \<Longrightarrow> x \<in> set xs \<Longrightarrow> Suc (length (filter (\<lambda>b. b \<noteq> x) xs)) = length xs"
proof (induction xs)
  case (Cons y ys)
  moreover have "filter (\<lambda>b. b \<noteq> x) ys = ys" if "x \<notin> set ys" using that by (auto simp: filter_id_conv)
  ultimately show ?case by auto
qed simp

lemma free_conn_ok:
  assumes "conn_pool_ok p" "c \<in> set (conns_busy p)"
  shows "conn_pool_ok (free_conn ops c p w)" "do_check_available (free_conn ops c p w)"
proof -
  from assms(1) have "distinct (conns_busy p)" by (simp add: conn_pool_ok_def strict_sorted_iff)
  from length_filter_neq [OF this assms(2)]
  have len: "Suc (length (filter (\<lambda>b. b \<noteq> c) (conns_busy p))) = length (conns_busy p)" .
  with assms show "conn_pool_ok (free_conn ops c p w)"
    by (auto simp: conn_pool_ok_def sorted_wrt_filter)
  from assms len show "do_check_available (free_conn ops c p w)"
    by (auto simp: conn_pool_ok_def do_check_available_def)
qed

lemma trim_loop_sub: "set (trim_loop stats now linger slow n cs) \<subseteq> set cs"
  "length (trim_loop stats now linger slow n cs) \<le> length cs"
  "distinct cs \<Longrightarrow> distinct (trim_loop stats now linger slow n cs)"
  by (induction cs arbitrary: n) (auto simp: Let_def le_SucI)

lemma trim_ok: "conn_pool_ok p \<Longrightarrow> conn_pool_ok (do_conn_linger_trim stats now slow p)"
  using trim_loop_sub [where stats = stats and now = now and linger = "conn_trim_linger p" and slow = slow and n = 0
      and cs = "conns_idle p"]
  by (auto simp: conn_pool_ok_def do_conn_linger_trim_def)

section \<open>Borrowing\<close>

text \<open>
  What a client relies on: a request hands out something nobody holds, and what is given back is no
  longer held. A client that gives back what it borrowed then leaves the others' holdings as they were.
\<close>

locale borrowing =
  fixes inv :: "'p \<Rightarrow> bool"
    and held :: "'p \<Rightarrow> 'c set"
    and request :: "'p \<Rightarrow> 'w \<Rightarrow> (bool \<times> 'c option \<times> 'p \<times> 'w) blocking"
    and give :: "'c \<Rightarrow> 'p \<Rightarrow> 'w \<Rightarrow> 'p"
  assumes request_some:
      "inv p \<Longrightarrow> request p w = Returned (ok, Some c, p', w') \<Longrightarrow> c \<notin> held p \<and> inv p' \<and> held p' = insert c (held p)"
    and request_none: "inv p \<Longrightarrow> request p w = Returned (ok, None, p', w') \<Longrightarrow> inv p' \<and> held p' = held p"
    and give_held: "inv p \<Longrightarrow> c \<in> held p \<Longrightarrow> inv (give c p w) \<and> held (give c p w) = held p - {c}"
begin

lemma borrowed_and_returned:
  assumes "inv p" "request p w = Returned (ok, Some c, p1, w1)"
  shows "inv (give c p1 w2) \<and> held (give c p1 w2) = held p"
proof -
  from request_some [OF assms] have c: "c \<notin> held p" and p1: "inv p1" "held p1 = insert c (held p)" by auto
  from give_held [OF p1(1), of c w2] p1(2) c show ?thesis by simp
qed

end

interpretation cp: borrowing "\<lambda>p. conn_pool_ok p \<and> alloc_ok alloc" "\<lambda>p. set (conns_busy p)"
  "request_scoped_conn ops alloc" "free_conn ops"
  for ops :: "'w conn_ops" and alloc
proof
  fix p w ok c p' w'
  assume inv: "conn_pool_ok p \<and> alloc_ok alloc"
  show "c \<notin> set (conns_busy p) \<and> (conn_pool_ok p' \<and> alloc_ok alloc) \<and> set (conns_busy p') = insert c (set (conns_busy p))"
    if "request_scoped_conn ops alloc p w = Returned (ok, Some c, p', w')"
    using inv request_scoped_conn_some [OF _ _ that] by blast
  show "(conn_pool_ok p' \<and> alloc_ok alloc) \<and> set (conns_busy p') = set (conns_busy p)"
    if "request_scoped_conn ops alloc p w = Returned (ok, None, p', w')"
    using inv request_scoped_conn_none [OF that] by simp
  show "(conn_pool_ok (free_conn ops c p w) \<and> alloc_ok alloc) \<and>
      set (conns_busy (free_conn ops c p w)) = set (conns_busy p) - {c}"
    if "c \<in> set (conns_busy p)"
    using inv free_conn_ok(1) [OF _ that] by auto
qed

lemma with_scoped_conn_keeps:
  assumes "conn_pool_ok p" "alloc_ok alloc" "with_scoped_conn ops alloc failed work p w = Returned (r, p', w')"
  shows "conn_pool_ok p' \<and> set (conns_busy p') = set (conns_busy p)"
proof -
  from assms(3) obtain ok conn p1 w1 where req: "request_scoped_conn ops alloc p w = Returned (ok, conn, p1, w1)"
    by (cases "request_scoped_conn ops alloc p w") (auto simp: with_scoped_conn_def)
  show ?thesis
  proof (cases conn)
    case None
    with assms req cp.request_none [of p alloc ops w ok p1 w1] show ?thesis by (auto simp: with_scoped_conn_def)
  next
    case (Some c)
    with assms(3) req obtain w2 where "p' = free_conn ops c p1 w2"
      by (cases "work c w1") (auto simp: with_scoped_conn_def)
    with assms(1,2) Some req cp.borrowed_and_returned [of p alloc ops w ok c p1 w1 w2] show ?thesis by simp
  qed
qed

section \<open>Threads that share a pool\<close>

text \<open>
  The state of the pool and the connections in the threads' hands, as the threads and the trim timer take
  their turns.
\<close>

inductive pool_step :: "'w conn_ops \<Rightarrow> (ConnPool \<Rightarrow> nat) \<Rightarrow> ConnPool \<times> nat list \<Rightarrow> ConnPool \<times> nat list \<Rightarrow> bool"
  for ops alloc where
  borrow: "request_scoped_conn ops alloc p w = Returned (ok, Some c, p', w') \<Longrightarrow>
    pool_step ops alloc (p, hs) (p', c # hs)"
| refused: "request_scoped_conn ops alloc p w = Returned (ok, None, p', w') \<Longrightarrow>
    pool_step ops alloc (p, hs) (p', hs)"
| give_back: "c \<in> set hs \<Longrightarrow> pool_step ops alloc (p, hs) (free_conn ops c p w, remove1 c hs)"
| trim: "pool_step ops alloc (p, hs) (do_conn_linger_trim stats now slow p, hs)"

inductive_cases pool_stepE: "pool_step ops alloc s s'"

inductive pool_reach ::
    "'w conn_ops \<Rightarrow> (ConnPool \<Rightarrow> nat) \<Rightarrow> ConnPool \<times> nat list \<Rightarrow> ConnPool \<times> nat list \<Rightarrow> bool" for ops alloc s0 where
  pool_fresh: "pool_reach ops alloc s0 s0"
| pool_next: "pool_reach ops alloc s0 s \<Longrightarrow> pool_step ops alloc s s' \<Longrightarrow> pool_reach ops alloc s0 s'"

definition shared_ok :: "nat \<Rightarrow> ConnPool \<times> nat list \<Rightarrow> bool" where
  "shared_ok cap s \<longleftrightarrow>
     conn_pool_ok (fst s) \<and> distinct (snd s) \<and> set (conns_busy (fst s)) = set (snd s) \<and> capacity (fst s) = cap"

lemma pool_step_ok:
  assumes "pool_step ops alloc s s'" "alloc_ok alloc" "shared_ok cap s"
  shows "shared_ok cap s'"
  using assms(1)
proof (cases rule: pool_step.cases)
  case (borrow p w ok c p' w' hs)
  with assms(2,3) request_scoped_conn_some [OF _ assms(2) borrow(3)] show ?thesis by (simp add: shared_ok_def)
next
  case (refused p w ok p' w' hs)
  with assms(3) request_scoped_conn_none [OF refused(3)] show ?thesis by (simp add: shared_ok_def)
next
  case (give_back c hs p w)
  with assms(3) free_conn_ok(1) [of p c ops w] show ?thesis by (auto simp: shared_ok_def)
next
  case (trim p hs stats now slow)
  with assms(3) trim_ok [of p stats now slow] show ?thesis
    by (auto simp: shared_ok_def do_conn_linger_trim_def)
qed

lemma pool_reach_ok:
  assumes "pool_reach ops alloc s0 s" "alloc_ok alloc" "shared_ok cap s0"
  shows "shared_ok cap s"
  using assms by induction (auto intro: pool_step_ok)

lemma mk_ConnPool_ok: "shared_ok (nat (to_u64 cap)) (mk_ConnPool name cap linger, [])"
  by (simp add: shared_ok_def mk_ConnPool_def conn_pool_ok_def)

text \<open>A request in a pool whose whole capacity is lent, and in one with room.\<close>

lemma request_conn_full:
  assumes "\<not> do_check_available p"
  shows "request_conn ops alloc p w = Blocked" "request_scoped_conn ops alloc p w = Blocked"
  using assms by (simp_all add: request_conn_def request_scoped_conn_def Let_def)

lemma request_conn_served:
  assumes "do_check_available p" "\<And>a u. \<exists>r. conn_init ops a u = Returned r"
  shows "\<exists>conn p1 w1. request_conn ops alloc p w = Returned (conn, p1, w1) \<and>
           request_scoped_conn ops alloc p w = Returned (conn \<noteq> None, conn, p1, w1) \<and>
           (conns_idle p \<noteq> [] \<longrightarrow> conn = Some (hd (conns_idle p))) \<and>
           (conn = None \<longrightarrow> (\<exists>a u u'. conn_init ops a u = Returned (False, u')))"
proof -
  let ?p = "p\<lparr>pool_stat := incr_count (pool_stat p)\<rparr>"
  obtain conn p1 w1 where r: "do_request_conn ops alloc ?p w = Returned (conn, p1, w1)"
    using do_request_conn_returns [where ops = ops and alloc = alloc and p = ?p and w = w] assms(2) by (metis prod_cases3)
  obtain ok w' where ini: "conn_init ops (alloc ?p) w = Returned (ok, w')" using assms(2) by (metis prod.exhaust)
  have "conns_idle p \<noteq> [] \<longrightarrow> conn = Some (hd (conns_idle p))"
    using r by (auto simp: do_request_conn_def split: list.splits)
  moreover have "conn = None \<longrightarrow> (\<exists>a u u'. conn_init ops a u = Returned (False, u'))"
    using r ini assms(1) by (auto simp: do_request_conn_def do_check_available_def split: list.splits if_splits)
  ultimately show ?thesis
    using assms(1) r by (simp add: request_conn_def request_scoped_conn_def)
qed

text \<open>
  C18. However threads take turns at a pool, no connection is in two threads' hands or both lent and idle, and no
  more than the capacity exist. A request, plain or scoped, waits when the whole capacity is lent; otherwise,
  as long as connecting itself returns, it comes back: with the first idle connection if there is one, else with a new
  one, which nobody holds, and empty-handed only if connecting failed.
\<close>
theorem pool_exclusive:
  assumes "alloc_ok alloc" "pool_reach ops alloc (mk_ConnPool name cap linger, []) (p, hs)"
  shows "distinct hs \<and> set hs = set (conns_busy p) \<and> set hs \<inter> set (conns_idle p) = {} \<and>
    length hs + length (conns_idle p) \<le> nat (to_u64 cap) \<and>
    (\<not> do_check_available p \<longleftrightarrow> length hs = nat (to_u64 cap)) \<and>
    (length hs = nat (to_u64 cap) \<longrightarrow>
       request_conn ops alloc p w = Blocked \<and> request_scoped_conn ops alloc p w = Blocked) \<and>
    (length hs < nat (to_u64 cap) \<and> (\<forall>a u. \<exists>r. conn_init ops a u = Returned r) \<longrightarrow>
       (\<exists>conn p1 w1. request_conn ops alloc p w = Returned (conn, p1, w1) \<and>
          request_scoped_conn ops alloc p w = Returned (conn \<noteq> None, conn, p1, w1) \<and>
          (conns_idle p \<noteq> [] \<longrightarrow> conn = Some (hd (conns_idle p))) \<and>
          (\<forall>c. conn = Some c \<longrightarrow> c \<notin> set hs) \<and>
          (conn = None \<longrightarrow> (\<exists>a u u'. conn_init ops a u = Returned (False, u')))))"
proof -
  from pool_reach_ok [OF assms(2,1) mk_ConnPool_ok]
  have ok: "conn_pool_ok p" "distinct hs" "set (conns_busy p) = set hs" "capacity p = nat (to_u64 cap)"
    by (simp_all add: shared_ok_def)
  then have len: "length (conns_busy p) = length hs"
    by (metis distinct_card conn_pool_ok_def strict_sorted_iff)
  with ok have lent: "length hs + length (conns_idle p) \<le> nat (to_u64 cap)"
    "\<not> do_check_available p \<longleftrightarrow> length hs = nat (to_u64 cap)" "set hs \<inter> set (conns_idle p) = {}"
    by (auto simp: conn_pool_ok_def do_check_available_def)
  have fresh: "c \<notin> set hs" if "request_scoped_conn ops alloc p w = Returned (True, Some c, p1, w1)" for c p1 w1
    using request_scoped_conn_some [OF ok(1) assms(1) that] ok(3) by simp
  have served: "\<exists>conn p1 w1. request_conn ops alloc p w = Returned (conn, p1, w1) \<and>
      request_scoped_conn ops alloc p w = Returned (conn \<noteq> None, conn, p1, w1) \<and>
      (conns_idle p \<noteq> [] \<longrightarrow> conn = Some (hd (conns_idle p))) \<and> (\<forall>c. conn = Some c \<longrightarrow> c \<notin> set hs) \<and>
      (conn = None \<longrightarrow> (\<exists>a u u'. conn_init ops a u = Returned (False, u')))"
    if "length hs < nat (to_u64 cap)" "\<forall>a u. \<exists>r. conn_init ops a u = Returned r"
  proof -
    note inits = that(2)
    have "do_check_available p" using lent(2) that(1) by auto
    then obtain conn p1 w1 where r: "request_conn ops alloc p w = Returned (conn, p1, w1)"
      "request_scoped_conn ops alloc p w = Returned (conn \<noteq> None, conn, p1, w1)"
      "conns_idle p \<noteq> [] \<longrightarrow> conn = Some (hd (conns_idle p))"
      "conn = None \<longrightarrow> (\<exists>a u u'. conn_init ops a u = Returned (False, u'))"
      using request_conn_served [of p ops alloc w] inits by blast
    moreover have "\<forall>c. conn = Some c \<longrightarrow> c \<notin> set hs" using fresh r(2) by auto
    ultimately show ?thesis by blast
  qed
  have "request_conn ops alloc p w = Blocked \<and> request_scoped_conn ops alloc p w = Blocked"
    if "length hs = nat (to_u64 cap)"
    using request_conn_full [of p ops alloc w] lent(2) that by simp
  with ok(2,3) lent served show ?thesis by blast
qed

text \<open>
  Whenever a lent connection comes back, healthy or not, a waiting request goes through: it is served from
  the idle list or by a new connection, as long as connecting itself returns.
\<close>
theorem returned_conn_serves_waiter:
  assumes "alloc_ok alloc" "pool_reach ops alloc (mk_ConnPool name cap linger, []) (p, hs)" "c \<in> set hs"
    and "\<And>a u. \<exists>r. conn_init ops a u = Returned r"
  shows "\<exists>r. request_scoped_conn ops alloc (free_conn ops c p w) v = Returned r"
proof -
  from pool_reach_ok [OF assms(2,1) mk_ConnPool_ok] assms(3)
  have "conn_pool_ok p" "c \<in> set (conns_busy p)" by (simp_all add: shared_ok_def)
  from free_conn_ok(2) [OF this] have av: "do_check_available (free_conn ops c p w)" .
  let ?p = "(free_conn ops c p w)\<lparr>pool_stat := incr_count (pool_stat (free_conn ops c p w))\<rparr>"
  from do_request_conn_returns [where ops = ops and alloc = alloc and p = ?p and w = v] assms(4)
  obtain r where "do_request_conn ops alloc ?p v = Returned r" by blast
  with av show ?thesis by (cases r) (simp add: request_scoped_conn_def)
qed

text \<open>
  The trim drops every idle connection it looks at, however recently it was used: \<open>expire\<close> compares the
  time of day with the linger instead of the time since \<open>touch\<close>.
\<close>

lemma trim_ignores_age:
  assumes "conn_trim_linger p < word_of_int now" "\<And>n. \<not> slow n"
  shows "conns_idle (do_conn_linger_trim stats now slow p) = []"
proof -
  have "trim_loop stats now (conn_trim_linger p) slow n cs = []" for n cs
    using assms by (induction cs arbitrary: n) (simp_all add: expire_def)
  then show ?thesis by (simp add: do_conn_linger_trim_def)
qed

text \<open>A pool of no capacity cannot even be initialised: the first request waits for ever.\<close>

lemma zero_capacity_blocks:
  "capacity p = 0 \<Longrightarrow> conns_idle p = [] \<Longrightarrow> conn_pool_init ops alloc p w = Blocked"
  by (simp add: conn_pool_init_def with_scoped_conn_def request_scoped_conn_def do_check_available_def)

section \<open>Witnesses\<close>

definition some_alloc :: "ConnPool \<Rightarrow> nat" where
  "some_alloc p = Suc (sum_list (conns_busy p @ conns_idle p))"

lemma some_alloc_ok: "alloc_ok some_alloc"
proof -
  have "x \<noteq> Suc (sum_list ys)" if "x \<in> set ys" for x and ys :: "nat list"
    using member_le_sum_list [OF that] by simp
  then have "some_alloc p \<notin> set (conns_busy p @ conns_idle p)" for p
    unfolding some_alloc_def by metis
  then show ?thesis by (simp add: alloc_ok_def)
qed

definition easy_ops :: "unit conn_ops" where
  "easy_ops = \<lparr>conn_init = \<lambda>c w. Returned (True, w), is_health = \<lambda>c w. c \<noteq> 3, ping_test = \<lambda>c w. Returned (True, w)\<rparr>"

definition two_lent :: ConnPool where
  "two_lent = \<lparr>pool_name = ''MySQLPool'', capacity = 2, conns_busy = [1, 2], conns_idle = [],
     pool_stat = \<lparr>acquired_count = 2, acquired_success = 2\<rparr>, conn_trim_linger = 0, trim_timer = False,
     status_registered = False\<rparr>"

lemma two_lent_reached: "pool_reach easy_ops some_alloc (mk_ConnPool ''MySQLPool'' 2 0, []) (two_lent, [2, 1])"
proof -
  let ?p1 = "two_lent\<lparr>conns_busy := [1], pool_stat := \<lparr>acquired_count = 1, acquired_success = 1\<rparr>\<rparr>"
  have "request_scoped_conn easy_ops some_alloc (mk_ConnPool ''MySQLPool'' 2 0) () = Returned (True, Some 1, ?p1, ())"
    by (simp add: request_scoped_conn_def do_request_conn_def do_check_available_def mk_ConnPool_def easy_ops_def
        some_alloc_def lend_def two_lent_def incr_count_def incr_success_def to_u64_def)
  moreover have "request_scoped_conn easy_ops some_alloc ?p1 () = Returned (True, Some 2, two_lent, ())"
    by (simp add: request_scoped_conn_def do_request_conn_def do_check_available_def easy_ops_def
        some_alloc_def lend_def two_lent_def incr_count_def incr_success_def)
  ultimately show ?thesis by (meson pool_reach.intros pool_step.borrow)
qed

text \<open>Both connections are lent: a third request waits.\<close>
theorem pool_exclusive_witness:
  "request_conn easy_ops some_alloc two_lent () = Blocked \<and> request_scoped_conn easy_ops some_alloc two_lent () = Blocked"
  using pool_exclusive [OF some_alloc_ok two_lent_reached, where w = "()"] by (simp add: to_u64_def)

theorem returned_conn_serves_waiter_witness:
  "\<not> do_check_available two_lent \<and>
   (\<exists>r. request_scoped_conn easy_ops some_alloc (free_conn easy_ops 2 two_lent ()) () = Returned r)"
proof
  show "\<not> do_check_available two_lent" by (simp add: do_check_available_def two_lent_def)
  show "\<exists>r. request_scoped_conn easy_ops some_alloc (free_conn easy_ops 2 two_lent ()) () = Returned r"
    by (rule returned_conn_serves_waiter [OF some_alloc_ok two_lent_reached]) (auto simp: easy_ops_def)
qed

end
