(* ===== verification/SqlConn.thy ===== *)
theory SqlConn
  imports ConnPool
begin

text \<open>
  \<open>source/Connect/SqlConn.h\<close> and \<open>SqlConn.cpp\<close>: one connection to MySQL, the conversion of result columns, and
  \<open>va_format\<close>.

  MySQL Connector/C++ is the argument \<open>drv\<close>, on a world of type \<open>'w\<close> that holds the server and the
  driver's objects; a connection and its statement are known by the address of their \<open>SqlConn\<close>. Where a
  call of the driver may throw \<open>sql::SQLException\<close>, \<open>False\<close> or \<open>None\<close> stands for that.
\<close>

record SqlConnPoolHelper =
  sh_host :: string
  sh_port :: int
  sh_user :: string
  sh_passwd :: string
  sh_db :: string
  sh_charset :: string

text \<open>
  A result set is the list of its rows; a row is known by what \<open>getInt64\<close>, \<open>getUInt64\<close> and \<open>getString\<close> return
  for each column, counted from one.
\<close>

record sql_row =
  getInt64 :: "nat \<Rightarrow> int option"
  getString :: "nat \<Rightarrow> string option"

type_synonym result_set = "sql_row list"

record 'w sql_driver =
  drv_connect :: "SqlConnPoolHelper \<Rightarrow> nat \<Rightarrow> 'w \<Rightarrow> bool \<times> 'w"
  conn_isValid :: "nat \<Rightarrow> 'w \<Rightarrow> bool"
  conn_reconnect :: "nat \<Rightarrow> 'w \<Rightarrow> bool \<times> 'w"
  stmt_execute :: "nat \<Rightarrow> string \<Rightarrow> 'w \<Rightarrow> bool \<times> 'w"
  stmt_getResultSet :: "nat \<Rightarrow> 'w \<Rightarrow> result_set option \<times> 'w"
  stmt_executeUpdate :: "nat \<Rightarrow> string \<Rightarrow> 'w \<Rightarrow> int option \<times> 'w"

section \<open>Formatting\<close>

text \<open>
  \<open>va_format\<close> of the text the format expands to: \<open>vsnprintf\<close> keeps \<open>kMaxBuffSize - 1\<close> characters of it and
  returns its whole length, at which the terminating NUL is then written.
\<close>

definition kMaxBuffSize :: nat where "kMaxBuffSize = 2 * 8190"

definition va_format :: "string \<Rightarrow> string blocking" where
  "va_format expanded =
     (let n = length expanded
      in if n < kMaxBuffSize then Returned expanded
         else if n = kMaxBuffSize then Returned (take (kMaxBuffSize - 1) expanded @ [char_of (0::nat)])
         else Crashed)"

section \<open>Columns\<close>

text \<open>\<open>cast_raw_value\<close> for the types the program reads; the variable keeps its value when the getter throws.\<close>

definition cast_int32 :: "sql_row \<Rightarrow> nat \<Rightarrow> int \<Rightarrow> bool \<times> int" where
  "cast_int32 row idx val = (case getInt64 row idx of None \<Rightarrow> (False, val) | Some v \<Rightarrow> (True, to_i32 v))"

definition cast_int64 :: "sql_row \<Rightarrow> nat \<Rightarrow> int \<Rightarrow> bool \<times> int" where
  "cast_int64 row idx val = (case getInt64 row idx of None \<Rightarrow> (False, val) | Some v \<Rightarrow> (True, v))"

definition cast_string :: "sql_row \<Rightarrow> nat \<Rightarrow> string \<Rightarrow> bool \<times> string" where
  "cast_string row idx val = (case getString row idx of None \<Rightarrow> (False, val) | Some v \<Rightarrow> (True, v))"

text \<open>The variadic version: only the last column's success is returned.\<close>

fun cast_raw_values :: "(sql_row \<Rightarrow> nat \<Rightarrow> 'a \<Rightarrow> bool \<times> 'a) list \<Rightarrow> sql_row \<Rightarrow> nat \<Rightarrow> 'a \<Rightarrow> bool \<times> 'a" where
  "cast_raw_values [] row idx item = (True, item)"
| "cast_raw_values [f] row idx item = f row idx item"
| "cast_raw_values (f # g # fs) row idx item = cast_raw_values (g # fs) row (Suc idx) (snd (f row idx item))"

section \<open>The connection\<close>

text \<open>
  \<open>SqlConn::init\<close>: driver, connection and statement inside the \<open>try\<close>; the \<open>USE\<close> statement is
  outside, so its exception leaves \<open>init\<close>.
\<close>

definition sqlconn_init :: "'w sql_driver \<Rightarrow> SqlConnPoolHelper \<Rightarrow> nat \<Rightarrow> 'w \<Rightarrow> (bool \<times> 'w) blocking" where
  "sqlconn_init drv helper c w =
     (case drv_connect drv helper c w of
        (False, w1) \<Rightarrow> Returned (False, w1)
      | (True, w1) \<Rightarrow>
          (case stmt_execute drv c (''USE '' @ sh_db helper @ '';'') w1 of
             (False, _) \<Rightarrow> Threw
           | (True, w2) \<Rightarrow> Returned (True, w2)))"

text \<open>The check that opens every statement: reconnect when the connection is not valid.\<close>

definition ensure_valid :: "'w sql_driver \<Rightarrow> nat \<Rightarrow> 'w \<Rightarrow> bool \<times> 'w" where
  "ensure_valid drv c w = (if \<not> conn_isValid drv c w then conn_reconnect drv c w else (True, w))"

definition sqlconn_execute :: "'w sql_driver \<Rightarrow> nat \<Rightarrow> string \<Rightarrow> 'w \<Rightarrow> bool \<times> 'w" where
  "sqlconn_execute drv c stmt w =
     (case ensure_valid drv c w of
        (False, w1) \<Rightarrow> (False, w1)
      | (True, w1) \<Rightarrow> stmt_execute drv c stmt w1)"

definition sqlconn_execute_query :: "'w sql_driver \<Rightarrow> nat \<Rightarrow> string \<Rightarrow> 'w \<Rightarrow> result_set option \<times> 'w" where
  "sqlconn_execute_query drv c stmt w =
     (case ensure_valid drv c w of
        (False, w1) \<Rightarrow> (None, w1)
      | (True, w1) \<Rightarrow>
          (case stmt_execute drv c stmt w1 of
             (False, w2) \<Rightarrow> (None, w2)
           | (True, w2) \<Rightarrow> stmt_getResultSet drv c w2))"

definition sqlconn_execute_update :: "'w sql_driver \<Rightarrow> nat \<Rightarrow> string \<Rightarrow> 'w \<Rightarrow> int \<times> 'w" where
  "sqlconn_execute_update drv c stmt w =
     (case ensure_valid drv c w of
        (False, w1) \<Rightarrow> (-1, w1)
      | (True, w1) \<Rightarrow>
          (case stmt_executeUpdate drv c stmt w1 of
             (None, w2) \<Rightarrow> (-1, w2)
           | (Some n, w2) \<Rightarrow> (n, w2)))"

definition begin_transaction :: "'w sql_driver \<Rightarrow> nat \<Rightarrow> 'w \<Rightarrow> bool \<times> 'w" where
  "begin_transaction drv c w = sqlconn_execute drv c ''START TRANSACTION'' w"

definition commit :: "'w sql_driver \<Rightarrow> nat \<Rightarrow> 'w \<Rightarrow> bool \<times> 'w" where
  "commit drv c w = sqlconn_execute drv c ''COMMIT'' w"

definition rollback :: "'w sql_driver \<Rightarrow> nat \<Rightarrow> 'w \<Rightarrow> bool \<times> 'w" where
  "rollback drv c w = sqlconn_execute drv c ''ROLLBACK'' w"

definition sqlconn_ping_test :: "'w sql_driver \<Rightarrow> nat \<Rightarrow> 'w \<Rightarrow> (bool \<times> 'w) blocking" where
  "sqlconn_ping_test drv c w =
     (case sqlconn_execute_query drv c ''show databases;'' w of (r, w1) \<Rightarrow> Returned (r \<noteq> None, w1))"

text \<open>
  The query helpers: one row with one or several columns, and the first column of every row. \<open>cast\<close> is the
  \<open>cast_raw_value\<close> of their type arguments.
\<close>

definition sqlconn_execute_query_values ::
    "'w sql_driver \<Rightarrow> (sql_row \<Rightarrow> nat \<Rightarrow> 'a \<Rightarrow> bool \<times> 'a) \<Rightarrow> nat \<Rightarrow> string \<Rightarrow> 'a \<Rightarrow> 'w \<Rightarrow> bool \<times> 'a \<times> 'w" where
  "sqlconn_execute_query_values drv cast c stmt val w =
     (case sqlconn_execute_query drv c stmt w of
        (Some [row], w1) \<Rightarrow> (case cast row 1 val of (ok, val') \<Rightarrow> (ok, val', w1))
      | (_, w1) \<Rightarrow> (False, val, w1))"

fun multi_loop :: "(sql_row \<Rightarrow> nat \<Rightarrow> 'a \<Rightarrow> bool \<times> 'a) \<Rightarrow> result_set \<Rightarrow> 'a \<Rightarrow> 'a list \<Rightarrow> 'a list" where
  "multi_loop cast [] r_val vec = vec"
| "multi_loop cast (row # rows) r_val vec =
     (case cast row 1 r_val of (ok, v) \<Rightarrow> multi_loop cast rows v (if ok then vec @ [v] else vec))"

definition sqlconn_execute_query_multi ::
    "'w sql_driver \<Rightarrow> (sql_row \<Rightarrow> nat \<Rightarrow> 'a \<Rightarrow> bool \<times> 'a) \<Rightarrow> nat \<Rightarrow> string \<Rightarrow> 'a \<Rightarrow> 'a list \<Rightarrow> 'w \<Rightarrow>
     bool \<times> 'a list \<times> 'w" where
  "sqlconn_execute_query_multi drv cast c stmt fresh vec w =
     (case sqlconn_execute_query drv c stmt w of
        (None, w1) \<Rightarrow> (False, vec, w1)
      | (Some rows, w1) \<Rightarrow> (let vec' = multi_loop cast rows fresh [] in (vec' \<noteq> [], vec', w1)))"

text \<open>The class as the pool uses it; \<open>is_health\<close> asks \<open>isValid\<close>.\<close>

definition sql_conn_ops :: "'w sql_driver \<Rightarrow> SqlConnPoolHelper \<Rightarrow> 'w conn_ops" where
  "sql_conn_ops drv helper =
     \<lparr>conn_init = sqlconn_init drv helper, is_health = conn_isValid drv, ping_test = sqlconn_ping_test drv\<rparr>"

section \<open>What the casts return\<close>

lemma va_format_short: "length s < 16380 \<Longrightarrow> va_format s = Returned s"
  by (simp add: va_format_def kMaxBuffSize_def)

lemma va_format_overrun: "va_format s = Crashed \<longleftrightarrow> length s > 16380"
  by (auto simp: va_format_def kMaxBuffSize_def Let_def)

lemma cast_raw_values_append:
  "cast_raw_values (fs @ [f]) row idx item =
     f row (idx + length fs) (snd (cast_raw_values fs row idx item))"
proof (induction fs row idx item rule: cast_raw_values.induct)
  case (2 f' row idx item)
  then show ?case by simp
qed (simp_all)

end
