(* ===== verification/StoreSql.thy ===== *)
theory StoreSql
  imports SqlConn Totals
begin

text \<open>
  \<open>source/Business/StoreSql.cpp\<close>: the store that keeps rows in MySQL, one table per service and month.
  The driver \<open>drv\<close>, the pool's allocator, \<open>localtime\<close> and the clock are arguments; a statement is
  its text, as the code builds it. Adding a row to the running totals is the code of the LevelDB store
  (\<open>add_item\<close>), as is cutting a service name out of a table name (\<open>service_of_table\<close>).
\<close>

section \<open>Statements\<close>

definition quote :: string where "quote = [CHR 0x27]"

definition quoted :: "string \<Rightarrow> string" where
  "quoted s = quote @ s @ quote"

definition bytes :: "nat list \<Rightarrow> string" where
  "bytes ns = map char_of ns"

record StoreSql =
  sql_pool_ptr :: "ConnPool option"
  sql_helper :: SqlConnPoolHelper
  sql_database :: string
  sql_table_prefix :: string

definition sql_get_table_suffix :: "(int \<Rightarrow> int \<times> int) \<Rightarrow> int \<Rightarrow> string" where
  "sql_get_table_suffix localtime time_sec =
     (case localtime time_sec of
        (tm_year, tm_mon) \<Rightarrow> zero_pad 4 (dec_int (tm_year + 1900)) @ zero_pad 2 (dec_int (tm_mon + 1)))"

definition sql_table :: "string \<Rightarrow> string \<Rightarrow> string \<Rightarrow> string \<Rightarrow> string" where
  "sql_table db pfx service sfx =
     c_str db @ ''.'' @ c_str pfx @ ''__'' @ c_str service @ ''__events_'' @ c_str sfx"

definition create_table_sql :: "string \<Rightarrow> string \<Rightarrow> string \<Rightarrow> string \<Rightarrow> string" where
  "create_table_sql db pfx service sfx =
     ''CREATE TABLE IF NOT EXISTS '' @ sql_table db pfx service sfx @ '' ( '' @
     ''  `F_increment_id` bigint(20) unsigned NOT NULL AUTO_INCREMENT, '' @
     ''  `F_timestamp` bigint(20) NOT NULL COMMENT '' @ quoted (bytes [0xE4, 0xBA, 0x8B, 0xE4, 0xBB, 0xB6,
       0xE4, 0xB8, 0x8A, 0xE6, 0x8A, 0xA5, 0xE6, 0x97, 0xB6, 0xE9, 0x97, 0xB4, 0xEF, 0xBC, 0x8C] @
       '' FROM_UNIXTIME'' @ bytes [0xE5, 0x8F, 0xAF, 0xE8, 0xA7, 0x86, 0xE5, 0x8C, 0x96]) @ '', '' @
     ''  `F_entity_idx` varchar(128) NOT NULL DEFAULT '' @ quoted '''' @ '' COMMENT '' @
       quoted (bytes [0xE5, 0xA4, 0x9A, 0xE6, 0x9C, 0x8D, 0xE5, 0x8A, 0xA1, 0xE5, 0xAE, 0x9E, 0xE4, 0xBE,
       0x8B, 0xE7, 0xBC, 0x96, 0xE5, 0x8F, 0xB7]) @ '', '' @
     ''  `F_metric` varchar(128) NOT NULL COMMENT '' @ quoted (bytes [0xE4, 0xBA, 0x8B, 0xE4, 0xBB, 0xB6,
       0xE5, 0x90, 0x8D, 0xE7, 0xA7, 0xB0]) @ '', '' @
     ''  `F_tag` varchar(128) NOT NULL DEFAULT '' @ quoted ''T'' @ '' COMMENT '' @ quoted (bytes [0xE4,
       0xBA, 0x8B, 0xE4, 0xBB, 0xB6, 0xE7, 0xBB, 0x93, 0xE6, 0x9E, 0x9C, 0xE5, 0x88, 0x86, 0xE7, 0xB1,
       0xBB]) @ '', '' @
     ''  `F_step`  tinyint(11) NOT NULL DEFAULT '' @ quoted ''1'' @ '' COMMENT '' @ quoted (bytes [0xE4,
       0xBA, 0x8B, 0xE4, 0xBB, 0xB6, 0xE5, 0x90, 0x88, 0xE5, 0xB9, 0xB6, 0xE7, 0x9A, 0x84, 0xE6, 0x97,
       0xB6, 0xE9, 0x97, 0xB4, 0xE9, 0x97, 0xB4, 0xE9, 0x9A, 0x94]) @ '', '' @
     ''  `F_count` int(11) NOT NULL COMMENT '' @ quoted (bytes [0xE5, 0xBD, 0x93, 0xE5, 0x89, 0x8D, 0xE9,
       0x97, 0xB4, 0xE9, 0x9A, 0x94, 0xE5, 0x86, 0x85, 0xE4, 0xBA, 0x8B, 0xE4, 0xBB, 0xB6, 0xE6, 0x80,
       0xBB, 0xE4, 0xB8, 0xAA, 0xE6, 0x95, 0xB0]) @ '', '' @
     ''  `F_value_sum` bigint(12) NOT NULL COMMENT '' @ quoted (bytes [0xE6, 0x95, 0xB0, 0xE5, 0x80, 0xBC,
       0xE7, 0xB4, 0xAF, 0xE8, 0xAE, 0xA1]) @ '', '' @
     ''  `F_value_avg` int(10) NOT NULL COMMENT '' @ quoted (bytes [0xE6, 0x95, 0xB0, 0xE5, 0x80, 0xBC,
       0xE5, 0x9D, 0x87, 0xE5, 0x80, 0xBC]) @ '', '' @
     ''  `F_value_min` int(10) NOT NULL COMMENT '' @ quoted ''MIN'' @ '', '' @
     ''  `F_value_max` int(10) NOT NULL COMMENT '' @ quoted ''MAX'' @ '', '' @
     ''  `F_value_p10` int(10) NOT NULL COMMENT '' @ quoted ''P10'' @ '', '' @
     ''  `F_value_p50` int(10) NOT NULL COMMENT '' @ quoted ''P50'' @ '', '' @
     ''  `F_value_p90` int(10) NOT NULL COMMENT '' @ quoted ''P90'' @ '', '' @
     ''  `F_update_time` timestamp NOT NULL DEFAULT CURRENT_TIMESTAMP ON UPDATE CURRENT_TIMESTAMP, '' @
     ''  PRIMARY KEY (`F_increment_id`), '' @
     ''  KEY `F_index` (`F_timestamp`, `F_metric`, `F_tag`) '' @
     '') ENGINE=InnoDB AUTO_INCREMENT=1 DEFAULT CHARSET=utf8; ''"

definition insert_into :: "string \<Rightarrow> string \<Rightarrow> event_insert_t \<Rightarrow> string" where
  "insert_into table tag st =
     '' INSERT INTO '' @ table @ '' '' @
     '' SET F_entity_idx = '' @ quoted (c_str (ins_entity_idx st)) @
     '', F_timestamp = '' @ dec_int (ins_timestamp st) @ '', '' @
     '' F_metric = '' @ quoted (c_str (ins_metric st)) @ '', F_tag = '' @ quoted (c_str tag) @
     '', F_step = '' @ dec_int (ins_step st) @ '', '' @
     '' F_count = '' @ dec_int (ins_count st) @ '', F_value_sum = '' @ dec_int (ins_value_sum st) @
     '', F_value_avg = '' @ dec_int (ins_value_avg st) @ '', '' @
     '' F_value_min = '' @ dec_int (ins_value_min st) @ '', F_value_max = '' @ dec_int (ins_value_max st) @
     '', F_value_p10 = '' @ dec_int (ins_value_p10 st) @ '', F_value_p50 = '' @ dec_int (ins_value_p50 st) @
     '', F_value_p90 = '' @ dec_int (ins_value_p90 st) @ ''; ''"

definition insert_sql :: "StoreSql \<Rightarrow> string \<Rightarrow> string \<Rightarrow> event_insert_t \<Rightarrow> string" where
  "insert_sql s sfx tag st =
     insert_into (sql_table (sql_database s) (sql_table_prefix s) (ins_service st) sfx) tag st"

section \<open>Starting\<close>

definition sql_store_init ::
    "'w sql_driver \<Rightarrow> (ConnPool \<Rightarrow> nat) \<Rightarrow> cfg_group \<Rightarrow> StoreSql \<Rightarrow> 'w \<Rightarrow> (bool \<times> StoreSql \<times> 'w) blocking" where
  "sql_store_init drv alloc conf s w =
     (case (cfg_str conf ''rpc.business.mysql.host_addr'', cfg_int conf ''rpc.business.mysql.host_port'',
            cfg_str conf ''rpc.business.mysql.username'', cfg_str conf ''rpc.business.mysql.passwd'',
            cfg_str conf ''rpc.business.mysql.database'', cfg_str conf ''rpc.business.mysql.table_prefix'') of
        (Some host, Some port, Some user, Some passwd, Some db, Some pfx) \<Rightarrow>
          let helper = \<lparr>sh_host = host, sh_port = port, sh_user = user, sh_passwd = passwd, sh_db = db, sh_charset = []\<rparr>;
              size = lookupValue (cfg_int conf) ''rpc.business.mysql.conn_pool_size'' 20
          in and_then (conn_pool_init (sql_conn_ops drv helper) alloc (mk_ConnPool ''MySQLPool'' size 0) w) (\<lambda>(ok, p, w').
               Returned (ok, \<lparr>sql_pool_ptr = Some p, sql_helper = helper, sql_database = db, sql_table_prefix = pfx\<rparr>, w'))
      | _ \<Rightarrow> Returned (False, s, w))"

text \<open>An operation on the store with a connection of its pool, \<open>-1\<close> without one.\<close>

definition on_conn ::
    "'w sql_driver \<Rightarrow> (ConnPool \<Rightarrow> nat) \<Rightarrow> 'r \<Rightarrow> (nat \<Rightarrow> 'w \<Rightarrow> ('r \<times> 'w) blocking) \<Rightarrow> StoreSql \<Rightarrow> 'w \<Rightarrow>
     ('r \<times> StoreSql \<times> 'w) blocking" where
  "on_conn drv alloc failed work s w =
     (case sql_pool_ptr s of
        None \<Rightarrow> Crashed
      | Some p \<Rightarrow>
          and_then (with_scoped_conn (sql_conn_ops drv (sql_helper s)) alloc failed work p w) (\<lambda>(r, p', w').
            Returned (r, s\<lparr>sql_pool_ptr := Some p'\<rparr>, w')))"

section \<open>Insertion\<close>

definition create_table ::
    "'w sql_driver \<Rightarrow> nat \<Rightarrow> string \<Rightarrow> string \<Rightarrow> string \<Rightarrow> string \<Rightarrow> 'w \<Rightarrow> (int \<times> 'w) blocking" where
  "create_table drv c db pfx service sfx w =
     (if service = [] \<or> db = [] \<or> pfx = [] \<or> sfx = [] then Returned (-1, w)
      else and_then (va_format (create_table_sql db pfx service sfx)) (\<lambda>stmt.
             Returned (0, snd (sqlconn_execute_update drv c stmt w))))"

definition sql_insert_with ::
    "'w sql_driver \<Rightarrow> (int \<Rightarrow> int \<times> int) \<Rightarrow> StoreSql \<Rightarrow> event_insert_t \<Rightarrow> nat \<Rightarrow> 'w \<Rightarrow> (int \<times> 'w) blocking" where
  "sql_insert_with drv localtime s st c w =
     (if ins_service st = [] \<or> ins_metric st = [] \<or> ins_timestamp st = 0 then Returned (-1, w)
      else
        let tag = (if ins_tag st = [] then ''T'' else ins_tag st);
            sfx = sql_get_table_suffix localtime (ins_timestamp st)
        in and_then (va_format (insert_sql s sfx tag st)) (\<lambda>stmt.
             case sqlconn_execute_update drv c stmt w of
               (n, w1) \<Rightarrow>
                 if n = 1 then Returned (0, w1)
                 else and_then (create_table drv c (sql_database s) (sql_table_prefix s) (ins_service st) sfx w1)
                        (\<lambda>(_, w2).
                          case sqlconn_execute_update drv c stmt w2 of
                            (n', w3) \<Rightarrow> Returned (if n' = 1 then 0 else -1, w3))))"

definition sql_insert_ev_stat ::
    "'w sql_driver \<Rightarrow> (ConnPool \<Rightarrow> nat) \<Rightarrow> (int \<Rightarrow> int \<times> int) \<Rightarrow> event_insert_t \<Rightarrow> StoreSql \<Rightarrow> 'w \<Rightarrow>
     (int \<times> StoreSql \<times> 'w) blocking" where
  "sql_insert_ev_stat drv alloc localtime st s w = on_conn drv alloc (-1) (sql_insert_with drv localtime s st) s w"

section \<open>Selection\<close>

definition sum_columns :: string where
  "sum_columns =
     ''SELECT IFNULL(SUM(F_count), 0), IFNULL(SUM(F_value_sum), 0), '' @
     '' IFNULL(MIN(F_value_min), 0), IFNULL(MAX(F_value_max), 0), IFNULL(AVG(F_value_p10), 0), IFNULL(AVG(F_value_p50), 0), IFNULL(AVG(F_value_p90), 0), ''"

definition real_start_time :: "int \<Rightarrow> event_cond_t \<Rightarrow> int \<Rightarrow> int" where
  "real_start_time now cond linger_hint =
     (if ec_tm_start cond > 0 then min (now - linger_hint) (ec_tm_start cond) else now - linger_hint)"

definition build_sql :: "(int \<Rightarrow> int \<times> int) \<Rightarrow> StoreSql \<Rightarrow> int \<Rightarrow> event_cond_t \<Rightarrow> int \<Rightarrow> string" where
  "build_sql localtime s now cond linger_hint =
     (let t = real_start_time now cond linger_hint
      in sum_columns @
         (case ec_groupby cond of
            kGroupbyTimestamp \<Rightarrow> '' F_timestamp FROM ''
          | kGroupbyTag \<Rightarrow> '' F_tag FROM ''
          | kGroupNone \<Rightarrow> '' FROM '') @
         sql_database s @ ''.'' @ sql_table_prefix s @ ''__'' @ ec_service cond @ ''__events_'' @
         sql_get_table_suffix localtime t @
         '' WHERE F_timestamp <= '' @ dec_int t @ '' AND F_timestamp > '' @ dec_int (t - ec_tm_interval cond) @
         '' AND F_metric = '' @ quoted (ec_metric cond) @
         (if ec_entity_idx cond \<noteq> [] then '' AND F_entity_idx = '' @ quoted (ec_entity_idx cond) else []) @
         (if ec_tag cond \<noteq> [] then '' AND F_tag = '' @ quoted (ec_tag cond) else []) @
         (case ec_groupby cond of
            kGroupbyTimestamp \<Rightarrow> '' GROUP BY F_timestamp ORDER BY F_timestamp DESC; ''
          | kGroupbyTag \<Rightarrow> '' GROUP BY F_tag; ''
          | kGroupNone \<Rightarrow> []))"

text \<open>One result row into an item, column by column.\<close>

definition item_casts :: "GroupType \<Rightarrow> (sql_row \<Rightarrow> nat \<Rightarrow> event_info_t \<Rightarrow> bool \<times> event_info_t) list" where
  "item_casts gb =
     [\<lambda>r i x. map_prod id (\<lambda>v. x\<lparr>ei_count := v\<rparr>) (cast_int32 r i (ei_count x)),
      \<lambda>r i x. map_prod id (\<lambda>v. x\<lparr>ei_value_sum := v\<rparr>) (cast_int64 r i (ei_value_sum x)),
      \<lambda>r i x. map_prod id (\<lambda>v. x\<lparr>ei_value_min := v\<rparr>) (cast_int32 r i (ei_value_min x)),
      \<lambda>r i x. map_prod id (\<lambda>v. x\<lparr>ei_value_max := v\<rparr>) (cast_int32 r i (ei_value_max x)),
      \<lambda>r i x. map_prod id (\<lambda>v. x\<lparr>ei_value_p10 := v\<rparr>) (cast_int32 r i (ei_value_p10 x)),
      \<lambda>r i x. map_prod id (\<lambda>v. x\<lparr>ei_value_p50 := v\<rparr>) (cast_int32 r i (ei_value_p50 x)),
      \<lambda>r i x. map_prod id (\<lambda>v. x\<lparr>ei_value_p90 := v\<rparr>) (cast_int32 r i (ei_value_p90 x))] @
     (case gb of
        kGroupbyTimestamp \<Rightarrow> [\<lambda>r i x. map_prod id (\<lambda>v. x\<lparr>ei_timestamp := v\<rparr>) (cast_int64 r i (ei_timestamp x))]
      | kGroupbyTag \<Rightarrow> [\<lambda>r i x. map_prod id (\<lambda>v. x\<lparr>ei_tag := v\<rparr>) (cast_string r i (ei_tag x))]
      | kGroupNone \<Rightarrow> [])"

definition averaged :: "event_info_t \<Rightarrow> event_info_t" where
  "averaged item =
     item\<lparr>ei_value_avg := (if ei_count item \<noteq> 0 then to_i32 (ei_value_sum item sdiv ei_count item) else 0)\<rparr>"

definition row_step :: "GroupType \<Rightarrow> sql_row \<Rightarrow> event_info_t \<times> event_info_t list \<Rightarrow> event_info_t \<times> event_info_t list" where
  "row_step gb row acc =
     (case cast_raw_values (item_casts gb) row 1 zero_info of
        (False, _) \<Rightarrow> acc
      | (True, item) \<Rightarrow> (add_item (averaged item) (fst acc), snd acc @ [averaged item]))"

text \<open>
  The division of the summary: by \<open>count\<close>, and of the percentiles by \<open>info.size()\<close>, a \<open>size_t\<close>.
  A count without rows would divide by zero (\<open>None\<close>).
\<close>

definition sql_close_summary :: "nat \<Rightarrow> event_info_t \<Rightarrow> event_info_t option" where
  "sql_close_summary n s =
     (if ei_count s \<noteq> 0
      then if n = 0 then None
           else Some (s\<lparr>ei_value_avg := to_i32 (ei_value_sum s sdiv ei_count s),
                        ei_value_p10 := to_i32 (to_u64 (ei_value_p10 s) div int n),
                        ei_value_p50 := to_i32 (to_u64 (ei_value_p50 s) div int n),
                        ei_value_p90 := to_i32 (to_u64 (ei_value_p90 s) div int n)\<rparr>)
      else Some (s\<lparr>ei_value_min := 0, ei_value_max := 0\<rparr>))"

text \<open>The end of \<open>select_ev_stat\<close>; \<open>None\<close> is the undefined descending sort.\<close>

definition sql_sort_and_limit :: "event_cond_t \<Rightarrow> event_select_t \<Rightarrow> event_select_t option" where
  "sql_sort_and_limit cond st =
     (if ec_groupby cond = kGroupNone then Some (st\<lparr>es_info := []\<rparr>)
      else if ec_orderby cond = kOrderByNone \<or> ec_limit cond \<noteq> 0 then Some st
      else
        (case do_sort (es_info st) (ec_orderby cond) (ec_orders cond) of
           None \<Rightarrow> None
         | Some info \<Rightarrow>
             Some (st\<lparr>es_info := (if int (length info) > to_u64 (ec_limit cond)
                                  then take (nat (ec_limit cond)) info else info)\<rparr>)))"

definition sql_collect :: "event_cond_t \<Rightarrow> int \<Rightarrow> result_set \<Rightarrow> event_select_t \<Rightarrow> event_select_t option" where
  "sql_collect cond t rows st =
     (let st1 = st\<lparr>es_timestamp := t, es_tm_interval := ec_tm_interval cond, es_service := ec_service cond,
                   es_metric := ec_metric cond, es_entity_idx := ec_entity_idx cond, es_tag := ec_tag cond\<rparr>;
          (summary, info) =
            fold (row_step (ec_groupby cond)) rows
              ((es_summary st)\<lparr>ei_value_min := INT32_MAX, ei_value_max := INT32_MIN\<rparr>, es_info st)
      in case sql_close_summary (length info) summary of
           None \<Rightarrow> None
         | Some summary' \<Rightarrow> sql_sort_and_limit cond (st1\<lparr>es_summary := summary', es_info := info\<rparr>))"

definition sql_select_with ::
    "'w sql_driver \<Rightarrow> (int \<Rightarrow> int \<times> int) \<Rightarrow> StoreSql \<Rightarrow> int \<Rightarrow> event_cond_t \<Rightarrow> int \<Rightarrow> event_select_t \<Rightarrow> nat \<Rightarrow> 'w \<Rightarrow>
     ((int \<times> event_select_t) \<times> 'w) blocking" where
  "sql_select_with drv localtime s now cond linger_hint st0 c w =
     (let t = real_start_time now cond linger_hint; st = st0\<lparr>es_timestamp := t\<rparr>
      in case sqlconn_execute_query drv c (build_sql localtime s now cond linger_hint) w of
           (None, w1) \<Rightarrow> Returned ((-1, st), w1)
         | (Some rows, w1) \<Rightarrow>
             if rows = [] then Returned ((0, st), w1)
             else (case sql_collect cond t rows st of
                     None \<Rightarrow> Crashed
                   | Some st' \<Rightarrow> Returned ((0, st'), w1)))"

definition sql_select_ev_stat ::
    "'w sql_driver \<Rightarrow> (ConnPool \<Rightarrow> nat) \<Rightarrow> (int \<Rightarrow> int \<times> int) \<Rightarrow> int \<Rightarrow> event_cond_t \<Rightarrow> event_select_t \<Rightarrow> int \<Rightarrow> StoreSql \<Rightarrow>
     'w \<Rightarrow> ((int \<times> event_select_t) \<times> StoreSql \<times> 'w) blocking" where
  "sql_select_ev_stat drv alloc localtime now cond st linger_hint s w =
     on_conn drv alloc (-1, st) (sql_select_with drv localtime s now cond linger_hint st) s w"

section \<open>Metrics and services\<close>

fun name_loop :: "(string \<Rightarrow> string option) \<Rightarrow> result_set \<Rightarrow> string list \<Rightarrow> string list" where
  "name_loop keep [] names = names"
| "name_loop keep (row # rows) names =
     (case cast_string row 1 '''' of
        (False, _) \<Rightarrow> name_loop keep rows names
      | (True, t) \<Rightarrow>
          (case keep t of
             None \<Rightarrow> name_loop keep rows names
           | Some n \<Rightarrow> name_loop keep rows (names @ [n])))"

definition list_names ::
    "'w sql_driver \<Rightarrow> string \<Rightarrow> (string \<Rightarrow> string option) \<Rightarrow> string list \<Rightarrow> nat \<Rightarrow> 'w \<Rightarrow>
     ((int \<times> string list) \<times> 'w) blocking" where
  "list_names drv expanded keep names c w =
     and_then (va_format expanded) (\<lambda>stmt.
       case sqlconn_execute_query drv c stmt w of
         (None, w1) \<Rightarrow> Returned ((-1, names), w1)
       | (Some rows, w1) \<Rightarrow> Returned ((0, name_loop keep rows names), w1))"

definition sql_select_metrics ::
    "'w sql_driver \<Rightarrow> (ConnPool \<Rightarrow> nat) \<Rightarrow> (int \<Rightarrow> int \<times> int) \<Rightarrow> int \<Rightarrow> string \<Rightarrow> string list \<Rightarrow> StoreSql \<Rightarrow> 'w \<Rightarrow>
     ((int \<times> string list) \<times> StoreSql \<times> 'w) blocking" where
  "sql_select_metrics drv alloc localtime now service metrics s w =
     (if service = [] then Returned ((-1, metrics), s, w)
      else on_conn drv alloc (-1, metrics)
             (list_names drv
                ('' SELECT distinct(F_metric) FROM '' @
                 sql_table (sql_database s) (sql_table_prefix s) service (sql_get_table_suffix localtime now) @ ''; '')
                Some metrics) s w)"

definition sql_select_services ::
    "'w sql_driver \<Rightarrow> (ConnPool \<Rightarrow> nat) \<Rightarrow> string list \<Rightarrow> StoreSql \<Rightarrow> 'w \<Rightarrow>
     ((int \<times> string list) \<times> StoreSql \<times> 'w) blocking" where
  "sql_select_services drv alloc svs s w =
     on_conn drv alloc (-1, svs)
       (list_names drv
          ('' SELECT table_name FROM information_schema.tables WHERE '' @ '' table_schema='' @
           quoted (c_str (sql_database s)) @ '' AND table_type = '' @ quoted ''base table'' @
           '' AND table_name LIKE '' @ quoted (c_str (sql_table_prefix s) @ ''%'') @ ''; '')
          (service_of_table (sql_table_prefix s)) svs) s w"

section \<open>Rows that are inserted\<close>

lemma on_conn_keeps_pool:
  assumes "sql_pool_ptr s = Some p" "conn_pool_ok p" "alloc_ok alloc"
    and "on_conn drv alloc failed work s w = Returned (r, s', w')"
  shows "\<exists>p'. s' = s\<lparr>sql_pool_ptr := Some p'\<rparr> \<and> conn_pool_ok p' \<and> set (conns_busy p') = set (conns_busy p)"
proof -
  let ?r = "with_scoped_conn (sql_conn_ops drv (sql_helper s)) alloc failed work p w"
  from assms(1,4) obtain p' where "?r = Returned (r, p', w')" "s' = s\<lparr>sql_pool_ptr := Some p'\<rparr>"
    by (auto simp: on_conn_def and_then_eq_Returned)
  with with_scoped_conn_keeps [OF assms(2,3) this(1)] show ?thesis by (intro exI [of _ p']) simp
qed

lemma on_conn_work:
  assumes "sql_pool_ptr s = Some p"
    and "request_scoped_conn (sql_conn_ops drv (sql_helper s)) alloc p w = Returned (ok, Some c, p1, w1)"
    and "work c w1 = Returned (r, w2)"
  shows "on_conn drv alloc failed work s w =
    Returned (r, s\<lparr>sql_pool_ptr := Some (free_conn (sql_conn_ops drv (sql_helper s)) c p1 w2)\<rparr>, w2)"
  using assms by (simp add: on_conn_def with_scoped_conn_def)

lemma dec_nat_ne: "dec_nat n \<noteq> []"
  by (subst dec_nat.simps) simp

lemma table_suffix_ne: "sql_get_table_suffix localtime t \<noteq> []"
  by (simp add: sql_get_table_suffix_def zero_pad_def dec_int_def dec_nat_ne split: prod.splits)

text \<open>
  What the insertion relies on in the server, for the statement \<open>q\<close> that inserts and the statement \<open>q'\<close> that
  creates: the connection is valid, \<open>q\<close> adds one row when the table exists and fails otherwise, and after
  \<open>q'\<close> the table exists.
\<close>

definition table_server ::
    "'w sql_driver \<Rightarrow> nat \<Rightarrow> string \<Rightarrow> string \<Rightarrow> ('w \<Rightarrow> bool) \<Rightarrow> ('w \<Rightarrow> 'w) \<Rightarrow> ('w \<Rightarrow> 'w) \<Rightarrow> bool" where
  "table_server drv c q q' has_table add_row make_table \<longleftrightarrow>
     (\<forall>u. conn_isValid drv c u \<and>
          stmt_executeUpdate drv c q u = (if has_table u then (Some 1, add_row u) else (None, u)) \<and>
          stmt_executeUpdate drv c q' u = (Some 0, make_table u) \<and> has_table (make_table u))"

lemma table_server_update:
  assumes "table_server drv c q q' has_table add_row make_table"
  shows "sqlconn_execute_update drv c q u = (if has_table u then (1, add_row u) else (-1, u))"
    "sqlconn_execute_update drv c q' u = (0, make_table u)" "has_table (make_table u)"
  using assms by (simp_all add: table_server_def sqlconn_execute_update_def ensure_valid_def)

definition tag_or_default :: "event_insert_t \<Rightarrow> string" where
  "tag_or_default st = (if ins_tag st = [] then ''T'' else ins_tag st)"

lemma sql_insert_with_adds:
  fixes s st localtime
  defines "sfx \<equiv> sql_get_table_suffix localtime (ins_timestamp st)"
  assumes "ins_service st \<noteq> []" "ins_metric st \<noteq> []" "ins_timestamp st \<noteq> 0"
    and "sql_database s \<noteq> []" "sql_table_prefix s \<noteq> []"
    and "length (insert_sql s sfx (tag_or_default st) st) < 16380"
    and "length (create_table_sql (sql_database s) (sql_table_prefix s) (ins_service st) sfx) < 16380"
    and "table_server drv c (insert_sql s sfx (tag_or_default st) st)
      (create_table_sql (sql_database s) (sql_table_prefix s) (ins_service st) sfx) has_table add_row make_table"
  shows "sql_insert_with drv localtime s st c w = Returned (0, add_row (if has_table w then w else make_table w))"
  using assms(2-8) table_server_update [OF assms(9)] table_suffix_ne [of localtime "ins_timestamp st"]
  by (simp add: sql_insert_with_def create_table_def va_format_short sfx_def tag_or_default_def Let_def)

text \<open>
  C19. An insertion that gets a connection adds its row exactly once and reports success, whether or not the
  month's table exists beforehand: it creates a missing table and tries again. The connection goes back to
  the pool.
\<close>
theorem sql_insert_adds_row:
  fixes s st localtime
  defines "sfx \<equiv> sql_get_table_suffix localtime (ins_timestamp st)"
  assumes "ins_service st \<noteq> []" "ins_metric st \<noteq> []" "ins_timestamp st \<noteq> 0"
    and "sql_database s \<noteq> []" "sql_table_prefix s \<noteq> []"
    and "length (insert_sql s sfx (tag_or_default st) st) < 16380"
    and "length (create_table_sql (sql_database s) (sql_table_prefix s) (ins_service st) sfx) < 16380"
    and "sql_pool_ptr s = Some p" "conn_pool_ok p" "alloc_ok alloc"
    and "request_scoped_conn (sql_conn_ops drv (sql_helper s)) alloc p w = Returned (ok, Some c, p1, w1)"
    and "table_server drv c (insert_sql s sfx (tag_or_default st) st)
      (create_table_sql (sql_database s) (sql_table_prefix s) (ins_service st) sfx) has_table add_row make_table"
  shows "\<exists>p'. sql_insert_ev_stat drv alloc localtime st s w =
      Returned (0, s\<lparr>sql_pool_ptr := Some p'\<rparr>, add_row (if has_table w1 then w1 else make_table w1)) \<and>
    conn_pool_ok p' \<and> set (conns_busy p') = set (conns_busy p)"
proof -
  note work = sql_insert_with_adds [OF assms(2-6) assms(7,8,13) [unfolded sfx_def], of w1]
  note run = on_conn_work [where work = "sql_insert_with drv localtime s st" and failed = "-1", OF assms(9,12) work]
  then show ?thesis
    using on_conn_keeps_pool [OF assms(9-11) run] by (auto simp: sql_insert_ev_stat_def)
qed

text \<open>A row the server keeps refusing is given up after one attempt to create the table.\<close>

lemma sql_insert_refused:
  assumes "\<And>q u. fst (sqlconn_execute_update drv c q u) \<noteq> 1"
    and "sql_insert_with drv localtime s st c w = Returned (r, w')"
  shows "r = -1"
  using assms by (auto simp: sql_insert_with_def Let_def and_then_eq_Returned case_prod_unfold split: if_splits)

section \<open>Text of the queries\<close>

text \<open>The query without grouping has no column after the last comma.\<close>

lemma sum_columns_end: "drop (length sum_columns - 5) sum_columns = '' 0), ''"
  by (simp add: sum_columns_def)

lemma group_none_sql:
  "ec_groupby cond = kGroupNone \<Longrightarrow> \<exists>r. build_sql localtime s now cond linger = sum_columns @ '' FROM '' @ r"
  unfolding build_sql_def Let_def by (simp del: append_assoc flip: append_assoc)

text \<open>
  Values are put between quotes as they are: asking for a metric whose name closes the quote is, to the
  server, the query for another metric with a condition on the entity.
\<close>
theorem sql_values_not_escaped:
  assumes "e \<noteq> []"
  shows "build_sql localtime s now (cond\<lparr>ec_metric := m @ quote @ '' AND F_entity_idx = '' @ quote @ e, ec_entity_idx := []\<rparr>) linger =
    build_sql localtime s now (cond\<lparr>ec_metric := m, ec_entity_idx := e\<rparr>) linger"
  using assms by (simp add: build_sql_def real_start_time_def quoted_def Let_def)

section \<open>Rows that are selected\<close>

text \<open>A result row with the eight columns of a grouped query, and the item it is read into.\<close>

definition row_of :: "event_info_t \<Rightarrow> sql_row" where
  "row_of x =
     \<lparr>getInt64 = (\<lambda>i. if 1 \<le> i \<and> i \<le> 8
                     then Some ([ei_count x, ei_value_sum x, ei_value_min x, ei_value_max x, ei_value_p10 x,
                                 ei_value_p50 x, ei_value_p90 x, ei_timestamp x] ! (i - 1)) else None),
      getString = (\<lambda>i. if i = 8 then Some (ei_tag x) else None)\<rparr>"

definition row_fits :: "event_info_t \<Rightarrow> bool" where
  "row_fits x \<longleftrightarrow> is_i32 (ei_count x) \<and> is_i32 (ei_value_min x) \<and> is_i32 (ei_value_max x) \<and> is_i32 (ei_value_p10 x) \<and>
     is_i32 (ei_value_p50 x) \<and> is_i32 (ei_value_p90 x)"

definition read_item :: "GroupType \<Rightarrow> event_info_t \<Rightarrow> event_info_t" where
  "read_item gb x =
     averaged (case gb of kGroupbyTimestamp \<Rightarrow> x\<lparr>ei_tag := []\<rparr> | kGroupbyTag \<Rightarrow> x\<lparr>ei_timestamp := 0\<rparr>
               | kGroupNone \<Rightarrow> x\<lparr>ei_tag := [], ei_timestamp := 0\<rparr>)"

lemma cast_row_of:
  assumes "row_fits x"
  shows "cast_raw_values (item_casts gb) (row_of x) 1 zero_info =
    (True, (read_item gb x)\<lparr>ei_value_avg := 0\<rparr>)"
  using assms
  by (cases gb)
    (simp_all add: item_casts_def row_of_def cast_int32_def cast_int64_def cast_string_def row_fits_def to_i32_id
      zero_info_def read_item_def averaged_def numeral_nat)

lemma averaged_idem [simp]: "averaged ((read_item gb x)\<lparr>ei_value_avg := v\<rparr>) = read_item gb x"
  by (cases gb) (simp_all add: read_item_def averaged_def)

lemma row_step_row_of:
  "row_fits x \<Longrightarrow> row_step gb (row_of x) acc = (add_item (read_item gb x) (fst acc), snd acc @ [read_item gb x])"
  unfolding row_step_def by (subst cast_row_of) simp_all

lemma fold_row_step:
  assumes "\<forall>x\<in>set xs. row_fits x"
  shows "fold (row_step gb) (map row_of xs) (tot, info) =
    (fold add_item (map (read_item gb) xs) tot, info @ map (read_item gb) xs)"
  using assms by (induction xs arbitrary: tot info) (simp_all add: row_step_row_of)

lemma read_item_simps [simp]:
  "ei_count (read_item gb x) = ei_count x" "ei_value_sum (read_item gb x) = ei_value_sum x"
  "ei_value_min (read_item gb x) = ei_value_min x" "ei_value_max (read_item gb x) = ei_value_max x"
  "ei_value_p10 (read_item gb x) = ei_value_p10 x" "ei_value_p50 (read_item gb x) = ei_value_p50 x"
  "ei_value_p90 (read_item gb x) = ei_value_p90 x"
  by (cases gb; simp add: read_item_def averaged_def)+

lemma sql_totals:
  assumes "xs \<noteq> []" "\<forall>x\<in>set xs. row_fits x" "in_range xs"
  shows "sql_close_summary (length xs)
      (fold add_item (map (read_item gb) xs) (zero_info\<lparr>ei_value_min := INT32_MAX, ei_value_max := INT32_MIN\<rparr>)) =
    Some (summary_of xs)"
proof -
  have mm: "Min (insert INT32_MAX (ei_value_min ` set xs)) = Min (ei_value_min ` set xs)"
    "Max (insert INT32_MIN (ei_value_max ` set xs)) = Max (ei_value_max ` set xs)"
    using assms(1,2) by (intro Min_from_top Max_from_bottom; simp add: row_fits_def)+
  show ?thesis
    using assms(1,3) mm
    by (subst fold_add_item_sums)
      (simp_all add: zero_info_def sql_close_summary_def summary_of_def in_range_def to_i32_id to_i64_id o_def
        mean_in_range is_i32_def is_i64_def image_image)
qed

lemma sql_collect_rows:
  assumes "xs \<noteq> []" "\<forall>x\<in>set xs. row_fits x" "in_range xs" "ec_groupby cond \<noteq> kGroupNone"
    and "ec_orderby cond = kOrderByNone \<or> ec_limit cond \<noteq> 0"
  shows "sql_collect cond (real_start_time now cond linger) (map row_of xs)
      (empty_select\<lparr>es_timestamp := real_start_time now cond linger\<rparr>) =
    Some ((query_head now cond linger empty_select)
      \<lparr>es_summary := summary_of xs, es_info := map (read_item (ec_groupby cond)) xs\<rparr>)"
  using assms(4,5) fold_row_step [OF assms(2)] sql_totals [OF assms(1-3)]
  by (simp add: sql_collect_def empty_select_def sql_sort_and_limit_def query_head_def real_start_time_def)


text \<open>
  The test of the limit is the wrong way round: a query with an order and a limit is neither sorted nor
  cut, and one with an order and no limit, sorted ascending, loses every row.
\<close>
theorem sql_limit_inverted:
  assumes "ec_groupby cond \<noteq> kGroupNone"
  shows "(ec_limit cond \<noteq> 0 \<longrightarrow> sql_sort_and_limit cond st = Some st) \<and>
    (ec_limit cond = 0 \<and> ec_orderby cond \<noteq> kOrderByNone \<and> ec_orders cond = kOrderAsc \<longrightarrow>
       sql_sort_and_limit cond st = Some (st\<lparr>es_info := []\<rparr>))"
proof -
  from sorts_ascending [of "es_info st" "ec_orderby cond"]
  obtain r where "do_sort (es_info st) (ec_orderby cond) kOrderAsc = Some r" by blast
  with assms show ?thesis by (auto simp: sql_sort_and_limit_def to_u64_def)
qed

section \<open>Witnesses\<close>

text \<open>A server with one table, known by whether it exists and by its number of rows.\<close>

definition tiny_driver :: "(bool \<times> nat) sql_driver" where
  "tiny_driver =
     \<lparr>drv_connect = \<lambda>h c u. (True, u), conn_isValid = \<lambda>c u. True, conn_reconnect = \<lambda>c u. (True, u),
      stmt_execute = \<lambda>c q u. (True, u),
      stmt_getResultSet = \<lambda>c u. (Some [row_of (zero_info\<lparr>ei_timestamp := 60, ei_count := 2, ei_value_sum := 9\<rparr>)], u),
      stmt_executeUpdate = \<lambda>c q u.
        if take 7 q = '' INSERT'' then if fst u then (Some 1, True, Suc (snd u)) else (None, u) else (Some 0, True, snd u)\<rparr>"

definition tiny_store :: StoreSql where
  "tiny_store =
     \<lparr>sql_pool_ptr = Some (mk_ConnPool ''MySQLPool'' 1 0),
      sql_helper = \<lparr>sh_host = ''h'', sh_port = 3306, sh_user = ''u'', sh_passwd = ''p'', sh_db = ''d'', sh_charset = []\<rparr>,
      sql_database = ''d'', sql_table_prefix = ''t''\<rparr>"

definition tiny_row :: event_insert_t where
  "tiny_row = zero_insert\<lparr>ins_service := ''s'', ins_metric := ''m'', ins_timestamp := 60, ins_count := 1\<rparr>"

definition tiny_pool_lent :: ConnPool where
  "tiny_pool_lent = lend 1 ((mk_ConnPool ''MySQLPool'' 1 0)\<lparr>pool_stat := \<lparr>acquired_count = 1, acquired_success = 0\<rparr>\<rparr>)"

lemma tiny_request:
  "request_scoped_conn (sql_conn_ops tiny_driver (sql_helper tiny_store)) some_alloc (mk_ConnPool ''MySQLPool'' 1 0) w =
   Returned (True, Some 1, tiny_pool_lent, w)"
  by (simp add: request_scoped_conn_def do_request_conn_def do_check_available_def mk_ConnPool_def sql_conn_ops_def
      sqlconn_init_def tiny_driver_def some_alloc_def tiny_pool_lent_def incr_count_def to_u64_def)

lemma tiny_pool_ok: "conn_pool_ok (mk_ConnPool ''MySQLPool'' 1 0)"
  using mk_ConnPool_ok [of 1 "''MySQLPool''" 0] by (simp add: shared_ok_def)

lemma tiny_texts:
  "length (insert_sql tiny_store (sql_get_table_suffix (\<lambda>t. (70, 0)) 60) ''T'' tiny_row) < 16380"
  "length (create_table_sql ''d'' ''t'' ''s'' (sql_get_table_suffix (\<lambda>t. (70, 0)) 60)) < 16380"
  by (simp_all add: insert_sql_def insert_into_def create_table_sql_def sql_table_def sql_get_table_suffix_def zero_pad_def quoted_def
      quote_def bytes_def c_str_def tiny_store_def tiny_row_def zero_insert_def dec_int_def dec_nat.simps)

lemma tiny_table_server:
  "table_server tiny_driver c (insert_sql s sfx tag st) (create_table_sql db pfx service sfx) fst
     (\<lambda>u. (True, Suc (snd u))) (\<lambda>u. (True, snd u))"
  by (simp add: table_server_def tiny_driver_def insert_sql_def insert_into_def create_table_sql_def)

theorem sql_insert_adds_row_witness:
  "\<exists>p'. sql_insert_ev_stat tiny_driver some_alloc (\<lambda>t. (70, 0)) tiny_row tiny_store (False, 4) =
      Returned (0, tiny_store\<lparr>sql_pool_ptr := Some p'\<rparr>, (True, 5))"
proof -
  have "tag_or_default tiny_row = ''T''" by (simp add: tag_or_default_def tiny_row_def zero_insert_def)
  with sql_insert_adds_row [where s = tiny_store and st = tiny_row and localtime = "\<lambda>t. (70, 0)" and w = "(False, 4)",
      OF _ _ _ _ _ _ _ _ tiny_pool_ok some_alloc_ok tiny_request tiny_table_server] tiny_texts
  show ?thesis by (auto simp: tiny_store_def tiny_row_def zero_insert_def)
qed

theorem sql_values_not_escaped_witness:
  "build_sql (\<lambda>t. (70, 0)) tiny_store 100
     (default_cond\<lparr>ec_metric := ''m'' @ quote @ '' AND F_entity_idx = '' @ quote @ ''e'', ec_entity_idx := []\<rparr>) 10 =
   build_sql (\<lambda>t. (70, 0)) tiny_store 100 (default_cond\<lparr>ec_metric := ''m'', ec_entity_idx := ''e''\<rparr>) 10"
  by (rule sql_values_not_escaped) simp


theorem sql_limit_inverted_witness:
  "sql_sort_and_limit (default_cond\<lparr>ec_groupby := kGroupbyTag, ec_orderby := kOrderByCount, ec_orders := kOrderAsc\<rparr>)
     (empty_select\<lparr>es_info := [zero_info]\<rparr>) = Some empty_select"
  using sql_limit_inverted [of "default_cond\<lparr>ec_groupby := kGroupbyTag, ec_orderby := kOrderByCount, ec_orders := kOrderAsc\<rparr>"
      "empty_select\<lparr>es_info := [zero_info]\<rparr>"]
  by (simp add: default_cond_def empty_select_def)

end
