(* ===== verification/SqlPipeline.thy ===== *)
theory SqlPipeline
  imports StatStore StoreSql
begin

text \<open>
  The way of slots into the MySQL store (\<open>source/Business/StoreSql.cpp\<close>): the store as a provider of the interface
  \<open>stat_store\<close>, with its connection pool, the statements it builds and the table it creates when it is
  missing.
\<close>

section \<open>What fits the tables\<close>

text \<open>
  The names a table can be written with as they are: letters, digits and underscores, and no more than the 64 characters
  MySQL allows a table name.
\<close>

definition plain_word :: "string \<Rightarrow> bool" where
  "plain_word w \<longleftrightarrow> (\<forall>c\<in>set w. c \<in> set ''abcdefghijklmnopqrstuvwxyzABCDEFGHIJKLMNOPQRSTUVWXYZ0123456789_'')"

definition table_fits :: "StoreSql \<Rightarrow> string \<Rightarrow> string \<Rightarrow> bool" where
  "table_fits s service sfx \<longleftrightarrow>
     service \<noteq> [] \<and> plain_word service \<and> plain_word sfx \<and>
     length (sql_table_prefix s @ ''__'' @ service @ ''__events_'' @ sfx) \<le> 64"

text \<open>
  The values the columns of \<open>create_table\<close> can hold: \<open>varchar(128)\<close> for entity, metric and tag, of ASCII characters that
  may stand between quotes as they are; \<open>tinyint\<close> for the step, \<open>bigint\<close> for time and sum, \<open>int\<close> for the others.
\<close>

definition text_column :: "string \<Rightarrow> bool" where
  "text_column v \<longleftrightarrow> length v \<le> 128 \<and> (\<forall>c\<in>set v. c \<noteq> CHR 0x27 \<and> c \<noteq> CHR 0x5C \<and> of_char c \<in> {1..<128::nat})"

definition columns_fit :: "event_insert_t \<Rightarrow> bool" where
  "columns_fit st \<longleftrightarrow>
     text_column (ins_entity_idx st) \<and> text_column (ins_metric st) \<and> text_column (ins_tag st) \<and>
     - 128 \<le> ins_step st \<and> ins_step st < 128 \<and> is_i64 (ins_timestamp st) \<and> is_i64 (ins_value_sum st) \<and>
     is_i32 (ins_count st) \<and> is_i32 (ins_value_avg st) \<and> is_i32 (ins_value_min st) \<and> is_i32 (ins_value_max st) \<and>
     is_i32 (ins_value_p10 st) \<and> is_i32 (ins_value_p50 st) \<and> is_i32 (ins_value_p90 st)"

section \<open>The server\<close>

text \<open>
  The server as the store sees it. \<open>ms_up\<close>: it runs, has the account and the database of the store's configuration, the
  account may create tables and insert rows there, and there is room for them. \<open>ms_link\<close>: a connection is established and
  stands. \<open>ms_table\<close>: a table exists. \<open>ms_rows\<close>: the rows of all tables, \<open>ms_enc t st\<close> that of table \<open>t\<close> with the values of
  \<open>st\<close>.
\<close>

record ('w, 'r) mysql_server =
  ms_up :: "'w \<Rightarrow> bool"
  ms_link :: "'w \<Rightarrow> nat \<Rightarrow> bool"
  ms_table :: "'w \<Rightarrow> string \<Rightarrow> bool"
  ms_rows :: "'w \<Rightarrow> 'r multiset"
  ms_enc :: "string \<Rightarrow> event_insert_t \<Rightarrow> 'r"

definition ms_stays :: "('w, 'r) mysql_server \<Rightarrow> 'w \<Rightarrow> 'w \<Rightarrow> bool" where
  "ms_stays m u u' \<longleftrightarrow> ms_up m u' \<and> (\<forall>c. ms_link m u c \<longrightarrow> ms_link m u' c)"

text \<open>
  What the store relies on in the driver and a server that is up. With the store's own account a connection is made; on
  one that stands, \<open>isValid\<close> holds and the store's own database can be used; an \<open>INSERT\<close> of values that fit
  the columns adds one row when the table exists and throws when it does not; \<open>CREATE TABLE IF NOT EXISTS\<close> in the
  store's database, with a name that fits, returns 0, and then there is the table. Connections that stand go on to.
\<close>

definition mysql_ok :: "'w sql_driver \<Rightarrow> StoreSql \<Rightarrow> ('w, 'r) mysql_server \<Rightarrow> bool" where
  "mysql_ok drv s m \<longleftrightarrow>
     (\<forall>c u. ms_up m u \<longrightarrow>
        (\<exists>u'. drv_connect drv (sql_helper s) c u = (True, u') \<and> ms_stays m u u' \<and> ms_link m u' c \<and> ms_rows m u' = ms_rows m u)) \<and>
     (\<forall>c u. ms_up m u \<and> ms_link m u c \<longrightarrow>
        conn_isValid drv c u \<and>
        (\<exists>u'. stmt_execute drv c (''USE '' @ sh_db (sql_helper s) @ '';'') u = (True, u') \<and> ms_stays m u u' \<and>
           ms_rows m u' = ms_rows m u)) \<and>
     (\<forall>c sfx tag st u. ms_up m u \<and> ms_link m u c \<and> table_fits s (ins_service st) sfx \<and> columns_fit (st\<lparr>ins_tag := tag\<rparr>) \<longrightarrow>
        (let t = sql_table (sql_database s) (sql_table_prefix s) (ins_service st) sfx
         in \<exists>u'. ms_stays m u u' \<and>
              (if ms_table m u t
               then stmt_executeUpdate drv c (insert_sql s sfx tag st) u = (Some 1, u') \<and>
                    ms_rows m u' = add_mset (ms_enc m t (st\<lparr>ins_tag := tag\<rparr>)) (ms_rows m u)
               else stmt_executeUpdate drv c (insert_sql s sfx tag st) u = (None, u') \<and> ms_rows m u' = ms_rows m u))) \<and>
     (\<forall>c service sfx u. ms_up m u \<and> ms_link m u c \<and> table_fits s service sfx \<longrightarrow>
        (\<exists>u'. stmt_executeUpdate drv c (create_table_sql (sql_database s) (sql_table_prefix s) service sfx) u = (Some 0, u') \<and>
           ms_stays m u u' \<and> ms_rows m u' = ms_rows m u \<and>
           ms_table m u' (sql_table (sql_database s) (sql_table_prefix s) service sfx)))"

text \<open>A store whose configuration names the database and the tables in plain words, as \<open>sql_store_init\<close> sets it up.\<close>

definition sql_store_named :: "StoreSql \<Rightarrow> bool" where
  "sql_store_named s \<longleftrightarrow>
     sql_database s \<noteq> [] \<and> plain_word (sql_database s) \<and> sh_db (sql_helper s) = sql_database s \<and>
     sql_table_prefix s \<noteq> [] \<and> plain_word (sql_table_prefix s)"

text \<open>The rows covered, and the row of the table that one becomes.\<close>

definition sql_row_fits :: "(int \<Rightarrow> int \<times> int) \<Rightarrow> StoreSql \<Rightarrow> event_insert_t \<Rightarrow> bool" where
  "sql_row_fits localtime s st \<longleftrightarrow>
     (let sfx = sql_get_table_suffix localtime (ins_timestamp st)
      in ins_metric st \<noteq> [] \<and> ins_timestamp st \<noteq> 0 \<and> table_fits s (ins_service st) sfx \<and>
         columns_fit (st\<lparr>ins_tag := tag_or_default st\<rparr>) \<and>
         length (insert_sql s sfx (tag_or_default st) st) < 16380 \<and>
         length (create_table_sql (sql_database s) (sql_table_prefix s) (ins_service st) sfx) < 16380)"

definition sql_enc ::
    "(string \<Rightarrow> event_insert_t \<Rightarrow> 'r) \<Rightarrow> (int \<Rightarrow> int \<times> int) \<Rightarrow> StoreSql \<Rightarrow> event_insert_t \<Rightarrow> 'r" where
  "sql_enc enc localtime s st =
     enc (sql_table (sql_database s) (sql_table_prefix s) (ins_service st) (sql_get_table_suffix localtime (ins_timestamp st)))
       (st\<lparr>ins_tag := tag_or_default st\<rparr>)"

lemma ms_stays_trans: "ms_stays m u u1 \<Longrightarrow> ms_stays m u1 u2 \<Longrightarrow> ms_stays m u u2"
  by (simp add: ms_stays_def)

lemma mysql_connect:
  assumes "mysql_ok drv s m" "ms_up m u"
  shows "\<exists>u'. sqlconn_init drv (sql_helper s) c u = Returned (True, u') \<and> ms_stays m u u' \<and> ms_link m u' c \<and> ms_rows m u' = ms_rows m u"
proof -
  note laws = assms(1) [unfolded mysql_ok_def]
  obtain u1 where u1: "drv_connect drv (sql_helper s) c u = (True, u1)" "ms_stays m u u1" "ms_link m u1 c" "ms_rows m u1 = ms_rows m u"
    using laws [THEN conjunct1] assms(2) by blast
  obtain u2 where u2: "stmt_execute drv c (''USE '' @ sh_db (sql_helper s) @ '';'') u1 = (True, u2)" "ms_stays m u1 u2"
    "ms_rows m u2 = ms_rows m u1"
    using laws [THEN conjunct2, THEN conjunct1, rule_format, of u1 c] u1(2,3) unfolding ms_stays_def by blast
  have "ms_link m u2 c" using u1(3) u2(2) by (simp add: ms_stays_def)
  moreover have "sqlconn_init drv (sql_helper s) c u = Returned (True, u2)" using u1(1) u2(1) by (simp add: sqlconn_init_def)
  ultimately show ?thesis using ms_stays_trans [OF u1(2) u2(2)] u1(4) u2(3) by auto
qed

lemma mysql_update:
  assumes "mysql_ok drv s m" "ms_up m u" "ms_link m u c"
  shows "sqlconn_execute_update drv c q u = (case stmt_executeUpdate drv c q u of (None, w2) \<Rightarrow> (-1, w2) | (Some n, w2) \<Rightarrow> (n, w2))"
proof -
  have "conn_isValid drv c u"
    using assms(1) [unfolded mysql_ok_def, THEN conjunct2, THEN conjunct1, rule_format, of u c] assms(2,3) by blast
  then show ?thesis by (simp add: sqlconn_execute_update_def ensure_valid_def)
qed

lemma mysql_insert:
  assumes "mysql_ok drv s m" "ms_up m u" "ms_link m u c"
    and "table_fits s (ins_service st) sfx" "columns_fit (st\<lparr>ins_tag := tag\<rparr>)"
  shows "\<exists>u'. ms_stays m u u' \<and>
           (if ms_table m u (sql_table (sql_database s) (sql_table_prefix s) (ins_service st) sfx)
            then sqlconn_execute_update drv c (insert_sql s sfx tag st) u = (1, u') \<and>
                 ms_rows m u' = add_mset (ms_enc m (sql_table (sql_database s) (sql_table_prefix s) (ins_service st) sfx)
                                           (st\<lparr>ins_tag := tag\<rparr>)) (ms_rows m u)
            else sqlconn_execute_update drv c (insert_sql s sfx tag st) u = (-1, u') \<and> ms_rows m u' = ms_rows m u)"
  using assms(1) [unfolded mysql_ok_def Let_def, THEN conjunct2, THEN conjunct2, THEN conjunct1, rule_format, of u c st sfx tag] assms(2-5)
  by (auto simp: mysql_update [OF assms(1-3)])

lemma mysql_create:
  assumes "mysql_ok drv s m" "ms_up m u" "ms_link m u c" "table_fits s service sfx"
  shows "\<exists>u'. sqlconn_execute_update drv c (create_table_sql (sql_database s) (sql_table_prefix s) service sfx) u = (0, u') \<and>
           ms_stays m u u' \<and> ms_rows m u' = ms_rows m u \<and>
           ms_table m u' (sql_table (sql_database s) (sql_table_prefix s) service sfx)"
  using assms(1) [unfolded mysql_ok_def, THEN conjunct2, THEN conjunct2, THEN conjunct2, rule_format, of u c service sfx] assms(2-4)
  by (auto simp: mysql_update [OF assms(1-3)])

lemma sql_insert_with_works:
  assumes "mysql_ok drv s m" "ms_up m w" "ms_link m w c" "sql_row_fits localtime s st" "sql_store_named s"
  shows "\<exists>w'. sql_insert_with drv localtime s st c w = Returned (0, w') \<and> ms_stays m w w' \<and>
           ms_rows m w' = add_mset (sql_enc (ms_enc m) localtime s st) (ms_rows m w)"
proof -
  define sfx where "sfx = sql_get_table_suffix localtime (ins_timestamp st)"
  define t where "t = sql_table (sql_database s) (sql_table_prefix s) (ins_service st) sfx"
  define q where "q = insert_sql s sfx (tag_or_default st) st"
  define q' where "q' = create_table_sql (sql_database s) (sql_table_prefix s) (ins_service st) sfx"
  have fits: "table_fits s (ins_service st) sfx" "columns_fit (st\<lparr>ins_tag := tag_or_default st\<rparr>)"
    using assms(4) by (simp_all add: sql_row_fits_def Let_def sfx_def)
  note ins = mysql_insert [OF assms(1) _ _ fits, folded q_def t_def]
  have add: "\<exists>u'. sqlconn_execute_update drv c q u = (1, u') \<and> ms_stays m u u' \<and>
      ms_rows m u' = add_mset (sql_enc (ms_enc m) localtime s st) (ms_rows m u)"
    if "ms_up m u" "ms_link m u c" "ms_table m u t" for u
    using ins [OF that(1,2)] that(3) by (auto simp: sql_enc_def simp flip: sfx_def t_def)
  have texts: "va_format q = Returned q" "va_format q' = Returned q'"
    using assms(4) va_format_short by (simp_all add: sql_row_fits_def Let_def q_def q'_def sfx_def)
  have body: "sql_insert_with drv localtime s st c w =
      (case sqlconn_execute_update drv c q w of
         (n, w1) \<Rightarrow> if n = 1 then Returned (0, w1)
           else and_then (create_table drv c (sql_database s) (sql_table_prefix s) (ins_service st) sfx w1)
                  (\<lambda>(_, w2). case sqlconn_execute_update drv c q w2 of (n', w3) \<Rightarrow> Returned (if n' = 1 then 0 else -1, w3)))"
    using assms(4) unfolding sql_insert_with_def Let_def tag_or_default_def [symmetric] sfx_def [symmetric] q_def [symmetric] texts(1)
    by (simp add: sql_row_fits_def table_fits_def Let_def)
  show ?thesis
  proof (cases "ms_table m w t")
    case True
    with add [OF assms(2,3) True] body show ?thesis by auto
  next
    case False
    obtain u1 where u1: "sqlconn_execute_update drv c q w = (-1, u1)" "ms_stays m w u1" "ms_rows m u1 = ms_rows m w"
      using ins [OF assms(2,3)] False by auto
    have up1: "ms_up m u1" "ms_link m u1 c" using u1(2) assms(3) by (simp_all add: ms_stays_def)
    obtain u2 where u2: "sqlconn_execute_update drv c q' u1 = (0, u2)" "ms_stays m u1 u2" "ms_rows m u2 = ms_rows m u1" "ms_table m u2 t"
      using mysql_create [OF assms(1) up1 fits(1), folded q'_def t_def] by blast
    have up2: "ms_up m u2" "ms_link m u2 c" using u2(2) up1 by (simp_all add: ms_stays_def)
    obtain u3 where u3: "sqlconn_execute_update drv c q u2 = (1, u3)" "ms_stays m u2 u3"
      "ms_rows m u3 = add_mset (sql_enc (ms_enc m) localtime s st) (ms_rows m u2)"
      using add [OF up2 u2(4)] by blast
    have "create_table drv c (sql_database s) (sql_table_prefix s) (ins_service st) sfx u1 = Returned (0, u2)"
      using assms(5) fits(1) texts(2) u2(1) table_suffix_ne [of localtime "ins_timestamp st"]
      by (simp add: create_table_def sql_store_named_def table_fits_def q'_def sfx_def)
    then have "sql_insert_with drv localtime s st c w = Returned (0, u3)" using body u1(1) u3(1) by simp
    with ms_stays_trans [OF ms_stays_trans [OF u1(2) u2(2)] u3(2)] u1(3) u2(3) u3(3) show ?thesis by simp
  qed
qed

section \<open>The store as a provider of the interface\<close>

text \<open>
  \<open>StoreSql::insert_ev_stat\<close> as a function of the store and the world. The states in which \<open>sql_accepts\<close> holds are
  such that the call returns, so that the other cases do not arise.
\<close>

definition sql_store_insert ::
    "'w sql_driver \<Rightarrow> (ConnPool \<Rightarrow> nat) \<Rightarrow> (int \<Rightarrow> int \<times> int) \<Rightarrow> event_insert_t \<Rightarrow> StoreSql \<times> 'w \<Rightarrow> int \<times> StoreSql \<times> 'w" where
  "sql_store_insert drv alloc localtime st sw =
     (case sql_insert_ev_stat drv alloc localtime st (fst sw) (snd sw) of
        Returned r \<Rightarrow> r | _ \<Rightarrow> (-1, sw))"

text \<open>A pool with nothing lent, room for a connection, and idle connections that stand.\<close>

definition pool_free :: "('w, 'r) mysql_server \<Rightarrow> ConnPool \<Rightarrow> 'w \<Rightarrow> bool" where
  "pool_free m p w \<longleftrightarrow> conn_pool_ok p \<and> conns_busy p = [] \<and> 0 < capacity p \<and> (\<forall>c\<in>set (conns_idle p). ms_link m w c)"

definition sql_accepts ::
    "'w sql_driver \<Rightarrow> (ConnPool \<Rightarrow> nat) \<Rightarrow> (int \<Rightarrow> int \<times> int) \<Rightarrow> ('w, 'r) mysql_server \<Rightarrow> StoreSql \<Rightarrow>
     event_insert_t list \<Rightarrow> StoreSql \<times> 'w \<Rightarrow> bool" where
  "sql_accepts drv alloc localtime m s rs sw \<longleftrightarrow>
     mysql_ok drv s m \<and> alloc_ok alloc \<and> sql_store_named s \<and> ms_up m (snd sw) \<and>
     (\<exists>p. fst sw = s\<lparr>sql_pool_ptr := Some p\<rparr> \<and> pool_free m p (snd sw)) \<and> (\<forall>r\<in>set rs. sql_row_fits localtime s r)"

lemma free_pool_lends:
  assumes "pool_free m p w" "alloc_ok alloc" "mysql_ok drv s m" "ms_up m w"
  shows "\<exists>c p1 w1. request_scoped_conn (sql_conn_ops drv (sql_helper s)) alloc p w = Returned (True, Some c, p1, w1) \<and>
           ms_stays m w w1 \<and> ms_link m w1 c \<and> ms_rows m w1 = ms_rows m w \<and> set (conns_idle p1) \<subseteq> set (conns_idle p)"
proof -
  let ?p = "p\<lparr>pool_stat := incr_count (pool_stat p)\<rparr>"
  have avail: "do_check_available p" using assms(1) by (auto simp: pool_free_def do_check_available_def)
  obtain u where u: "conn_init (sql_conn_ops drv (sql_helper s)) (alloc ?p) w = Returned (True, u)" "ms_stays m w u"
    "ms_link m u (alloc ?p)" "ms_rows m u = ms_rows m w"
    using mysql_connect [OF assms(3,4)] by (auto simp: sql_conn_ops_def)
  show ?thesis
  proof (cases "conns_idle p")
    case Nil
    with assms(1) avail u show ?thesis
      by (simp add: request_scoped_conn_def do_request_conn_def pool_free_def Let_def lend_def)
  next
    case (Cons c cs)
    with avail assms(1,4) show ?thesis
      by (simp add: request_scoped_conn_def do_request_conn_def Let_def lend_def pool_free_def ms_stays_def subset_insertI)
  qed
qed

lemma pool_free_kept:
  assumes "pool_free m p w" "alloc_ok alloc" "request_scoped_conn ops alloc p w = Returned (ok, Some c, p1, w1)"
    and "set (conns_idle p1) \<subseteq> set (conns_idle p)" "ms_stays m w w2" "ms_link m w2 c"
  shows "pool_free m (free_conn ops c p1 w2) w2"
proof -
  have p: "conn_pool_ok p" "conns_busy p = []" "0 < capacity p" "\<forall>c\<in>set (conns_idle p). ms_link m w c"
    using assms(1) by (simp_all add: pool_free_def)
  have "capacity p1 = capacity p" using request_scoped_conn_some [OF p(1) assms(2,3)] by blast
  moreover have "conn_pool_ok (free_conn ops c p1 w2)" "set (conns_busy (free_conn ops c p1 w2)) = {}"
    using cp.borrowed_and_returned [of p alloc ops w ok c p1 w1 w2] p assms(2,3) by simp_all
  moreover have "\<forall>c'\<in>set (conns_idle (free_conn ops c p1 w2)). ms_link m w2 c'"
    using p(4) assms(4-6) by (auto simp: ms_stays_def)
  ultimately show ?thesis using p(3) by (simp add: pool_free_def)
qed

lemma sql_insert_works:
  assumes "sql_accepts drv alloc localtime m s (r # rs) (s', w)"
  shows "\<exists>p' w'. sql_insert_ev_stat drv alloc localtime r s' w = Returned (0, s\<lparr>sql_pool_ptr := Some p'\<rparr>, w') \<and>
           pool_free m p' w' \<and> ms_up m w' \<and> ms_rows m w' = add_mset (sql_enc (ms_enc m) localtime s r) (ms_rows m w)"
proof -
  have ok: "mysql_ok drv s m" "alloc_ok alloc" "sql_store_named s" "ms_up m w" "sql_row_fits localtime s r"
    using assms by (simp_all add: sql_accepts_def)
  obtain p where p: "s' = s\<lparr>sql_pool_ptr := Some p\<rparr>" "pool_free m p w" using assms by (auto simp: sql_accepts_def)
  obtain c p1 w1 where lent: "request_scoped_conn (sql_conn_ops drv (sql_helper s)) alloc p w = Returned (True, Some c, p1, w1)"
    "ms_stays m w w1" "ms_link m w1 c" "ms_rows m w1 = ms_rows m w" "set (conns_idle p1) \<subseteq> set (conns_idle p)"
    using free_pool_lends [OF p(2) ok(2,1,4)] by blast
  have up1: "ms_up m w1" using lent(2) by (simp add: ms_stays_def)
  obtain w2 where w2: "sql_insert_with drv localtime s r c w1 = Returned (0, w2)" "ms_stays m w1 w2"
    "ms_rows m w2 = add_mset (sql_enc (ms_enc m) localtime s r) (ms_rows m w1)"
    using sql_insert_with_works [OF ok(1) up1 lent(3) ok(5,3)] by blast
  have "sql_database s' = sql_database s" "sql_table_prefix s' = sql_table_prefix s" by (simp_all add: p(1))
  then have same: "sql_insert_with drv localtime s' r c w1 = sql_insert_with drv localtime s r c w1"
    unfolding sql_insert_with_def insert_sql_def by (simp only:)
  have link: "ms_link m w2 c" "ms_up m w2" using lent(3) w2(2) by (simp_all add: ms_stays_def)
  have "sql_insert_ev_stat drv alloc localtime r s' w =
      Returned (0, s'\<lparr>sql_pool_ptr := Some (free_conn (sql_conn_ops drv (sql_helper s)) c p1 w2)\<rparr>, w2)"
    using on_conn_work [of s' p drv alloc w True c p1 w1 "sql_insert_with drv localtime s' r"] lent(1) w2(1) same
    by (simp add: sql_insert_ev_stat_def p(1))
  with w2(3) lent(4) link(2) pool_free_kept [OF p(2) ok(2) lent(1,5) ms_stays_trans [OF lent(2) w2(2)] link(1)]
  show ?thesis by (auto simp: p(1))
qed

interpretation sqls: stat_store "sql_store_insert drv alloc localtime" "sql_accepts drv alloc localtime m s"
  "\<lambda>sw. ms_rows m (snd sw)" "sql_enc (ms_enc m) localtime s"
  for drv alloc localtime and m :: "('w, 'r) mysql_server" and s
proof
  fix r rs and sw :: "StoreSql \<times> 'w"
  assume acc: "sql_accepts drv alloc localtime m s (r # rs) sw"
  obtain s' w where sw: "sw = (s', w)" by (cases sw)
  obtain p' w' where "sql_store_insert drv alloc localtime r sw = (0, s\<lparr>sql_pool_ptr := Some p'\<rparr>, w')" "pool_free m p' w'" "ms_up m w'"
    "ms_rows m w' = add_mset (sql_enc (ms_enc m) localtime s r) (ms_rows m w)"
    using sql_insert_works [OF acc [unfolded sw]] by (auto simp: sql_store_insert_def sw)
  with acc sw show "fst (sql_store_insert drv alloc localtime r sw) = 0 \<and>
      ms_rows m (snd (snd (sql_store_insert drv alloc localtime r sw))) = add_mset (sql_enc (ms_enc m) localtime s r) (ms_rows m (snd sw)) \<and>
      sql_accepts drv alloc localtime m s rs (snd (sql_store_insert drv alloc localtime r sw))"
    by (auto simp: sql_accepts_def)
qed

text \<open>
  C20. A batch of slots that a helper thread works through with the MySQL store, while the server is up and the rows
  fit its columns, leaves in the server exactly the rows it had and one row for every metric and tag of every slot, with
  the count, sum, average, extremes and ranks of the values of that tag, in the table of its service and of the slot's month,
  whether the tables existed or not. Afterwards nothing of the pool is lent.
\<close>
theorem sql_batch_stored:
  assumes "has_store h" "\<forall>e\<in>set es. \<forall>(metric, data)\<in>set (ebt_data e). length data < 2 ^ 31"
    and "rs = concat (map (\<lambda>e. stat_rows (eh_service h) (eh_entity_idx h) (ebt_timestamp e) (to_u8 (ebt_step e)) (ebt_data e)) es)"
    and "sql_accepts drv alloc localtime m s rs (s', w)"
  shows "\<exists>p' w'. run_once_task (sql_store_insert drv alloc localtime) es h (s', w) = (s\<lparr>sql_pool_ptr := Some p'\<rparr>, w') \<and>
           ms_rows m w' = ms_rows m w + mset (map (sql_enc (ms_enc m) localtime s) rs) \<and> pool_free m p' w'"
proof -
  have "event_rows e (stat_for h e) =
      stat_rows (eh_service h) (eh_entity_idx h) (ebt_timestamp e) (to_u8 (ebt_step e)) (ebt_data e)" if "e \<in> set es" for e
    using assms(2) that by (simp add: event_rows_of stat_for_def)
  then have "rs = concat (map (\<lambda>e. event_rows e (stat_for h e)) es)"
    unfolding assms(3) by (intro arg_cong [where f = concat] map_cong) simp_all
  with sqls.batch_stored [OF assms(1), of drv alloc localtime m s es "(s', w)"] assms(4) show ?thesis
    by (auto simp: sql_accepts_def prod_eq_iff)
qed

section \<open>Witness\<close>

text \<open>A server that keeps the texts of the insertions, in one table that is not there at first.\<close>

definition text_driver :: "(bool \<times> string list) sql_driver" where
  "text_driver =
     \<lparr>drv_connect = \<lambda>helper c u. (True, u), conn_isValid = \<lambda>c u. True, conn_reconnect = \<lambda>c u. (True, u),
      stmt_execute = \<lambda>c q u. (True, u), stmt_getResultSet = \<lambda>c u. (Some [], u),
      stmt_executeUpdate = \<lambda>c q u.
        if take 7 q = '' INSERT'' then if fst u then (Some 1, True, q # snd u) else (None, u) else (Some 0, True, snd u)\<rparr>"

definition text_server :: "(bool \<times> string list, string) mysql_server" where
  "text_server =
     \<lparr>ms_up = \<lambda>u. True, ms_link = \<lambda>u c. True, ms_table = \<lambda>u t. fst u, ms_rows = \<lambda>u. mset (snd u),
      ms_enc = \<lambda>t st. insert_into t (ins_tag st) st\<rparr>"

lemma text_driver_update:
  "stmt_executeUpdate text_driver c (insert_sql s sfx tag st) u =
     (if fst u then (Some 1, True, insert_sql s sfx tag st # snd u) else (None, u))"
  "stmt_executeUpdate text_driver c (create_table_sql db pfx service sfx) u = (Some 0, True, snd u)"
  by (simp_all add: text_driver_def insert_sql_def insert_into_def create_table_sql_def)

lemma text_driver_ok: "mysql_ok text_driver s text_server"
  unfolding mysql_ok_def Let_def
proof (intro conjI allI impI, goal_cases)
  case (4 c sfx tag st u)
  have "ms_enc text_server t (st\<lparr>ins_tag := tag\<rparr>) = insert_into t tag st" for t
    by (simp add: text_server_def insert_into_def)
  then have "ms_enc text_server (sql_table (sql_database s) (sql_table_prefix s) (ins_service st) sfx) (st\<lparr>ins_tag := tag\<rparr>) =
      insert_sql s sfx tag st"
    by (simp only: insert_sql_def)
  then show ?case
    unfolding text_driver_update
    by (intro exI [of _ "if fst u then (True, insert_sql s sfx tag st # snd u) else u"]) (simp add: text_server_def ms_stays_def)
next
  case (5 c service sfx u)
  show ?case unfolding text_driver_update by (simp add: text_server_def ms_stays_def)
qed (simp_all add: text_driver_def text_server_def ms_stays_def)

definition tiny_slot :: "int \<Rightarrow> events_by_time_t" where
  "tiny_slot t = \<lparr>ebt_timestamp = t, ebt_step = 60,
     ebt_data = [(''m'', [\<lparr>ed_msgid = 1, ed_metric = ''m'', ed_tag = ''a'', ed_value = 5\<rparr>])]\<rparr>"

definition tiny_handler :: EventHandler where
  "tiny_handler = (mk_EventHandler ''s'' '''')\<lparr>has_store := True\<rparr>"

definition tiny_slot_row :: "int \<Rightarrow> event_insert_t" where
  "tiny_slot_row t =
     zero_insert\<lparr>ins_service := ''s'', ins_timestamp := t, ins_step := 60, ins_metric := ''m'', ins_tag := ''a'', ins_count := 1,
       ins_value_sum := 5, ins_value_avg := 5, ins_value_min := 5, ins_value_max := 5, ins_value_p10 := 5,
       ins_value_p50 := 5, ins_value_p90 := 5\<rparr>"

lemma tiny_slot_rows:
  "stat_rows (eh_service tiny_handler) (eh_entity_idx tiny_handler) (ebt_timestamp (tiny_slot t)) (to_u8 (ebt_step (tiny_slot t)))
     (ebt_data (tiny_slot t)) = [tiny_slot_row t]"
  by (simp add: stat_rows_def stat_row_def tag_values_def tiny_slot_def tiny_handler_def mk_EventHandler_def tiny_slot_row_def
      zero_insert_def to_u8_def to_i32_id to_i64_id is_i32_def is_i64_def signed_divide_int_def Let_def)

lemma tiny_slot_tag: "tag_or_default (tiny_slot_row t) = ''a''"
  by (simp add: tiny_slot_row_def zero_insert_def tag_or_default_def)

lemma tiny_slot_columns: "is_i64 t \<Longrightarrow> columns_fit (tiny_slot_row t\<lparr>ins_tag := tag_or_default (tiny_slot_row t)\<rparr>)"
  by (simp add: tiny_slot_tag columns_fit_def) (simp add: tiny_slot_row_def zero_insert_def text_column_def is_i32_def is_i64_def)

lemma tiny_slot_suffix: "sql_get_table_suffix (\<lambda>t. (70, 0)) t = ''197001''"
  by code_simp

lemma tiny_slot_table: "table_fits tiny_store (ins_service (tiny_slot_row t)) ''197001''"
  by (simp add: table_fits_def plain_word_def tiny_store_def tiny_slot_row_def zero_insert_def)

lemma tiny_slot_texts:
  "length (insert_sql tiny_store ''197001'' ''a'' (tiny_slot_row 60)) < 16380"
  "length (insert_sql tiny_store ''197001'' ''a'' (tiny_slot_row 120)) < 16380"
  "length (create_table_sql (sql_database tiny_store) (sql_table_prefix tiny_store) (ins_service (tiny_slot_row t)) ''197001'') < 16380"
  by (simp_all add: insert_sql_def insert_into_def create_table_sql_def sql_table_def zero_pad_def quoted_def
      quote_def bytes_def c_str_def tiny_store_def tiny_slot_row_def zero_insert_def dec_int_def dec_nat.simps)

lemma tiny_slot_fits:
  "sql_row_fits (\<lambda>t. (70, 0)) tiny_store (tiny_slot_row 60)" "sql_row_fits (\<lambda>t. (70, 0)) tiny_store (tiny_slot_row 120)"
proof -
  have "ins_metric (tiny_slot_row t) \<noteq> [] \<and> ins_timestamp (tiny_slot_row t) = t" for t
    by (simp add: tiny_slot_row_def zero_insert_def)
  then show "sql_row_fits (\<lambda>t. (70, 0)) tiny_store (tiny_slot_row 60)" "sql_row_fits (\<lambda>t. (70, 0)) tiny_store (tiny_slot_row 120)"
    using tiny_slot_texts tiny_slot_table tiny_slot_columns
    by (simp_all only: sql_row_fits_def Let_def tiny_slot_suffix tiny_slot_tag) (simp_all add: is_i64_def)
qed

theorem sql_batch_stored_witness:
  "\<exists>p' w'. run_once_task (sql_store_insert text_driver some_alloc (\<lambda>t. (70, 0))) [tiny_slot 60, tiny_slot 120] tiny_handler
          (tiny_store, (False, [])) = (tiny_store\<lparr>sql_pool_ptr := Some p'\<rparr>, w') \<and>
       mset (snd w') = {#insert_into ''d.t__s__events_197001'' ''a'' (tiny_slot_row 60),
                        insert_into ''d.t__s__events_197001'' ''a'' (tiny_slot_row 120)#}"
proof -
  let ?rs = "[tiny_slot_row 60, tiny_slot_row 120]"
  have "pool_free text_server (mk_ConnPool ''MySQLPool'' 1 0) (False, [])"
    using tiny_pool_ok by (simp add: pool_free_def mk_ConnPool_def to_u64_def)
  moreover have "sql_store_named tiny_store" by (simp add: sql_store_named_def plain_word_def tiny_store_def)
  ultimately have acc: "sql_accepts text_driver some_alloc (\<lambda>t. (70, 0)) text_server tiny_store ?rs (tiny_store, (False, []))"
    using text_driver_ok some_alloc_ok tiny_slot_fits by (simp add: sql_accepts_def) (auto simp: tiny_store_def text_server_def)
  have enc: "sql_enc (ms_enc text_server) (\<lambda>t. (70, 0)) tiny_store (tiny_slot_row t) = insert_into ''d.t__s__events_197001'' ''a'' (tiny_slot_row t)"
    for t
  proof -
    have "sql_table (sql_database tiny_store) (sql_table_prefix tiny_store) ''s'' ''197001'' = ''d.t__s__events_197001''" by code_simp
    moreover have "ins_service (tiny_slot_row t) = ''s''" by (simp add: tiny_slot_row_def zero_insert_def)
    ultimately show ?thesis unfolding sql_enc_def tiny_slot_suffix tiny_slot_tag by (simp add: text_server_def insert_into_def)
  qed
  have store: "has_store tiny_handler" by (simp add: tiny_handler_def)
  have short: "\<forall>e\<in>set [tiny_slot 60, tiny_slot 120]. \<forall>(metric, data)\<in>set (ebt_data e). length data < 2 ^ 31"
    by (simp add: tiny_slot_def)
  have rs: "?rs = concat (map (\<lambda>e. stat_rows (eh_service tiny_handler) (eh_entity_idx tiny_handler) (ebt_timestamp e)
      (to_u8 (ebt_step e)) (ebt_data e)) [tiny_slot 60, tiny_slot 120])"
    unfolding list.map tiny_slot_rows by simp
  from sql_batch_stored [OF store short rs acc]
  obtain p' w' where run: "run_once_task (sql_store_insert text_driver some_alloc (\<lambda>t. (70, 0)))
      [tiny_slot 60, tiny_slot 120] tiny_handler (tiny_store, (False, [])) = (tiny_store\<lparr>sql_pool_ptr := Some p'\<rparr>, w')"
    "ms_rows text_server w' = ms_rows text_server (False, []) + mset (map (sql_enc (ms_enc text_server) (\<lambda>t. (70, 0)) tiny_store) ?rs)"
    by (elim exE conjE) (rule that)
  have "mset (snd w') = {#insert_into ''d.t__s__events_197001'' ''a'' (tiny_slot_row 60),
      insert_into ''d.t__s__events_197001'' ''a'' (tiny_slot_row 120)#}"
    using run(2) unfolding list.map enc by (simp add: text_server_def)
  with run(1) show ?thesis by blast
qed

end
