(* ===== verification/LoadGen.thy ===== *)
theory LoadGen
  imports HeraclesClient
begin

text \<open>
  The load generator of \<open>examples/fast_report.cpp\<close> with its threads: every thread sends rounds of twelve reports through the one
  client of the process and adds them to the global \<open>count\<close>, until \<open>main\<close> stops it. \<open>count\<close> is volatile, not atomic, so
  \<open>count += 12\<close> is a load and a store between which other threads run; the sending of a report is
  guarded by the client and is one step.
\<close>

section \<open>A round and the result\<close>

text \<open>The reports of a round of \<open>perf_run\<close>, the value drawn for one, and the figure at the end; the count is an \<open>uint64_t\<close>.\<close>

definition round_events :: "(string \<times> string) list" where
  "round_events =
     (let six = [(''event1'', ''tag_T''), (''event1'', ''tag_F''), (''event2'', ''tag_T''), (''event2'', ''tag_F''),
                 (''event3'', ''tag_T''), (''event3'', ''tag_F'')]
      in six @ six)"

definition random_int :: "int \<Rightarrow> int" where
  "random_int random = random mod 320 + 23"

definition count_per_sec :: "int \<Rightarrow> int \<Rightarrow> int \<Rightarrow> int blocking" where
  "count_per_sec reports start_time stop_time =
     (if stop_time - start_time = 0 then Crashed else Returned (reports div to_u64 (stop_time - start_time)))"

section \<open>Threads\<close>

text \<open>Where a thread is in \<open>perf_run\<close>: \<open>Reporting es\<close> has the reports \<open>es\<close> of the round to send, \<open>Adding c\<close> has loaded \<open>c\<close>.\<close>

datatype perf_phase = Created | Waiting | Testing | Reporting "(string \<times> string) list" | Adding int | PerfDone

text \<open>The globals and the threads; \<open>rounds\<close> counts the rounds sent.\<close>

record load_test =
  lt_start :: bool
  lt_stop :: bool
  lt_count :: int
  lt_client :: HeraclesClientImpl
  lt_threads :: "perf_phase list"
  rounds :: nat

text \<open>
  The next step of a thread; \<open>init_result\<close>, \<open>dbg\<close>, \<open>now\<close> and \<open>r\<close> are what the initialisation of the client, the build, the clock and
  \<open>random\<close> give it. \<open>None\<close> when it waits for \<open>start\<close>, has ended or does not come back from the client.
\<close>

definition perf_step ::
    "(HeraclesClientImpl \<Rightarrow> (bool \<times> HeraclesClientImpl) blocking) \<Rightarrow> bool \<Rightarrow> int \<Rightarrow> int \<Rightarrow> nat \<Rightarrow> load_test \<Rightarrow> load_test option" where
  "perf_step init_client dbg now r i s =
     (if length (lt_threads s) \<le> i then None
      else
        let goto = (\<lambda>ph s. s\<lparr>lt_threads := (lt_threads s)[i := ph]\<rparr>)
        in case lt_threads s ! i of
             Created \<Rightarrow>
               (case init_client (lt_client s) of
                  Returned (ok, hi) \<Rightarrow> Some (goto (if ok then Waiting else PerfDone) (s\<lparr>lt_client := hi\<rparr>))
                | _ \<Rightarrow> None)
           | Waiting \<Rightarrow> if lt_start s then Some (goto Testing s) else None
           | Testing \<Rightarrow> Some (goto (if lt_stop s then PerfDone else Reporting round_events) s)
           | Reporting ((name, tag) # es) \<Rightarrow>
               (case HeraclesClient_report_event dbg now name (random_int r) tag (lt_client s) of
                  Returned (_, hi) \<Rightarrow> Some (goto (Reporting es) (s\<lparr>lt_client := hi\<rparr>))
                | _ \<Rightarrow> None)
           | Reporting [] \<Rightarrow> Some (goto (Adding (lt_count s)) (s\<lparr>rounds := Suc (rounds s)\<rparr>))
           | Adding c \<Rightarrow> Some (goto Testing (s\<lparr>lt_count := to_u64 (c + 12)\<rparr>))
           | PerfDone \<Rightarrow> None)"

text \<open>\<open>main\<close>: the threads it creates for its argument, the two flags it sets, and what it prints at the end.\<close>

definition load_begin :: "string option \<Rightarrow> HeraclesClientImpl \<Rightarrow> load_test option" where
  "load_begin arg hi =
     (case arg of
        None \<Rightarrow> None
      | Some a \<Rightarrow>
          let thread_num = to_i32 (atoll a)
          in if thread_num \<le> 0 then None
             else Some \<lparr>lt_start = False, lt_stop = False, lt_count = 0, lt_client = hi,
                        lt_threads = replicate (nat thread_num) Created, rounds = 0\<rparr>)"

definition load_end :: "int \<Rightarrow> int \<Rightarrow> load_test \<Rightarrow> string blocking" where
  "load_end start_time stop_time s =
     and_then (count_per_sec (lt_count s) start_time stop_time) (\<lambda>tps.
       Returned (''total count '' @ dec_int (to_i64 (lt_count s)) @ '', time: '' @ dec_int (stop_time - start_time)
         @ '', perf: '' @ dec_int (to_i64 tps) @ '' tps'' @ [CHR 0x0A]))"

inductive load_reach :: "(HeraclesClientImpl \<Rightarrow> (bool \<times> HeraclesClientImpl) blocking) \<Rightarrow> load_test \<Rightarrow> load_test \<Rightarrow> bool"
  for init_client s0 where
  load_start: "load_reach init_client s0 s0"
| load_thread: "load_reach init_client s0 s \<Longrightarrow> perf_step init_client dbg now r i s = Some s' \<Longrightarrow> load_reach init_client s0 s'"
| load_go: "load_reach init_client s0 s \<Longrightarrow> load_reach init_client s0 (s\<lparr>lt_start := True\<rparr>)"
| load_halt: "load_reach init_client s0 s \<Longrightarrow> load_reach init_client s0 (s\<lparr>lt_stop := True\<rparr>)"

section \<open>The count\<close>

definition load_ok :: "load_test \<Rightarrow> bool" where
  "load_ok s \<longleftrightarrow>
     0 \<le> lt_count s \<and> lt_count s \<le> 12 * int (rounds s) \<and>
     (\<forall>c. Adding c \<in> set (lt_threads s) \<longrightarrow> 0 \<le> c \<and> c + 12 \<le> 12 * int (rounds s))"

lemma to_u64_le: "0 \<le> x \<Longrightarrow> 0 \<le> to_u64 x \<and> to_u64 x \<le> x"
  by (simp add: to_u64_def zmod_le_nonneg_dividend)

lemma load_ok_step:
  assumes "load_ok s" "perf_step init_client dbg now r i s = Some s'"
  shows "load_ok s'"
proof -
  have i: "i < length (lt_threads s)" using assms(2) by (auto simp: perf_step_def split: if_splits)
  have upd: "Adding c \<in> set ((lt_threads s)[i := ph]) \<Longrightarrow> Adding c = ph \<or> Adding c \<in> set (lt_threads s)" for c ph
    using set_update_subset_insert [of "lt_threads s" i ph] by blast
  show ?thesis
  proof (cases "lt_threads s ! i")
    case (Adding c)
    then have "0 \<le> c" "c + 12 \<le> 12 * int (rounds s)" using assms(1) i nth_mem by (force simp: load_ok_def)+
    with to_u64_le [of "c + 12"] assms i Adding show ?thesis by (auto simp: perf_step_def load_ok_def Let_def dest!: upd)
  next
    case (Reporting es)
    with assms i show ?thesis
      by (cases es) (auto simp: perf_step_def load_ok_def Let_def dest!: upd split: blocking.splits prod.splits)
  qed (use assms i in \<open>auto simp: perf_step_def load_ok_def Let_def dest!: upd split: if_splits blocking.splits prod.splits\<close>)
qed

text \<open>However the threads interleave, the total that is printed is at most the number of reports in the rounds sent.\<close>

theorem load_count_bounded:
  assumes "load_begin (Some a) hi = Some s0" "load_reach init_client s0 s"
  shows "0 \<le> lt_count s \<and> lt_count s \<le> 12 * int (rounds s)"
proof -
  have "load_ok s0" using assms(1) by (auto simp: load_begin_def load_ok_def Let_def split: if_splits)
  with assms(2) have "load_ok s" by induction (auto simp: load_ok_step, auto simp: load_ok_def)
  then show ?thesis by (simp add: load_ok_def)
qed

text \<open>With one thread the total is exact, as an \<open>uint64_t\<close>.\<close>

definition exact_count :: "load_test \<Rightarrow> bool" where
  "exact_count s \<longleftrightarrow>
     (\<exists>ph. lt_threads s = [ph] \<and>
        (case ph of Adding c \<Rightarrow> to_u64 (c + 12) = to_u64 (12 * int (rounds s)) | _ \<Rightarrow> lt_count s = to_u64 (12 * int (rounds s))))"

lemma exact_count_flags [simp]:
  "exact_count (s\<lparr>lt_start := b\<rparr>) = exact_count s" "exact_count (s\<lparr>lt_stop := b\<rparr>) = exact_count s"
  unfolding exact_count_def by (auto split: perf_phase.splits)

lemma exact_count_step:
  assumes "exact_count s" "perf_step init_client dbg now r i s = Some s'"
  shows "exact_count s'"
proof -
  obtain ph where ph: "lt_threads s = [ph]" using assms(1) by (auto simp: exact_count_def)
  have wrap: "to_u64 (to_u64 x + 12) = to_u64 (x + 12)" for x by (simp add: to_u64_def mod_simps)
  have i: "i = 0" using assms(2) ph by (auto simp: perf_step_def split: if_splits)
  show ?thesis
  proof (cases ph)
    case (Reporting es)
    with assms ph i wrap [of "12 * int (rounds s)"] show ?thesis
      by (cases es) (auto simp: perf_step_def exact_count_def Let_def ac_simps split: blocking.splits prod.splits)
  qed (use assms ph i in \<open>auto simp: perf_step_def exact_count_def Let_def split: if_splits blocking.splits prod.splits\<close>)
qed

theorem load_count_exact:
  assumes "load_begin (Some a) hi = Some s0" "to_i32 (atoll a) = 1" "load_reach init_client s0 s"
    and "lt_threads s = [PerfDone]"
  shows "lt_count s = to_u64 (12 * int (rounds s))"
proof -
  have "exact_count s0" using assms(1,2) by (auto simp: load_begin_def exact_count_def Let_def to_u64_def)
  with assms(3) have "exact_count s" by induction (auto simp: exact_count_step)
  with assms(4) show ?thesis by (auto simp: exact_count_def)
qed

text \<open>With two threads that load the same value a whole round is missing from the total.\<close>

lemma load_update_lost:
  assumes "lt_threads s = [Reporting [], Reporting []]" "lt_count s = 0" "rounds s = 0"
  shows "\<exists>s1 s2 s3 s4. perf_step init_client dbg now r 0 s = Some s1 \<and> perf_step init_client dbg now r 1 s1 = Some s2 \<and>
           perf_step init_client dbg now r 0 s2 = Some s3 \<and> perf_step init_client dbg now r 1 s3 = Some s4 \<and>
           rounds s4 = 2 \<and> lt_count s4 = 12"
  using assms by (simp add: perf_step_def Let_def to_u64_def)

text \<open>It divides by the seconds that have passed: stopping it within the second it started in crashes it.\<close>

lemma load_end_same_second: "load_end t t s = Crashed"
  by (simp add: load_end_def count_per_sec_def)

lemma perf_random_range: "0 \<le> r \<Longrightarrow> 23 \<le> random_int r \<and> random_int r \<le> 342"
  using pos_mod_bound [of 320 r] by (simp add: random_int_def)

end
