(* ===== verification/TinyTask.thy ===== *)
theory TinyTask
  imports EQueue
begin

text \<open>
  \<open>source/Utils/ThreadMng.h\<close> and \<open>TinyTask.h\<close>: tasks run in a thread each, in batches of at most
  \<open>max_spawn_task_\<close>.

  A task is a value of type \<open>'t\<close>; \<open>threads\<close> are the tasks whose thread has not been joined, in the order of
  the vector. \<open>item_notify_\<close> is never notified, so a call of \<open>add_task\<close> that has to wait is \<open>Blocked\<close>.
\<close>

section \<open>ThreadMng\<close>

record 't ThreadMng =
  max_spawn :: "32 word"
  threads :: "'t list"

definition mk_ThreadMng :: "8 word \<Rightarrow> 't ThreadMng" where
  "mk_ThreadMng n = \<lparr>max_spawn = ucast n, threads = []\<rparr>"

definition full :: "'t ThreadMng \<Rightarrow> bool" where
  "full m \<longleftrightarrow> length (threads m) \<ge> unat (max_spawn m)"

definition try_add_task :: "'t \<Rightarrow> 't ThreadMng \<Rightarrow> bool \<times> 't ThreadMng" where
  "try_add_task t m = (if full m then (False, m) else (True, m\<lparr>threads := threads m @ [t]\<rparr>))"

definition add_task :: "'t \<Rightarrow> 't ThreadMng \<Rightarrow> (bool \<times> 't ThreadMng) blocking" where
  "add_task t m = (if full m then Blocked else Returned (True, m\<lparr>threads := threads m @ [t]\<rparr>))"

text \<open>
  \<open>try_join\<close>: \<open>ends t\<close> says whether the thread ends within a millisecond. \<open>threads_\<close> is a vector, and erasing
  an element invalidates the iterator the loop goes on with: undefined behaviour.
\<close>

definition try_join :: "('t \<Rightarrow> bool) \<Rightarrow> 't ThreadMng \<Rightarrow> (int \<times> 't ThreadMng) blocking" where
  "try_join ends m = (if list_ex ends (threads m) then Crashed else Returned (0, m))"

definition join_all :: "'t ThreadMng \<Rightarrow> 't ThreadMng" where
  "join_all m = m\<lparr>threads := []\<rparr>"

definition current_size :: "'t ThreadMng \<Rightarrow> 32 word" where
  "current_size m = of_nat (length (threads m))"

definition mng_modify_spawn_size :: "32 word \<Rightarrow> 't ThreadMng \<Rightarrow> 't ThreadMng" where
  "mng_modify_spawn_size nsize m = (if nsize = 0 then m else m\<lparr>max_spawn := nsize\<rparr>)"

section \<open>TinyTask\<close>

text \<open>\<open>executed\<close> collects the tasks whose threads have been joined.\<close>

record 't TinyTask =
  tt_max_spawn :: "32 word"
  tt_running :: bool
  thread_terminate :: bool
  thread_mng :: "'t ThreadMng"
  tt_tasks :: "'t equeue"
  executed :: "'t list"

definition mk_TinyTask :: "8 word \<Rightarrow> 't TinyTask" where
  "mk_TinyTask n =
     \<lparr>tt_max_spawn = ucast n, tt_running = False, thread_terminate = False, thread_mng = mk_ThreadMng n,
      tt_tasks = empty_queue, executed = []\<rparr>"

definition tt_init :: "'t TinyTask \<Rightarrow> bool \<times> 't TinyTask" where
  "tt_init tt = (True, tt\<lparr>tt_running := True\<rparr>)"

definition tt_destroy :: "'t TinyTask \<Rightarrow> 't TinyTask" where
  "tt_destroy tt = tt\<lparr>thread_terminate := True\<rparr>"

definition add_additional_task :: "'t \<Rightarrow> 't TinyTask \<Rightarrow> 't TinyTask" where
  "add_additional_task f tt = tt\<lparr>tt_tasks := PUSH f (tt_tasks tt)\<rparr>"

definition available :: "'t TinyTask \<Rightarrow> 32 word" where
  "available tt = tt_max_spawn tt - current_size (thread_mng tt)"

definition modify_spawn_size :: "32 word \<Rightarrow> 't TinyTask \<Rightarrow> 't TinyTask" where
  "modify_spawn_size nsize tt =
     (if nsize = 0 then tt
      else if nsize \<noteq> tt_max_spawn tt
      then tt\<lparr>tt_max_spawn := nsize, thread_mng := mng_modify_spawn_size nsize (thread_mng tt)\<rparr>
      else tt)"

text \<open>
  A turn of \<open>run\<close>: the batch is taken with the limit of that moment; other threads may change the limit
  (\<open>meanwhile\<close>) before the threads are made.
\<close>

fun add_each :: "'t list \<Rightarrow> 't ThreadMng \<Rightarrow> 't ThreadMng blocking" where
  "add_each [] m = Returned m"
| "add_each (t # ts) m = and_then (add_task t m) (\<lambda>(_, m'). add_each ts m')"

definition tt_run_turn ::
    "'t wakeup list \<Rightarrow> ('t TinyTask \<Rightarrow> 't TinyTask) \<Rightarrow> 't TinyTask \<Rightarrow> 't TinyTask option blocking" where
  "tt_run_turn ws meanwhile tt =
     (if thread_terminate tt then Returned None
      else
        (case POP_batch ws [] (unat (tt_max_spawn tt)) (tt_tasks tt) of
           (n, batch, q) \<Rightarrow>
             let tt1 = meanwhile (tt\<lparr>tt_tasks := q\<rparr>)
             in if n = 0 then Returned (Some tt1)
                else and_then (add_each batch (thread_mng tt1)) (\<lambda>m.
                       Returned (Some (tt1\<lparr>thread_mng := join_all m, executed := executed tt1 @ batch\<rparr>)))))"

section \<open>Batches\<close>

lemma add_each_spec:
  "add_each ts m =
     (if length (threads m) + length ts \<le> unat (max_spawn m) \<or> ts = []
      then Returned (m\<lparr>threads := threads m @ ts\<rparr>) else Blocked)"
  by (induction ts arbitrary: m) (auto simp: add_task_def full_def)

definition tt_ok :: "'t TinyTask \<Rightarrow> bool" where
  "tt_ok tt \<longleftrightarrow> threads (thread_mng tt) = [] \<and> max_spawn (thread_mng tt) = tt_max_spawn tt \<and> tt_max_spawn tt \<noteq> 0"

lemma tt_ok_mk: "n \<noteq> 0 \<Longrightarrow> tt_ok (mk_TinyTask n)"
proof -
  assume "n \<noteq> 0"
  moreover have "unat (ucast n :: 32 word) = unat n"
    using unsigned_less [of n, where ?'a = nat] by (simp add: unsigned_ucast_eq take_bit_nat_eq_self)
  ultimately show ?thesis
    by (auto simp: tt_ok_def mk_TinyTask_def mk_ThreadMng_def simp flip: unat_eq_zero)
qed

lemma modify_spawn_size_ok: "tt_ok tt \<Longrightarrow> tt_ok (modify_spawn_size n tt)"
  by (simp add: tt_ok_def modify_spawn_size_def mng_modify_spawn_size_def)

text \<open>
  As long as the limit is not changed in between, a turn executes every task it takes, oldest first and each
  once: what was executed and what is queued afterwards is what was executed, queued and has arrived, in
  order, and the turn returns with no thread left.
\<close>
theorem turn_executes_batch:
  assumes "tt_ok tt" "\<not> thread_terminate tt"
  shows "\<exists>tt'. tt_run_turn ws (\<lambda>t. t) tt = Returned (Some tt') \<and> tt_ok tt' \<and>
    executed tt' @ items (tt_tasks tt') = executed tt @ items (tt_tasks tt) @ arrived ws (tt_tasks tt) \<and>
    (items (tt_tasks tt) \<noteq> [] \<longrightarrow> executed tt' \<noteq> executed tt)"
proof -
  let ?q = "wait_until ws (tt_tasks tt)" and ?max = "unat (tt_max_spawn tt)"
  define n where "n = (if items ?q = [] then 0 else min (max 1 ?max) (length (items ?q)))"
  have pop: "POP_batch ws [] ?max (tt_tasks tt) = (n, take n (items ?q), ?q\<lparr>items := drop n (items ?q)\<rparr>)"
    by (simp add: POP_batch_eq n_def Let_def)
  have "?max \<noteq> 0" using assms(1) by (simp add: tt_ok_def unat_eq_zero)
  then have n: "n \<le> ?max" "n \<le> length (items ?q)" "n = 0 \<longleftrightarrow> items ?q = []" by (auto simp: n_def)
  show ?thesis
  proof (cases "n = 0")
    case True
    with assms pop n show ?thesis
      by (auto simp: tt_run_turn_def tt_ok_def items_wait_until)
  next
    case False
    let ?m = "thread_mng tt"
    from assms(1) n have "add_each (take n (items ?q)) ?m = Returned (?m\<lparr>threads := take n (items ?q)\<rparr>)"
      by (simp add: add_each_spec tt_ok_def)
    with False assms pop n show ?thesis
      by (simp add: tt_run_turn_def tt_ok_def join_all_def flip: items_wait_until)
  qed
qed

text \<open>
  Lowering the limit between the moment a batch is taken and the moment its threads are made stops the task
  thread for ever: it waits in \<open>add_task\<close> for a notification that nothing sends.
\<close>
theorem lowered_limit_blocks:
  assumes "tt_ok tt" "\<not> thread_terminate tt" "n \<noteq> 0" "unat n < min (unat (tt_max_spawn tt)) (length (items (tt_tasks tt)))"
  shows "tt_run_turn ws (modify_spawn_size n) tt = Blocked"
proof -
  let ?k = "min (unat (tt_max_spawn tt)) (length (items (tt_tasks tt)))"
  have ne: "items (tt_tasks tt) \<noteq> []" "1 \<le> unat (tt_max_spawn tt)" using assms(4) by auto
  then have "POP_batch ws [] (unat (tt_max_spawn tt)) (tt_tasks tt) =
      (?k, take ?k (items (tt_tasks tt)), (tt_tasks tt)\<lparr>items := drop ?k (items (tt_tasks tt))\<rparr>)"
    by (simp add: POP_batch_eq Let_def max_def)
  with assms ne show ?thesis
    by (auto simp: tt_run_turn_def modify_spawn_size_def mng_modify_spawn_size_def add_each_spec tt_ok_def Let_def)
qed

text \<open>Between taking a batch and joining it the limit can also fall below the running threads: \<open>available\<close> wraps.\<close>

lemma available_wraps:
  "available (tt\<lparr>tt_max_spawn := 1, thread_mng := (thread_mng tt)\<lparr>threads := [a, b]\<rparr>\<rparr>) = 4294967295"
  by (simp add: available_def current_size_def)

section \<open>Witnesses\<close>

definition two_tasks :: "nat TinyTask" where
  "two_tasks = add_additional_task 2 (add_additional_task 1 (mk_TinyTask 5))"

lemma two_tasks_ok: "tt_ok two_tasks" "\<not> thread_terminate two_tasks" "items (tt_tasks two_tasks) = [1, 2]"
  "tt_max_spawn two_tasks = 5"
  by (simp_all add: two_tasks_def add_additional_task_def mk_TinyTask_def mk_ThreadMng_def tt_ok_def PUSH_def empty_queue_def)

theorem turn_executes_batch_witness:
  "\<exists>tt'. tt_run_turn [] (\<lambda>t. t) two_tasks = Returned (Some tt') \<and> executed tt' \<noteq> []"
  using turn_executes_batch [OF two_tasks_ok(1,2), of "[]"] two_tasks_ok(3)
  by (auto simp: two_tasks_def add_additional_task_def mk_TinyTask_def)

theorem lowered_limit_blocks_witness: "tt_run_turn [] (modify_spawn_size 1) two_tasks = Blocked"
  by (rule lowered_limit_blocks) (simp_all add: two_tasks_ok)

end
