(* ===== verification/RedisConn.thy ===== *)
theory RedisConn
  imports ConnPool
begin

text \<open>
  \<open>source/Connect/RedisConn.h\<close> and \<open>source/Connect/RedisConn.cpp\<close>: a pooled connection to a Redis server with
  one method per command. The client library hiredis is the parameter \<open>hi\<close>: what connecting gives and what a
  command, given as its list of arguments, answers. A format such as \<open>"SET %s %ld"\<close> is split by hiredis at
  the blanks of the format, not of what is put in, so it is modelled by its arguments; \<open>%s\<close> reads a C string.

  A method takes and returns the connection and the world behind it. Overloads are told apart by a suffix.
  \<open>Crashed\<close> is the use of a null pointer or of an element that is not there.
\<close>

section \<open>hiredis\<close>

datatype reply_type =
    REDIS_REPLY_STRING | REDIS_REPLY_ARRAY | REDIS_REPLY_INTEGER | REDIS_REPLY_NIL | REDIS_REPLY_STATUS | REDIS_REPLY_ERROR

text \<open>A \<open>redisReply\<close>: \<open>str\<close> may be null; \<open>len\<close> and \<open>elements\<close> are the lengths.\<close>

datatype redisReply =
  Reply (rp_type: reply_type) (rp_integer: int) (rp_str: "string option") (rp_element: "redisReply list")

text \<open>A context is its \<open>err\<close> field; \<open>None\<close> is a null pointer.\<close>

record 'w hiredis =
  redisConnectWithTimeout :: "string \<Rightarrow> int \<Rightarrow> 'w \<Rightarrow> int option \<times> 'w"
  redisCommandArgv :: "int \<Rightarrow> string list \<Rightarrow> 'w \<Rightarrow> redisReply option \<times> int \<times> 'w"

text \<open>\<open>printReply\<close>; \<open>code\<close> gives the numbers of the reply types, which are defined by hiredis.\<close>

fun print_reply :: "(reply_type \<Rightarrow> int) \<Rightarrow> redisReply \<Rightarrow> string" where
  "print_reply code (Reply t i s es) =
     ''reply: '' @ dec_int (code t) @ '' '' @
     (case t of
        REDIS_REPLY_ARRAY \<Rightarrow> endl @ concat (map (print_reply code) es)
      | REDIS_REPLY_INTEGER \<Rightarrow> dec_int i
      | REDIS_REPLY_NIL \<Rightarrow> ''<nil>''
      | _ \<Rightarrow> (case s of None \<Rightarrow> ''<NULL>'' | Some x \<Rightarrow> c_str x))"

definition printReply :: "(reply_type \<Rightarrow> int) \<Rightarrow> redisReply option \<Rightarrow> string" where
  "printReply code r = (case r of None \<Rightarrow> ''REPLY NULL'' @ endl | Some x \<Rightarrow> print_reply code x)"

section \<open>The connection\<close>

record RedisConnPoolHelper =
  rd_host :: string
  rd_port :: int
  rd_passwd :: string
  rd_db_idx :: int

text \<open>\<open>redis_uuid\<close> is \<open>None\<close> while \<open>conn_uuid_\<close> is not set.\<close>

record RedisConn =
  context_err :: "int option"
  redis_uuid :: "int option"

definition mk_RedisConn :: RedisConn where
  "mk_RedisConn = \<lparr>context_err = None, redis_uuid = None\<rparr>"

definition redis_isValid :: "RedisConn \<Rightarrow> bool" where
  "redis_isValid c \<longleftrightarrow> context_err c = Some 0"

definition CHECK_N_RECONNECT :: "RedisConn \<Rightarrow> bool" where
  "CHECK_N_RECONNECT c = (if redis_isValid c then True else redis_isValid c)"

definition redis_operator_bool :: "RedisConn \<Rightarrow> bool" where
  "redis_operator_bool c \<longleftrightarrow> context_err c \<noteq> None"

definition replyOK :: "redisReply option \<Rightarrow> bool" where
  "replyOK reply =
     (case reply of
        None \<Rightarrow> False
      | Some r \<Rightarrow> rp_type r = REDIS_REPLY_STATUS \<and> (case rp_str r of None \<Rightarrow> False | Some s \<Rightarrow> c_str s = ''OK''))"

section \<open>Executing a command\<close>

text \<open>The command itself, on a context with the error \<open>e\<close>; and the common end: an error reply is dropped.\<close>

definition command_on ::
    "'w hiredis \<Rightarrow> int \<Rightarrow> string list \<Rightarrow> RedisConn \<times> 'w \<Rightarrow> redisReply option \<times> RedisConn \<times> 'w" where
  "command_on hi e argv cw =
     (case redisCommandArgv hi e argv (snd cw) of (r, e', w') \<Rightarrow> (r, (fst cw)\<lparr>context_err := Some e'\<rparr>, w'))"

definition drop_error :: "redisReply option \<Rightarrow> redisReply option" where
  "drop_error reply =
     (case reply of None \<Rightarrow> None | Some r \<Rightarrow> if rp_type r = REDIS_REPLY_ERROR then None else Some r)"

definition Exec :: "'w hiredis \<Rightarrow> string list \<Rightarrow> RedisConn \<times> 'w \<Rightarrow> redisReply option \<times> RedisConn \<times> 'w" where
  "Exec hi argv cw =
     (if \<not> CHECK_N_RECONNECT (fst cw) then (None, cw)
      else (case command_on hi 0 argv cw of (r, cw') \<Rightarrow> (drop_error r, cw')))"

definition Exec_argv :: "'w hiredis \<Rightarrow> string list \<Rightarrow> RedisConn \<times> 'w \<Rightarrow> redisReply option \<times> RedisConn \<times> 'w" where
  "Exec_argv hi argv cw =
     (if \<not> CHECK_N_RECONNECT (fst cw) then (None, cw)
      else (case command_on hi 0 (map c_str argv) cw of (r, cw') \<Rightarrow> (drop_error r, cw')))"

definition ExecV :: "'w hiredis \<Rightarrow> string list \<Rightarrow> RedisConn \<times> 'w \<Rightarrow> redisReply option \<times> RedisConn \<times> 'w" where
  "ExecV hi argv cw =
     (if \<not> CHECK_N_RECONNECT (fst cw) then (None, cw)
      else (case command_on hi 0 (map c_str argv) cw of (r, cw') \<Rightarrow> (drop_error r, cw')))"

definition ExecV_strings :: "'w hiredis \<Rightarrow> string list \<Rightarrow> RedisConn \<times> 'w \<Rightarrow> redisReply option \<times> RedisConn \<times> 'w" where
  "ExecV_strings hi argv cw =
     (if \<not> CHECK_N_RECONNECT (fst cw) then (None, cw)
      else (case ExecV hi argv cw of (r, cw') \<Rightarrow> (drop_error r, cw')))"

text \<open>\<open>Eval\<close> does not look at the connection.\<close>

definition Eval ::
    "'w hiredis \<Rightarrow> string \<Rightarrow> string list \<Rightarrow> string list \<Rightarrow> RedisConn \<times> 'w \<Rightarrow>
     (redisReply option \<times> RedisConn \<times> 'w) blocking" where
  "Eval hi script keys args cw =
     (if script = [] then Returned (None, cw)
      else
        let argvs = ''EVAL'' # c_str script # dec_nat (length keys) # map c_str keys @ map c_str args
        in case context_err (fst cw) of
             None \<Rightarrow> Crashed
           | Some e \<Rightarrow> (case command_on hi e argvs cw of (r, cw') \<Rightarrow> Returned (drop_error r, cw')))"

definition LoadScript :: "'w hiredis \<Rightarrow> string \<Rightarrow> string \<Rightarrow> RedisConn \<times> 'w \<Rightarrow> int \<times> string \<times> RedisConn \<times> 'w" where
  "LoadScript hi script sha cw =
     (case Exec hi [''SCRIPT'', ''LOAD'', c_str script] cw of
        (None, cw') \<Rightarrow> (-2, sha, cw')
      | (Some r, cw') \<Rightarrow>
          (case rp_str r of
             None \<Rightarrow> (-3, sha, cw')
           | Some s \<Rightarrow> if rp_type r \<noteq> REDIS_REPLY_STRING \<or> s = [] then (-3, sha, cw') else (0, s, cw')))"

definition CheckSha :: "'w hiredis \<Rightarrow> string \<Rightarrow> bool \<Rightarrow> RedisConn \<times> 'w \<Rightarrow> int \<times> bool \<times> RedisConn \<times> 'w" where
  "CheckSha hi sha sha_exist cw =
     (case Exec hi [''SCRIPT'', ''EXISTS'', c_str sha] cw of
        (None, cw') \<Rightarrow> (-1, sha_exist, cw')
      | (Some r, cw') \<Rightarrow>
          (case rp_element r of
             [] \<Rightarrow> (-2, sha_exist, cw')
           | x # _ \<Rightarrow>
               if rp_type r = REDIS_REPLY_ARRAY \<and> rp_integer x = 1 then (0, True, cw')
               else if rp_type r = REDIS_REPLY_ARRAY \<and> rp_integer x = 0 then (0, False, cw')
               else (-2, sha_exist, cw')))"

section \<open>Keys and values\<close>

text \<open>What most methods make of an answer: its integer, when it is one.\<close>

definition integer_reply :: "redisReply option \<Rightarrow> int option" where
  "integer_reply reply =
     (case reply of None \<Rightarrow> None | Some r \<Rightarrow> if rp_type r = REDIS_REPLY_INTEGER then Some (rp_integer r) else None)"

definition integer_or :: "int \<Rightarrow> redisReply option \<Rightarrow> int" where
  "integer_or d reply = (case integer_reply reply of None \<Rightarrow> d | Some i \<Rightarrow> to_i32 i)"

definition Select :: "'w hiredis \<Rightarrow> int \<Rightarrow> RedisConn \<times> 'w \<Rightarrow> bool \<times> RedisConn \<times> 'w" where
  "Select hi db_idx cw = (case Exec hi [''SELECT'', dec_int db_idx] cw of (reply, cw') \<Rightarrow> (replyOK reply, cw'))"

definition Exists :: "'w hiredis \<Rightarrow> string \<Rightarrow> RedisConn \<times> 'w \<Rightarrow> bool \<times> RedisConn \<times> 'w" where
  "Exists hi key cw = (case Exec hi [''EXISTS'', c_str key] cw of (reply, cw') \<Rightarrow> (integer_reply reply = Some 1, cw'))"

definition Get_reply :: "'w hiredis \<Rightarrow> string \<Rightarrow> RedisConn \<times> 'w \<Rightarrow> redisReply option \<times> RedisConn \<times> 'w" where
  "Get_reply hi key cw =
     (case Exec hi [''GET'', c_str key] cw of
        (None, cw') \<Rightarrow> (None, cw')
      | (Some r, cw') \<Rightarrow> (if rp_type r = REDIS_REPLY_NIL then None else Some r, cw'))"

text \<open>The value in a reply: an integer, or a string that is not null.\<close>

definition int_of_reply :: "redisReply \<Rightarrow> int option" where
  "int_of_reply r =
     (case rp_type r of
        REDIS_REPLY_INTEGER \<Rightarrow> Some (rp_integer r)
      | REDIS_REPLY_STRING \<Rightarrow> map_option atoll (rp_str r)
      | _ \<Rightarrow> None)"

definition str_of_reply :: "redisReply \<Rightarrow> string option" where
  "str_of_reply r =
     (case rp_type r of
        REDIS_REPLY_INTEGER \<Rightarrow> Some (dec_int (rp_integer r))
      | REDIS_REPLY_STRING \<Rightarrow> map_option c_str (rp_str r)
      | _ \<Rightarrow> None)"

definition value_out :: "('v option) \<Rightarrow> 'v \<Rightarrow> bool \<times> 'v" where
  "value_out x value = (case x of None \<Rightarrow> (False, value) | Some v \<Rightarrow> (True, v))"

definition Get_int :: "'w hiredis \<Rightarrow> string \<Rightarrow> int \<Rightarrow> RedisConn \<times> 'w \<Rightarrow> (bool \<times> int) \<times> RedisConn \<times> 'w" where
  "Get_int hi key value cw =
     (case Get_reply hi key cw of (reply, cw') \<Rightarrow> (value_out (Option.bind reply int_of_reply) value, cw'))"

definition Get_str :: "'w hiredis \<Rightarrow> string \<Rightarrow> string \<Rightarrow> RedisConn \<times> 'w \<Rightarrow> (bool \<times> string) \<times> RedisConn \<times> 'w" where
  "Get_str hi key value cw =
     (case Get_reply hi key cw of (reply, cw') \<Rightarrow> (value_out (Option.bind reply str_of_reply) value, cw'))"

definition Del_key :: "'w hiredis \<Rightarrow> string \<Rightarrow> RedisConn \<times> 'w \<Rightarrow> int \<times> RedisConn \<times> 'w" where
  "Del_key hi key cw = (case Exec hi [''DEL'', c_str key] cw of (reply, cw') \<Rightarrow> (integer_or (-1) reply, cw'))"

definition Del_keys :: "'w hiredis \<Rightarrow> string list \<Rightarrow> RedisConn \<times> 'w \<Rightarrow> int \<times> RedisConn \<times> 'w" where
  "Del_keys hi keys cw = (case ExecV hi (''DEL'' # keys) cw of (reply, cw') \<Rightarrow> (integer_or (-1) reply, cw'))"

definition set_argv :: "string \<Rightarrow> string \<Rightarrow> int \<Rightarrow> string list" where
  "set_argv key value expire_sec =
     (if expire_sec > 0 then [''SET'', key, value, ''EX'', dec_int expire_sec] else [''SET'', key, value])"

definition Set_str :: "'w hiredis \<Rightarrow> string \<Rightarrow> string \<Rightarrow> int \<Rightarrow> RedisConn \<times> 'w \<Rightarrow> bool \<times> RedisConn \<times> 'w" where
  "Set_str hi key value expire_sec cw =
     (case Exec hi (set_argv (c_str key) (c_str value) expire_sec) cw of (reply, cw') \<Rightarrow> (replyOK reply, cw'))"

definition Set_int :: "'w hiredis \<Rightarrow> string \<Rightarrow> int \<Rightarrow> int \<Rightarrow> RedisConn \<times> 'w \<Rightarrow> bool \<times> RedisConn \<times> 'w" where
  "Set_int hi key value expire_sec cw =
     (case Exec hi (set_argv (c_str key) (dec_int value) expire_sec) cw of (reply, cw') \<Rightarrow> (replyOK reply, cw'))"

text \<open>\<open>init\<close>: when no context could be made at all, \<open>context_->err\<close> follows a null pointer.\<close>

definition redis_init ::
    "'w hiredis \<Rightarrow> RedisConnPoolHelper \<Rightarrow> int \<Rightarrow> RedisConn \<times> 'w \<Rightarrow> (bool \<times> RedisConn \<times> 'w) blocking" where
  "redis_init hi helper uuid cw =
     (case redisConnectWithTimeout hi (c_str (rd_host helper)) (rd_port helper) (snd cw) of
        (None, w1) \<Rightarrow> Crashed
      | (Some e, w1) \<Rightarrow>
          let c1 = (fst cw)\<lparr>context_err := Some e\<rparr>
          in if e \<noteq> 0 then Returned (False, c1\<lparr>context_err := None\<rparr>, w1)
             else if rd_passwd helper = [] then Returned (True, c1, w1)
             else
               (case command_on hi 0 [''AUTH'', c_str (rd_passwd helper)] (c1, w1) of
                  (None, c2, w2) \<Rightarrow> Returned (False, c2\<lparr>context_err := None\<rparr>, w2)
                | (Some r, c2, w2) \<Rightarrow>
                    if rp_type r = REDIS_REPLY_ERROR then Returned (False, c2\<lparr>context_err := None\<rparr>, w2)
                    else
                      (case (if rd_db_idx helper \<noteq> 0 then Select hi (rd_db_idx helper) (c2, w2) else (True, c2, w2)) of
                         (ok, c3, w3) \<Rightarrow>
                           if ok then Returned (True, c3\<lparr>redis_uuid := Some uuid\<rparr>, w3)
                           else Returned (False, c3\<lparr>context_err := None\<rparr>, w3))))"

text \<open>\<open>ping_test\<close>: \<open>rnd\<close> is what \<open>::random()\<close> returns.\<close>

definition redis_test_key :: string where "redis_test_key = ''__internal_test_key_at_initialize''"

definition redis_ping_test :: "'w hiredis \<Rightarrow> int \<Rightarrow> RedisConn \<times> 'w \<Rightarrow> bool \<times> RedisConn \<times> 'w" where
  "redis_ping_test hi rnd cw =
     (case Set_int hi redis_test_key rnd 10 cw of
        (False, cw1) \<Rightarrow> (False, cw1)
      | (True, cw1) \<Rightarrow>
          (case Get_int hi redis_test_key 0 cw1 of
             ((False, got), cw2) \<Rightarrow> (False, cw2)
           | ((True, got), cw2) \<Rightarrow> (rnd = got, cw2)))"

section \<open>Several keys\<close>

definition MGet_reply :: "'w hiredis \<Rightarrow> string list \<Rightarrow> RedisConn \<times> 'w \<Rightarrow> redisReply option \<times> RedisConn \<times> 'w" where
  "MGet_reply hi keys cw =
     (if keys = [] then (None, cw)
      else
        (case ExecV hi (''MGET'' # keys) cw of
           (None, cw') \<Rightarrow> (None, cw')
         | (Some r, cw') \<Rightarrow> (if rp_type r = REDIS_REPLY_ARRAY then Some r else None, cw')))"

definition or_nil :: "'v \<Rightarrow> 'v option \<Rightarrow> 'v" where
  "or_nil nil_value x = (case x of None \<Rightarrow> nil_value | Some v \<Rightarrow> v)"

definition MGet_int ::
    "'w hiredis \<Rightarrow> string list \<Rightarrow> int list \<Rightarrow> int \<Rightarrow> RedisConn \<times> 'w \<Rightarrow> (bool \<times> int list) \<times> RedisConn \<times> 'w" where
  "MGet_int hi keys values nil_value cw =
     (case MGet_reply hi keys cw of
        (None, cw') \<Rightarrow> ((False, values), cw')
      | (Some r, cw') \<Rightarrow> ((True, values @ map (or_nil nil_value \<circ> int_of_reply) (rp_element r)), cw'))"

definition MGet_str ::
    "'w hiredis \<Rightarrow> string list \<Rightarrow> string list \<Rightarrow> string \<Rightarrow> RedisConn \<times> 'w \<Rightarrow> (bool \<times> string list) \<times> RedisConn \<times> 'w" where
  "MGet_str hi keys values nil_value cw =
     (case MGet_reply hi keys cw of
        (None, cw') \<Rightarrow> ((False, values), cw')
      | (Some r, cw') \<Rightarrow> ((True, values @ map (or_nil nil_value \<circ> str_of_reply) (rp_element r)), cw'))"

definition MSet_str :: "'w hiredis \<Rightarrow> string list \<Rightarrow> string list \<Rightarrow> RedisConn \<times> 'w \<Rightarrow> bool \<times> RedisConn \<times> 'w" where
  "MSet_str hi keys values cw =
     (if keys = [] \<or> length keys \<noteq> length values then (False, cw)
      else (case ExecV hi (''MSET'' # concat (map (\<lambda>(k, v). [k, v]) (zip keys values))) cw of
              (reply, cw') \<Rightarrow> (replyOK reply, cw')))"

definition MSet_int :: "'w hiredis \<Rightarrow> string list \<Rightarrow> int list \<Rightarrow> RedisConn \<times> 'w \<Rightarrow> bool \<times> RedisConn \<times> 'w" where
  "MSet_int hi keys values cw =
     (if keys = [] \<or> length keys \<noteq> length values then (False, cw)
      else MSet_str hi keys (map dec_int values) cw)"

section \<open>Counters and expiry\<close>

definition counter_call :: "'w hiredis \<Rightarrow> string list \<Rightarrow> RedisConn \<times> 'w \<Rightarrow> int option \<times> RedisConn \<times> 'w" where
  "counter_call hi argv cw = (case Exec hi argv cw of (reply, cw') \<Rightarrow> (integer_reply reply, cw'))"

definition Incr :: "'w hiredis \<Rightarrow> string \<Rightarrow> RedisConn \<times> 'w \<Rightarrow> int option \<times> RedisConn \<times> 'w" where
  "Incr hi key = counter_call hi [''INCR'', c_str key]"

definition IncrBy :: "'w hiredis \<Rightarrow> string \<Rightarrow> int \<Rightarrow> RedisConn \<times> 'w \<Rightarrow> int option \<times> RedisConn \<times> 'w" where
  "IncrBy hi key value = counter_call hi [''INCRBY'', c_str key, dec_int value]"

definition HIncrBy :: "'w hiredis \<Rightarrow> string \<Rightarrow> string \<Rightarrow> int \<Rightarrow> RedisConn \<times> 'w \<Rightarrow> int option \<times> RedisConn \<times> 'w" where
  "HIncrBy hi key hkey value = counter_call hi [''HINCRBY'', c_str key, c_str hkey, dec_int value]"

definition Decr :: "'w hiredis \<Rightarrow> string \<Rightarrow> RedisConn \<times> 'w \<Rightarrow> int option \<times> RedisConn \<times> 'w" where
  "Decr hi key = counter_call hi [''DECR'', c_str key]"

definition DecrBy :: "'w hiredis \<Rightarrow> string \<Rightarrow> int \<Rightarrow> RedisConn \<times> 'w \<Rightarrow> int option \<times> RedisConn \<times> 'w" where
  "DecrBy hi key value = counter_call hi [''DECRBY'', c_str key, dec_int value]"

definition Expire :: "'w hiredis \<Rightarrow> string \<Rightarrow> int \<Rightarrow> RedisConn \<times> 'w \<Rightarrow> int \<times> RedisConn \<times> 'w" where
  "Expire hi key expire_sec cw =
     (if key = [] \<or> expire_sec < 0 then (-1, cw)
      else (case Exec hi [''EXPIRE'', c_str key, dec_int expire_sec] cw of (reply, cw') \<Rightarrow> (integer_or (-2) reply, cw')))"

definition expire_script :: string where
  "expire_script = ''for k, v in ipairs(KEYS) do redis.pcall('' @ [CHR 0x27] @ ''EXPIRE'' @ [CHR 0x27] @ '', v, ARGV[1]); end; return 0;''"

definition MExpire :: "'w hiredis \<Rightarrow> string list \<Rightarrow> int \<Rightarrow> RedisConn \<times> 'w \<Rightarrow> (int \<times> RedisConn \<times> 'w) blocking" where
  "MExpire hi keys expire_sec cw =
     (if expire_sec < 0 \<or> keys = [] then Returned (-1, cw)
      else and_then (Eval hi expire_script keys [dec_int expire_sec] cw) (\<lambda>(reply, cw'). Returned (0, cw')))"

section \<open>Hashes\<close>

definition HSet_int :: "'w hiredis \<Rightarrow> string \<Rightarrow> string \<Rightarrow> int \<Rightarrow> RedisConn \<times> 'w \<Rightarrow> int \<times> RedisConn \<times> 'w" where
  "HSet_int hi key hkey value cw =
     (case Exec hi [''HSET'', c_str key, c_str hkey, dec_int value] cw of (reply, cw') \<Rightarrow> (integer_or (-1) reply, cw'))"

definition HSet_str :: "'w hiredis \<Rightarrow> string \<Rightarrow> string \<Rightarrow> string \<Rightarrow> RedisConn \<times> 'w \<Rightarrow> int \<times> RedisConn \<times> 'w" where
  "HSet_str hi key hkey value cw =
     (case Exec hi [''HSET'', c_str key, c_str hkey, c_str value] cw of (reply, cw') \<Rightarrow> (integer_or (-1) reply, cw'))"

definition HGet_reply :: "'w hiredis \<Rightarrow> string \<Rightarrow> string \<Rightarrow> RedisConn \<times> 'w \<Rightarrow> redisReply option \<times> RedisConn \<times> 'w" where
  "HGet_reply hi key hkey cw =
     (case Exec hi [''HGET'', c_str key, c_str hkey] cw of
        (None, cw') \<Rightarrow> (None, cw')
      | (Some r, cw') \<Rightarrow> (if rp_type r = REDIS_REPLY_NIL then None else Some r, cw'))"

text \<open>Unlike \<open>Get\<close>, \<open>HGet\<close> does not check \<open>str\<close>.\<close>

definition hget_value :: "(string \<Rightarrow> 'v) \<Rightarrow> (int \<Rightarrow> 'v) \<Rightarrow> 'v \<Rightarrow> redisReply option \<Rightarrow> (bool \<times> 'v) blocking" where
  "hget_value from_str from_int value reply =
     (case reply of
        None \<Rightarrow> Returned (False, value)
      | Some r \<Rightarrow>
          (case rp_type r of
             REDIS_REPLY_STRING \<Rightarrow> (case rp_str r of None \<Rightarrow> Crashed | Some s \<Rightarrow> Returned (True, from_str s))
           | REDIS_REPLY_INTEGER \<Rightarrow> Returned (True, from_int (rp_integer r))
           | _ \<Rightarrow> Returned (False, value)))"

definition HGet_int ::
    "'w hiredis \<Rightarrow> string \<Rightarrow> string \<Rightarrow> int \<Rightarrow> RedisConn \<times> 'w \<Rightarrow> ((bool \<times> int) \<times> RedisConn \<times> 'w) blocking" where
  "HGet_int hi key hkey value cw =
     (case HGet_reply hi key hkey cw of
        (reply, cw') \<Rightarrow> and_then (hget_value atoll (\<lambda>i. i) value reply) (\<lambda>r. Returned (r, cw')))"

definition HGet_str ::
    "'w hiredis \<Rightarrow> string \<Rightarrow> string \<Rightarrow> string \<Rightarrow> RedisConn \<times> 'w \<Rightarrow> ((bool \<times> string) \<times> RedisConn \<times> 'w) blocking" where
  "HGet_str hi key hkey value cw =
     (case HGet_reply hi key hkey cw of
        (reply, cw') \<Rightarrow> and_then (hget_value c_str dec_int value reply) (\<lambda>r. Returned (r, cw')))"

definition HGetAll_reply :: "'w hiredis \<Rightarrow> string \<Rightarrow> RedisConn \<times> 'w \<Rightarrow> redisReply option \<times> RedisConn \<times> 'w" where
  "HGetAll_reply hi key cw = Exec hi [''HGETALL'', c_str key] cw"

fun push_strs :: "redisReply list \<Rightarrow> string list \<Rightarrow> string list blocking" where
  "push_strs [] values = Returned values"
| "push_strs (x # xs) values = (case rp_str x of None \<Rightarrow> Crashed | Some s \<Rightarrow> push_strs xs (values @ [c_str s]))"

text \<open>The loop in steps of two; the value is evaluated before or after the key, either may be missing.\<close>

fun hash_pairs :: "(string \<Rightarrow> 'v) \<Rightarrow> redisReply list \<Rightarrow> (string, 'v) omap \<Rightarrow> (string, 'v) omap blocking" where
  "hash_pairs from_str [] values = Returned values"
| "hash_pairs from_str [x] values = Crashed"
| "hash_pairs from_str (x # y # xs) values =
     (case (rp_str x, rp_str y) of
        (Some k, Some v) \<Rightarrow> hash_pairs from_str xs (om_upd (c_str k) (from_str v) values)
      | _ \<Rightarrow> Crashed)"

definition array_reply ::
    "(redisReply list \<Rightarrow> 'v \<Rightarrow> 'v blocking) \<Rightarrow> 'v \<Rightarrow> redisReply option \<times> RedisConn \<times> 'w \<Rightarrow>
     ((bool \<times> 'v) \<times> RedisConn \<times> 'w) blocking" where
  "array_reply loop values rcw =
     (case rcw of
        (None, cw') \<Rightarrow> Returned ((False, values), cw')
      | (Some r, cw') \<Rightarrow>
          if rp_type r \<noteq> REDIS_REPLY_ARRAY then Returned ((False, values), cw')
          else and_then (loop (rp_element r) values) (\<lambda>v. Returned ((True, v), cw')))"

definition HGetAll_list ::
    "'w hiredis \<Rightarrow> string \<Rightarrow> string list \<Rightarrow> RedisConn \<times> 'w \<Rightarrow> ((bool \<times> string list) \<times> RedisConn \<times> 'w) blocking" where
  "HGetAll_list hi key values cw = array_reply push_strs values (HGetAll_reply hi key cw)"

definition HGetAll_int ::
    "'w hiredis \<Rightarrow> string \<Rightarrow> (string, int) omap \<Rightarrow> RedisConn \<times> 'w \<Rightarrow>
     ((bool \<times> (string, int) omap) \<times> RedisConn \<times> 'w) blocking" where
  "HGetAll_int hi key values cw = array_reply (hash_pairs atoll) values (HGetAll_reply hi key cw)"

definition HGetAll_str ::
    "'w hiredis \<Rightarrow> string \<Rightarrow> (string, string) omap \<Rightarrow> RedisConn \<times> 'w \<Rightarrow>
     ((bool \<times> (string, string) omap) \<times> RedisConn \<times> 'w) blocking" where
  "HGetAll_str hi key values cw = array_reply (hash_pairs c_str) values (HGetAll_reply hi key cw)"

section \<open>Lists\<close>

definition listPush_str :: "'w hiredis \<Rightarrow> string \<Rightarrow> string \<Rightarrow> string \<Rightarrow> RedisConn \<times> 'w \<Rightarrow> int \<times> RedisConn \<times> 'w" where
  "listPush_str hi cmd key value cw =
     (if key = [] \<or> value = [] then (-1, cw)
      else (case Exec hi [cmd, c_str key, c_str value] cw of (reply, cw') \<Rightarrow> (integer_or (-2) reply, cw')))"

definition listPush_all :: "'w hiredis \<Rightarrow> string \<Rightarrow> string \<Rightarrow> string list \<Rightarrow> RedisConn \<times> 'w \<Rightarrow> int \<times> RedisConn \<times> 'w" where
  "listPush_all hi cmd key values cw =
     (if key = [] \<or> values = [] then (-1, cw)
      else (case ExecV hi (cmd # key # values) cw of (reply, cw') \<Rightarrow> (integer_or (-2) reply, cw')))"

definition listPush_int :: "'w hiredis \<Rightarrow> string \<Rightarrow> string \<Rightarrow> int \<Rightarrow> RedisConn \<times> 'w \<Rightarrow> int \<times> RedisConn \<times> 'w" where
  "listPush_int hi cmd key value cw =
     (if key = [] then (-1, cw)
      else (case Exec hi [cmd, c_str key, dec_int value] cw of (reply, cw') \<Rightarrow> (integer_or (-2) reply, cw')))"

definition listPop_str ::
    "'w hiredis \<Rightarrow> string \<Rightarrow> string \<Rightarrow> string \<Rightarrow> RedisConn \<times> 'w \<Rightarrow> (bool \<times> string) \<times> RedisConn \<times> 'w" where
  "listPop_str hi cmd key value cw =
     (if key = [] then ((False, value), cw)
      else (case Exec hi [cmd, c_str key] cw of (reply, cw') \<Rightarrow> (value_out (Option.bind reply str_of_reply) value, cw')))"

definition listPop_int ::
    "'w hiredis \<Rightarrow> string \<Rightarrow> string \<Rightarrow> int \<Rightarrow> RedisConn \<times> 'w \<Rightarrow> (bool \<times> int) \<times> RedisConn \<times> 'w" where
  "listPop_int hi cmd key value cw =
     (if key = [] then ((False, value), cw)
      else (case Exec hi [cmd, c_str key] cw of (reply, cw') \<Rightarrow> (value_out (Option.bind reply int_of_reply) value, cw')))"

definition LPush_str :: "'w hiredis \<Rightarrow> string \<Rightarrow> string \<Rightarrow> RedisConn \<times> 'w \<Rightarrow> int \<times> RedisConn \<times> 'w" where
  "LPush_str hi = listPush_str hi ''LPUSH''"

definition LPush_all :: "'w hiredis \<Rightarrow> string \<Rightarrow> string list \<Rightarrow> RedisConn \<times> 'w \<Rightarrow> int \<times> RedisConn \<times> 'w" where
  "LPush_all hi = listPush_all hi ''LPUSH''"

definition LPush_int :: "'w hiredis \<Rightarrow> string \<Rightarrow> int \<Rightarrow> RedisConn \<times> 'w \<Rightarrow> int \<times> RedisConn \<times> 'w" where
  "LPush_int hi = listPush_int hi ''LPUSH''"

definition RPop_str :: "'w hiredis \<Rightarrow> string \<Rightarrow> string \<Rightarrow> RedisConn \<times> 'w \<Rightarrow> (bool \<times> string) \<times> RedisConn \<times> 'w" where
  "RPop_str hi = listPop_str hi ''RPOP''"

definition RPop_int :: "'w hiredis \<Rightarrow> string \<Rightarrow> int \<Rightarrow> RedisConn \<times> 'w \<Rightarrow> (bool \<times> int) \<times> RedisConn \<times> 'w" where
  "RPop_int hi = listPop_int hi ''RPOP''"

section \<open>The class as the pool uses it\<close>

text \<open>A pool addresses its connections by number; the world holds the connection objects. \<open>rnd\<close> as above.\<close>

definition redis_conn_ops :: "'w hiredis \<Rightarrow> RedisConnPoolHelper \<Rightarrow> int \<Rightarrow> ((nat \<Rightarrow> RedisConn) \<times> 'w) conn_ops" where
  "redis_conn_ops hi helper rnd =
     \<lparr>conn_init = \<lambda>uuid (cs, w).
        and_then (redis_init hi helper (int uuid) (cs uuid, w)) (\<lambda>(ok, c, w'). Returned (ok, cs(uuid := c), w')),
      is_health = \<lambda>uuid (cs, w). redis_isValid (cs uuid),
      ping_test = \<lambda>uuid (cs, w).
        (case redis_ping_test hi rnd (cs uuid, w) of (ok, c, w') \<Rightarrow> Returned (ok, cs(uuid := c), w'))\<rparr>"

end
