(* ===== verification/RedisServer.thy ===== *)
theory RedisServer
  imports RedisConn
begin

text \<open>
  What the methods of \<open>source/Connect/RedisConn.cpp\<close> achieve with a Redis server behind them. The server is known by
  its documentation only: \<open>db w\<close> is the contents of the selected database in the world \<open>w\<close>, and the
  hypotheses \<open>redis_strings\<close>, \<open>redis_lists\<close> and \<open>redis_hashes\<close> say what a server answers on a working connection
  and how its contents change. Keys that expire meanwhile are outside these hypotheses.
\<close>

section \<open>What the code relies on in Redis\<close>

datatype rvalue = RStr string | RList "string list" | RHash "(string, string) omap"

type_synonym redis_db = "string \<Rightarrow> rvalue option"

definition bulk :: "string \<Rightarrow> redisReply" where "bulk s = Reply REDIS_REPLY_STRING 0 (Some s) []"
definition nil_reply :: redisReply where "nil_reply = Reply REDIS_REPLY_NIL 0 None []"
definition int_reply :: "int \<Rightarrow> redisReply" where "int_reply i = Reply REDIS_REPLY_INTEGER i None []"
definition ok_reply :: redisReply where "ok_reply = Reply REDIS_REPLY_STATUS 0 (Some ''OK'') []"
definition array_of :: "redisReply list \<Rightarrow> redisReply" where "array_of es = Reply REDIS_REPLY_ARRAY 0 None es"

lemmas reply_defs = bulk_def nil_reply_def int_reply_def ok_reply_def array_of_def

definition answers :: "'w hiredis \<Rightarrow> ('w \<Rightarrow> redis_db) \<Rightarrow> string list \<Rightarrow> 'w \<Rightarrow> redisReply \<Rightarrow> redis_db \<Rightarrow> bool" where
  "answers hi db argv w reply d \<longleftrightarrow>
     (case redisCommandArgv hi 0 argv w of (r, e, w') \<Rightarrow> r = Some reply \<and> e = 0 \<and> db w' = d)"

definition redis_strings :: "'w hiredis \<Rightarrow> ('w \<Rightarrow> redis_db) \<Rightarrow> bool" where
  "redis_strings hi db \<longleftrightarrow>
     (\<forall>k v w. answers hi db [''SET'', k, v] w ok_reply ((db w)(k \<mapsto> RStr v))) \<and>
     (\<forall>k v n w. 0 < n \<longrightarrow> answers hi db [''SET'', k, v, ''EX'', dec_int n] w ok_reply ((db w)(k \<mapsto> RStr v))) \<and>
     (\<forall>k v w. db w k = Some (RStr v) \<longrightarrow> answers hi db [''GET'', k] w (bulk v) (db w)) \<and>
     (\<forall>k w. db w k = None \<longrightarrow> answers hi db [''GET'', k] w nil_reply (db w)) \<and>
     (\<forall>kvs w. kvs \<noteq> [] \<longrightarrow>
        answers hi db (''MSET'' # concat (map (\<lambda>(k, v). [k, v]) kvs)) w ok_reply
          (fold (\<lambda>(k, v) d. d(k \<mapsto> RStr v)) kvs (db w))) \<and>
     (\<forall>ks w. ks \<noteq> [] \<longrightarrow>
        answers hi db (''MGET'' # ks) w
          (array_of (map (\<lambda>k. case db w k of Some (RStr v) \<Rightarrow> bulk v | _ \<Rightarrow> nil_reply) ks)) (db w))"

definition list_at :: "redis_db \<Rightarrow> string \<Rightarrow> string list option" where
  "list_at d k = (case d k of None \<Rightarrow> Some [] | Some (RList l) \<Rightarrow> Some l | _ \<Rightarrow> None)"

definition put_list :: "string \<Rightarrow> string list \<Rightarrow> redis_db \<Rightarrow> redis_db" where
  "put_list k l d = d(k := if l = [] then None else Some (RList l))"

definition redis_lists :: "'w hiredis \<Rightarrow> ('w \<Rightarrow> redis_db) \<Rightarrow> bool" where
  "redis_lists hi db \<longleftrightarrow>
     (\<forall>k vs l w. vs \<noteq> [] \<and> list_at (db w) k = Some l \<longrightarrow>
        answers hi db (''LPUSH'' # k # vs) w (int_reply (int (length l + length vs))) (put_list k (rev vs @ l) (db w))) \<and>
     (\<forall>k l w. list_at (db w) k = Some l \<longrightarrow>
        answers hi db [''RPOP'', k] w (if l = [] then nil_reply else bulk (last l)) (put_list k (butlast l) (db w)))"

definition hash_at :: "redis_db \<Rightarrow> string \<Rightarrow> (string, string) omap option" where
  "hash_at d k = (case d k of None \<Rightarrow> Some [] | Some (RHash m) \<Rightarrow> Some m | _ \<Rightarrow> None)"

text \<open>The order of the fields that \<open>HGETALL\<close> lists is not specified.\<close>

definition redis_hashes :: "'w hiredis \<Rightarrow> ('w \<Rightarrow> redis_db) \<Rightarrow> bool" where
  "redis_hashes hi db \<longleftrightarrow>
     (\<forall>k f v m w. hash_at (db w) k = Some m \<longrightarrow>
        answers hi db [''HSET'', k, f, v] w (int_reply (if om_find m f = None then 1 else 0))
          ((db w)(k \<mapsto> RHash (om_upd f v m)))) \<and>
     (\<forall>k f m w. hash_at (db w) k = Some m \<longrightarrow>
        answers hi db [''HGET'', k, f] w (case om_find m f of None \<Rightarrow> nil_reply | Some v \<Rightarrow> bulk v) (db w)) \<and>
     (\<forall>k m w. hash_at (db w) k = Some m \<longrightarrow>
        (\<exists>m'. mset m' = mset m \<and>
           answers hi db [''HGETALL'', k] w (array_of (concat (map (\<lambda>(f, v). [bulk f, bulk v]) m'))) (db w)))"

section \<open>Calls on a working connection\<close>

lemma Exec_answers:
  assumes "redis_isValid c" "answers hi db argv w reply d" "rp_type reply \<noteq> REDIS_REPLY_ERROR"
  shows "\<exists>w'. Exec hi argv (c, w) = (Some reply, c, w') \<and> db w' = d"
proof -
  have "c\<lparr>context_err := Some 0\<rparr> = c" using assms(1) by (simp add: redis_isValid_def)
  with assms show ?thesis
    by (auto simp: Exec_def CHECK_N_RECONNECT_def command_on_def answers_def drop_error_def split: prod.splits)
qed

lemma ExecV_answers:
  assumes "redis_isValid c" "answers hi db (map c_str argv) w reply d" "rp_type reply \<noteq> REDIS_REPLY_ERROR"
  shows "\<exists>w'. ExecV hi argv (c, w) = (Some reply, c, w') \<and> db w' = d"
  using Exec_answers [OF assms] by (simp add: Exec_def ExecV_def)

lemma reply_simps [simp]:
  "rp_type (bulk s) = REDIS_REPLY_STRING" "rp_type nil_reply = REDIS_REPLY_NIL" "rp_type (int_reply i) = REDIS_REPLY_INTEGER"
  "rp_type ok_reply = REDIS_REPLY_STATUS" "rp_type (array_of es) = REDIS_REPLY_ARRAY" "rp_str (bulk s) = Some s"
  "rp_integer (int_reply i) = i" "rp_element (array_of es) = es" "replyOK (Some ok_reply)"
  "int_of_reply (bulk s) = Some (atoll s)" "str_of_reply (bulk s) = Some (c_str s)"
  "int_of_reply nil_reply = None" "str_of_reply nil_reply = None"
  "integer_reply (Some (int_reply i)) = Some i"
  by (simp_all add: reply_defs replyOK_def int_of_reply_def str_of_reply_def integer_reply_def c_str_def) (simp add: char_of_def)

lemma atoll_dec_int: "atoll (dec_int x) = x"
proof (cases "x < 0")
  case True
  let ?s = "dec_nat (nat (- x))"
  have dig: "\<And>c. c \<in> set ?s \<Longrightarrow> is_digit c" by (rule dec_nat_digits)
  have "c_str (CHR ''-'' # ?s) = CHR ''-'' # ?s"
    using dig is_digit_props(6) by (intro c_str_no_nul) (auto simp: char_of_eq_iff)
  moreover have "takeWhile is_digit ?s = ?s" by (rule takeWhile_eq_all_conv [THEN iffD2]) (simp add: dig)
  ultimately show ?thesis
    using True by (simp add: dec_int_def atoll_def is_space_def digits_val_dec_nat del: takeWhile_eq_all_conv)
qed (simp add: dec_int_def atoll_dec_nat)

lemma c_str_dec_int [simp]: "c_str (dec_int x) = dec_int x"
  using dec_nat_digits is_digit_props(6)
  by (intro c_str_no_nul) (auto simp: dec_int_def char_of_eq_iff)

section \<open>Strings and integers\<close>

lemma set_argv_answers:
  "redis_strings hi db \<Longrightarrow> answers hi db (set_argv k v e) w ok_reply ((db w)(k \<mapsto> RStr v))"
  by (simp add: redis_strings_def set_argv_def)

lemma Set_then:
  assumes "redis_strings hi db" "redis_isValid c"
  shows "\<exists>w'. Set_str hi key value e (c, w) = (True, c, w') \<and> db w' = (db w)(c_str key \<mapsto> RStr (c_str value))"
    and "\<exists>w'. Set_int hi key i e (c, w) = (True, c, w') \<and> db w' = (db w)(c_str key \<mapsto> RStr (dec_int i))"
  using Exec_answers [OF assms(2) set_argv_answers [OF assms(1)], of "c_str key" "c_str value" e w]
    Exec_answers [OF assms(2) set_argv_answers [OF assms(1)], of "c_str key" "dec_int i" e w]
  by (auto simp: Set_str_def Set_int_def)

lemma Get_of:
  assumes "redis_strings hi db" "redis_isValid c" "db w (c_str key) = Some (RStr v)"
  shows "\<exists>w'. Get_str hi key old (c, w) = ((True, c_str v), c, w') \<and> db w' = db w"
    and "\<exists>w'. Get_int hi key oldi (c, w) = ((True, atoll v), c, w') \<and> db w' = db w"
proof -
  have "answers hi db [''GET'', c_str key] w (bulk v) (db w)" using assms(1,3) by (simp add: redis_strings_def)
  from Exec_answers [OF assms(2) this]
  show "\<exists>w'. Get_str hi key old (c, w) = ((True, c_str v), c, w') \<and> db w' = db w"
    "\<exists>w'. Get_int hi key oldi (c, w) = ((True, atoll v), c, w') \<and> db w' = db w"
    by (auto simp: Get_str_def Get_int_def Get_reply_def value_out_def)
qed

text \<open>
  C24. What \<open>Set\<close> stores \<open>Get\<close> returns: the same string when it has no NUL byte, the same integer whatever its
  sign, with or without an expiry time; other keys keep their values; and \<open>ping_test\<close> succeeds on a working connection.
\<close>
theorem redis_set_get:
  assumes "redis_strings hi db" "redis_isValid c" "char_of (0::nat) \<notin> set str"
  shows "(case Set_str hi key str e (c, w) of
            (ok, cw) \<Rightarrow> ok \<and> fst (Get_str hi key old cw) = (True, str) \<and>
                        (\<forall>k. k \<noteq> c_str key \<longrightarrow> db (snd cw) k = db w k)) \<and>
         (case Set_int hi key i e (c, w) of (ok, cw) \<Rightarrow> ok \<and> fst (Get_int hi key oldi cw) = (True, i)) \<and>
         fst (redis_ping_test hi rnd (c, w))"
proof -
  obtain w1 where s: "Set_str hi key str e (c, w) = (True, c, w1)" "db w1 = (db w)(c_str key \<mapsto> RStr str)"
    using Set_then(1) [OF assms(1,2)] assms(3) by fastforce
  then have g: "\<exists>w2. Get_str hi key old (c, w1) = ((True, str), c, w2)"
    using Get_of(1) [OF assms(1,2), of w1 key str old] assms(3) by auto
  have n: "\<exists>w1 w2. Set_int hi k j e (c, w) = (True, c, w1) \<and> Get_int hi k old (c, w1) = ((True, j), c, w2)" for k j e old
  proof -
    obtain w1 where "Set_int hi k j e (c, w) = (True, c, w1)" "db w1 = (db w)(c_str k \<mapsto> RStr (dec_int j))"
      using Set_then(2) [OF assms(1,2)] by blast
    with Get_of(2) [OF assms(1,2), of w1 k "dec_int j" old] show ?thesis by (auto simp: atoll_dec_int)
  qed
  from s g n [of key i e oldi] n [of redis_test_key rnd 10 0] show ?thesis by (auto simp: redis_ping_test_def)
qed

section \<open>Several keys at once\<close>

lemma c_str_commands [simp]: "c_str ''MSET'' = ''MSET''" "c_str ''MGET'' = ''MGET''"
  by (simp_all add: c_str_def char_of_def)

lemma fold_put_strs:
  "distinct (map fst kvs) \<Longrightarrow> (k, v) \<in> set kvs \<Longrightarrow> fold (\<lambda>(k, v) d. d(k \<mapsto> RStr v)) kvs d k = Some (RStr v)"
proof (induction kvs arbitrary: d)
  case (Cons e kvs)
  have keep: "fold (\<lambda>(k, v) d. d(k \<mapsto> RStr v)) kvs d k = d k" if "k \<notin> fst ` set kvs" for d
    using that by (induction kvs arbitrary: d) auto
  show ?case
  proof (cases "(k, v) = e")
    case True
    with Cons.prems(1) keep [of "d(k \<mapsto> RStr v)"] show ?thesis by (auto simp del: fun_upd_apply) simp
  next
    case False
    with Cons show ?thesis by auto
  qed
qed simp

text \<open>
  What \<open>MSet\<close> stores under different keys \<open>MGet\<close> returns in the order of the keys asked for.
\<close>
theorem redis_mset_mget:
  assumes "redis_strings hi db" "redis_isValid c" "kvs \<noteq> []" "distinct (map (c_str \<circ> fst) kvs)"
    and "\<forall>e\<in>set kvs. char_of (0::nat) \<notin> set (snd e)" "set keys \<subseteq> fst ` set kvs" "keys \<noteq> []"
  shows "case MSet_str hi (map fst kvs) (map snd kvs) (c, w) of
           (ok, cw) \<Rightarrow> ok \<and> fst (MGet_str hi keys [] nil cw) = (True, map (\<lambda>k. the (map_of kvs k)) keys)"
proof -
  let ?kvs = "map (\<lambda>(k, v). (c_str k, v)) kvs"
  have zip: "zip (map fst kvs) (map snd kvs) = kvs" by (simp add: zip_map_fst_snd)
  have argv: "map c_str (''MSET'' # concat (map (\<lambda>(k, v). [k, v]) kvs)) = ''MSET'' # concat (map (\<lambda>(k, v). [k, v]) ?kvs)"
    using assms(5) by (induction kvs) auto
  have "answers hi db (''MSET'' # concat (map (\<lambda>(k, v). [k, v]) ?kvs)) w ok_reply
      (fold (\<lambda>(k, v) d. d(k \<mapsto> RStr v)) ?kvs (db w))"
    using assms(1,3) unfolding redis_strings_def by blast
  from ExecV_answers [OF assms(2) this [folded argv]]
  obtain w1 where w1: "MSet_str hi (map fst kvs) (map snd kvs) (c, w) = (True, c, w1)"
    "db w1 = fold (\<lambda>(k, v) d. d(k \<mapsto> RStr v)) ?kvs (db w)"
    using assms(3) by (auto simp: MSet_str_def zip)
  have dist: "distinct (map fst kvs)" "distinct (map fst ?kvs)"
    using assms(4) by (auto simp: distinct_map inj_on_def split_beta comp_def)
  have at: "db w1 (c_str k) = Some (RStr (the (map_of kvs k)))" "c_str (the (map_of kvs k)) = the (map_of kvs k)"
    if k: "k \<in> set keys" for k
  proof -
    obtain v where v: "(k, v) \<in> set kvs" using k assms(6) by auto
    then have m: "map_of kvs k = Some v" using dist(1) by simp
    have "(c_str k, v) \<in> set ?kvs" using v by force
    from fold_put_strs [OF dist(2) this] m show "db w1 (c_str k) = Some (RStr (the (map_of kvs k)))" by (simp add: w1(2))
    show "c_str (the (map_of kvs k)) = the (map_of kvs k)" using assms(5) v m by auto
  qed
  let ?r = "array_of (map (\<lambda>k. case db w1 k of Some (RStr v) \<Rightarrow> bulk v | _ \<Rightarrow> nil_reply) (map c_str keys))"
  have "answers hi db (''MGET'' # map c_str keys) w1 ?r (db w1)"
    using assms(1,7) by (simp add: redis_strings_def del: map_map)
  moreover have "map c_str (''MGET'' # keys) = ''MGET'' # map c_str keys" by simp
  ultimately obtain w2 where "ExecV hi (''MGET'' # keys) (c, w1) = (Some ?r, c, w2)"
    using ExecV_answers [OF assms(2), of hi db "''MGET'' # keys" w1 ?r] by auto
  then have "fst (MGet_str hi keys [] nil (c, w1)) = (True, map (or_nil nil \<circ> str_of_reply) (rp_element ?r))"
    using assms(7) by (simp add: MGet_str_def MGet_reply_def)
  also have "map (or_nil nil \<circ> str_of_reply) (rp_element ?r) = map (\<lambda>k. the (map_of kvs k)) keys"
    using at by (simp add: or_nil_def)
  finally show ?thesis using w1(1) by simp
qed

section \<open>Lists as queues\<close>

text \<open>Popping until nothing comes, at most \<open>n\<close> times.\<close>

fun rpops :: "'w hiredis \<Rightarrow> string \<Rightarrow> nat \<Rightarrow> RedisConn \<times> 'w \<Rightarrow> string list" where
  "rpops hi key 0 cw = []"
| "rpops hi key (Suc n) cw =
     (case RPop_str hi key '''' cw of
        ((True, v), cw') \<Rightarrow> v # rpops hi key n cw'
      | ((False, v), cw') \<Rightarrow> [])"

lemma list_at_put [simp]: "list_at (put_list k l d) k = Some l"
  by (simp add: list_at_def put_list_def)

lemma redis_lists_push:
  assumes "redis_lists hi db" "vs \<noteq> []" "list_at (db w) k = Some l"
  shows "answers hi db (''LPUSH'' # k # vs) w (int_reply (int (length l + length vs))) (put_list k (rev vs @ l) (db w))"
  using assms unfolding redis_lists_def by blast

lemma LPush_then:
  assumes "redis_lists hi db" "redis_isValid c" "list_at (db w) (c_str key) = Some l" "key \<noteq> []" "v \<noteq> []"
    and "char_of (0::nat) \<notin> set v"
  shows "\<exists>w'. LPush_str hi key v (c, w) = (to_i32 (int (length l + 1)), c, w') \<and>
           list_at (db w') (c_str key) = Some (v # l)"
proof -
  have "answers hi db [''LPUSH'', c_str key, v] w (int_reply (int (length l + 1))) (put_list (c_str key) (v # l) (db w))"
    using redis_lists_push [OF assms(1) _ assms(3), of "[v]"] by simp
  from Exec_answers [OF assms(2) this] assms(4-) show ?thesis
    by (auto simp: LPush_str_def listPush_str_def integer_or_def)
qed

lemma RPop_then:
  assumes "redis_lists hi db" "redis_isValid c" "list_at (db w) (c_str key) = Some l" "key \<noteq> []"
  shows "\<exists>w'. RPop_str hi key '''' (c, w) = ((if l = [] then (False, '''') else (True, c_str (last l))), c, w') \<and>
           list_at (db w') (c_str key) = Some (butlast l)"
proof -
  let ?r = "if l = [] then nil_reply else bulk (last l)"
  have "answers hi db [''RPOP'', c_str key] w ?r (put_list (c_str key) (butlast l) (db w))"
    using assms(1,3) unfolding redis_lists_def by blast
  from Exec_answers [OF assms(2) this] assms(4) show ?thesis
    by (auto simp: RPop_str_def listPop_str_def value_out_def)
qed

lemma rpops_list:
  assumes "redis_lists hi db" "redis_isValid c" "key \<noteq> []"
    and "list_at (db w) (c_str key) = Some (rev vs)" "\<forall>v\<in>set vs. char_of (0::nat) \<notin> set v" "length vs < n"
  shows "rpops hi key n (c, w) = vs"
  using assms(4-)
proof (induction vs arbitrary: n w)
  case Nil
  then show ?case using RPop_then [OF assms(1,2) _ assms(3), of w "[]"] by (cases n) auto
next
  case (Cons v vs)
  then obtain m where n: "n = Suc m" "length vs < m" by (cases n) auto
  have "list_at (db w) (c_str key) = Some (rev vs @ [v])" using Cons.prems(1) by simp
  from RPop_then [OF assms(1,2) this assms(3)] Cons.prems(2)
  obtain w' where "RPop_str hi key '''' (c, w) = ((True, v), c, w')" "list_at (db w') (c_str key) = Some (rev vs)"
    by auto
  with Cons.IH [of w' m] Cons.prems(2) n show ?case by simp
qed

text \<open>
  C25. \<open>LPush\<close> and \<open>RPop\<close> make a queue of a Redis list: pushed one by one onto an empty list, non-empty strings
  come back unchanged in the order they were pushed, and then no more.
\<close>
theorem redis_list_fifo:
  assumes "redis_lists hi db" "redis_isValid c" "key \<noteq> []" "list_at (db w) (c_str key) = Some []"
    and "\<forall>v\<in>set vs. v \<noteq> [] \<and> char_of (0::nat) \<notin> set v" "length vs < n"
  shows "rpops hi key n (fold (\<lambda>v cw. snd (LPush_str hi key v cw)) vs (c, w)) = vs"
proof -
  have "\<exists>w'. fold (\<lambda>v cw. snd (LPush_str hi key v cw)) vs (c, w) = (c, w') \<and> list_at (db w') (c_str key) = Some (rev vs @ l)"
    if "list_at (db w) (c_str key) = Some l" for w l
    using assms(5) that
  proof (induction vs arbitrary: w l)
    case (Cons v vs)
    obtain w1 where w1: "snd (LPush_str hi key v (c, w)) = (c, w1)" "list_at (db w1) (c_str key) = Some (v # l)"
      using LPush_then [OF assms(1,2) Cons.prems(2) assms(3), of v] Cons.prems(1) by auto
    from Cons.IH [OF _ w1(2)] Cons.prems(1) show ?case by (auto simp: w1(1))
  qed simp
  from this [OF assms(4)] obtain w' where
    "fold (\<lambda>v cw. snd (LPush_str hi key v cw)) vs (c, w) = (c, w')" "list_at (db w') (c_str key) = Some (rev vs)"
    by auto
  with rpops_list [OF assms(1-3), of w' vs n] assms(5,6) show ?thesis by simp
qed

section \<open>Hashes\<close>

lemma om_eqI:
  assumes "om_wf m" "om_wf m'" "set m = set m'"
  shows "m = (m' :: ('k::linorder, 'v) omap)"
proof (rule map_sorted_distinct_set_unique [of fst])
  have d: "distinct (map fst m)" "distinct (map fst m')" using assms(1,2) om.entries_distinct by blast+
  then show "distinct (map fst m)" "distinct (map fst m')" "inj_on fst (set m \<union> set m')"
    using assms(3) by (simp_all add: distinct_map)
  show "sorted (map fst m)" "sorted (map fst m')"
    using om.entries_sorted [OF assms(1)] om.entries_sorted [OF assms(2)] by (simp_all add: strict_sorted_iff)
qed (rule assms(3))

lemma fold_om_upd_set:
  assumes "distinct (map fst es)" "om_wf m" "\<forall>e\<in>set es. fst e \<notin> fst ` set m"
  shows "om_wf (fold (\<lambda>(k, v). om_upd k v) es m) \<and> set (fold (\<lambda>(k, v). om_upd k v) es m) = set m \<union> set es"
  using assms
proof (induction es arbitrary: m)
  case (Cons e es)
  obtain k v where e: "e = (k, v)" by fastforce
  have wf: "om_wf (om_upd k v m)" using Cons.prems(2) by (rule om_wf_upd)
  have "set (om_upd k v m) = insert (k, v) (set m)"
    using om.entries_upd_set [OF Cons.prems(2), of k v] Cons.prems(3) by (force simp: e)
  moreover have "\<forall>e\<in>set es. fst e \<notin> fst ` set (om_upd k v m)"
    using Cons.prems(1,3) by (auto simp: om_upd_keys e)
  ultimately show ?case using Cons.IH [OF _ wf] Cons.prems(1) by (simp add: e)
qed simp

lemma rebuild_hash: "om_wf m \<Longrightarrow> mset es = mset m \<Longrightarrow> fold (\<lambda>(k, v). om_upd k v) es [] = m"
proof -
  assume m: "om_wf m" "mset es = mset m"
  have "distinct (map fst es)" using om.entries_distinct [OF m(1)] m(2) by (metis mset_eq_imp_distinct_iff mset_map)
  from fold_om_upd_set [OF this om_wf_Nil] show ?thesis
    using om_eqI [OF _ m(1)] mset_eq_setD [OF m(2)] by simp
qed

lemma hash_pairs_bulk:
  "hash_pairs f (concat (map (\<lambda>(k, v). [bulk k, bulk v]) es)) m = Returned (fold (\<lambda>(k, v). om_upd (c_str k) (f v)) es m)"
  by (induction es arbitrary: m) auto

definition no_nul :: "(string, string) omap \<Rightarrow> bool" where
  "no_nul m \<longleftrightarrow> (\<forall>(k, v)\<in>set m. char_of (0::nat) \<notin> set k \<and> char_of (0::nat) \<notin> set v)"

text \<open>
  \<open>HGetAll\<close> returns exactly the hash, in whatever order the server lists its fields; \<open>HSet\<close> then adds or replaces
  one field, says which by 1 or 0, and \<open>HGet\<close> reads it back, as a string or as an integer.
\<close>
theorem redis_hash_roundtrip:
  assumes "redis_hashes hi db" "redis_isValid c" "hash_at (db w) (c_str key) = Some m" "om_wf m" "no_nul m"
    and "char_of (0::nat) \<notin> set v"
  shows "\<exists>w1 w2 w3 w4 w5.
           HGetAll_str hi key [] (c, w) = Returned ((True, m), c, w1) \<and>
           HSet_str hi key f v (c, w) = ((if om_find m (c_str f) = None then 1 else 0), c, w2) \<and>
           hash_at (db w2) (c_str key) = Some (om_upd (c_str f) v m) \<and>
           HGet_str hi key f old (c, w2) = Returned ((True, v), c, w3) \<and>
           HSet_int hi key f i (c, w) = ((if om_find m (c_str f) = None then 1 else 0), c, w4) \<and>
           HGet_int hi key f oldi (c, w4) = Returned ((True, i), c, w5)"
proof -
  have set: "\<exists>w'. Exec hi [''HSET'', c_str key, c_str f, x] (c, w) = (Some (int_reply (if om_find m (c_str f) = None then 1 else 0)), c, w') \<and>
      hash_at (db w') (c_str key) = Some (om_upd (c_str f) x m)" for x
  proof -
    have "answers hi db [''HSET'', c_str key, c_str f, x] w (int_reply (if om_find m (c_str f) = None then 1 else 0))
        ((db w)(c_str key \<mapsto> RHash (om_upd (c_str f) x m)))"
      using assms(1,3) unfolding redis_hashes_def by blast
    from Exec_answers [OF assms(2) this] show ?thesis by (auto simp: hash_at_def)
  qed
  have get: "\<exists>w''. Exec hi [''HGET'', c_str key, c_str f] (c, w') = (Some (bulk x), c, w'')"
    if "hash_at (db w') (c_str key) = Some (om_upd (c_str f) x m)" for w' x
  proof -
    have "answers hi db [''HGET'', c_str key, c_str f] w'
        (case om_find (om_upd (c_str f) x m) (c_str f) of None \<Rightarrow> nil_reply | Some v \<Rightarrow> bulk v) (db w')"
      using assms(1) that unfolding redis_hashes_def by blast
    then have "answers hi db [''HGET'', c_str key, c_str f] w' (bulk x) (db w')"
      by (simp add: om_find_upd [OF assms(4)])
    from Exec_answers [OF assms(2) this] show ?thesis by auto
  qed
  have "\<exists>m'. mset m' = mset m \<and>
      answers hi db [''HGETALL'', c_str key] w (array_of (concat (map (\<lambda>(f, v). [bulk f, bulk v]) m'))) (db w)"
    using assms(1,3) unfolding redis_hashes_def by blast
  then obtain m' where m': "mset m' = mset m"
    "answers hi db [''HGETALL'', c_str key] w (array_of (concat (map (\<lambda>(f, v). [bulk f, bulk v]) m'))) (db w)"
    by blast
  from Exec_answers [OF assms(2) m'(2)] obtain w1 where w1: "Exec hi [''HGETALL'', c_str key] (c, w) =
      (Some (array_of (concat (map (\<lambda>(f, v). [bulk f, bulk v]) m'))), c, w1)"
    by auto
  have "\<forall>(k, v)\<in>set m'. c_str k = k \<and> c_str v = v"
    using assms(5) mset_eq_setD [OF m'(1)] by (fastforce simp: no_nul_def)
  then have "fold (\<lambda>(k, v). om_upd (c_str k) (c_str v)) m' [] = fold (\<lambda>(k, v). om_upd k v) m' []"
    by (intro fold_cong) auto
  then have "HGetAll_str hi key [] (c, w) = Returned ((True, m), c, w1)"
    using rebuild_hash [OF assms(4) m'(1)] by (simp add: HGetAll_str_def HGetAll_reply_def w1 array_reply_def hash_pairs_bulk)
  moreover obtain w2 where w2: "Exec hi [''HSET'', c_str key, c_str f, v] (c, w) =
      (Some (int_reply (if om_find m (c_str f) = None then 1 else 0)), c, w2)"
    "hash_at (db w2) (c_str key) = Some (om_upd (c_str f) v m)"
    using set by blast
  moreover obtain w3 where "Exec hi [''HGET'', c_str key, c_str f] (c, w2) = (Some (bulk v), c, w3)"
    using get [OF w2(2)] by blast
  moreover obtain w4 where w4: "Exec hi [''HSET'', c_str key, c_str f, dec_int i] (c, w) =
      (Some (int_reply (if om_find m (c_str f) = None then 1 else 0)), c, w4)"
    "hash_at (db w4) (c_str key) = Some (om_upd (c_str f) (dec_int i) m)"
    using set by blast
  moreover obtain w5 where "Exec hi [''HGET'', c_str key, c_str f] (c, w4) = (Some (bulk (dec_int i)), c, w5)"
    using get [OF w4(2)] by blast
  ultimately show ?thesis
    using assms(6)
    by (intro exI [of _ w1] exI [of _ w2] exI [of _ w3] exI [of _ w4] exI [of _ w5])
      (simp add: HSet_str_def HGet_str_def HSet_int_def HGet_int_def HGet_reply_def hget_value_def integer_or_def to_i32_id
        is_i32_def atoll_dec_int)
qed

section \<open>Connections that do not work\<close>

lemma Exec_broken:
  assumes "\<not> redis_isValid c"
  shows "Exec hi argv (c, w) = (None, c, w)" "ExecV hi argv (c, w) = (None, c, w)"
    "Exec_argv hi argv (c, w) = (None, c, w)" "ExecV_strings hi argv (c, w) = (None, c, w)"
  using assms by (simp_all add: Exec_def ExecV_def Exec_argv_def ExecV_strings_def CHECK_N_RECONNECT_def)

text \<open>Reads and writes of single keys, by type of result.\<close>

lemma values_broken:
  assumes "\<not> redis_isValid c"
  shows "Get_reply hi key (c, w) = (None, c, w)" "Get_int hi key i (c, w) = ((False, i), c, w)"
    "Get_str hi key v (c, w) = ((False, v), c, w)" "Set_str hi key v e (c, w) = (False, c, w)"
    "Set_int hi key i e (c, w) = (False, c, w)" "Del_key hi key (c, w) = (-1, c, w)" "Del_keys hi keys (c, w) = (-1, c, w)"
    "Exists hi key (c, w) = (False, c, w)" "Select hi n (c, w) = (False, c, w)"
    "redis_ping_test hi i (c, w) = (False, c, w)"
    "Expire hi key e (c, w) = (if key = [] \<or> e < 0 then -1 else -2, c, w)"
    "LoadScript hi v f (c, w) = (-2, f, c, w)" "CheckSha hi v b (c, w) = (-1, b, c, w)"
  by (simp_all add: Exec_broken [OF assms] Get_reply_def Get_int_def Get_str_def value_out_def Set_str_def Set_int_def replyOK_def
      Del_key_def Del_keys_def integer_or_def integer_reply_def Exists_def Select_def redis_ping_test_def Expire_def
      LoadScript_def CheckSha_def)

lemma counters_broken:
  assumes "\<not> redis_isValid c"
  shows "Incr hi key (c, w) = (None, c, w)" "IncrBy hi key i (c, w) = (None, c, w)" "Decr hi key (c, w) = (None, c, w)"
    "DecrBy hi key i (c, w) = (None, c, w)" "HIncrBy hi key f i (c, w) = (None, c, w)"
  by (simp_all add: Exec_broken [OF assms] Incr_def IncrBy_def Decr_def DecrBy_def HIncrBy_def counter_call_def integer_reply_def)

lemma many_broken:
  assumes "\<not> redis_isValid c"
  shows "MGet_reply hi keys (c, w) = (None, c, w)" "MGet_int hi keys is i (c, w) = ((False, is), c, w)"
    "MGet_str hi keys vs v (c, w) = ((False, vs), c, w)" "MSet_str hi keys vs (c, w) = (False, c, w)"
    "MSet_int hi keys is (c, w) = (False, c, w)"
  by (simp_all add: Exec_broken [OF assms] MGet_reply_def MGet_int_def MGet_str_def MSet_str_def MSet_int_def replyOK_def)

lemma hashes_broken:
  assumes "\<not> redis_isValid c"
  shows "HSet_int hi key f i (c, w) = (-1, c, w)" "HSet_str hi key f v (c, w) = (-1, c, w)"
    "HGet_reply hi key f (c, w) = (None, c, w)" "HGet_int hi key f i (c, w) = Returned ((False, i), c, w)"
    "HGet_str hi key f v (c, w) = Returned ((False, v), c, w)" "HGetAll_reply hi key (c, w) = (None, c, w)"
    "HGetAll_list hi key vs (c, w) = Returned ((False, vs), c, w)" "HGetAll_int hi key mi (c, w) = Returned ((False, mi), c, w)"
    "HGetAll_str hi key m (c, w) = Returned ((False, m), c, w)"
  by (simp_all add: Exec_broken [OF assms] HSet_int_def HSet_str_def integer_or_def integer_reply_def HGet_reply_def HGet_int_def
      HGet_str_def hget_value_def HGetAll_reply_def HGetAll_list_def HGetAll_int_def HGetAll_str_def array_reply_def)

lemma lists_broken:
  assumes "\<not> redis_isValid c"
  shows "LPush_str hi key v (c, w) = (if key = [] \<or> v = [] then -1 else -2, c, w)"
    "LPush_all hi key vs (c, w) = (if key = [] \<or> vs = [] then -1 else -2, c, w)"
    "LPush_int hi key i (c, w) = (if key = [] then -1 else -2, c, w)"
    "RPop_str hi key v (c, w) = ((False, v), c, w)" "RPop_int hi key i (c, w) = ((False, i), c, w)"
  by (simp_all add: Exec_broken [OF assms] LPush_str_def LPush_all_def LPush_int_def listPush_str_def listPush_all_def
      listPush_int_def integer_or_def integer_reply_def RPop_str_def RPop_int_def listPop_str_def listPop_int_def value_out_def)

text \<open>The exceptions: \<open>Eval\<close> and what is built on it do not look at the connection.\<close>

definition eval_argv :: "string \<Rightarrow> string list \<Rightarrow> string list \<Rightarrow> string list" where
  "eval_argv script keys args = ''EVAL'' # c_str script # dec_nat (length keys) # map c_str keys @ map c_str args"

lemma Eval_context:
  assumes "script \<noteq> []"
  shows "context_err c = None \<Longrightarrow> Eval hi script keys args (c, w) = Crashed"
    "context_err c = Some e \<Longrightarrow> redisCommandArgv hi e (eval_argv script keys args) w = (r, e', w') \<Longrightarrow>
       Eval hi script keys args (c, w) = Returned (drop_error r, c\<lparr>context_err := Some e'\<rparr>, w')"
  using assms by (simp_all add: Eval_def eval_argv_def command_on_def Let_def)

lemma MExpire_context:
  assumes "keys \<noteq> []" "0 \<le> n"
  shows "context_err c = None \<Longrightarrow> MExpire hi keys n (c, w) = Crashed"
    "context_err c = Some e \<Longrightarrow> redisCommandArgv hi e (eval_argv expire_script keys [dec_int n]) w = (r, e', w') \<Longrightarrow>
       MExpire hi keys n (c, w) = Returned (0, c\<lparr>context_err := Some e'\<rparr>, w')"
proof -
  have script: "expire_script \<noteq> []" by (simp add: expire_script_def)
  show "MExpire hi keys n (c, w) = Crashed" if "context_err c = None"
    using assms by (simp add: MExpire_def Eval_context(1) [OF script that])
  show "MExpire hi keys n (c, w) = Returned (0, c\<lparr>context_err := Some e'\<rparr>, w')"
    if "context_err c = Some e" "redisCommandArgv hi e (eval_argv expire_script keys [dec_int n]) w = (r, e', w')"
    using assms by (simp add: MExpire_def Eval_context(2) [OF script that])
qed

text \<open>
  C26. A connection that has no context or whose context has an error is not repaired: every command but two
  fails at once, with the value it returns for a failure and the output arguments untouched, sends nothing and
  leaves the connection as it is. The two are \<open>Eval\<close>, which looks only whether the script is empty, and \<open>MExpire\<close>,
  which is built on it: without a context both crash, and on a broken one both send their command; \<open>MExpire\<close>
  then reports success whatever became of it.
\<close>
theorem redis_broken_conn:
  assumes "\<not> redis_isValid c"
  shows "(Exec hi argv (c, w) = (None, c, w) \<and> Exec_argv hi argv (c, w) = (None, c, w) \<and> ExecV hi argv (c, w) = (None, c, w) \<and>
          ExecV_strings hi argv (c, w) = (None, c, w)) \<and>
         (Get_int hi key i (c, w) = ((False, i), c, w) \<and> Get_str hi key v (c, w) = ((False, v), c, w) \<and>
          Set_str hi key v e (c, w) = (False, c, w) \<and> Set_int hi key i e (c, w) = (False, c, w) \<and>
          Del_key hi key (c, w) = (-1, c, w) \<and> Del_keys hi keys (c, w) = (-1, c, w) \<and> Exists hi key (c, w) = (False, c, w) \<and>
          Select hi n (c, w) = (False, c, w) \<and> redis_ping_test hi i (c, w) = (False, c, w) \<and>
          Expire hi key e (c, w) = (if key = [] \<or> e < 0 then -1 else -2, c, w) \<and>
          LoadScript hi v f (c, w) = (-2, f, c, w) \<and> CheckSha hi v b (c, w) = (-1, b, c, w)) \<and>
         (Incr hi key (c, w) = (None, c, w) \<and> IncrBy hi key i (c, w) = (None, c, w) \<and> Decr hi key (c, w) = (None, c, w) \<and>
          DecrBy hi key i (c, w) = (None, c, w) \<and> HIncrBy hi key f i (c, w) = (None, c, w)) \<and>
         (MGet_int hi keys is i (c, w) = ((False, is), c, w) \<and> MGet_str hi keys vs v (c, w) = ((False, vs), c, w) \<and>
          MSet_str hi keys vs (c, w) = (False, c, w) \<and> MSet_int hi keys is (c, w) = (False, c, w)) \<and>
         (HSet_int hi key f i (c, w) = (-1, c, w) \<and> HSet_str hi key f v (c, w) = (-1, c, w) \<and>
          HGet_int hi key f i (c, w) = Returned ((False, i), c, w) \<and> HGet_str hi key f v (c, w) = Returned ((False, v), c, w) \<and>
          HGetAll_list hi key vs (c, w) = Returned ((False, vs), c, w) \<and>
          HGetAll_int hi key mi (c, w) = Returned ((False, mi), c, w) \<and>
          HGetAll_str hi key m (c, w) = Returned ((False, m), c, w)) \<and>
         (LPush_str hi key v (c, w) = (if key = [] \<or> v = [] then -1 else -2, c, w) \<and>
          LPush_all hi key vs (c, w) = (if key = [] \<or> vs = [] then -1 else -2, c, w) \<and>
          LPush_int hi key i (c, w) = (if key = [] then -1 else -2, c, w) \<and>
          RPop_str hi key v (c, w) = ((False, v), c, w) \<and> RPop_int hi key i (c, w) = ((False, i), c, w)) \<and>
         (case context_err c of
            None \<Rightarrow>
              (script \<noteq> [] \<longrightarrow> Eval hi script keys args (c, w) = Crashed) \<and>
              (keys \<noteq> [] \<and> 0 \<le> e \<longrightarrow> MExpire hi keys e (c, w) = Crashed)
          | Some err \<Rightarrow>
              (script \<noteq> [] \<longrightarrow>
                 (case redisCommandArgv hi err (eval_argv script keys args) w of
                    (r, err', w') \<Rightarrow>
                      Eval hi script keys args (c, w) = Returned (drop_error r, c\<lparr>context_err := Some err'\<rparr>, w'))) \<and>
              (keys \<noteq> [] \<and> 0 \<le> e \<longrightarrow>
                 (case redisCommandArgv hi err (eval_argv expire_script keys [dec_int e]) w of
                    (r, err', w') \<Rightarrow> MExpire hi keys e (c, w) = Returned (0, c\<lparr>context_err := Some err'\<rparr>, w'))))"
proof -
  have "case context_err c of
      None \<Rightarrow>
        (script \<noteq> [] \<longrightarrow> Eval hi script keys args (c, w) = Crashed) \<and>
        (keys \<noteq> [] \<and> 0 \<le> e \<longrightarrow> MExpire hi keys e (c, w) = Crashed)
    | Some err \<Rightarrow>
        (script \<noteq> [] \<longrightarrow>
           (case redisCommandArgv hi err (eval_argv script keys args) w of
              (r, err', w') \<Rightarrow> Eval hi script keys args (c, w) = Returned (drop_error r, c\<lparr>context_err := Some err'\<rparr>, w'))) \<and>
        (keys \<noteq> [] \<and> 0 \<le> e \<longrightarrow>
           (case redisCommandArgv hi err (eval_argv expire_script keys [dec_int e]) w of
              (r, err', w') \<Rightarrow> MExpire hi keys e (c, w) = Returned (0, c\<lparr>context_err := Some err'\<rparr>, w')))"
    using Eval_context [where script = script and c = c and hi = hi and keys = keys and args = args and w = w] MExpire_context [where keys = keys and n = e and c = c and hi = hi and w = w]
    by (auto split: option.splits prod.splits)
  then show ?thesis
    using Exec_broken [OF assms] values_broken [OF assms] counters_broken [OF assms] many_broken [OF assms] hashes_broken [OF assms]
      lists_broken [OF assms]
    by (intro conjI) (assumption | simp only: simp_thms)+
qed

lemma Select_context: "context_err c \<noteq> None \<Longrightarrow> context_err (fst (snd (Select hi n (c, w)))) \<noteq> None"
  by (simp add: Select_def Exec_def command_on_def split_beta)

text \<open>
  \<open>init\<close> in three cases. When hiredis cannot allocate a context the error branch itself follows the null
  pointer. When the connection is refused \<open>init\<close> returns false and drops the context. When no password is
  configured it returns at once: the configured database is not selected and no command is sent.
\<close>
theorem redis_init_cases:
  "case redisConnectWithTimeout hi (c_str (rd_host helper)) (rd_port helper) w of
     (None, w1) \<Rightarrow> redis_init hi helper uuid (c, w) = Crashed
   | (Some e, w1) \<Rightarrow>
       if e \<noteq> 0 then redis_init hi helper uuid (c, w) = Returned (False, c\<lparr>context_err := None\<rparr>, w1)
       else if rd_passwd helper = [] then
         redis_init hi helper uuid (c, w) = Returned (True, c\<lparr>context_err := Some 0\<rparr>, w1)
       else
         (\<exists>ok c' w'. redis_init hi helper uuid (c, w) = Returned (ok, c', w') \<and>
            (if ok then redis_uuid c' = Some uuid \<and> context_err c' \<noteq> None else context_err c' = None))"
proof -
  obtain x w1 where x: "redisConnectWithTimeout hi (c_str (rd_host helper)) (rd_port helper) w = (x, w1)" by fastforce
  show ?thesis
  proof (cases "x = Some 0 \<and> rd_passwd helper \<noteq> []")
    case False
    then show ?thesis by (cases x) (auto simp: redis_init_def x)
  next
    case True
    obtain r c2 w2 where r: "command_on hi 0 [''AUTH'', c_str (rd_passwd helper)] (c\<lparr>context_err := Some 0\<rparr>, w1) = (r, c2, w2)"
      by (metis prod_cases3)
    then have c2: "context_err c2 \<noteq> None" by (auto simp: command_on_def split: prod.splits)
    obtain ok c3 w3 where s: "(if rd_db_idx helper \<noteq> 0 then Select hi (rd_db_idx helper) (c2, w2) else (True, c2, w2)) = (ok, c3, w3)"
      by (metis prod_cases3)
    then have "context_err c3 \<noteq> None"
      using c2 Select_context [of c2 hi "rd_db_idx helper" w2] by (cases "rd_db_idx helper = 0") auto
    with True r s x show ?thesis by (cases r) (simp_all add: redis_init_def Let_def, blast+)
  qed
qed

section \<open>Witnesses\<close>

text \<open>A server in memory that knows the commands used here.\<close>

definition mem_exec :: "string list \<Rightarrow> redis_db \<Rightarrow> redisReply \<times> redis_db" where
  "mem_exec argv d =
     (case argv of
        [] \<Rightarrow> (nil_reply, d)
      | cmd # args \<Rightarrow>
          if cmd = ''MGET'' then (array_of (map (\<lambda>k. case d k of Some (RStr v) \<Rightarrow> bulk v | _ \<Rightarrow> nil_reply) args), d)
          else
            (case args of
               [k] \<Rightarrow>
                 if cmd = ''GET'' then ((case d k of Some (RStr v) \<Rightarrow> bulk v | _ \<Rightarrow> nil_reply), d)
                 else if cmd = ''RPOP'' then
                   (case list_at d k of
                      None \<Rightarrow> (nil_reply, d)
                    | Some l \<Rightarrow> (if l = [] then nil_reply else bulk (last l), put_list k (butlast l) d))
                 else (array_of (case hash_at d k of None \<Rightarrow> [] | Some m \<Rightarrow> concat (map (\<lambda>(f, v). [bulk f, bulk v]) m)), d)
             | k # v # rest \<Rightarrow>
                 if cmd = ''SET'' then (ok_reply, d(k \<mapsto> RStr v))
                 else if cmd = ''LPUSH'' then
                   (case list_at d k of
                      None \<Rightarrow> (nil_reply, d)
                    | Some l \<Rightarrow> (int_reply (int (length l + length (v # rest))), put_list k (rev (v # rest) @ l) d))
                 else
                   (case hash_at d k of
                      None \<Rightarrow> (nil_reply, d)
                    | Some m \<Rightarrow>
                        (case rest of
                           [] \<Rightarrow> ((case om_find m v of None \<Rightarrow> nil_reply | Some x \<Rightarrow> bulk x), d)
                         | x # _ \<Rightarrow> (int_reply (if om_find m v = None then 1 else 0), d(k \<mapsto> RHash (om_upd v x m)))))))"

fun mset_pairs :: "string list \<Rightarrow> redis_db \<Rightarrow> redis_db" where
  "mset_pairs (k # v # rest) d = mset_pairs rest (d(k \<mapsto> RStr v))"
| "mset_pairs _ d = d"

definition mem_redis :: "redis_db hiredis" where
  "mem_redis =
     \<lparr>redisConnectWithTimeout = \<lambda>host port d. (Some 0, d),
      redisCommandArgv = \<lambda>e argv d.
        (case (if take 1 argv = [''MSET''] then (ok_reply, mset_pairs (drop 1 argv) d) else mem_exec argv d) of
           (r, d') \<Rightarrow> (Some r, 0, d'))\<rparr>"

lemma mset_pairs_concat:
  "mset_pairs (concat (map (\<lambda>(k, v). [k, v]) kvs)) d = fold (\<lambda>(k, v) d. d(k \<mapsto> RStr v)) kvs d"
  by (induction kvs arbitrary: d) auto

lemma mem_redis_strings: "redis_strings mem_redis (\<lambda>d. d)"
  by (auto simp: redis_strings_def answers_def mem_redis_def mem_exec_def mset_pairs_concat split: list.splits)

lemma mem_redis_lists: "redis_lists mem_redis (\<lambda>d. d)"
  by (auto simp: redis_lists_def answers_def mem_redis_def mem_exec_def neq_Nil_conv ac_simps)

lemma mem_redis_hashes: "redis_hashes mem_redis (\<lambda>d. d)"
  by (auto simp: redis_hashes_def answers_def mem_redis_def mem_exec_def)

definition working_conn :: RedisConn where
  "working_conn = \<lparr>context_err = Some 0, redis_uuid = None\<rparr>"

lemma working_conn_valid: "redis_isValid working_conn"
  by (simp add: working_conn_def redis_isValid_def)

theorem redis_set_get_witness:
  "fst (Get_int mem_redis ''n'' 0 (snd (Set_int mem_redis ''n'' (-42) 10 (working_conn, Map.empty)))) = (True, -42) \<and>
   fst (redis_ping_test mem_redis 7 (working_conn, Map.empty))"
  using redis_set_get [OF mem_redis_strings working_conn_valid, where str = "''s''" and key = "''n''" and i = "-42" and
      e = 10 and oldi = 0 and rnd = 7 and w = Map.empty]
  by (simp add: case_prod_unfold char_of_def)

theorem redis_list_fifo_witness:
  "rpops mem_redis ''q'' 3 (fold (\<lambda>v cw. snd (LPush_str mem_redis ''q'' v cw)) [''a'', ''b''] (working_conn, Map.empty)) =
     [''a'', ''b'']"
  by (rule redis_list_fifo [OF mem_redis_lists working_conn_valid]) (simp_all add: list_at_def char_of_def)

theorem redis_hash_roundtrip_witness:
  "\<exists>w2 w3. HSet_str mem_redis ''h'' ''f'' ''x'' (working_conn, Map.empty) = (1, working_conn, w2) \<and>
     HGet_str mem_redis ''h'' ''f'' '''' (working_conn, w2) = Returned ((True, ''x''), working_conn, w3)"
  using redis_hash_roundtrip [OF mem_redis_hashes working_conn_valid, where w = Map.empty and key = "''h''" and m = "[]" and
      f = "''f''" and v = "''x''" and old = "''''" and i = 0 and oldi = 0]
  by (auto simp: hash_at_def no_nul_def om_wf_def char_of_def)

theorem redis_mset_mget_witness:
  "fst (MGet_str mem_redis [''b'', ''a''] [] '''' (snd (MSet_str mem_redis [''a'', ''b''] [''1'', ''2''] (working_conn, Map.empty)))) =
     (True, [''2'', ''1''])"
  using redis_mset_mget [OF mem_redis_strings working_conn_valid, where kvs = "[(''a'', ''1''), (''b'', ''2'')]" and
      keys = "[''b'', ''a'']" and nil = "''''" and w = Map.empty]
  by (simp add: case_prod_unfold char_of_def c_str_def)

theorem redis_broken_conn_witness:
  "Set_str mem_redis ''k'' ''v'' 5 (mk_RedisConn, Map.empty) = (False, mk_RedisConn, Map.empty) \<and>
   MExpire mem_redis [''k''] 5 (mk_RedisConn, Map.empty) = Crashed"
  using redis_broken_conn [of mk_RedisConn mem_redis "[]" Map.empty "''k''" 0 "''v''" 5 "[''k'']"]
  by (simp add: mk_RedisConn_def redis_isValid_def)

end
