(* ===== verification/ThreadPool.thy ===== *)
theory ThreadPool
  imports Prelude
begin

text \<open>
  \<open>source/Utils/ThreadPool.cpp\<close>: the pool of worker threads behind the executor, the network
  server and the event repository.

  A worker is named by the address of its \<open>boost::thread\<close>; \<open>workers\<close> is the \<open>std::map\<close> from it
  to the shared \<open>ThreadObj\<close>, in address order. The addresses the allocator returns are
  arguments. A join is where the environment decides: the argument \<open>dies\<close> tells whether the
  worker reached \<open>kDead\<close> before the join returned.
\<close>

datatype ThreadStatus = kInit | kRunning | kSuspend | kTerminating | kDead

definition kMaxiumThreadPoolSize :: "32 word" where "kMaxiumThreadPoolSize = 65535"

record ThreadPool =
  pool_size :: "32 word"
  workers :: "(nat, ThreadStatus) omap"

text \<open>The constructor aborts the process on a bad size: \<open>None\<close>.\<close>

definition mk_ThreadPool :: "32 word \<Rightarrow> ThreadPool option" where
  "mk_ThreadPool n =
     (if n = 0 \<or> n > kMaxiumThreadPoolSize then None
      else Some \<lparr>pool_size = n, workers = []\<rparr>)"

section \<open>Starting\<close>

fun init_loop :: "nat list \<Rightarrow> ThreadPool \<Rightarrow> ThreadPool" where
  "init_loop [] p = p"
| "init_loop (a # as) p = init_loop as (p\<lparr>workers := om_upd a kInit (workers p)\<rparr>)"

text \<open>\<open>addrs\<close>: what the allocator returns, at least as many as threads are made.\<close>

definition pool_init :: "bool \<Rightarrow> nat list \<Rightarrow> ThreadPool \<Rightarrow> bool \<times> ThreadPool" where
  "pool_init func addrs p =
     (if \<not> func then (False, p)
      else (True, init_loop (take (unat (pool_size p)) addrs) p))"

definition init_threads :: "bool \<Rightarrow> 32 word \<Rightarrow> nat list \<Rightarrow> ThreadPool \<Rightarrow> bool \<times> ThreadPool" where
  "init_threads func n addrs p =
     (let n' = (if n = 0 \<or> n > kMaxiumThreadPoolSize then 1 else n)
      in pool_init func addrs (p\<lparr>pool_size := n'\<rparr>))"

definition set_all :: "ThreadStatus \<Rightarrow> ThreadPool \<Rightarrow> ThreadPool" where
  "set_all st p = p\<lparr>workers := map (\<lambda>(a, _). (a, st)) (workers p)\<rparr>"

definition start_tasks :: "ThreadPool \<Rightarrow> ThreadPool" where
  "start_tasks p = set_all kRunning p"

definition suspend_tasks :: "ThreadPool \<Rightarrow> ThreadPool" where
  "suspend_tasks p = set_all kSuspend p"

definition get_pool_size :: "ThreadPool \<Rightarrow> 32 word" where
  "get_pool_size p = of_nat (length (workers p))"

definition immediate_stop_tasks :: "ThreadPool \<Rightarrow> ThreadPool" where
  "immediate_stop_tasks p = (set_all kTerminating p)\<lparr>pool_size := 0\<rparr>"

text \<open>\<open>join_tasks\<close> returns when every worker has ended; \<open>pool_size_\<close> keeps its value.\<close>

definition join_tasks :: "ThreadPool \<Rightarrow> ThreadPool" where
  "join_tasks p = p\<lparr>workers := []\<rparr>"

section \<open>Growing and shrinking\<close>

fun spawn_task :: "nat list \<Rightarrow> ThreadPool \<Rightarrow> ThreadPool" where
  "spawn_task [] p = p"
| "spawn_task (a # as) p =
     (let p1 = p\<lparr>workers := om_upd a kInit (workers p)\<rparr>;
          p2 = p1\<lparr>pool_size := pool_size p1 + 1\<rparr>
      in spawn_task as (p2\<lparr>workers := om_upd a kRunning (workers p2)\<rparr>))"

text \<open>
  \<open>graceful_stop\<close>: on a failed join the old status is put back.
\<close>

definition graceful_stop :: "nat \<Rightarrow> bool \<Rightarrow> ThreadPool \<Rightarrow> bool \<times> ThreadPool" where
  "graceful_stop worker dies p =
     (case om_find (workers p) worker of
        None \<Rightarrow> (False, p)
      | Some old_status \<Rightarrow>
          let p1 = p\<lparr>workers := om_upd worker (if dies then kDead else kTerminating) (workers p)\<rparr>
          in if \<not> dies then (False, p1\<lparr>workers := om_upd worker old_status (workers p1)\<rparr>)
             else (True, p1\<lparr>pool_size := pool_size p1 - 1, workers := om_erase worker (workers p1)\<rparr>))"

text \<open>
  The loop of \<open>reduce_task\<close>, counted by \<open>max_try\<close>: it always takes the first worker of the map.
  \<open>dies t\<close> is the outcome of the join when \<open>t\<close> tries are left.
\<close>

fun reduce_loop :: "(nat \<Rightarrow> bool) \<Rightarrow> nat \<Rightarrow> nat \<Rightarrow> nat \<Rightarrow> ThreadPool \<Rightarrow> ThreadPool" where
  "reduce_loop dies num currsize 0 p = p"
| "reduce_loop dies num currsize (Suc t) p =
     (case workers p of
        [] \<Rightarrow> p
      | (a, st) # ws \<Rightarrow>
          let p' = snd (graceful_stop a (dies (Suc t)) p)
          in if t = 0 then p'
             else if currsize - length (workers p') \<ge> num then p'
             else reduce_loop dies num currsize t p')"

definition reduce_task :: "(nat \<Rightarrow> bool) \<Rightarrow> nat \<Rightarrow> ThreadPool \<Rightarrow> int \<times> ThreadPool" where
  "reduce_task dies num p =
     (let currsize = length (workers p);
          p' = reduce_loop dies num currsize 50 p
      in (if currsize - length (workers p') \<ge> num then 0 else -1, p'))"

text \<open>\<open>int diff = num - workers_.size()\<close>: computed in \<open>size_t\<close>, narrowed to \<open>int\<close>.\<close>

definition resize_thread_pool ::
    "(nat \<Rightarrow> bool) \<Rightarrow> nat list \<Rightarrow> 32 word \<Rightarrow> ThreadPool \<Rightarrow> int \<times> ThreadPool" where
  "resize_thread_pool dies addrs num p =
     (let diff = to_i32 (to_u64 (int (unat num) - int (length (workers p))))
      in if diff = 0 then (0, p)
         else if diff > 0 then (0, spawn_task (take (nat diff) addrs) p)
         else reduce_task dies (nat (- diff)) p)"

text \<open>\<open>graceful_stop_tasks\<close> marks all workers, then joins and erases them one by one.\<close>

fun stop_each :: "(nat, ThreadStatus) omap \<Rightarrow> ThreadPool \<Rightarrow> ThreadPool" where
  "stop_each [] p = p"
| "stop_each ((a, st) # ws) p =
     stop_each ws (p\<lparr>pool_size := pool_size p - 1, workers := om_erase a (workers p)\<rparr>)"

definition graceful_stop_tasks :: "ThreadPool \<Rightarrow> ThreadPool" where
  "graceful_stop_tasks p = (let p1 = set_all kTerminating p in stop_each (workers p1) p1)"

section \<open>The size of the pool\<close>

definition pool_ok :: "ThreadPool \<Rightarrow> bool" where
  "pool_ok p \<longleftrightarrow> om_wf (workers p) \<and> pool_size p = of_nat (length (workers p))"

lemma om_erase_head: "om_wf ((a, v) # ws) \<Longrightarrow> om_erase a ((a, v) # ws) = ws"
  by (auto simp: om_erase_def om_wf_Cons filter_id_conv)

lemma om_wf_drop: "om_wf m \<Longrightarrow> om_wf (drop k m)"
  by (simp add: om_wf_def sorted_wrt_drop flip: drop_map)

lemma length_om_upd:
  "om_wf m \<Longrightarrow> length (om_upd k v m) = (if k \<in> fst ` set m then length m else Suc (length m))"
  by (induction m) (force simp: om_wf_Cons)+

lemma graceful_stop_head:
  assumes "om_wf (workers p)" "workers p = (a, st) # ws"
  shows "graceful_stop a True p = (True, p\<lparr>pool_size := pool_size p - 1, workers := ws\<rparr>)"
    and "graceful_stop a False p = (False, p)"
  using assms om_erase_head [of a kDead ws]
  by (simp_all add: graceful_stop_def om_wf_Cons)

text \<open>Everything \<open>reduce_task\<close> does to the pool is to remove the first \<open>k\<close> workers.\<close>

lemma reduce_loop_drops:
  assumes "om_wf (workers p)" "length (workers p) \<le> cs" "length (workers p) + num = cs + r"
    and "0 < r" "r \<le> length (workers p)"
  shows "\<exists>k. workers (reduce_loop dies num cs t p) = drop k (workers p) \<and>
             pool_size (reduce_loop dies num cs t p) = pool_size p - of_nat k \<and>
             k \<le> t \<and> k \<le> r \<and> ((\<forall>i. dies i) \<longrightarrow> k = t \<or> k = r) \<and> ((\<forall>i. \<not> dies i) \<longrightarrow> k = 0)"
  using assms
proof (induction dies num cs t p arbitrary: r rule: reduce_loop.induct)
  case (1 dies num cs p)
  then show ?case by (intro exI [of _ 0]) simp
next
  case (2 dies num cs t p)
  from "2.prems" obtain a st ws where ws: "workers p = (a, st) # ws"
    by (cases "workers p") auto
  define p' where "p' = snd (graceful_stop a (dies (Suc t)) p)"
  define d where "d = (if dies (Suc t) then 1 else 0 :: nat)"
  have p': "workers p' = drop d (workers p)" "pool_size p' = pool_size p - of_nat d"
    using graceful_stop_head [of p a st ws] "2.prems"(1) ws by (auto simp: p'_def d_def)
  have step: "reduce_loop dies num cs (Suc t) p =
      (if t = 0 then p' else if cs - length (workers p') \<ge> num then p' else reduce_loop dies num cs t p')"
    by (simp add: ws p'_def Let_def)
  have len: "length (workers p') = length (workers p) - d" "d \<le> 1" "d \<le> length (workers p)"
    and d: "(\<forall>i. dies i) \<longrightarrow> d = 1" "(\<forall>i. \<not> dies i) \<longrightarrow> d = 0"
    using ws by (simp_all add: p' d_def)
  show ?case
  proof (cases "t = 0 \<or> cs - length (workers p') \<ge> num")
    case True
    then have "reduce_loop dies num cs (Suc t) p = p'" using step by auto
    moreover have "d = 1 \<Longrightarrow> d = Suc t \<or> d = r" "d \<le> Suc t" "d \<le> r"
      using True "2.prems" len by linarith+
    ultimately show ?thesis using p' d by (intro exI [of _ d]) simp
  next
    case False
    then have tn: "t \<noteq> 0" "\<not> num \<le> cs - length (workers p')" by simp_all
    have pr: "om_wf (workers p')" "length (workers p') \<le> cs"
      "length (workers p') + num = cs + (r - d)" "0 < r - d" "r - d \<le> length (workers p')"
      using "2.prems" p' len tn by (simp_all add: om_wf_drop)
    from "2.IH" [OF ws refl p'_def tn pr] obtain k where
      k: "workers (reduce_loop dies num cs t p') = drop k (workers p') \<and>
          pool_size (reduce_loop dies num cs t p') = pool_size p' - of_nat k \<and>
          k \<le> t \<and> k \<le> r - d \<and> ((\<forall>i. dies i) \<longrightarrow> k = t \<or> k = r - d) \<and> ((\<forall>i. \<not> dies i) \<longrightarrow> k = 0)"
      ..
    have "reduce_loop dies num cs (Suc t) p = reduce_loop dies num cs t p'"
      using False step by simp
    moreover have "d + k \<le> Suc t" "d + k \<le> r"
      using k pr(4) len(2) by linarith+
    moreover have "(\<forall>i. dies i) \<longrightarrow> d + k = Suc t \<or> d + k = r"
      using k pr(4) d(1) by auto
    ultimately show ?thesis
      using k p' d by (intro exI [of _ "d + k"]) (simp add: add.commute)
  qed
qed

text \<open>
  \<open>reduce_task(num)\<close> on a pool of at least \<open>num\<close> workers removes the first \<open>k\<close> workers of
  the map and nothing else, with \<open>k \<le> min num 50\<close>, and returns 0 exactly when \<open>k = num\<close>. If every
  asked worker ends in time \<open>k = min num 50\<close>, so a reduction by more than 50 always
  reports failure; if none does, all 50 tries go to the first worker and the pool keeps its state.
\<close>
theorem reduce_task_spec:
  assumes "pool_ok p" "0 < num" "num \<le> length (workers p)"
  shows "\<exists>k. k \<le> min num 50 \<and> workers (snd (reduce_task dies num p)) = drop k (workers p) \<and>
             pool_ok (snd (reduce_task dies num p)) \<and>
             fst (reduce_task dies num p) = (if k = num then 0 else -1) \<and>
             ((\<forall>i. dies i) \<longrightarrow> k = min num 50) \<and> ((\<forall>i. \<not> dies i) \<longrightarrow> k = 0)"
proof -
  let ?n = "length (workers p)"
  from assms reduce_loop_drops [of p ?n num num dies 50] obtain k where
    k: "workers (reduce_loop dies num ?n 50 p) = drop k (workers p)"
       "pool_size (reduce_loop dies num ?n 50 p) = pool_size p - of_nat k"
       "k \<le> 50" "k \<le> num" "(\<forall>i. dies i) \<longrightarrow> k = 50 \<or> k = num" "(\<forall>i. \<not> dies i) \<longrightarrow> k = 0"
    by (auto simp: pool_ok_def)
  moreover have "k \<le> ?n" using k(4) assms(3) by simp
  ultimately have "pool_ok (reduce_loop dies num ?n 50 p)"
    using assms(1) by (simp add: pool_ok_def om_wf_drop of_nat_diff)
  moreover have "(\<forall>i. dies i) \<longrightarrow> k = min num 50" using k(3-5) by auto
  ultimately show ?thesis
    using k assms(3) by (intro exI [of _ k]) (auto simp: reduce_task_def Let_def)
qed

lemma reduce_task_spec_witness:
  "case reduce_task (\<lambda>_. True) 1 \<lparr>pool_size = 2, workers = [(16, kRunning), (32, kRunning)]\<rparr> of
     (ret, p') \<Rightarrow> ret = 0 \<and> workers p' = [(32, kRunning)]"
  using reduce_task_spec [of "\<lparr>pool_size = 2, workers = [(16, kRunning), (32, kRunning)]\<rparr>" 1 "\<lambda>_. True"]
  by (auto simp: pool_ok_def om_wf_def split: prod.splits)

lemma spawn_task_spec:
  assumes "pool_ok p" "distinct addrs" "set addrs \<inter> fst ` set (workers p) = {}"
  shows "pool_ok (spawn_task addrs p) \<and>
         length (workers (spawn_task addrs p)) = length (workers p) + length addrs \<and>
         (\<forall>a. om_find (workers (spawn_task addrs p)) a =
                (if a \<in> set addrs then Some kRunning else om_find (workers p) a))"
  using assms
proof (induction addrs p rule: spawn_task.induct)
  case (2 a as p)
  define ws where "ws = om_upd a kRunning (om_upd a kInit (workers p))"
  have ws: "om_wf ws" "length ws = Suc (length (workers p))" "fst ` set ws = insert a (fst ` set (workers p))"
    "om_find ws = (om_find (workers p))(a \<mapsto> kRunning)"
    using "2.prems" by (auto simp: ws_def pool_ok_def om_wf_upd length_om_upd om_upd_keys om_find_upd)
  let ?p = "p\<lparr>pool_size := pool_size p + 1, workers := ws\<rparr>"
  have "pool_ok ?p" "set as \<inter> fst ` set (workers ?p) = {}"
    using "2.prems" ws by (auto simp: pool_ok_def)
  with "2.IH" [OF refl refl] "2.prems" ws show ?case
    by (simp add: ws_def [symmetric])
qed simp

text \<open>
  Growing: \<open>resize_threads\<close> to a larger size adds exactly the missing workers, all running,
  keeps the others as they are, and \<open>pool_size_\<close> stays the number of workers.
\<close>
theorem resize_grows:
  assumes "pool_ok p" "length (workers p) < unat num" "unat num < 2147483648"
    and "distinct addrs" "set addrs \<inter> fst ` set (workers p) = {}"
    and "unat num - length (workers p) \<le> length addrs"
  shows "case resize_thread_pool dies addrs num p of
           (ret, p') \<Rightarrow> ret = 0 \<and> pool_ok p' \<and> get_pool_size p' = num \<and>
             (\<forall>a st. om_find (workers p) a = Some st \<longrightarrow> om_find (workers p') a = Some st) \<and>
             (\<forall>a. om_find (workers p) a = None \<and> om_find (workers p') a \<noteq> None \<longrightarrow>
                  om_find (workers p') a = Some kRunning)"
proof -
  define n where "n = unat num - length (workers p)"
  with assms(2) have n: "int (unat num) - int (length (workers p)) = int n" "0 < n" by linarith+
  have "n < 2147483648" using less_imp_diff_less [OF assms(3)] by (simp only: n_def)
  then have r: "resize_thread_pool dies addrs num p = (0, spawn_task (take n addrs) p)"
    using n(2) by (simp only: resize_thread_pool_def Let_def n(1) size_to_int) simp
  have fresh: "distinct (take n addrs)" "set (take n addrs) \<inter> fst ` set (workers p) = {}"
    using assms(4,5) set_take_subset [of n addrs] by auto
  note sp = spawn_task_spec [OF assms(1) fresh]
  have old: "\<And>a st. om_find (workers p) a = Some st \<Longrightarrow> a \<notin> set (take n addrs)"
    using fresh(2) by (force simp: om_find_map_of dest: map_of_SomeD)
  have "length (workers (spawn_task (take n addrs) p)) = unat num"
    using sp assms(2,6) by (simp add: n_def)
  then have "get_pool_size (spawn_task (take n addrs) p) = num" by (simp add: get_pool_size_def)
  with r sp old show ?thesis by auto
qed

lemma resize_grows_witness:
  "case resize_thread_pool (\<lambda>_. False) [8, 32] 3 \<lparr>pool_size = 1, workers = [(16, kSuspend)]\<rparr> of
     (ret, p') \<Rightarrow> ret = 0 \<and> pool_ok p' \<and> get_pool_size p' = 3 \<and> om_find (workers p') 16 = Some kSuspend"
  using resize_grows [of "\<lparr>pool_size = 1, workers = [(16, kSuspend)]\<rparr>" 3 "[8, 32]" "\<lambda>_. False"]
  by (auto simp: pool_ok_def om_wf_def split: prod.splits)

text \<open>Stopping gracefully empties the pool and brings \<open>pool_size_\<close> to 0.\<close>

lemma stop_each_spec:
  "om_wf ws \<Longrightarrow> workers p = ws \<Longrightarrow> pool_size p = of_nat (length ws) \<Longrightarrow>
   workers (stop_each ws p) = [] \<and> pool_size (stop_each ws p) = 0"
  by (induction ws p rule: stop_each.induct) (simp_all add: om_erase_head om_wf_Cons)

lemma graceful_stop_tasks_spec:
  assumes "pool_ok p"
  shows "workers (graceful_stop_tasks p) = [] \<and> pool_size (graceful_stop_tasks p) = 0"
proof -
  have "om_wf (workers (set_all kTerminating p))"
    using assms by (simp add: pool_ok_def set_all_def om_wf_def comp_def split_beta)
  with stop_each_spec [OF _ refl, of "set_all kTerminating p"] assms show ?thesis
    by (simp add: graceful_stop_tasks_def pool_ok_def set_all_def Let_def)
qed

end
