(* ===== verification/Dispatcher.thy ===== *)
theory Dispatcher
  imports ThreadPool EQueue TcpConnAsync
begin

text \<open>
  \<open>source/RPC/Executor.cpp\<close>, \<open>source/RPC/Dispatcher.cpp\<close> and
  \<open>source/Protocol/ServiceImpl/RpcServiceBase.h\<close>: requests are validated, routed by service id
  to an executor and wait in its queue for a worker thread.

  A configuration setting of libconfig is a partial function from names to integers;
  \<open>lookupValue\<close> leaves its target alone when the name is missing.
\<close>

record ExecutorConf =
  exec_thread_number :: int
  exec_thread_number_hard :: int
  exec_thread_step_size :: int

type_synonym setting = "string \<Rightarrow> int option"

definition handle_rpc_service_conf :: "setting \<Rightarrow> ExecutorConf \<Rightarrow> int \<times> ExecutorConf" where
  "handle_rpc_service_conf s conf0 =
     (let conf1 = conf0\<lparr>exec_thread_number := lookupValue s ''exec_thread_pool_size'' (exec_thread_number conf0),
                        exec_thread_number_hard :=
                          lookupValue s ''exec_thread_pool_size_hard'' (exec_thread_number_hard conf0),
                        exec_thread_step_size :=
                          lookupValue s ''exec_thread_pool_step_size'' (exec_thread_step_size conf0)\<rparr>;
          conf = (if exec_thread_number_hard conf1 < exec_thread_number conf1
                  then conf1\<lparr>exec_thread_number_hard := exec_thread_number conf1\<rparr> else conf1)
      in if exec_thread_number conf \<le> 0 \<or> exec_thread_number conf > 100 \<or>
            exec_thread_number_hard conf > 100 \<or>
            exec_thread_number_hard conf < exec_thread_number conf
         then (-1, conf)
         else if exec_thread_step_size conf < 0 then (-1, conf)
         else (0, conf))"

section \<open>Executor\<close>

record Executor =
  rpc_queue :: "RpcInstance equeue"
  ex_conf :: ExecutorConf
  executor_threads :: ThreadPool
  adjust_timer :: bool

definition mk_Executor :: Executor where
  "mk_Executor =
     \<lparr>rpc_queue = empty_queue,
      ex_conf = \<lparr>exec_thread_number = 0, exec_thread_number_hard = 0, exec_thread_step_size = 0\<rparr>,
      executor_threads = \<lparr>pool_size = 1, workers = []\<rparr>, adjust_timer = False\<rparr>"

text \<open>
  \<open>Executor::init\<close>: \<open>sconf\<close> is what \<open>service_impl_->get_executor_conf()\<close> returns, \<open>timer_ok\<close> whether
  \<open>Timer::add_timer\<close> succeeds.
\<close>

definition executor_init :: "ExecutorConf \<Rightarrow> bool \<Rightarrow> nat list \<Rightarrow> Executor \<Rightarrow> bool \<times> Executor" where
  "executor_init sconf timer_ok addrs ex =
     (let ex1 = ex\<lparr>ex_conf := sconf\<rparr>;
          (ok, pool) = init_threads True (word_of_int (exec_thread_number sconf)) addrs (executor_threads ex1);
          ex2 = ex1\<lparr>executor_threads := pool\<rparr>
      in if \<not> ok then (False, ex2)
         else if exec_thread_number_hard sconf > exec_thread_number sconf \<and> exec_thread_step_size sconf > 0
         then (if \<not> timer_ok then (False, ex2) else (True, ex2\<lparr>adjust_timer := True\<rparr>))
         else (True, ex2))"

definition executor_handle_RPC :: "RpcInstance \<Rightarrow> Executor \<Rightarrow> Executor" where
  "executor_handle_RPC ri ex = ex\<lparr>rpc_queue := PUSH ri (rpc_queue ex)\<rparr>"

definition executor_start :: "Executor \<Rightarrow> Executor" where
  "executor_start ex = ex\<lparr>executor_threads := start_tasks (executor_threads ex)\<rparr>"

definition executor_stop_graceful :: "Executor \<Rightarrow> Executor" where
  "executor_stop_graceful ex = ex\<lparr>executor_threads := graceful_stop_tasks (executor_threads ex)\<rparr>"

definition executor_join :: "Executor \<Rightarrow> Executor" where
  "executor_join ex = ex\<lparr>executor_threads := join_tasks (executor_threads ex)\<rparr>"

text \<open>The target of \<open>executor_threads_adjust\<close>: \<open>int\<close> arithmetic, division truncating.\<close>

definition expect_threads :: "ExecutorConf \<Rightarrow> nat \<Rightarrow> int" where
  "expect_threads conf qsize =
     (let queueSize = to_i32 (to_u64 (int qsize));
          e1 = (if queueSize > exec_thread_step_size conf
                then to_i32 (exec_thread_number conf + queueSize sdiv exec_thread_step_size conf)
                else exec_thread_number conf)
      in if e1 > exec_thread_number_hard conf then exec_thread_number_hard conf else e1)"

definition executor_threads_adjust :: "(nat \<Rightarrow> bool) \<Rightarrow> nat list \<Rightarrow> Executor \<Rightarrow> Executor" where
  "executor_threads_adjust dies addrs ex =
     (let conf = ex_conf ex
      in if exec_thread_step_size conf = 0 then ex
         else ex\<lparr>executor_threads :=
                   snd (resize_thread_pool dies addrs
                          (word_of_int (expect_threads conf (SIZE (rpc_queue ex)))) (executor_threads ex))\<rparr>)"

text \<open>
  One turn of \<open>executor_service_run\<close> in a worker of the given status: the request it hands to
  the service, if any, and whether the loop goes on. On leaving, the status becomes \<open>kDead\<close>.
\<close>

definition executor_service_turn ::
    "RpcInstance wakeup list \<Rightarrow> ThreadStatus \<Rightarrow> Executor \<Rightarrow> RpcInstance option \<times> ThreadStatus \<times> Executor" where
  "executor_service_turn ws st ex =
     (if st = kTerminating then (None, kDead, ex)
      else if st = kSuspend then (None, st, ex)
      else
        let (r, q) = POP_timed ws (rpc_queue ex)
        in (r, st, ex\<lparr>rpc_queue := q\<rparr>))"

text \<open>\<open>Executor::module_runtime\<close>: \<open>ret\<close> and \<open>sconf\<close> are the service's answer and configuration.\<close>

definition executor_module_runtime :: "int \<Rightarrow> ExecutorConf \<Rightarrow> Executor \<Rightarrow> int \<times> Executor" where
  "executor_module_runtime ret sconf ex =
     (ret, if ret = 0 then ex\<lparr>ex_conf := sconf\<rparr> else ex)"

section \<open>Dispatcher\<close>

record Dispatcher =
  initialized :: bool
  services :: "(16 word, Executor) omap"

definition empty_Dispatcher :: Dispatcher where
  "empty_Dispatcher = \<lparr>initialized = False, services = []\<rparr>"

definition dispatcher_init :: "Dispatcher \<Rightarrow> bool \<times> Dispatcher" where
  "dispatcher_init d =
     (True, d\<lparr>initialized := True, services := map (\<lambda>(k, ex). (k, executor_start ex)) (services d)\<rparr>)"

definition register_service ::
    "16 word \<Rightarrow> ExecutorConf \<Rightarrow> bool \<Rightarrow> nat list \<Rightarrow> Dispatcher \<Rightarrow> Dispatcher" where
  "register_service sid sconf timer_ok addrs d =
     (if initialized d then d
      else
        let (ok, ex) = executor_init sconf timer_ok addrs mk_Executor
        in if \<not> ok then d else d\<lparr>services := om_upd sid ex (services d)\<rparr>)"

text \<open>The second component is the rejection sent at once on the request's connection.\<close>

definition dispatcher_handle_RPC :: "bool \<Rightarrow> RpcInstance \<Rightarrow> Dispatcher \<Rightarrow> Message option \<times> Dispatcher" where
  "dispatcher_handle_RPC alive ri d =
     (case validate_request ri of
        (False, ri') \<Rightarrow> (reject alive INVALID_REQUEST ri', d)
      | (True, ri') \<Rightarrow>
          (case om_find (services d) (service_id ri') of
             Some ex \<Rightarrow> (None, d\<lparr>services := om_upd (service_id ri') (executor_handle_RPC ri' ex) (services d)\<rparr>)
           | None \<Rightarrow> (reject alive INVALID_SERVICE ri', d)))"

fun dispatcher_module_runtime ::
    "(16 word \<Rightarrow> int \<times> ExecutorConf) \<Rightarrow> (16 word, Executor) omap \<Rightarrow> int \<times> (16 word, Executor) omap" where
  "dispatcher_module_runtime rt [] = (0, [])"
| "dispatcher_module_runtime rt ((k, ex) # m) =
     (let (ret, ex') = executor_module_runtime (fst (rt k)) (snd (rt k)) ex;
          (rest, m') = dispatcher_module_runtime rt m
      in (to_i32 (ret + rest), (k, ex') # m'))"

section \<open>Thread numbers\<close>

definition conf_ok :: "ExecutorConf \<Rightarrow> bool" where
  "conf_ok c \<longleftrightarrow>
     1 \<le> exec_thread_number c \<and> exec_thread_number c \<le> exec_thread_number_hard c \<and>
     exec_thread_number_hard c \<le> 100 \<and> 0 \<le> exec_thread_step_size c"

lemma handle_rpc_service_conf_ok:
  "fst (handle_rpc_service_conf s c0) = (if conf_ok (snd (handle_rpc_service_conf s c0)) then 0 else -1)"
proof -
  define n h st where "n = lookupValue s ''exec_thread_pool_size'' (exec_thread_number c0)"
    and "h = lookupValue s ''exec_thread_pool_size_hard'' (exec_thread_number_hard c0)"
    and "st = lookupValue s ''exec_thread_pool_step_size'' (exec_thread_step_size c0)"
  define c where "c = c0\<lparr>exec_thread_number := n, exec_thread_number_hard := max h n, exec_thread_step_size := st\<rparr>"
  have "handle_rpc_service_conf s c0 = (if n \<le> 0 \<or> 100 < n \<or> 100 < max h n \<or> st < 0 then -1 else 0, c)"
    by (cases "h < n")
      (simp_all add: handle_rpc_service_conf_def c_def Let_def max_def flip: n_def h_def st_def)
  then show ?thesis by (auto simp: conf_ok_def c_def less_max_iff_disj)
qed

text \<open>
  Under a configuration that \<open>handle_rpc_service_conf\<close> accepted, the adjustment timer asks for
  the base number of threads plus one for each full step of waiting requests, capped by the
  hard limit: the target stays between the base number and the hard limit, which are between 1
  and 100.
\<close>
theorem expect_threads_bounds:
  assumes "handle_rpc_service_conf s c0 = (0, conf)" "0 < exec_thread_step_size conf"
    and "qsize \<le> 2147483547"
  shows "expect_threads conf qsize =
           min (exec_thread_number_hard conf)
               (exec_thread_number conf +
                (if int qsize > exec_thread_step_size conf then int qsize div exec_thread_step_size conf else 0)) \<and>
         1 \<le> exec_thread_number conf \<and> exec_thread_number conf \<le> expect_threads conf qsize \<and>
         expect_threads conf qsize \<le> exec_thread_number_hard conf \<and> exec_thread_number_hard conf \<le> 100"
proof -
  have ok: "conf_ok conf"
    using assms(1) handle_rpc_service_conf_ok [of s c0] by (auto split: if_splits)
  have q: "to_i32 (to_u64 (int qsize)) = int qsize" using assms(3) by (simp add: size_to_int)
  let ?d = "int qsize div exec_thread_step_size conf"
  have sd: "int qsize sdiv exec_thread_step_size conf = ?d"
    using assms(2) by (simp add: sdiv_nonneg)
  have d: "0 \<le> ?d" "?d \<le> int qsize"
    using assms(2) zdiv_mono2 [of "int qsize" 1 "exec_thread_step_size conf"]
    by (simp_all add: pos_imp_zdiv_nonneg_iff)
  then have "is_i32 (exec_thread_number conf + ?d)"
    using ok assms(3) by (simp add: is_i32_def conf_ok_def)
  then have "to_i32 (exec_thread_number conf + ?d) = exec_thread_number conf + ?d" by (rule to_i32_id)
  then have "expect_threads conf qsize =
      min (exec_thread_number_hard conf)
          (exec_thread_number conf + (if int qsize > exec_thread_step_size conf then ?d else 0))"
    by (simp add: expect_threads_def q sd Let_def)
  with ok d show ?thesis by (simp add: conf_ok_def)
qed

lemma expect_threads_bounds_witness:
  "let conf = \<lparr>exec_thread_number = 2, exec_thread_number_hard = 8, exec_thread_step_size = 10\<rparr>
   in expect_threads conf 45 =
           min (exec_thread_number_hard conf)
               (exec_thread_number conf +
                (if int 45 > exec_thread_step_size conf then int 45 div exec_thread_step_size conf else 0)) \<and>
         1 \<le> exec_thread_number conf \<and> exec_thread_number conf \<le> expect_threads conf 45 \<and>
         expect_threads conf 45 \<le> exec_thread_number_hard conf \<and> exec_thread_number_hard conf \<le> 100"
  unfolding Let_def
  by (rule expect_threads_bounds [of "Map.empty" "\<lparr>exec_thread_number = 2, exec_thread_number_hard = 8,
        exec_thread_step_size = 10\<rparr>"])
    (simp_all add: handle_rpc_service_conf_def lookupValue_def)

section \<open>Routing\<close>

text \<open>What the dispatcher makes of one payload, given the registered services.\<close>

definition routed :: "Dispatcher \<Rightarrow> string \<Rightarrow> 16 word option" where
  "routed d p =
     (case RpcRequestMessageParse p of
        None \<Rightarrow> None
      | Some m \<Rightarrow> if wellformed_request p \<and> om_find (services d) (rq_service_id (rq_header m)) \<noteq> None
                  then Some (rq_service_id (rq_header m)) else None)"

definition answer :: "Dispatcher \<Rightarrow> string \<Rightarrow> Message option" where
  "answer d p =
     (if routed d p \<noteq> None then None
      else Some (mk_Message (rs_net_str (mk_RpcResponseStatus
                   (if wellformed_request p then INVALID_SERVICE else INVALID_REQUEST)))))"

abbreviation validated :: "int \<Rightarrow> nat \<Rightarrow> string \<Rightarrow> RpcInstance" where
  "validated now sock p \<equiv> snd (validate_request (instance_of now sock p))"

fun handle_payloads :: "int \<Rightarrow> nat \<Rightarrow> string list \<Rightarrow> Dispatcher \<Rightarrow> Message option list \<times> Dispatcher" where
  "handle_payloads now sock [] d = ([], d)"
| "handle_payloads now sock (p # ps) d =
     (let (a, d1) = dispatcher_handle_RPC True (instance_of now sock p) d;
          (as, d2) = handle_payloads now sock ps d1
      in (a # as, d2))"

text \<open>
  The request object that a payload stands for: its parsed message with the ids of its header, and the
  connection and time it came with; the buffer has been read empty.
\<close>

definition request_object :: "int \<Rightarrow> nat \<Rightarrow> string \<Rightarrow> RpcInstance" where
  "request_object now sock p =
     (let m = the (RpcRequestMessageParse p)
      in \<lparr>ri_start = now, full_socket = sock, request = \<lparr>bdata = []\<rparr>, rpc_request_message = m, msg_size = int (length p),
          service_id = rq_service_id (rq_header m), opcode = rq_opcode (rq_header m)\<rparr>)"

text \<open>An executor with requests added at the end of its queue.\<close>

definition with_queued :: "RpcInstance list \<Rightarrow> Executor \<Rightarrow> Executor" where
  "with_queued rs ex = ex\<lparr>rpc_queue := (rpc_queue ex)\<lparr>items := items (rpc_queue ex) @ rs\<rparr>\<rparr>"

lemma with_queued_append: "with_queued rs (with_queued [r] ex) = with_queued (r # rs) ex"
  by (simp add: with_queued_def)

lemma with_queued_Nil: "with_queued [] ex = ex"
  by (simp add: with_queued_def)

lemma executor_queues: "executor_handle_RPC r ex = with_queued [r] ex"
  by (simp add: executor_handle_RPC_def with_queued_def PUSH_def)

lemma validated_object:
  assumes "length p < 2 ^ 31" "routed d p = Some sid"
  shows "validated now sock p = request_object now sock p"
proof -
  obtain m where "RpcRequestMessageParse p = Some m" "wellformed_request p"
    using assms(2) by (auto simp: routed_def split: option.splits if_splits)
  then show ?thesis
    unfolding validate_request_cases [OF assms(1)]
    by (simp add: request_object_def wellformed_request_def Let_def) (simp add: mk_RpcInstance_def mk_Buffer_def)
qed

lemma validate_request_routed:
  assumes "length p < 2 ^ 31"
  shows "fst (validate_request (instance_of now sock p)) \<longleftrightarrow> wellformed_request p"
    and "wellformed_request p \<Longrightarrow> \<exists>m. RpcRequestMessageParse p = Some m \<and>
           service_id (validated now sock p) = rq_service_id (rq_header m)"
  using assms
  by (auto simp: validate_request_cases wellformed_request_def Let_def split: option.splits)

lemma dispatcher_handle_RPC_cases:
  assumes "length p < 2 ^ 31" "om_wf (services d)"
  shows "dispatcher_handle_RPC True (instance_of now sock p) d =
           (answer d p,
            case routed d p of
              None \<Rightarrow> d
            | Some sid \<Rightarrow> d\<lparr>services := om_upd sid
                            (executor_handle_RPC (validated now sock p) (the (om_find (services d) sid))) (services d)\<rparr>)"
proof (cases "wellformed_request p")
  case True
  with validate_request_routed(2) [OF assms(1) True] obtain m where
    m: "RpcRequestMessageParse p = Some m" "service_id (validated now sock p) = rq_service_id (rq_header m)"
    by blast
  obtain ri where "validate_request (instance_of now sock p) = (True, ri)"
    using validate_request_routed(1) [OF assms(1), of now sock] True
    by (cases "validate_request (instance_of now sock p)") simp
  with True m show ?thesis
    by (auto simp: dispatcher_handle_RPC_def routed_def answer_def reject_def Let_def split: option.splits)
next
  case False
  obtain ri where "validate_request (instance_of now sock p) = (False, ri)"
    using validate_request_routed(1) [OF assms(1), of now sock] False
    by (cases "validate_request (instance_of now sock p)") simp
  with False show ?thesis
    by (simp add: dispatcher_handle_RPC_def routed_def answer_def reject_def Let_def split: option.splits)
qed

lemma routed_cong:
  "(\<And>s. om_find (services d') s = None \<longleftrightarrow> om_find (services d) s = None) \<Longrightarrow> routed d' p = routed d p"
  by (simp add: routed_def cong: option.case_cong)

text \<open>
  C31. Routing of a sequence of requests: the queue of every executor is what it was, followed by one request object
  for each payload that is a well-formed request for its service, in the order of arrival, and nothing else;
  the object carries the parsed message, the socket and the size. Every other payload is answered at once,
  \<open>INVALID_REQUEST\<close> when it does not parse and \<open>INVALID_SERVICE\<close> when nobody registered its service id. No
  service appears or disappears, and nothing else of an executor changes.
\<close>
theorem dispatcher_routes:
  assumes "om_wf (services d)" "\<forall>p\<in>set ps. length p < 2 ^ 31"
  shows "case handle_payloads now sock ps d of
           (as, d') \<Rightarrow>
             as = map (answer d) ps \<and>
             (\<forall>sid. case om_find (services d) sid of
                      None \<Rightarrow> om_find (services d') sid = None
                    | Some ex \<Rightarrow>
                        om_find (services d') sid =
                          Some (ex\<lparr>rpc_queue := (rpc_queue ex)\<lparr>items := items (rpc_queue ex) @
                                  map (request_object now sock) (filter (\<lambda>p. routed d p = Some sid) ps)\<rparr>\<rparr>))"
proof -
  have "om_wf (services d) \<Longrightarrow> \<forall>p\<in>set ps. length p < 2 ^ 31 \<Longrightarrow>
    fst (handle_payloads now sock ps d) = map (answer d) ps \<and>
    (\<forall>sid. om_find (services (snd (handle_payloads now sock ps d))) sid =
       map_option (with_queued (map (request_object now sock) (filter (\<lambda>p. routed d p = Some sid) ps)))
         (om_find (services d) sid))"
  proof (induction ps arbitrary: d)
    case Nil
    then show ?case by (simp add: with_queued_Nil option.map_ident)
  next
    case (Cons p ps)
    obtain a d1 where h: "dispatcher_handle_RPC True (instance_of now sock p) d = (a, d1)" by fastforce
    note c = dispatcher_handle_RPC_cases [of p d now sock, unfolded h, simplified]
    have obj: "routed d p = Some sid \<Longrightarrow> validated now sock p = request_object now sock p" for sid
      using validated_object Cons.prems(2) by simp
    have find1: "om_find (services d1) sid =
        (if routed d p = Some sid then map_option (with_queued [request_object now sock p]) (om_find (services d) sid)
         else om_find (services d) sid)" and wf1: "om_wf (services d1)" for sid
      using c Cons.prems obj
      by (auto simp: om_find_upd om_wf_upd routed_def executor_queues split: option.splits if_splits)
    then have r: "routed d1 q = routed d q" for q by (intro routed_cong) simp
    then have ans: "answer d1 q = answer d q" for q by (simp add: answer_def)
    show ?case
      using Cons.IH [OF wf1] Cons.prems c
      by (simp add: h r ans find1 split_beta Let_def option.map_comp comp_def with_queued_append)
  qed
  with assms show ?thesis by (simp add: split_beta with_queued_def split: option.splits)
qed

text \<open>Witness: a request for the only service, and a payload that is none.\<close>
lemma dispatcher_routes_witness:
  "let d = empty_Dispatcher\<lparr>services := [(1, mk_Executor)]\<rparr>;
       p = rq_net_str (mk_RpcRequestMessage 1 1 ''x'')
   in case handle_payloads 0 7 [p, ''junk''] d of
        (as, d') \<Rightarrow> map_option (\<lambda>ex. items (rpc_queue ex)) (om_find (services d') 1) = Some [request_object 0 7 p]"
proof -
  let ?d = "empty_Dispatcher\<lparr>services := [(1, mk_Executor)]\<rparr>" and ?p = "rq_net_str (mk_RpcRequestMessage 1 1 ''x'')"
  have r: "routed ?d ?p = Some 1" "routed ?d ''junk'' = None"
    by (simp add: routed_def wellformed_request_def mk_RpcRequestMessage_def)
      (simp add: routed_def RpcRequestMessageParse_def sizeof_RpcRequestHeader_def)
  have l: "\<forall>p\<in>set [?p, ''junk'']. length p < 2 ^ 31" by (simp add: sizeof_RpcRequestHeader_def mk_RpcRequestMessage_def)
  have wf: "om_wf (services ?d)" by (simp add: om_wf_def)
  have find: "om_find (services ?d) 1 = Some mk_Executor" by simp
  obtain as d' where h: "handle_payloads 0 7 [?p, ''junk''] ?d = (as, d')" by fastforce
  have "case om_find (services ?d) 1 of
      None \<Rightarrow> om_find (services d') 1 = None
    | Some ex \<Rightarrow> om_find (services d') 1 = Some (ex\<lparr>rpc_queue := (rpc_queue ex)\<lparr>items := items (rpc_queue ex) @
        map (request_object 0 7) (filter (\<lambda>p. routed ?d p = Some 1) [?p, ''junk''])\<rparr>\<rparr>)"
    by (rule spec [OF conjunct2 [OF dispatcher_routes [OF wf l, where now = 0 and sock = 7, unfolded h prod.case]]])
  then have "om_find (services d') 1 = Some (mk_Executor\<lparr>rpc_queue := \<lparr>items = [request_object 0 7 ?p]\<rparr>\<rparr>)"
    unfolding find using r by (simp add: mk_Executor_def empty_queue_def)
  then show ?thesis unfolding Let_def h by simp
qed

end
