(* ===== verification/MonitorTaskService.thy ===== *)
theory MonitorTaskService
  imports Dispatcher EventRepos MonitorTask
begin

text \<open>
  \<open>source/Protocol/ServiceImpl/MonitorTaskService.cpp\<close>: the RPC service. It decodes the protobuf body of a
  request, calls \<open>EventRepos\<close> and replies on the request's connection.
\<close>

section \<open>Configuration\<close>

text \<open>\<open>conf_ptr_\<close> points to a value-initialised \<open>DetailExecutorConf\<close> at first.\<close>

record MonitorTaskService =
  ms_instance_name :: string
  ms_conf_ptr :: "ExecutorConf option"

definition mk_MonitorTaskService :: "string \<Rightarrow> MonitorTaskService" where
  "mk_MonitorTaskService name = \<lparr>ms_instance_name = name, ms_conf_ptr = None\<rparr>"

text \<open>
  The local \<open>ExecutorConf conf\<close> is not initialised: its first value is \<open>junk\<close>. Both functions return \<open>bool\<close>, so
  their \<open>return -1\<close> is \<open>true\<close>.
\<close>

definition monitor_service_conf :: "ExecutorConf \<Rightarrow> setting \<Rightarrow> MonitorTaskService \<Rightarrow> bool \<times> MonitorTaskService" where
  "monitor_service_conf junk setting s =
     (let s1 = (case ms_conf_ptr s of
                  Some _ \<Rightarrow> s
                | None \<Rightarrow> s\<lparr>ms_conf_ptr := Some \<lparr>exec_thread_number = 0, exec_thread_number_hard = 0,
                                                exec_thread_step_size = 0\<rparr>\<rparr>)
      in case handle_rpc_service_conf setting junk of
           (ret, conf) \<Rightarrow> if ret \<noteq> 0 then (True, s1) else (True, s1\<lparr>ms_conf_ptr := Some conf\<rparr>))"

fun monitor_init_loop :: "ExecutorConf \<Rightarrow> cfg_group list \<Rightarrow> MonitorTaskService \<Rightarrow> bool \<times> MonitorTaskService" where
  "monitor_init_loop junk [] s = (False, s)"
| "monitor_init_loop junk (g # gs) s =
     (let instance_name = lookupValue (cfg_str g) ''instance_name'' ''''
      in if instance_name = [] then monitor_init_loop junk gs s
         else if instance_name = ms_instance_name s
         then monitor_service_conf junk (cfg_int g) s
         else monitor_init_loop junk gs s)"

text \<open>\<open>conf_ptr\<close>: the configuration, if loaded, with the list \<open>rpc.services\<close>, if present.\<close>

definition monitor_init ::
    "ExecutorConf \<Rightarrow> cfg_group list option option \<Rightarrow> MonitorTaskService \<Rightarrow> bool \<times> MonitorTaskService" where
  "monitor_init junk conf_ptr s =
     (case conf_ptr of
        None \<Rightarrow> (False, s)
      | Some None \<Rightarrow> (False, s)
      | Some (Some gs) \<Rightarrow> monitor_init_loop junk gs s)"

definition monitor_get_executor_conf :: "MonitorTaskService \<Rightarrow> ExecutorConf option" where
  "monitor_get_executor_conf s = ms_conf_ptr s"

text \<open>The \<open>bool\<close> becomes the \<open>int\<close> that \<open>module_runtime\<close> returns; \<open>None\<close> follows a null \<open>conf_ptr_\<close>.\<close>

definition monitor_service_runtime_conf ::
    "ExecutorConf \<Rightarrow> setting \<Rightarrow> MonitorTaskService \<Rightarrow> (bool \<times> MonitorTaskService) option" where
  "monitor_service_runtime_conf junk setting s =
     (case handle_rpc_service_conf setting junk of
        (ret, conf) \<Rightarrow>
          if ret \<noteq> 0 then Some (True, s)
          else (case ms_conf_ptr s of
                  None \<Rightarrow> None
                | Some _ \<Rightarrow> Some (False, s\<lparr>ms_conf_ptr := Some conf\<rparr>)))"

definition monitor_module_runtime ::
    "ExecutorConf \<Rightarrow> cfg_group list option \<Rightarrow> MonitorTaskService \<Rightarrow> (int \<times> MonitorTaskService) option" where
  "monitor_module_runtime junk rpc_services s =
     (case rpc_services of
        None \<Rightarrow> Some (-1, s)
      | Some gs \<Rightarrow>
          (case find_group ''instance_name'' (ms_instance_name s) gs of
             None \<Rightarrow> Some (-1, s)
           | Some g \<Rightarrow>
               map_option (\<lambda>(b, s'). (if b then 1 else 0, s')) (monitor_service_runtime_conf junk (cfg_int g) s)))"

section \<open>Requests\<close>

text \<open>What a call depends on besides the request: stores, configuration, clock, and whether the connection lives.\<close>

record ('q, 'l) call_env =
  ce_env :: "('q, 'l) store_env"
  ce_junk :: int
  ce_services :: "cfg_group list option option"
  ce_timer_ok :: bool
  ce_now :: int
  ce_alive :: bool

definition cond_of_select :: "pb_select_rq \<Rightarrow> string + event_cond_t" where
  "cond_of_select q =
     (let cond = default_cond\<lparr>ec_version := sq_version q, ec_tm_interval := sq_tm_interval q,
                              ec_service := sq_service q, ec_metric := sq_metric q,
                              ec_tm_start := case_option 0 id (sq_tm_start q),
                              ec_entity_idx := case_option '''' id (sq_entity_idx q),
                              ec_tag := case_option '''' id (sq_tag q)\<rparr>
      in case GroupType_of (case_option 0 id (sq_groupby q)) of
           None \<Rightarrow> Inl ''invalid groupby param.''
         | Some g \<Rightarrow>
             (case OrderByType_of (case_option 0 id (sq_orderby q)) of
                None \<Rightarrow> Inl ''invalid orderby param.''
              | Some b \<Rightarrow>
                  (case OrderType_of (case_option 0 id (sq_orders q)) of
                     None \<Rightarrow> Inl ''invalid orders param.''
                   | Some t \<Rightarrow>
                       Inr (cond\<lparr>ec_groupby := g, ec_orderby := b, ec_orders := t,
                                 ec_limit := case_option 0 id (sq_limit q)\<rparr>))))"

definition read_ok :: pb_read_response where
  "read_ok = \<lparr>rs_code = Some 0, rs_desc = Some ''OK'', rs_ping = None, rs_select = None, rs_metrics = None,
              rs_services = None\<rparr>"

definition select_response :: "event_cond_t \<Rightarrow> event_select_t \<Rightarrow> pb_read_response" where
  "select_response cond stat =
     read_ok\<lparr>rs_select := Some
       \<lparr>sr_version = ec_version cond, sr_service = es_service stat, sr_timestamp = es_timestamp stat,
        sr_metric = es_metric stat, sr_tm_interval = es_tm_interval stat, sr_tm_start = Some (es_timestamp stat),
        sr_entity_idx = Some (es_entity_idx stat), sr_tag = Some (es_tag stat),
        sr_summary = Some (es_summary stat), sr_info = es_info stat\<rparr>\<rparr>"

definition metrics_response ::
    "string \<Rightarrow> string \<Rightarrow> string list \<Rightarrow> int \<times> EventHandlerConf \<Rightarrow> pb_read_response" where
  "metrics_response ver service metric_stat rc =
     read_ok\<lparr>rs_metrics := Some
       (let m = \<lparr>mr_version = ver, mr_service = service, mr_event_step = None, mr_event_linger = None,
                 mr_store_type = None, mr_metric = metric_stat\<rparr>
        in if fst rc = 0
           then m\<lparr>mr_event_step := Some (event_step (snd rc)), mr_event_linger := Some (event_linger (snd rc)),
                  mr_store_type := Some (store_type (snd rc))\<rparr>
           else m)\<rparr>"

text \<open>
  The outcome of a sub-call: a response to send, a rejection, or nothing at all (the \<open>return\<close>s after a
  failed call).
\<close>

datatype 'r outcome = Respond 'r | Reject_request | Silent

definition read_call ::
    "('q, 'l) call_env \<Rightarrow> pb_read_request \<Rightarrow> EventRepos \<times> ('q, 'l) stores_t \<Rightarrow>
     (pb_read_response outcome \<times> EventRepos \<times> ('q, 'l) stores_t) option" where
  "read_call ce rq rs =
     (if rr_ping rq \<noteq> None then Some (Respond (read_ok\<lparr>rs_ping := Some ''[[[pong]]]''\<rparr>), rs)
      else
        (case rr_select rq of
           Some q \<Rightarrow>
             (case cond_of_select q of
                Inl desc \<Rightarrow> Some (Respond (read_ok\<lparr>rs_code := Some (-1), rs_desc := Some desc\<rparr>), rs)
              | Inr cond \<Rightarrow>
                  (case repos_get_event (ce_env ce) (ce_junk ce) (ce_services ce) (ce_timer_ok ce) cond empty_select rs of
                     None \<Rightarrow> None
                   | Some (ret, stat, rs') \<Rightarrow>
                       Some (if ret \<noteq> 0 then Silent else Respond (select_response cond stat), rs')))
         | None \<Rightarrow>
             (case rr_metrics rq of
                Some (ver, service) \<Rightarrow>
                  (case repos_get_metrics (ce_env ce) ver service [] (snd rs) of
                     None \<Rightarrow> None
                   | Some (ret, ms, ss') \<Rightarrow>
                       if ret \<noteq> 0 then Some (Silent, fst rs, ss')
                       else (case get_service_conf service default_EventHandlerConf (fst rs) of
                               None \<Rightarrow> None
                             | Some rc \<Rightarrow> Some (Respond (metrics_response ver service ms rc), fst rs, ss')))
              | None \<Rightarrow>
                  (case rr_services rq of
                     Some ver \<Rightarrow>
                       (case repos_get_services (ce_env ce) ver [] (snd rs) of
                          None \<Rightarrow> None
                        | Some (ret, sv, ss') \<Rightarrow>
                            Some (if ret \<noteq> 0 then Silent
                                  else Respond (read_ok\<lparr>rs_services := Some (ver, sv)\<rparr>), fst rs, ss'))
                   | None \<Rightarrow> Some (Reject_request, rs)))))"

definition read_ops_impl ::
    "pb_codec \<Rightarrow> ('q, 'l) call_env \<Rightarrow> RpcInstance \<Rightarrow> EventRepos \<times> ('q, 'l) stores_t \<Rightarrow>
     (Message option \<times> EventRepos \<times> ('q, 'l) stores_t) option" where
  "read_ops_impl pb ce ri rs =
     (if rq_opcode (rq_header (rpc_request_message ri)) \<noteq> CMD_READ_EVENT
      then Some (reject (ce_alive ce) INVALID_REQUEST ri, rs)
      else
        let res = (case unmarshal_read_request pb (rq_payload (rpc_request_message ri)) of
                     None \<Rightarrow>
                       Some (Respond (read_ok\<lparr>rs_code := Some (-1), rs_desc := Some ''unmarshalling failed.''\<rparr>), rs)
                   | Some rq \<Rightarrow> read_call ce rq rs)
        in case res of
             None \<Rightarrow> None
           | Some (Respond r, rs') \<Rightarrow>
               Some (reply_rpc_message (ce_alive ce) (marshal_read_response pb r) ri, rs')
           | Some (Reject_request, rs') \<Rightarrow> Some (reject (ce_alive ce) INVALID_REQUEST ri, rs')
           | Some (Silent, rs') \<Rightarrow> Some (None, rs'))"

definition report_of :: "pb_report \<Rightarrow> event_report_t" where
  "report_of p =
     \<lparr>er_version = pr_version p, er_timestamp = pr_timestamp p, er_service = pr_service p,
      er_entity_idx = pr_entity_idx p,
      er_data = map (\<lambda>d. \<lparr>ed_msgid = pd_msgid d, ed_metric = pd_metric d, ed_tag = pd_tag d, ed_value = pd_value d\<rparr>)
                  (pr_data p)\<rparr>"

definition write_response :: "int \<Rightarrow> pb_write_response" where
  "write_response ret =
     (if ret \<noteq> 0 then \<lparr>ws_code = Some ret, ws_desc = Some ''add_event failed.''\<rparr>
      else \<lparr>ws_code = Some 0, ws_desc = Some ''OK''\<rparr>)"

definition write_ops_impl ::
    "pb_codec \<Rightarrow> ('q, 'l) call_env \<Rightarrow> RpcInstance \<Rightarrow> EventRepos \<times> ('q, 'l) stores_t \<Rightarrow>
     (Message option \<times> EventRepos \<times> ('q, 'l) stores_t) option" where
  "write_ops_impl pb ce ri rs =
     (if rq_opcode (rq_header (rpc_request_message ri)) \<noteq> CMD_WRIT_EVENT
      then Some (reject (ce_alive ce) INVALID_REQUEST ri, rs)
      else
        (case unmarshal_write_request pb (rq_payload (rpc_request_message ri)) of
           None \<Rightarrow>
             Some (reply_rpc_message (ce_alive ce)
                     (marshal_write_response pb \<lparr>ws_code = Some (-1), ws_desc = Some ''unmarshalling failed''\<rparr>) ri, rs)
         | Some rq \<Rightarrow>
             (case wr_report rq of
                None \<Rightarrow> Some (reject (ce_alive ce) INVALID_REQUEST ri, rs)
              | Some p \<Rightarrow>
                  (case repos_add_event (ce_env ce) (ce_junk ce) (ce_services ce) (ce_timer_ok ce) (ce_now ce)
                          (report_of p) rs of
                     None \<Rightarrow> None
                   | Some (ret, rs') \<Rightarrow>
                       Some (reply_rpc_message (ce_alive ce) (marshal_write_response pb (write_response ret)) ri, rs')))))"

definition monitor_handle_RPC ::
    "pb_codec \<Rightarrow> ('q, 'l) call_env \<Rightarrow> RpcInstance \<Rightarrow> EventRepos \<times> ('q, 'l) stores_t \<Rightarrow>
     (Message option \<times> EventRepos \<times> ('q, 'l) stores_t) option" where
  "monitor_handle_RPC pb ce ri rs =
     (if opcode ri = CMD_READ_EVENT then read_ops_impl pb ce ri rs
      else if opcode ri = CMD_WRIT_EVENT then write_ops_impl pb ce ri rs
      else Some (reject (ce_alive ce) INVALID_REQUEST ri, rs))"

section \<open>Starting the service\<close>

lemma monitor_init_loop_find:
  "ms_instance_name s \<noteq> [] \<Longrightarrow>
   monitor_init_loop junk gs s =
     (case find_group ''instance_name'' (ms_instance_name s) gs of
        None \<Rightarrow> (False, s)
      | Some g \<Rightarrow> monitor_service_conf junk (cfg_int g) s)"
  by (induction gs) (auto simp: Let_def)

text \<open>
  When the configuration has a group for the service, \<open>init\<close> reports success whatever the thread
  numbers in it are: numbers that \<open>RpcServiceBase::handle_rpc_service_conf\<close> accepts become the executor's
  configuration; others are dropped and leave it with zero threads.
\<close>
theorem monitor_init_spec:
  assumes "find_group ''instance_name'' name gs = Some g" "name \<noteq> []"
  shows "monitor_init junk (Some (Some gs)) (mk_MonitorTaskService name) =
           (True, \<lparr>ms_instance_name = name,
                   ms_conf_ptr = Some (case handle_rpc_service_conf (cfg_int g) junk of
                      (ret, conf) \<Rightarrow>
                        if ret = 0 then conf
                        else \<lparr>exec_thread_number = 0, exec_thread_number_hard = 0, exec_thread_step_size = 0\<rparr>)\<rparr>)"
  using assms
  by (simp add: monitor_init_def monitor_init_loop_find mk_MonitorTaskService_def monitor_service_conf_def Let_def
      case_prod_unfold)

theorem monitor_init_spec_witness:
  "fst (monitor_init \<lparr>exec_thread_number = 0, exec_thread_number_hard = 0, exec_thread_step_size = 0\<rparr>
          (Some (Some [\<lparr>cfg_int = [''exec_thread_pool_size'' \<mapsto> 1000], cfg_str = [''instance_name'' \<mapsto> ''monitor'']\<rparr>]))
          (mk_MonitorTaskService ''monitor''))"
  by (subst monitor_init_spec) (simp_all add: lookupValue_def)

section \<open>Answers\<close>

text \<open>The instances the dispatcher queues carry the opcode of their header.\<close>

definition request_of :: "RpcInstance \<Rightarrow> 16 word \<Rightarrow> string \<Rightarrow> bool" where
  "request_of ri opc body \<longleftrightarrow>
     opcode ri = opc \<and> rq_opcode (rq_header (rpc_request_message ri)) = opc \<and> rq_payload (rpc_request_message ri) = body"

text \<open>The reply that carries a serialised body.\<close>

definition reply_with :: "RpcInstance \<Rightarrow> string \<Rightarrow> Message" where
  "reply_with ri body = mk_Message (rs_net_str (mk_RpcResponseMessage (service_id ri) (opcode ri) body))"

lemma write_request_answered:
  assumes pb: "pb_ok pb" and inv: "repos_inv rs" and alive: "ce_alive ce"
    and rq: "request_of ri CMD_WRIT_EVENT (marshal_write_request pb \<lparr>wr_report = Some p\<rparr>)"
  shows "\<exists>ret rs'. repos_add_event (ce_env ce) (ce_junk ce) (ce_services ce) (ce_timer_ok ce) (ce_now ce) (report_of p) rs =
             Some (ret, rs') \<and> repos_inv rs' \<and>
           monitor_handle_RPC pb ce ri rs =
             Some (Some (reply_with ri (marshal_write_response pb (write_response ret))), rs')"
proof -
  obtain ret rs' where "repos_add_event (ce_env ce) (ce_junk ce) (ce_services ce) (ce_timer_ok ce) (ce_now ce) (report_of p) rs =
      Some (ret, rs')" "repos_inv rs'"
    using repos_add_event_inv [OF inv] by blast
  with rq alive show ?thesis
    by (simp add: request_of_def monitor_handle_RPC_def write_ops_impl_def CMD_READ_EVENT_def CMD_WRIT_EVENT_def
        pb_okD [OF pb] reply_rpc_message_def reply_with_def)
qed

text \<open>
  Every report is answered: a write request on a living connection, over a repository in its invariant, is
  taken in as \<open>add_event\<close> takes it, keeps the invariant, and gets a reply whose body decodes to the code
  that \<open>add_event\<close> returned.
\<close>
theorem report_answered:
  assumes "pb_ok pb" "repos_inv rs" "ce_alive ce"
    and "request_of ri CMD_WRIT_EVENT (marshal_write_request pb \<lparr>wr_report = Some p\<rparr>)"
  shows "\<exists>ret rs' body resp. monitor_handle_RPC pb ce ri rs = Some (Some (reply_with ri body), rs') \<and> repos_inv rs' \<and>
           repos_add_event (ce_env ce) (ce_junk ce) (ce_services ce) (ce_timer_ok ce) (ce_now ce) (report_of p) rs =
             Some (ret, rs') \<and>
           unmarshal_write_response pb body = Some resp \<and> ws_code resp = Some ret"
  using write_request_answered [OF assms] pb_okD(4) [OF assms(1)]
  by (fastforce simp: write_response_def)

text \<open>
  A query that finds its handler and whose store returns 0 is answered with exactly what the store put into
  the result: the summary and the detail lines, in order, and the condition's version.
\<close>
theorem select_answered:
  assumes pb: "pb_ok pb" and alive: "ce_alive ce"
    and rq: "request_of ri CMD_READ_EVENT (marshal_read_request pb q)" "rr_ping q = None" "rr_select q = Some sq"
      "cond_of_select sq = Inr cond"
    and get: "repos_get_event (ce_env ce) (ce_junk ce) (ce_services ce) (ce_timer_ok ce) cond empty_select rs = Some (0, stat, rs')"
  shows "\<exists>body resp sel. monitor_handle_RPC pb ce ri rs = Some (Some (reply_with ri body), rs') \<and>
           unmarshal_read_response pb body = Some resp \<and> rs_code resp = Some 0 \<and> rs_select resp = Some sel \<and>
           sr_summary sel = Some (es_summary stat) \<and> sr_info sel = es_info stat \<and>
           sr_timestamp sel = es_timestamp stat \<and> sr_version sel = ec_version cond"
proof -
  have "monitor_handle_RPC pb ce ri rs =
      Some (Some (reply_with ri (marshal_read_response pb (select_response cond stat))), rs')"
    using rq alive get
    by (simp add: request_of_def monitor_handle_RPC_def read_ops_impl_def read_call_def pb_okD [OF pb]
        reply_rpc_message_def reply_with_def)
  then show ?thesis
    using pb_okD(2) [OF pb, of "select_response cond stat"] by (fastforce simp: select_response_def read_ok_def)
qed

lemma get_metrics_error:
  "repos_get_metrics env ver service ms ss = Some (ret, ms', ss') \<Longrightarrow> ret \<noteq> 0 \<longleftrightarrow> ver \<noteq> ''1.0.0'' \<or> service = []"
  by (auto simp: repos_get_metrics_def split: if_splits)

lemma get_services_error:
  "repos_get_services env ver sv ss = Some (ret, sv', ss') \<Longrightarrow> ret \<noteq> 0 \<longleftrightarrow> ver \<noteq> ''1.0.0''"
  by (auto simp: repos_get_services_def split: if_splits)

text \<open>What the service does not answer: a query whose \<open>get_event\<close> fails, and the two listings with bad parameters.\<close>

definition unanswered :: "('q, 'l) call_env \<Rightarrow> EventRepos \<times> ('q, 'l) stores_t \<Rightarrow> pb_read_request \<Rightarrow> bool" where
  "unanswered ce rs q \<longleftrightarrow>
     rr_ping q = None \<and>
     (case rr_select q of
        Some sq \<Rightarrow>
          (case cond_of_select sq of
             Inl _ \<Rightarrow> False
           | Inr cond \<Rightarrow>
               (case repos_get_event (ce_env ce) (ce_junk ce) (ce_services ce) (ce_timer_ok ce) cond empty_select rs of
                  None \<Rightarrow> False | Some (ret, _) \<Rightarrow> ret \<noteq> 0))
      | None \<Rightarrow>
          (case rr_metrics q of
             Some (ver, service) \<Rightarrow> ver \<noteq> ''1.0.0'' \<or> service = []
           | None \<Rightarrow> (case rr_services q of Some ver \<Rightarrow> ver \<noteq> ''1.0.0'' | None \<Rightarrow> False)))"

lemma read_call_silent:
  assumes "read_call ce q rs = Some (out, rs')"
  shows "out = Silent \<longleftrightarrow> unanswered ce rs q"
  using assms get_metrics_error get_services_error
  by (fastforce simp: read_call_def unanswered_def split: if_splits option.splits sum.splits prod.splits)

text \<open>
  C35. On a living connection the service answers every request it handles, except exactly those read requests
  whose call fails: there it returns without a reply and the client waits in vain.
\<close>
theorem unanswered_requests:
  assumes "ce_alive ce" "monitor_handle_RPC pb ce ri rs = Some (m, rs')"
  shows "m = None \<longleftrightarrow>
           opcode ri = CMD_READ_EVENT \<and> rq_opcode (rq_header (rpc_request_message ri)) = CMD_READ_EVENT \<and>
           (\<exists>q. unmarshal_read_request pb (rq_payload (rpc_request_message ri)) = Some q \<and> unanswered ce rs q)"
proof (cases "opcode ri = CMD_READ_EVENT")
  case True
  let ?op = "rq_opcode (rq_header (rpc_request_message ri))"
  let ?u = "unmarshal_read_request pb (rq_payload (rpc_request_message ri))"
  have eq: "read_ops_impl pb ce ri rs = Some (m, rs')" using assms(2) True by (simp add: monitor_handle_RPC_def)
  show ?thesis
  proof (cases "?op = CMD_READ_EVENT \<and> ?u \<noteq> None")
    case False
    with assms(1) eq have "m \<noteq> None" by (auto simp: read_ops_impl_def reject_def reply_rpc_message_def split: if_splits)
    with False show ?thesis by auto
  next
    case t: True
    then obtain q where q: "?u = Some q" by blast
    obtain out where out: "read_call ce q rs = Some (out, rs')"
      "m = None \<longleftrightarrow> out = Silent"
      using eq t q assms(1)
      by (auto simp: read_ops_impl_def reject_def reply_rpc_message_def split: option.splits outcome.splits)
    with read_call_silent [OF out(1)] True t q show ?thesis by simp
  qed
next
  case False
  with assms show ?thesis
    by (auto simp: monitor_handle_RPC_def write_ops_impl_def reject_def reply_rpc_message_def Let_def
        split: if_splits option.splits)
qed

section \<open>Witnesses\<close>

definition example_call :: "(unit, unit) call_env" where
  "example_call =
     \<lparr>ce_env = example_env, ce_junk = 0, ce_services = Some None, ce_timer_ok = True, ce_now = 100, ce_alive = True\<rparr>"

definition example_pb_report :: pb_report where
  "example_pb_report =
     \<lparr>pr_version = ''1.0.0'', pr_timestamp = 100, pr_service = ''svc'', pr_entity_idx = '''',
      pr_data = [\<lparr>pd_msgid = 1, pd_metric = ''m'', pd_value = 7, pd_tag = ''t''\<rparr>]\<rparr>"

definition example_instance :: "16 word \<Rightarrow> string \<Rightarrow> RpcInstance" where
  "example_instance opc body =
     (mk_RpcInstance 0 '''' 7 0)\<lparr>opcode := opc, service_id := 1, rpc_request_message := mk_RpcRequestMessage 1 opc body\<rparr>"

lemma example_instance_request: "request_of (example_instance opc body) opc body"
  by (simp add: request_of_def example_instance_def mk_RpcRequestMessage_def)

definition example_stores :: "(unit, unit) stores_t" where
  "example_stores = no_stores\<lparr>leveldb_ptr := Some ()\<rparr>"

lemma example_repos_inv: "repos_inv (example_repos, example_stores)"
  using repos_init_inv [OF example_init] by (simp add: example_stores_def)

theorem report_answered_witness:
  "\<exists>ret rs' body resp. monitor_handle_RPC digits_codec example_call
       (example_instance CMD_WRIT_EVENT (marshal_write_request digits_codec \<lparr>wr_report = Some example_pb_report\<rparr>))
       (example_repos, example_stores) =
     Some (Some (reply_with (example_instance CMD_WRIT_EVENT
       (marshal_write_request digits_codec \<lparr>wr_report = Some example_pb_report\<rparr>)) body), rs') \<and>
     unmarshal_write_response digits_codec body = Some resp \<and> ws_code resp = Some ret"
  using report_answered [OF digits_codec_ok example_repos_inv _ example_instance_request, of example_call example_pb_report]
  by (fastforce simp: example_call_def)

definition example_select_rq :: pb_select_rq where
  "example_select_rq =
     \<lparr>sq_version = ''1.0.0'', sq_service = ''svc'', sq_metric = ''rps'', sq_tm_interval = 60, sq_tm_start = None,
      sq_entity_idx = None, sq_tag = None, sq_groupby = Some 2, sq_orderby = None, sq_orders = None, sq_limit = None\<rparr>"

definition example_query :: pb_read_request where
  "example_query = \<lparr>rr_ping = None, rr_select = Some example_select_rq, rr_metrics = None, rr_services = None\<rparr>"

lemma example_cond_of_select:
  "cond_of_select example_select_rq =
     Inr (default_cond\<lparr>ec_tm_interval := 60, ec_service := ''svc'', ec_metric := ''rps'', ec_groupby := kGroupbyTag\<rparr>)"
  by (simp add: cond_of_select_def example_select_rq_def GroupType_of_def OrderByType_of_def OrderType_of_def default_cond_def)

lemma example_get_event:
  "\<exists>rs'. repos_get_event example_env 0 (Some None) True
     (default_cond\<lparr>ec_tm_interval := 60, ec_service := ''svc'', ec_metric := ''rps'', ec_groupby := kGroupbyTag\<rparr>)
     empty_select (example_repos, example_stores) = Some (0, empty_select, rs')"
  by (simp add: repos_get_event_def default_cond_def find_create_event_handler_def example_repos_def example_stores_def
      eh_init_def mk_EventHandler_def StoreFactory_def no_stores_def construct_identity_def eh_get_event_def
      virtual_call_def store_kind_def example_env_def example_store_if_def Let_def)

theorem select_answered_witness:
  "\<exists>rs' body resp sel. monitor_handle_RPC digits_codec example_call
       (example_instance CMD_READ_EVENT (marshal_read_request digits_codec example_query)) (example_repos, example_stores) =
     Some (Some (reply_with (example_instance CMD_READ_EVENT (marshal_read_request digits_codec example_query)) body), rs') \<and>
     unmarshal_read_response digits_codec body = Some resp \<and> rs_select resp = Some sel \<and>
     sr_summary sel = Some (es_summary empty_select)"
proof -
  obtain rs' where "repos_get_event (ce_env example_call) (ce_junk example_call) (ce_services example_call)
      (ce_timer_ok example_call)
      (default_cond\<lparr>ec_tm_interval := 60, ec_service := ''svc'', ec_metric := ''rps'', ec_groupby := kGroupbyTag\<rparr>)
      empty_select (example_repos, example_stores) = Some (0, empty_select, rs')"
    using example_get_event by (auto simp: example_call_def)
  from select_answered [OF digits_codec_ok _ example_instance_request _ _ example_cond_of_select this, of example_query]
  show ?thesis by (fastforce simp: example_call_def example_query_def)
qed

definition example_bad_query :: pb_read_request where
  "example_bad_query = \<lparr>rr_ping = None, rr_select = None, rr_metrics = Some (''2.0.0'', ''svc''), rr_services = None\<rparr>"

theorem unanswered_requests_witness:
  "\<exists>rs'. monitor_handle_RPC digits_codec example_call
       (example_instance CMD_READ_EVENT (marshal_read_request digits_codec example_bad_query)) (example_repos, example_stores) =
     Some (None, rs')"
proof -
  let ?ri = "example_instance CMD_READ_EVENT (marshal_read_request digits_codec example_bad_query)"
  have rq: "opcode ?ri = CMD_READ_EVENT" "rq_opcode (rq_header (rpc_request_message ?ri)) = CMD_READ_EVENT"
    "unmarshal_read_request digits_codec (rq_payload (rpc_request_message ?ri)) = Some example_bad_query"
    using example_instance_request [of CMD_READ_EVENT "marshal_read_request digits_codec example_bad_query"]
    by (simp_all add: request_of_def pb_okD [OF digits_codec_ok])
  obtain m rs' where m: "monitor_handle_RPC digits_codec example_call ?ri (example_repos, example_stores) = Some (m, rs')"
    using rq by (simp add: monitor_handle_RPC_def read_ops_impl_def read_call_def example_bad_query_def repos_get_metrics_def)
  have "unanswered example_call (example_repos, example_stores) example_bad_query"
    by (simp add: unanswered_def example_bad_query_def)
  with unanswered_requests [OF _ m] rq m show ?thesis by (simp add: example_call_def)
qed

end
