(* ===== verification/NetServer.thy ===== *)
theory NetServer
  imports ThreadPool TcpConnAsync
begin

text \<open>
  \<open>source/Network/NetServer.h\<close> and \<open>NetServer.cpp\<close>: the listening side of the server, with its
  configuration, the gates a new connection has to pass, and the token bucket behind \<open>service_speed\<close>.

  The feeding timer is known by whether \<open>timed_feed_token_\<close> is set, how many waits are pending on it and
  how many handlers are queued with \<open>operation_aborted\<close>: as documented for \<open>steady_timer\<close>, setting
  a new expiry, cancelling and destroying the timer queue the handlers of its pending waits that way.
  The number of live connections is the static counter of \<open>TcpConnAsync\<close>; an accepted connection
  is what its \<open>start\<close> makes of it.
\<close>

section \<open>Configuration\<close>

record NetConf =
  service_enabled :: bool
  service_speed :: int
  service_token :: int
  service_concurrency :: int
  session_cancel_time_out :: int
  nc_ops_cancel_time_out :: int
  nc_send_max_msg_size :: int
  nc_recv_max_msg_size :: int
  bind_addr :: string
  bind_port :: int
  safe_ip :: "string list"
  backlog_size :: int
  io_thread_number :: int
  timed_feed_token :: bool
  feed_waits :: nat
  feed_aborted :: nat

definition default_NetConf :: NetConf where
  "default_NetConf =
     \<lparr>service_enabled = True, service_speed = 0, service_token = 0, service_concurrency = 0,
      session_cancel_time_out = 0, nc_ops_cancel_time_out = 0, nc_send_max_msg_size = 0, nc_recv_max_msg_size = 0,
      bind_addr = [], bind_port = 0, safe_ip = [], backlog_size = 10, io_thread_number = 1,
      timed_feed_token = False, feed_waits = 0, feed_aborted = 0\<rparr>"

text \<open>The limits a connection reads from its server.\<close>

definition conn_conf_of :: "NetConf \<Rightarrow> conn_conf" where
  "conn_conf_of c =
     \<lparr>ops_cancel_time_out = nc_ops_cancel_time_out c, send_max_msg_size = nc_send_max_msg_size c,
      recv_max_msg_size = nc_recv_max_msg_size c\<rparr>"

record net_cfg = cfg_group +
  cfg_bool :: "string \<Rightarrow> bool option"

fun ip_loop :: "string list \<Rightarrow> string list \<Rightarrow> string list" where
  "ip_loop [] ip_set = ip_set"
| "ip_loop (t # ts) ip_set =
     (let tmp = trim_copy t in if tmp = [] then ip_loop ts ip_set else ip_loop ts (os_insert tmp ip_set))"

text \<open>\<open>load_conf\<close> assigns group by group and returns at the first bad value.\<close>

definition load_step :: "(NetConf \<Rightarrow> NetConf) \<times> (NetConf \<Rightarrow> bool) \<Rightarrow> bool \<times> NetConf \<Rightarrow> bool \<times> NetConf" where
  "load_step ab r =
     (if \<not> fst r then r else let c = fst ab (snd r) in (\<not> snd ab c, c))"

definition load_safe_ip :: "net_cfg \<Rightarrow> NetConf \<Rightarrow> NetConf" where
  "load_safe_ip g c =
     (let ip_list = lookupValue (cfg_str g) ''rpc.network.safe_ip'' []
      in if ip_list \<noteq> [] then c\<lparr>safe_ip := ip_loop (split_on CHR '';'' ip_list) []\<rparr> else c)"

definition load_conf :: "net_cfg \<Rightarrow> NetConf \<Rightarrow> bool \<times> NetConf" where
  "load_conf g c0 =
     (let num = (\<lambda>name. lookupValue (cfg_int g) name)
      in fold load_step
           [(\<lambda>c. c\<lparr>bind_addr := lookupValue (cfg_str g) ''rpc.network.bind_addr'' (bind_addr c),
                   bind_port := num ''rpc.network.bind_port'' (bind_port c)\<rparr>,
             \<lambda>c. bind_addr c = [] \<or> bind_port c \<le> 0),
            (\<lambda>c. (load_safe_ip g c)\<lparr>backlog_size := num ''rpc.network.backlog_size'' (backlog_size (load_safe_ip g c))\<rparr>,
             \<lambda>c. backlog_size c < 0),
            (\<lambda>c. c\<lparr>io_thread_number := num ''rpc.network.io_thread_pool_size'' (io_thread_number c)\<rparr>,
             \<lambda>c. io_thread_number c < 0),
            (\<lambda>c. c\<lparr>nc_ops_cancel_time_out := num ''rpc.network.ops_cancel_time_out'' (nc_ops_cancel_time_out c)\<rparr>,
             \<lambda>c. nc_ops_cancel_time_out c < 0),
            (\<lambda>c. c\<lparr>session_cancel_time_out := num ''rpc.network.session_cancel_time_out'' (session_cancel_time_out c)\<rparr>,
             \<lambda>c. session_cancel_time_out c < 0),
            (\<lambda>c. c\<lparr>service_enabled := lookupValue (cfg_bool g) ''rpc.network.service_enable'' (service_enabled c),
                   service_speed := num ''rpc.network.service_speed'' (service_speed c)\<rparr>,
             \<lambda>c. service_speed c < 0),
            (\<lambda>c. c\<lparr>service_concurrency := num ''rpc.network.service_concurrency'' (service_concurrency c)\<rparr>,
             \<lambda>c. service_concurrency c < 0),
            (\<lambda>c. c\<lparr>nc_send_max_msg_size := num ''rpc.network.send_max_msg_size'' (nc_send_max_msg_size c),
                   nc_recv_max_msg_size := num ''rpc.network.recv_max_msg_size'' (nc_recv_max_msg_size c)\<rparr>,
             \<lambda>c. nc_send_max_msg_size c \<noteq> 0 \<and> nc_send_max_msg_size c \<le> 32 \<or>
                 nc_recv_max_msg_size c \<noteq> 0 \<and> nc_recv_max_msg_size c \<le> 32)]
           (True, c0))"

definition check_safe_ip :: "string \<Rightarrow> NetConf \<Rightarrow> bool" where
  "check_safe_ip ip c \<longleftrightarrow> safe_ip c = [] \<or> ip \<in> set (safe_ip c)"

section \<open>Tokens\<close>

definition get_service_token :: "NetConf \<Rightarrow> bool \<times> NetConf" where
  "get_service_token c =
     (if \<not> service_enabled c then (False, c)
      else if service_speed c = 0 then (True, c)
      else if service_token c \<le> 0 then (False, c)
      else (True, c\<lparr>service_token := service_token c - 1\<rparr>))"

definition withdraw_service_token :: "NetConf \<Rightarrow> NetConf" where
  "withdraw_service_token c = c\<lparr>service_token := to_i32 (service_token c + 1)\<rparr>"

definition feed_service_token :: "NetConf \<Rightarrow> NetConf" where
  "feed_service_token c = c\<lparr>service_token := service_speed c\<rparr>"

text \<open>\<open>timed_feed_token_.reset()\<close>, \<open>reset(new steady_timer)\<close>, and \<open>expires_from_now\<close> with \<open>async_wait\<close>.\<close>

definition drop_timer :: "NetConf \<Rightarrow> NetConf" where
  "drop_timer c = c\<lparr>timed_feed_token := False, feed_aborted := feed_aborted c + feed_waits c, feed_waits := 0\<rparr>"

definition new_timer :: "NetConf \<Rightarrow> NetConf" where
  "new_timer c = (drop_timer c)\<lparr>timed_feed_token := True\<rparr>"

definition arm_timer :: "NetConf \<Rightarrow> NetConf" where
  "arm_timer c = c\<lparr>feed_aborted := feed_aborted c + feed_waits c, feed_waits := 1\<rparr>"

text \<open>The handler does not look at \<open>ec\<close>; without a timer it would use a null pointer.\<close>

definition timed_feed_token_handler :: "NetConf \<Rightarrow> NetConf blocking" where
  "timed_feed_token_handler c =
     (if service_speed c = 0 then Returned (drop_timer c)
      else if \<not> timed_feed_token c then Crashed
      else Returned (arm_timer (feed_service_token c)))"

text \<open>The two ways it is called: a pending wait expires, or a queued aborted one is run.\<close>

definition wait_expires :: "NetConf \<Rightarrow> NetConf blocking" where
  "wait_expires c = timed_feed_token_handler (c\<lparr>feed_waits := feed_waits c - 1\<rparr>)"

definition aborted_runs :: "NetConf \<Rightarrow> NetConf blocking" where
  "aborted_runs c = timed_feed_token_handler (c\<lparr>feed_aborted := feed_aborted c - 1\<rparr>)"

section \<open>The server\<close>

record NetServer =
  instance_name :: string
  ns_conf :: NetConf
  accepts :: nat
  current_concurrency :: int
  io_service_threads :: ThreadPool
  stopped :: bool

definition mk_NetServer :: "string \<Rightarrow> NetServer" where
  "mk_NetServer name =
     \<lparr>instance_name = name, ns_conf = default_NetConf, accepts = 0, current_concurrency = 0,
      io_service_threads = \<lparr>pool_size = 1, workers = []\<rparr>, stopped = False\<rparr>"

text \<open>\<open>valid_addr\<close>: whether \<open>address::from_string\<close> accepts the address; \<open>addrs\<close>: the new threads' addresses.\<close>

definition net_init :: "(string \<Rightarrow> bool) \<Rightarrow> nat list \<Rightarrow> net_cfg \<Rightarrow> NetServer \<Rightarrow> (bool \<times> NetServer) blocking" where
  "net_init valid_addr addrs g ns =
     (case load_conf g (ns_conf ns) of
        (False, c) \<Rightarrow> Returned (False, ns\<lparr>ns_conf := c\<rparr>)
      | (True, c) \<Rightarrow>
          if \<not> valid_addr (bind_addr c) then Threw
          else
            let c1 = (if service_speed c \<noteq> 0 then arm_timer (new_timer c) else c);
                (ok, pool) = init_threads True (word_of_int (io_thread_number c1)) addrs (io_service_threads ns)
            in Returned (ok, ns\<lparr>ns_conf := c1, io_service_threads := pool\<rparr>))"

definition do_accept :: "NetServer \<Rightarrow> NetServer" where
  "do_accept ns = ns\<lparr>accepts := accepts ns + 1\<rparr>"

text \<open>\<open>service\<close>: \<open>bind_ok\<close> says whether opening, binding and listening go through.\<close>

definition net_service :: "bool \<Rightarrow> NetServer \<Rightarrow> NetServer blocking" where
  "net_service bind_ok ns =
     (if \<not> bind_ok then Threw
      else Returned (do_accept (ns\<lparr>io_service_threads := start_tasks (io_service_threads ns)\<rparr>)))"

datatype accept_result = AcceptFailed | NoRemote | UnsafeIp | NoToken | TooMany | Accepted TcpConnAsync

definition accept_handler ::
    "(string \<Rightarrow> Message option) \<Rightarrow> error_code \<Rightarrow> string option \<Rightarrow> NetServer \<Rightarrow> accept_result \<times> NetServer" where
  "accept_handler disp ec remote ns0 =
     (let ns = ns0\<lparr>accepts := accepts ns0 - 1\<rparr>;
          (r, ns') =
            (if ec \<noteq> NoError then (AcceptFailed, ns)
             else
               (case remote of
                  None \<Rightarrow> (NoRemote, ns)
                | Some remote_ip \<Rightarrow>
                    if \<not> check_safe_ip remote_ip (ns_conf ns) then (UnsafeIp, ns)
                    else
                      (case get_service_token (ns_conf ns) of
                         (False, c) \<Rightarrow> (NoToken, ns\<lparr>ns_conf := c\<rparr>)
                       | (True, c) \<Rightarrow>
                           if service_concurrency c \<noteq> 0 \<and> service_concurrency c < current_concurrency ns
                           then (TooMany, ns\<lparr>ns_conf := c\<rparr>)
                           else (Accepted (start disp (conn_conf_of c) new_conn),
                                 ns\<lparr>ns_conf := c, current_concurrency := to_i32 (current_concurrency ns + 1)\<rparr>))))
      in (r, do_accept ns'))"

text \<open>The destructor of a connection.\<close>

definition conn_destroyed :: "NetServer \<Rightarrow> NetServer" where
  "conn_destroyed ns = ns\<lparr>current_concurrency := to_i32 (current_concurrency ns - 1)\<rparr>"

text \<open>
  One turn of \<open>io_service_run\<close> on a thread with status \<open>st\<close>; \<open>failed\<close> says whether \<open>io_service::run\<close> ends with
  an error. The result is the thread's next status, \<open>kDead\<close> when the loop is left.
\<close>

definition io_service_run_turn :: "ThreadStatus \<Rightarrow> bool \<Rightarrow> ThreadStatus" where
  "io_service_run_turn st failed =
     (if st = kTerminating then kDead
      else if st = kSuspend then st
      else if failed then kDead else st)"

definition io_service_stop_graceful :: "NetServer \<Rightarrow> int \<times> NetServer" where
  "io_service_stop_graceful ns =
     (0, ns\<lparr>stopped := True, io_service_threads := graceful_stop_tasks (io_service_threads ns)\<rparr>)"

definition io_service_join :: "NetServer \<Rightarrow> int \<times> NetServer" where
  "io_service_join ns = (0, ns\<lparr>io_service_threads := join_tasks (io_service_threads ns)\<rparr>)"

definition set_speed :: "int \<Rightarrow> NetConf \<Rightarrow> NetConf" where
  "set_speed n c =
     (if service_speed c = n then c
      else
        let c1 = c\<lparr>service_speed := n\<rparr>
        in if n \<noteq> 0 then arm_timer (new_timer c1)
           else if timed_feed_token c1 then drop_timer c1 else c1)"

definition net_module_runtime :: "net_cfg \<Rightarrow> NetServer \<Rightarrow> int \<times> NetServer" where
  "net_module_runtime g ns =
     (case load_conf g default_NetConf of
        (False, _) \<Rightarrow> (-1, ns)
      | (True, conf) \<Rightarrow>
          let c = (ns_conf ns)\<lparr>session_cancel_time_out := session_cancel_time_out conf,
                               nc_ops_cancel_time_out := nc_ops_cancel_time_out conf, safe_ip := safe_ip conf\<rparr>
          in (0, ns\<lparr>ns_conf := (set_speed (service_speed conf) c)\<lparr>service_concurrency := service_concurrency conf\<rparr>\<rparr>))"

definition net_module_status :: "NetServer \<Rightarrow> string \<times> string \<times> string" where
  "net_module_status ns =
     (let c = ns_conf ns; num = (\<lambda>name v. tab @ name @ dec_int v @ endl)
      in (''tzrpc'', ''NetServer'',
          tab @ ''instance_name: '' @ instance_name ns @ endl @
          tab @ ''service_addr: '' @ bind_addr c @ ''@'' @ dec_int (bind_port c) @ endl @
          num ''backlog_size: '' (backlog_size c) @
          num ''io_thread_pool_size: '' (io_thread_number c) @
          tab @ ''safe_ips: '' @ concat (map (\<lambda>ip. ip @ '', '') (safe_ip c)) @ endl @
          tab @ endl @
          tab @ ''service_enabled: '' @ (if service_enabled c then ''true'' else ''false'') @ endl @
          num ''service_speed_limit(tps): '' (service_speed c) @
          num ''service_concurrency: '' (service_concurrency c) @
          num ''session_cancel_time_out: '' (session_cancel_time_out c) @
          num ''ops_cancel_time_out: '' (nc_ops_cancel_time_out c)))"

section \<open>Valid configurations\<close>

definition net_conf_ok :: "NetConf \<Rightarrow> bool" where
  "net_conf_ok c \<longleftrightarrow>
     bind_addr c \<noteq> [] \<and> 0 < bind_port c \<and> [] \<notin> set (safe_ip c) \<and> sorted_wrt (<) (safe_ip c) \<and> 0 \<le> backlog_size c \<and>
     0 \<le> io_thread_number c \<and> 0 \<le> nc_ops_cancel_time_out c \<and> 0 \<le> session_cancel_time_out c \<and>
     0 \<le> service_speed c \<and> 0 \<le> service_concurrency c \<and>
     (nc_send_max_msg_size c = 0 \<or> 32 < nc_send_max_msg_size c) \<and>
     (nc_recv_max_msg_size c = 0 \<or> 32 < nc_recv_max_msg_size c)"

lemma ip_loop_ok:
  "sorted_wrt (<) acc \<Longrightarrow> [] \<notin> set acc \<Longrightarrow> sorted_wrt (<) (ip_loop ts acc) \<and> [] \<notin> set (ip_loop ts acc)"
  by (induction ts arbitrary: acc) (simp_all add: Let_def sorted_os_insert set_os_insert)

lemma load_step_True:
  "load_step (assign, bad) r = (True, c') \<longleftrightarrow> (\<exists>c. r = (True, c) \<and> c' = assign c \<and> \<not> bad c')"
  by (cases r) (auto simp: load_step_def Let_def)

lemma load_safe_ip_simps [simp]:
  "bind_addr (load_safe_ip g c) = bind_addr c" "bind_port (load_safe_ip g c) = bind_port c"
  "backlog_size (load_safe_ip g c) = backlog_size c" "service_token (load_safe_ip g c) = service_token c"
  by (simp_all add: load_safe_ip_def Let_def)

lemma load_safe_ip_ok:
  "sorted_wrt (<) (safe_ip c) \<Longrightarrow> [] \<notin> set (safe_ip c) \<Longrightarrow>
   sorted_wrt (<) (safe_ip (load_safe_ip g c)) \<and> [] \<notin> set (safe_ip (load_safe_ip g c))"
  using ip_loop_ok [of "[]"] by (simp add: load_safe_ip_def Let_def)

text \<open>The steps for any way \<open>f\<close> of looking values up.\<close>

lemma load_steps_ok:
  assumes "fold load_step
      [(\<lambda>c. c\<lparr>bind_addr := fa (bind_addr c), bind_port := fp (bind_port c)\<rparr>, \<lambda>c. bind_addr c = [] \<or> bind_port c \<le> 0),
       (\<lambda>c. (load_safe_ip g c)\<lparr>backlog_size := fb (backlog_size (load_safe_ip g c))\<rparr>, \<lambda>c. backlog_size c < 0),
       (\<lambda>c. c\<lparr>io_thread_number := fi (io_thread_number c)\<rparr>, \<lambda>c. io_thread_number c < 0),
       (\<lambda>c. c\<lparr>nc_ops_cancel_time_out := fo (nc_ops_cancel_time_out c)\<rparr>, \<lambda>c. nc_ops_cancel_time_out c < 0),
       (\<lambda>c. c\<lparr>session_cancel_time_out := fs (session_cancel_time_out c)\<rparr>, \<lambda>c. session_cancel_time_out c < 0),
       (\<lambda>c. c\<lparr>service_enabled := fe (service_enabled c), service_speed := fv (service_speed c)\<rparr>,
        \<lambda>c. service_speed c < 0),
       (\<lambda>c. c\<lparr>service_concurrency := fc (service_concurrency c)\<rparr>, \<lambda>c. service_concurrency c < 0),
       (\<lambda>c. c\<lparr>nc_send_max_msg_size := fx (nc_send_max_msg_size c), nc_recv_max_msg_size := fr (nc_recv_max_msg_size c)\<rparr>,
        \<lambda>c. nc_send_max_msg_size c \<noteq> 0 \<and> nc_send_max_msg_size c \<le> 32 \<or>
            nc_recv_max_msg_size c \<noteq> 0 \<and> nc_recv_max_msg_size c \<le> 32)] (True, c) = (True, c')"
    and "sorted_wrt (<) (safe_ip c)" "[] \<notin> set (safe_ip c)"
  shows "net_conf_ok c' \<and> service_token c' = service_token c"
  using assms load_safe_ip_ok
  by (auto simp: load_step_True net_conf_ok_def)

lemma load_conf_ok:
  assumes "load_conf g c = (True, c')" "sorted_wrt (<) (safe_ip c)" "[] \<notin> set (safe_ip c)"
  shows "net_conf_ok c' \<and> service_token c' = service_token c"
  using assms(1) unfolding load_conf_def Let_def by (rule load_steps_ok [OF _ assms(2,3)])

lemma timer_ops_simps [simp]:
  "service_speed (drop_timer c) = service_speed c" "service_speed (new_timer c) = service_speed c"
  "service_speed (arm_timer c) = service_speed c" "net_conf_ok (drop_timer c) = net_conf_ok c"
  "net_conf_ok (new_timer c) = net_conf_ok c" "net_conf_ok (arm_timer c) = net_conf_ok c"
  by (simp_all add: drop_timer_def new_timer_def arm_timer_def net_conf_ok_def)

lemma set_speed_ok: "net_conf_ok c \<Longrightarrow> 0 \<le> n \<Longrightarrow> net_conf_ok (set_speed n c)"
  by (simp add: set_speed_def Let_def) (simp add: net_conf_ok_def)

lemma net_init_conf_ok:
  assumes "net_init valid_addr addrs g (mk_NetServer name) = Returned (True, ns)"
  shows "net_conf_ok (ns_conf ns) \<and> accepts ns = 0"
proof -
  let ?d = "default_NetConf"
  have d: "sorted_wrt (<) (safe_ip ?d)" "[] \<notin> set (safe_ip ?d)" by (simp_all add: default_NetConf_def)
  from assms obtain c where "load_conf g ?d = (True, c)" "accepts ns = 0"
    and ns: "ns_conf ns = (if service_speed c \<noteq> 0 then arm_timer (new_timer c) else c)"
    by (auto simp: net_init_def mk_NetServer_def Let_def split: prod.splits bool.splits if_splits)
  from load_conf_ok [OF this(1) d] ns this(2) show ?thesis by simp
qed

text \<open>
  C23. Starting succeeds only with a valid configuration, and a runtime update keeps it valid: it takes over the
  new values of a valid file and rejects an invalid one with no effect.
\<close>
theorem net_conf_stays_ok:
  assumes "net_init valid_addr addrs g (mk_NetServer name) = Returned (True, ns)"
  shows "net_conf_ok (ns_conf ns) \<and>
    (case net_module_runtime g' ns of
       (ret, ns') \<Rightarrow> net_conf_ok (ns_conf ns') \<and> (ret = 0 \<or> ret = -1 \<and> ns' = ns))"
proof -
  let ?d = "default_NetConf"
  have d: "sorted_wrt (<) (safe_ip ?d)" "[] \<notin> set (safe_ip ?d)" by (simp_all add: default_NetConf_def)
  have ok: "net_conf_ok (ns_conf ns)" using net_init_conf_ok [OF assms] by simp
  have "net_conf_ok (ns_conf (snd (net_module_runtime g' ns)))"
  proof (cases "load_conf g' ?d")
    case (Pair b conf)
    show ?thesis
    proof (cases b)
      case True
      let ?c = "(ns_conf ns)\<lparr>session_cancel_time_out := session_cancel_time_out conf,
        nc_ops_cancel_time_out := nc_ops_cancel_time_out conf, safe_ip := safe_ip conf\<rparr>"
      from load_conf_ok [of g' ?d conf] Pair True d have conf: "net_conf_ok conf" by simp
      with ok have "net_conf_ok ?c" by (simp add: net_conf_ok_def)
      with conf have "net_conf_ok (set_speed (service_speed conf) ?c)"
        by (intro set_speed_ok) (simp_all add: net_conf_ok_def)
      with conf Pair True show ?thesis by (simp add: net_module_runtime_def Let_def net_conf_ok_def)
    qed (use ok Pair in \<open>simp add: net_module_runtime_def\<close>)
  qed
  with ok show ?thesis
    by (auto simp: net_module_runtime_def Let_def split: prod.splits bool.splits)
qed

section \<open>The gates\<close>

fun accepted :: "accept_result \<Rightarrow> nat" where
  "accepted (Accepted c) = 1"
| "accepted _ = 0"

text \<open>Connections come in and end; \<open>n\<close> counts those that were accepted.\<close>

inductive net_reach :: "(string \<Rightarrow> Message option) \<Rightarrow> NetServer \<Rightarrow> nat \<Rightarrow> NetServer \<Rightarrow> bool" for disp ns0 where
  initially: "net_reach disp ns0 0 ns0"
| incoming: "net_reach disp ns0 n ns \<Longrightarrow> accept_handler disp ec remote ns = (r, ns') \<Longrightarrow>
    net_reach disp ns0 (n + accepted r) ns'"
| closed: "net_reach disp ns0 n ns \<Longrightarrow> 0 < current_concurrency ns \<Longrightarrow> net_reach disp ns0 n (conn_destroyed ns)"

lemma accept_handler_effect:
  assumes "accept_handler disp ec remote ns = (r, ns')" "service_speed (ns_conf ns) \<noteq> 0" "0 \<le> service_token (ns_conf ns)"
  shows "int (accepted r) + service_token (ns_conf ns') \<le> service_token (ns_conf ns)"
    "0 \<le> service_token (ns_conf ns')" "service_speed (ns_conf ns') = service_speed (ns_conf ns)"
  using assms
  by (auto simp: accept_handler_def Let_def get_service_token_def do_accept_def
      split: if_splits option.splits prod.splits bool.splits)

lemma accept_handler_concurrency:
  assumes "accept_handler disp ec remote ns = (r, ns')"
  shows "service_concurrency (ns_conf ns') = service_concurrency (ns_conf ns)"
    "current_concurrency ns' = current_concurrency ns \<or>
     current_concurrency ns' = to_i32 (current_concurrency ns + 1) \<and>
       (service_concurrency (ns_conf ns) = 0 \<or> current_concurrency ns \<le> service_concurrency (ns_conf ns))"
  using assms
  by (auto simp: accept_handler_def Let_def get_service_token_def do_accept_def
      split: if_splits option.splits prod.splits bool.splits)

lemma net_reach_tokens:
  assumes "net_reach disp ns0 n ns" "service_speed (ns_conf ns0) \<noteq> 0" "0 \<le> service_token (ns_conf ns0)"
  shows "int n + service_token (ns_conf ns) \<le> service_token (ns_conf ns0) \<and> 0 \<le> service_token (ns_conf ns) \<and>
    service_speed (ns_conf ns) = service_speed (ns_conf ns0)"
  using assms
proof induction
  case (incoming n ns ec remote r ns')
  with accept_handler_effect [OF incoming(2)] show ?case by simp
qed (simp_all add: conn_destroyed_def)

text \<open>
  C22. Between two feedings of the bucket the server accepts at most \<open>service_speed\<close> connections, whoever knocks
  and whenever connections end.
\<close>
theorem net_rate_limited:
  assumes "net_reach disp (ns\<lparr>ns_conf := feed_service_token (ns_conf ns)\<rparr>) n ns'" "0 < service_speed (ns_conf ns)"
  shows "int n \<le> service_speed (ns_conf ns)"
  using net_reach_tokens [OF assms(1)] assms(2) by (simp add: feed_service_token_def)

text \<open>
  With a limit on concurrency there are never more than one connection above it; the check compares with
  the connections before the new one, so that one more than the limit is let in.
\<close>
theorem net_concurrency_bound:
  assumes "net_reach disp ns0 n ns" "service_concurrency (ns_conf ns0) = limit" "0 < limit" "limit < 2147483646"
    and "0 \<le> current_concurrency ns0" "current_concurrency ns0 \<le> limit"
  shows "0 \<le> current_concurrency ns \<and> current_concurrency ns \<le> limit + 1 \<and>
    (current_concurrency ns = limit \<and> service_enabled (ns_conf ns) \<and> service_speed (ns_conf ns) = 0 \<and>
       check_safe_ip ip (ns_conf ns) \<longrightarrow>
     current_concurrency (snd (accept_handler disp NoError (Some ip) ns)) = limit + 1)"
proof -
  have inv: "service_concurrency (ns_conf ns) = limit \<and> 0 \<le> current_concurrency ns \<and> current_concurrency ns \<le> limit + 1"
    using assms
  proof induction
    case (incoming n ns ec remote r ns')
    with accept_handler_concurrency [OF incoming(2)] show ?case by (auto simp: to_i32_id is_i32_def)
  next
    case (closed n ns)
    then show ?case by (auto simp: conn_destroyed_def to_i32_id is_i32_def)
  qed simp
  with assms(3,4) show ?thesis
    by (auto simp: accept_handler_def get_service_token_def do_accept_def to_i32_id is_i32_def)
qed

section \<open>The feeding timer\<close>

text \<open>As long as only expiries call the handler, one wait is pending and one feeding happens per expiry.\<close>

lemma expiry_feeds:
  assumes "service_speed c \<noteq> 0" "timed_feed_token c" "feed_waits c = 1" "feed_aborted c = 0"
  shows "wait_expires c = Returned (c\<lparr>service_token := service_speed c\<rparr>)"
  using assms by (cases c) (simp add: wait_expires_def timed_feed_token_handler_def feed_service_token_def arm_timer_def)

text \<open>
  A runtime change from one speed limit to another leaves the timer spinning: a handler queued with
  \<open>operation_aborted\<close> feeds the bucket, and by setting the new expiry it aborts the pending wait, whose
  handler does the same. From then on there is always such a handler to run at once, and the bucket is full
  after each.
\<close>
theorem speed_change_spins:
  assumes "service_speed c \<noteq> 0" "timed_feed_token c" "feed_waits c = 1" "feed_aborted c = 0"
    and "n \<noteq> 0" "n \<noteq> service_speed c"
  shows "(((\<lambda>r. and_then r aborted_runs) ^^ Suc k) (Returned (set_speed n c))) =
    Returned ((set_speed n c)\<lparr>service_token := n\<rparr>) \<and> feed_aborted (set_speed n c) = 1"
proof -
  let ?c = "set_speed n c"
  have c: "feed_aborted ?c = 1" "feed_waits ?c = 1" "timed_feed_token ?c" "service_speed ?c = n"
    using assms by (simp_all add: set_speed_def arm_timer_def new_timer_def drop_timer_def)
  have once: "aborted_runs (?c\<lparr>service_token := t\<rparr>) = Returned (?c\<lparr>service_token := n\<rparr>)" for t
    using c assms(5)
    by (cases ?c) (simp add: aborted_runs_def timed_feed_token_handler_def feed_service_token_def arm_timer_def)
  have "((\<lambda>r. and_then r aborted_runs) ^^ Suc k) (Returned ?c) = Returned (?c\<lparr>service_token := n\<rparr>)"
  proof (induction k)
    case 0
    then show ?case using once [of "service_token ?c"] by simp
  next
    case (Suc k)
    then show ?case using once [of n] by simp
  qed
  with c(1) show ?thesis by simp
qed

text \<open>The bucket starts empty, so a server with a speed limit refuses every connection until the first feeding.\<close>

lemma no_token_at_start:
  assumes "net_init valid_addr addrs g (mk_NetServer name) = Returned (True, ns)" "service_speed (ns_conf ns) \<noteq> 0"
  shows "fst (get_service_token (ns_conf ns)) = False"
proof -
  from assms(1) obtain c where "load_conf g default_NetConf = (True, c)"
    and ns: "ns_conf ns = (if service_speed c \<noteq> 0 then arm_timer (new_timer c) else c)"
    by (auto simp: net_init_def mk_NetServer_def Let_def split: prod.splits bool.splits if_splits)
  from load_conf_ok [OF this(1)] have "service_token c = 0" by (simp add: default_NetConf_def)
  with ns assms(2) show ?thesis
    by (auto simp: get_service_token_def arm_timer_def new_timer_def drop_timer_def split: if_splits)
qed

section \<open>Witnesses\<close>

definition tiny_cfg :: net_cfg where
  "tiny_cfg =
     \<lparr>cfg_int = (\<lambda>n. if n = ''rpc.network.bind_port'' then Some 8435
                    else if n = ''rpc.network.service_speed'' then Some 1 else None),
      cfg_str = (\<lambda>n. if n = ''rpc.network.bind_addr'' then Some ''0.0.0.0''
                    else if n = ''rpc.network.safe_ip'' then Some ''10.0.0.1; 10.0.0.2;'' else None),
      cfg_bool = (\<lambda>n. None)\<rparr>"

definition tiny_conf :: NetConf where
  "tiny_conf = default_NetConf\<lparr>bind_addr := ''0.0.0.0'', bind_port := 8435, service_speed := 1,
     safe_ip := [''10.0.0.1'', ''10.0.0.2''], timed_feed_token := True, feed_waits := 1\<rparr>"

lemma tiny_load:
  "load_conf tiny_cfg default_NetConf = (True, tiny_conf\<lparr>timed_feed_token := False, feed_waits := 0\<rparr>)"
  by (simp add: load_conf_def load_step_def tiny_cfg_def tiny_conf_def default_NetConf_def lookupValue_def
      load_safe_ip_def trim_copy_def is_space_def Let_def)

definition tiny_server :: NetServer where
  "tiny_server = (mk_NetServer ''heracles'')\<lparr>ns_conf := tiny_conf, io_service_threads := \<lparr>pool_size = 1, workers = [(7, kInit)]\<rparr>\<rparr>"

lemma tiny_init: "net_init (\<lambda>a. True) [7] tiny_cfg (mk_NetServer ''heracles'') = Returned (True, tiny_server)"
  using tiny_load
  by (simp add: net_init_def mk_NetServer_def tiny_server_def tiny_conf_def default_NetConf_def arm_timer_def
      new_timer_def drop_timer_def init_threads_def pool_init_def kMaxiumThreadPoolSize_def Let_def)

theorem net_conf_stays_ok_witness:
  "net_init (\<lambda>a. True) [7] tiny_cfg (mk_NetServer ''heracles'') = Returned (True, tiny_server) \<and>
   net_conf_ok (ns_conf tiny_server)"
  using net_conf_stays_ok [OF tiny_init] tiny_init by simp

theorem net_rate_limited_witness:
  "\<exists>n ns'. net_reach (\<lambda>p. None) (tiny_server\<lparr>ns_conf := feed_service_token (ns_conf tiny_server)\<rparr>) n ns' \<and> n = 1 \<and>
     int n \<le> service_speed (ns_conf tiny_server)"
proof -
  let ?s = "tiny_server\<lparr>ns_conf := feed_service_token (ns_conf tiny_server)\<rparr>"
  obtain r ns' where acc: "accept_handler (\<lambda>p. None) NoError (Some ''10.0.0.1'') ?s = (r, ns')" by (rule prod.exhaust)
  then have "accepted r = 1"
    by (auto simp: accept_handler_def tiny_server_def tiny_conf_def feed_service_token_def check_safe_ip_def
        get_service_token_def mk_NetServer_def default_NetConf_def do_accept_def)
  with net_reach.incoming [OF net_reach.initially acc] have run: "net_reach (\<lambda>p. None) ?s 1 ns'" by simp
  have "0 < service_speed (ns_conf tiny_server)" by (simp add: tiny_server_def tiny_conf_def)
  from net_rate_limited [OF run this] run show ?thesis by auto
qed

theorem net_concurrency_bound_witness:
  "current_concurrency (snd (accept_handler (\<lambda>p. None) NoError (Some ''10.0.0.1'')
     (tiny_server\<lparr>ns_conf := tiny_conf\<lparr>service_speed := 0, service_concurrency := 3\<rparr>, current_concurrency := 3\<rparr>))) = 4"
  using net_concurrency_bound [where limit = 3 and ip = "''10.0.0.1''", OF net_reach.initially
      [of "\<lambda>p. None" "tiny_server\<lparr>ns_conf := tiny_conf\<lparr>service_speed := 0, service_concurrency := 3\<rparr>, current_concurrency := 3\<rparr>"]]
  by (simp add: check_safe_ip_def tiny_conf_def default_NetConf_def)

theorem speed_change_spins_witness:
  "(((\<lambda>r. and_then r aborted_runs) ^^ Suc 99) (Returned (set_speed 5 tiny_conf))) =
    Returned ((set_speed 5 tiny_conf)\<lparr>service_token := 5\<rparr>) \<and> feed_aborted (set_speed 5 tiny_conf) = 1"
  by (rule speed_change_spins) (simp_all add: tiny_conf_def default_NetConf_def)

end
