(* ===== verification/Scaffold.thy ===== *)
theory Scaffold
  imports Prelude
begin

text \<open>
  \<open>source/Scaffold/ConfHelper.h\<close>, \<open>ConfHelper.cpp\<close>, \<open>Status.h\<close>, \<open>Status.cpp\<close> and \<open>source/Utils/Timer.h\<close>, \<open>Timer.cpp\<close>: the
  configuration with its update callbacks, the status texts of the modules, and timers.

  A parsed configuration is a value of type \<open>'c\<close>; what \<open>readFile\<close> makes of the file when it is read is an
  argument (\<open>None\<close>: it cannot be read or parsed). Callbacks act on the rest of the program, a state of
  type \<open>'s\<close>. The singletons have static storage, so a field the constructor leaves out is zero.
\<close>

section \<open>ConfHelper\<close>

record ('c, 's) ConfHelper =
  cfgfile :: string
  conf_ptr :: "'c option"
  conf_update_time :: int
  in_process :: bool
  calls :: "(string \<times> ('c \<Rightarrow> 's \<Rightarrow> int \<times> 's)) list"

definition mk_ConfHelper :: "('c, 's) ConfHelper" where
  "mk_ConfHelper = \<lparr>cfgfile = [], conf_ptr = None, conf_update_time = 0, in_process = False, calls = []\<rparr>"

definition conf_init :: "string \<Rightarrow> 'c option \<Rightarrow> ('c, 's) ConfHelper \<Rightarrow> bool \<times> ('c, 's) ConfHelper" where
  "conf_init file read h = (read \<noteq> None, h\<lparr>cfgfile := file, conf_ptr := read\<rparr>)"

text \<open>\<open>get_conf\<close> reads the file and drops the result.\<close>

definition get_conf :: "'c option \<Rightarrow> ('c, 's) ConfHelper \<Rightarrow> 'c option" where
  "get_conf read h = conf_ptr h"

fun call_each :: "('c \<Rightarrow> 's \<Rightarrow> int \<times> 's) list \<Rightarrow> 'c \<Rightarrow> int \<Rightarrow> 's \<Rightarrow> int \<times> 's" where
  "call_each [] conf ret s = (ret, s)"
| "call_each (f # fs) conf ret s = (case f conf s of (r, s') \<Rightarrow> call_each fs conf (to_i32 (ret + r)) s')"

definition update_runtime_conf ::
    "'c option \<Rightarrow> int \<Rightarrow> ('c, 's) ConfHelper \<Rightarrow> 's \<Rightarrow> int \<times> ('c, 's) ConfHelper \<times> 's" where
  "update_runtime_conf read now h s =
     (if cfgfile h = [] then (-1, h, s)
      else if in_process h then (0, h, s)
      else
        (case read of
           None \<Rightarrow> (0, h\<lparr>in_process := False\<rparr>, s)
         | Some conf \<Rightarrow>
             (case call_each (map snd (calls h)) conf 0 s of
                (ret, s') \<Rightarrow> (ret, h\<lparr>conf_ptr := Some conf, conf_update_time := now, in_process := False\<rparr>, s'))))"

text \<open>An empty \<open>std::function\<close> is \<open>None\<close>.\<close>

definition register_runtime_callback ::
    "string \<Rightarrow> ('c \<Rightarrow> 's \<Rightarrow> int \<times> 's) option \<Rightarrow> ('c, 's) ConfHelper \<Rightarrow> int \<times> ('c, 's) ConfHelper" where
  "register_runtime_callback name func h =
     (case func of
        None \<Rightarrow> (-1, h)
      | Some f \<Rightarrow> if name = [] then (-1, h) else (0, h\<lparr>calls := calls h @ [(name, f)]\<rparr>))"

text \<open>\<open>lookup\<close>: \<open>lookupValue\<close> of the key's type; \<open>zero\<close>: \<open>T {}\<close>.\<close>

definition get_conf_value ::
    "('c \<Rightarrow> string \<Rightarrow> 'v option) \<Rightarrow> 'v \<Rightarrow> 'c option \<Rightarrow> int \<Rightarrow> string \<Rightarrow> ('c, 's) ConfHelper \<Rightarrow>
     (bool \<times> 'v \<times> ('c, 's) ConfHelper) blocking" where
  "get_conf_value lookup zero read now key h =
     (let h1 = (if conf_update_time h < now - 10 * 60
                then (case read of None \<Rightarrow> h | Some conf \<Rightarrow> h\<lparr>conf_ptr := Some conf, conf_update_time := now\<rparr>)
                else h)
      in case conf_ptr h1 of
           None \<Rightarrow> Crashed
         | Some conf \<Rightarrow>
             (case lookup conf key of Some v \<Rightarrow> Returned (True, v, h1) | None \<Rightarrow> Returned (False, zero, h1)))"

fun numbered :: "nat \<Rightarrow> string list \<Rightarrow> string" where
  "numbered i [] = []"
| "numbered i (n # ns) = tab @ dec_nat i @ ''. '' @ n @ endl @ numbered (Suc i) ns"

definition conf_module_status :: "('c, 's) ConfHelper \<Rightarrow> string \<times> string \<times> string" where
  "conf_module_status h =
     (''tzrpc'', ''ConfHelper'', ''registered runtime update: '' @ endl @ numbered 1 (map fst (calls h)))"

section \<open>Status\<close>

text \<open>A module's callback returns a code, its module and its name, and the text.\<close>

type_synonym 's status_fun = "'s \<Rightarrow> int \<times> string \<times> string \<times> string"

record 's Status =
  status_calls :: "(string \<times> 's status_fun) list"

definition register_status_callback :: "string \<Rightarrow> 's status_fun option \<Rightarrow> 's Status \<Rightarrow> int \<times> 's Status" where
  "register_status_callback name func st =
     (case func of
        None \<Rightarrow> (-1, st)
      | Some f \<Rightarrow> if name = [] then (-1, st) else (0, st\<lparr>status_calls := status_calls st @ [(name, f)]\<rparr>))"

definition status_module_status :: "'s Status \<Rightarrow> string \<times> string \<times> string" where
  "status_module_status st =
     (''tzrpc'', ''Status'', ''registered status: '' @ endl @ numbered 1 (map fst (status_calls st)))"

fun collect_loop :: "'s \<Rightarrow> 's status_fun list \<Rightarrow> (string \<times> string) list \<Rightarrow> (string \<times> string) list" where
  "collect_loop s [] results = results"
| "collect_loop s (f # fs) results =
     (case f s of
        (ret, strModule, strName, strValue) \<Rightarrow>
          collect_loop s fs (if ret = 0 then results @ [(strModule @ '':'' @ strName, strValue)] else results))"

definition print_result :: "string \<times> string \<Rightarrow> string" where
  "print_result r =
     ''['' @ fst r @ '']'' @ endl @ snd r @ endl @ '' ------------------------------- '' @ endl @ endl"

definition collect_status :: "'s \<Rightarrow> 's Status \<Rightarrow> int \<times> string" where
  "collect_status s st =
     (0, endl @ endl @ ''  *** SYSTEM RUNTIME STATUS ***  '' @ endl @ endl @
         concat (map print_result (collect_loop s (map snd (status_calls st)) [])))"

section \<open>Timers\<close>

text \<open>
  A timer object with the waits pending on its \<open>steady_timer\<close> and its handlers queued with
  \<open>operation_aborted\<close>; \<open>fired\<close> counts the calls of \<open>func_\<close>. Cancelling a \<open>steady_timer\<close>, giving it a new expiry and
  destroying it abort its waits.
\<close>

record TimerObject =
  steady_timer :: bool
  func_set :: bool
  timeout_ms :: "64 word"
  forever :: bool
  pending :: nat
  aborted :: nat
  fired :: nat

definition mk_TimerObject :: "bool \<Rightarrow> 64 word \<Rightarrow> bool \<Rightarrow> TimerObject" where
  "mk_TimerObject func msec fv =
     \<lparr>steady_timer = False, func_set = func, timeout_ms = msec, forever = fv, pending = 0, aborted = 0, fired = 0\<rparr>"

definition timer_wait :: "TimerObject \<Rightarrow> TimerObject" where
  "timer_wait t = t\<lparr>aborted := aborted t + pending t, pending := 1\<rparr>"

definition timer_init :: "TimerObject \<Rightarrow> bool \<times> TimerObject" where
  "timer_init t =
     (True, timer_wait (t\<lparr>steady_timer := True, aborted := aborted t + pending t, pending := 0\<rparr>))"

definition cancel_timer :: "TimerObject \<Rightarrow> TimerObject" where
  "cancel_timer t =
     (if steady_timer t then t\<lparr>steady_timer := False, aborted := aborted t + pending t, pending := 0\<rparr> else t)"

definition revoke_timer :: "TimerObject \<Rightarrow> TimerObject" where
  "revoke_timer t = cancel_timer (t\<lparr>forever := False\<rparr>)"

text \<open>\<open>timer_run\<close>; \<open>during\<close> is what \<open>func_\<close> does to its own timer.\<close>

definition timer_run :: "bool \<Rightarrow> (TimerObject \<Rightarrow> TimerObject) \<Rightarrow> TimerObject \<Rightarrow> TimerObject blocking" where
  "timer_run was_aborted during t =
     (let t1 = (if was_aborted then t else if func_set t then during (t\<lparr>fired := Suc (fired t)\<rparr>) else t)
      in if forever t1 then if steady_timer t1 then Returned (timer_wait t1) else Crashed
         else Returned t1)"

definition timer_expires_now :: "(TimerObject \<Rightarrow> TimerObject) \<Rightarrow> TimerObject \<Rightarrow> TimerObject blocking" where
  "timer_expires_now during t = timer_run False during (t\<lparr>pending := pending t - 1\<rparr>)"

definition timer_abort_runs :: "TimerObject \<Rightarrow> TimerObject blocking" where
  "timer_abort_runs t = timer_run True id (t\<lparr>aborted := aborted t - 1\<rparr>)"

definition add_better_timer :: "bool \<Rightarrow> 64 word \<Rightarrow> bool \<Rightarrow> TimerObject option" where
  "add_better_timer func msec fv =
     (case timer_init (mk_TimerObject func msec fv) of (True, t) \<Rightarrow> Some t | (False, _) \<Rightarrow> None)"

definition add_timer :: "bool \<Rightarrow> 64 word \<Rightarrow> bool \<Rightarrow> bool" where
  "add_timer func msec fv = fst (timer_init (mk_TimerObject func msec fv))"

text \<open>
  The singleton \<open>Timer\<close>: the thread that runs the \<open>io_service\<close>, the guard that gives it work, whether it was stopped,
  and the timer objects with a handler waiting in it.
\<close>

record Timer =
  tm_thread :: bool
  tm_guard :: bool
  tm_stopped :: bool
  tm_timers :: "TimerObject list"

definition mk_Timer :: Timer where
  "mk_Timer = \<lparr>tm_thread = False, tm_guard = True, tm_stopped = False, tm_timers = []\<rparr>"

definition Timer_init :: "Timer \<Rightarrow> bool \<times> Timer" where
  "Timer_init t = (True, t\<lparr>tm_thread := True\<rparr>)"

text \<open>\<open>io_service_run\<close>: \<open>run\<close> returns when the service was stopped or has nothing left to wait for.\<close>

definition io_run_ends :: "Timer \<Rightarrow> bool" where
  "io_run_ends t \<longleftrightarrow> tm_stopped t \<or> (\<not> tm_guard t \<and> (\<forall>x\<in>set (tm_timers t). pending x = 0 \<and> aborted x = 0))"

text \<open>The thread runs the handler of the \<open>i\<close>-th timer, which has expired.\<close>

definition io_turn :: "nat \<Rightarrow> Timer \<Rightarrow> Timer blocking" where
  "io_turn i t =
     (if tm_stopped t \<or> length (tm_timers t) \<le> i \<or> pending (tm_timers t ! i) = 0 then Returned t
      else and_then (timer_expires_now id (tm_timers t ! i)) (\<lambda>x. Returned (t\<lparr>tm_timers := (tm_timers t)[i := x]\<rparr>)))"

text \<open>\<open>threads_join\<close> and the destructor wait for the thread.\<close>

definition threads_join :: "Timer \<Rightarrow> Timer blocking" where
  "threads_join t =
     (let t1 = t\<lparr>tm_guard := False\<rparr> in if io_run_ends t1 then Returned (t1\<lparr>tm_thread := False\<rparr>) else Blocked)"

definition destroy_Timer :: "Timer \<Rightarrow> Timer blocking" where
  "destroy_Timer t =
     (let t1 = t\<lparr>tm_stopped := True, tm_guard := False\<rparr>
      in if tm_thread t1 then if io_run_ends t1 then Returned (t1\<lparr>tm_thread := False\<rparr>) else Blocked
         else Returned t1)"

section \<open>Updates reach every module\<close>

text \<open>The codes of the callbacks and the states they see, in order.\<close>

fun callback_codes :: "('c \<Rightarrow> 's \<Rightarrow> int \<times> 's) list \<Rightarrow> 'c \<Rightarrow> 's \<Rightarrow> int list" where
  "callback_codes [] conf s = []"
| "callback_codes (f # fs) conf s = fst (f conf s) # callback_codes fs conf (snd (f conf s))"

lemma call_each_spec:
  "is_i32 ret \<Longrightarrow>
   call_each fs conf ret s =
     (to_i32 (ret + sum_list (callback_codes fs conf s)), fold (\<lambda>f s. snd (f conf s)) fs s)"
proof (induction fs arbitrary: ret s)
  case Nil
  then show ?case by (simp add: to_i32_id)
next
  case (Cons f fs)
  then show ?case by (simp add: case_prod_unfold to_i32_range to_i32_add add.assoc)
qed

text \<open>
  An update with a readable file gives the new configuration to every registered module, once each and in
  the order of registration, keeps it, and returns the sum of the modules' codes. With a file that cannot
  be read nothing changes, and yet the result is 0, the code of success.
\<close>
theorem update_reaches_all:
  assumes "cfgfile h \<noteq> []" "\<not> in_process h"
  shows "update_runtime_conf (Some conf) now h s =
      (to_i32 (sum_list (callback_codes (map snd (calls h)) conf s)),
       h\<lparr>conf_ptr := Some conf, conf_update_time := now\<rparr>, fold (\<lambda>f s. snd (f conf s)) (map snd (calls h)) s) \<and>
    update_runtime_conf None now h s = (0, h, s)"
  using assms call_each_spec [of 0 "map snd (calls h)" conf s]
  by (cases h) (simp add: update_runtime_conf_def is_i32_def)

lemma collect_loop_spec:
  "collect_loop s fs acc =
     acc @ map (\<lambda>f. (fst (snd (f s)) @ '':'' @ fst (snd (snd (f s))), snd (snd (snd (f s)))))
       (filter (\<lambda>f. fst (f s) = 0) fs)"
  by (induction fs arbitrary: acc) (simp_all add: case_prod_unfold)

section \<open>Timer life\<close>

definition timer_ok :: "TimerObject \<Rightarrow> bool" where
  "timer_ok t \<longleftrightarrow> func_set t \<and> steady_timer t \<and> pending t = 1 \<and> aborted t = 0"

lemma expiries:
  assumes "timer_ok t" "forever t"
  shows "((\<lambda>r. and_then r (timer_expires_now id)) ^^ n) (Returned t) = Returned (t\<lparr>fired := fired t + n\<rparr>)"
proof (induction n)
  case (Suc n)
  with assms show ?case
    by (cases t) (simp add: timer_ok_def timer_expires_now_def timer_run_def timer_wait_def)
qed simp

text \<open>
  A repeating timer calls its function once per expiry for as long as it is left alone; a one-shot timer calls it
  once and has no wait left; after \<open>revoke_timer\<close> the aborted handler ends without calling it.
\<close>
theorem timer_calls:
  assumes "timer_ok t"
  shows "(forever t \<longrightarrow>
      ((\<lambda>r. and_then r (timer_expires_now id)) ^^ n) (Returned t) = Returned (t\<lparr>fired := fired t + n\<rparr>)) \<and>
    (\<not> forever t \<longrightarrow> timer_expires_now id t = Returned (t\<lparr>fired := Suc (fired t), pending := 0\<rparr>)) \<and>
    timer_abort_runs (revoke_timer t) = Returned (t\<lparr>forever := False, steady_timer := False, pending := 0\<rparr>)"
  using assms expiries [OF assms, of n]
  by (cases t) (auto simp: timer_ok_def timer_expires_now_def timer_run_def timer_abort_runs_def revoke_timer_def
      cancel_timer_def)

text \<open>
  \<open>cancel_timer\<close> on a repeating timer, from outside or from its own function, ends in the use of a null pointer:
  the handler renews the wait on the timer that was reset.
\<close>
theorem cancelled_repeating_timer_crashes:
  assumes "timer_ok t" "forever t"
  shows "timer_abort_runs (cancel_timer t) = Crashed \<and> timer_expires_now cancel_timer t = Crashed"
  using assms
  by (simp add: timer_ok_def timer_expires_now_def timer_run_def timer_abort_runs_def cancel_timer_def)

section \<open>Waiting for the timers\<close>

fun io_turns :: "nat list \<Rightarrow> Timer \<Rightarrow> Timer blocking" where
  "io_turns [] t = Returned t"
| "io_turns (i # is) t = and_then (io_turn i t) (io_turns is)"

lemma repeating_stays:
  assumes "k < length (tm_timers t)" "timer_ok (tm_timers t ! k)" "forever (tm_timers t ! k)" "\<not> tm_stopped t"
    and "io_turn i t = Returned t'"
  shows "k < length (tm_timers t') \<and> timer_ok (tm_timers t' ! k) \<and> forever (tm_timers t' ! k) \<and> \<not> tm_stopped t'"
proof (cases "i = k")
  case True
  with assms show ?thesis
    by (auto simp: io_turn_def timer_expires_now_def timer_run_def timer_wait_def timer_ok_def)
next
  case False
  with assms show ?thesis by (auto simp: io_turn_def and_then_eq_Returned split: if_splits)
qed

text \<open>
  \<open>threads_join\<close> does not come back while a repeating timer is left alone, however many handlers run; the destructor, which stops
  the service first, does.
\<close>

lemma repeating_timer_keeps_thread:
  assumes "k < length (tm_timers t)" "timer_ok (tm_timers t ! k)" "forever (tm_timers t ! k)" "\<not> tm_stopped t"
    and "io_turns is t = Returned t'"
  shows "threads_join t' = Blocked \<and> (\<exists>t''. destroy_Timer t' = Returned t'' \<and> \<not> tm_thread t'')"
proof -
  from assms have "k < length (tm_timers t') \<and> timer_ok (tm_timers t' ! k) \<and> \<not> tm_stopped t'"
  proof (induction "is" arbitrary: t)
    case (Cons i "is")
    then obtain t1 where "io_turn i t = Returned t1" "io_turns is t1 = Returned t'" by (auto simp: and_then_eq_Returned)
    with Cons.IH [of t1] repeating_stays [OF Cons.prems(1-4)] show ?case by blast
  qed simp
  then have "\<not> io_run_ends (t'\<lparr>tm_guard := False\<rparr>)"
    by (auto simp: io_run_ends_def timer_ok_def intro!: bexI [of _ "tm_timers t' ! k"])
  then show ?thesis by (auto simp: threads_join_def destroy_Timer_def io_run_ends_def Let_def)
qed

section \<open>Witnesses\<close>

definition two_modules :: "(nat, nat) ConfHelper" where
  "two_modules = mk_ConfHelper\<lparr>cfgfile := ''heracles.conf'', conf_ptr := Some 1,
     calls := [(''a'', \<lambda>c s. (0, s + c)), (''b'', \<lambda>c s. (-1, 2 * s))]\<rparr>"

theorem update_reaches_all_witness:
  "update_runtime_conf (Some 7) 100 two_modules 3 =
     (-1, two_modules\<lparr>conf_ptr := Some 7, conf_update_time := 100\<rparr>, 20)"
  using update_reaches_all [of two_modules 7 100 3] by (simp add: two_modules_def mk_ConfHelper_def to_i32_def)

definition half_second :: TimerObject where
  "half_second = snd (timer_init (mk_TimerObject True 500 True))"

lemma half_second_ok: "timer_ok half_second" "forever half_second"
  by (simp_all add: half_second_def timer_ok_def timer_init_def timer_wait_def mk_TimerObject_def)

theorem timer_calls_witness:
  "((\<lambda>r. and_then r (timer_expires_now id)) ^^ 3) (Returned half_second) = Returned (half_second\<lparr>fired := fired half_second + 3\<rparr>)"
  using timer_calls [OF half_second_ok(1), of 3] half_second_ok(2) by blast

theorem cancelled_repeating_timer_crashes_witness:
  "timer_abort_runs (cancel_timer half_second) = Crashed"
  using cancelled_repeating_timer_crashes [OF half_second_ok] by blast

end
