(* ===== verification/SslSetup.thy ===== *)
theory SslSetup
  imports Prelude
begin

text \<open>
  \<open>source/Utils/SslSetup.cpp\<close> and \<open>source/Client/IoService.{h,cpp}\<close>: two process-wide set-ups. The first
  gives OpenSSL its locks and the one context all connections would share, the second runs the thread behind
  the timers and sockets of the client. What OpenSSL answers and its constants are the record
  \<open>openssl\<close>; a context is a number, and the contexts that exist are listed, so that the use of a freed one shows.
\<close>

section \<open>OpenSSL\<close>

record openssl =
  CRYPTO_num_locks :: nat
  CRYPTO_get_lock_name :: "nat \<Rightarrow> string"
  alloc_mutexes :: bool
  alloc_counts :: bool
  SSL_library_init :: bool
  SSL_CTX_new :: "nat list \<Rightarrow> nat option"
  SSL_OP_ALL :: nat
  SSL_OP_NO_SSLv2 :: nat
  SSL_MODE_AUTO_RETRY :: nat

text \<open>The global variables; a mutex holds the thread that has locked it, and the two callbacks are set or not.\<close>

record ssl_state =
  mutex_buf :: "nat option list option"
  mutex_count :: "nat list option"
  global_ssl_ctx :: "nat option"
  ssl_callbacks :: bool
  live_contexts :: "nat list"
  ctx_options :: "(nat, nat) omap"
  ctx_modes :: "(nat, nat) omap"

definition no_ssl :: ssl_state where
  "no_ssl = \<lparr>mutex_buf = None, mutex_count = None, global_ssl_ctx = None, ssl_callbacks = False,
             live_contexts = [], ctx_options = [], ctx_modes = []\<rparr>"

text \<open>
  \<open>pthreads_locking_callback\<close> for one thread. Locking a mutex that is locked waits; the mutexes are of the default kind, so a
  thread that locks twice waits for itself, and unlocking what the thread has not locked is undefined.
\<close>

definition pthreads_locking_callback :: "bool \<Rightarrow> nat \<Rightarrow> nat \<Rightarrow> ssl_state \<Rightarrow> ssl_state blocking" where
  "pthreads_locking_callback lock type thread s =
     (case (mutex_buf s, mutex_count s) of
        (Some ms, Some cs) \<Rightarrow>
          (if type \<ge> length ms \<or> type \<ge> length cs then Crashed
           else if lock
           then (case ms ! type of
                   None \<Rightarrow> Returned (s\<lparr>mutex_buf := Some (ms[type := Some thread]),
                                       mutex_count := Some (cs[type := cs ! type + 1])\<rparr>)
                 | Some _ \<Rightarrow> Blocked)
           else if ms ! type = Some thread then Returned (s\<lparr>mutex_buf := Some (ms[type := None])\<rparr>)
           else Crashed)
      | _ \<Rightarrow> Crashed)"

definition ssl_setup_client_ctx :: "openssl \<Rightarrow> ssl_state \<Rightarrow> nat option \<times> ssl_state" where
  "ssl_setup_client_ctx e s =
     (case global_ssl_ctx s of
        Some c \<Rightarrow> (Some c, s)
      | None \<Rightarrow>
          (case SSL_CTX_new e (live_contexts s) of
             None \<Rightarrow> (None, s)
           | Some c \<Rightarrow> (Some c, s\<lparr>global_ssl_ctx := Some c, live_contexts := c # live_contexts s\<rparr>)))"

text \<open>\<open>SSL_CTX_set_options\<close> adds options to those that are set and uses the memory of the context.\<close>

definition SSL_CTX_set_options :: "nat \<Rightarrow> nat \<Rightarrow> ssl_state \<Rightarrow> ssl_state blocking" where
  "SSL_CTX_set_options c opts s =
     (if c \<in> set (live_contexts s)
      then Returned (s\<lparr>ctx_options := om_upd c (or (case om_find (ctx_options s) c of None \<Rightarrow> 0 | Some x \<Rightarrow> x) opts) (ctx_options s)\<rparr>)
      else Crashed)"

definition Ssl_thread_setup :: "openssl \<Rightarrow> ssl_state \<Rightarrow> (bool \<times> ssl_state) blocking" where
  "Ssl_thread_setup e s =
     (let n = CRYPTO_num_locks e;
          s1 = s\<lparr>mutex_buf := (if alloc_mutexes e then Some (replicate n None) else None),
                 mutex_count := (if alloc_counts e then Some (replicate n 0) else None)\<rparr>
      in if \<not> alloc_mutexes e \<or> \<not> alloc_counts e then Returned (False, s1)
         else let s2 = s1\<lparr>ssl_callbacks := True\<rparr>
              in if \<not> SSL_library_init e then Returned (False, s2)
                 else (case ssl_setup_client_ctx e s2 of
                         (None, s3) \<Rightarrow> Returned (False, s3)
                       | (Some c, s3) \<Rightarrow>
                           and_then (SSL_CTX_set_options c (or (SSL_OP_ALL e) (SSL_OP_NO_SSLv2 e)) s3) (\<lambda>s4.
                           and_then (SSL_CTX_set_options c (SSL_MODE_AUTO_RETRY e) s4) (\<lambda>s5.
                           Returned (True, s5)))))"

text \<open>\<open>Ssl_thread_clean\<close> with the lines it prints, how often each lock was taken.\<close>

definition Ssl_thread_clean :: "openssl \<Rightarrow> ssl_state \<Rightarrow> (string list \<times> ssl_state) blocking" where
  "Ssl_thread_clean e s =
     (case mutex_buf s of
        None \<Rightarrow> Returned ([], s)
      | Some ms \<Rightarrow>
          and_then (case global_ssl_ctx s of
                      Some c \<Rightarrow> (if c \<in> set (live_contexts s)
                                 then Returned (s\<lparr>live_contexts := remove1 c (live_contexts s)\<rparr>) else Crashed)
                    | None \<Rightarrow> Returned s)
            (\<lambda>s'.
               case mutex_count s of
                 None \<Rightarrow> Crashed
               | Some cs \<Rightarrow>
                   Returned (map (\<lambda>i. (let d = dec_nat (cs ! i) in replicate (8 - length d) (CHR '' '') @ d)
                                      @ '':'' @ CRYPTO_get_lock_name e i @ endl) [0..<CRYPTO_num_locks e],
                             s'\<lparr>ssl_callbacks := False, mutex_buf := None, mutex_count := None\<rparr>)))"

section \<open>Io service\<close>

text \<open>
  \<open>io_thread\<close> is the thread that runs \<open>io_service::run\<close>: not started, running, or ended. \<open>run\<close>
  goes on while there is work, which the guard always is, and the service has not been stopped.
\<close>

datatype io_thread_t = NotStarted | Running | Ended

record IoService =
  io_initialized :: bool
  io_thread :: io_thread_t
  io_stopped :: bool
  work_guard :: bool

definition mk_IoService :: IoService where
  "mk_IoService = \<lparr>io_initialized = False, io_thread = NotStarted, io_stopped = False, work_guard = True\<rparr>"

definition io_service_run :: "IoService \<Rightarrow> io_thread_t" where
  "io_service_run s = (if io_stopped s \<or> \<not> work_guard s then Ended else Running)"

definition io_service_init :: "IoService \<Rightarrow> bool \<times> IoService" where
  "io_service_init s =
     (if io_initialized s then (True, s)
      else (True, s\<lparr>io_thread := io_service_run s, io_initialized := True\<rparr>))"

definition stop_io_service :: "IoService \<Rightarrow> IoService" where
  "stop_io_service s =
     s\<lparr>io_stopped := True, work_guard := False, io_thread := (if io_thread s = Running then Ended else io_thread s)\<rparr>"

section \<open>Properties\<close>

text \<open>A lock is given to one thread at a time, and every time it is given counts.\<close>

lemma lock_exclusive:
  assumes "pthreads_locking_callback True k t s = Returned s'" and "mutex_buf s = Some ms" and "mutex_count s = Some cs"
  shows "ms ! k = None" and "mutex_buf s' = Some (ms[k := Some t])" and "mutex_count s' = Some (cs[k := Suc (cs ! k)])"
    and "pthreads_locking_callback True k t' s' = Blocked"
proof -
  have k: "k < length ms" "k < length cs" "ms ! k = None"
    and s': "s' = s\<lparr>mutex_buf := Some (ms[k := Some t]), mutex_count := Some (cs[k := cs ! k + 1])\<rparr>"
    using assms by (auto simp: pthreads_locking_callback_def split: if_splits option.splits)
  then show "ms ! k = None" "mutex_buf s' = Some (ms[k := Some t])" "mutex_count s' = Some (cs[k := Suc (cs ! k)])"
    "pthreads_locking_callback True k t' s' = Blocked"
    by (simp_all add: pthreads_locking_callback_def)
qed

text \<open>A set-up that succeeds leaves a free lock for every one OpenSSL asks for, and a context.\<close>

lemma setup_ready:
  assumes "Ssl_thread_setup e s = Returned (True, s')"
  shows "mutex_buf s' = Some (replicate (CRYPTO_num_locks e) None) \<and> mutex_count s' = Some (replicate (CRYPTO_num_locks e) 0)
    \<and> ssl_callbacks s' \<and> global_ssl_ctx s' \<noteq> None \<and> ctx_modes s' = ctx_modes s"
  using assms
  by (auto simp: Ssl_thread_setup_def Let_def ssl_setup_client_ctx_def SSL_CTX_set_options_def and_then_eq_Returned
      split: if_splits option.splits prod.splits)

text \<open>\<open>SSL_CTX_free\<close> leaves the global pointer as it is: a second set-up uses the freed context.\<close>

lemma setup_after_clean_crashes:
  assumes "Ssl_thread_setup e no_ssl = Returned (True, s)" and "Ssl_thread_clean e s = Returned (out, s')"
  shows "Ssl_thread_setup e s' = Crashed"
proof -
  obtain c where new: "SSL_CTX_new e [] = Some c" and ok: "alloc_mutexes e" "alloc_counts e" "SSL_library_init e"
    and s: "global_ssl_ctx s = Some c" "live_contexts s = [c]" "mutex_buf s \<noteq> None"
    using assms(1)
    by (auto simp: Ssl_thread_setup_def no_ssl_def Let_def ssl_setup_client_ctx_def SSL_CTX_set_options_def and_then_eq_Returned
        split: if_splits option.splits prod.splits)
  have "global_ssl_ctx s' = Some c" "live_contexts s' = []"
    using assms(2) s by (auto simp: Ssl_thread_clean_def split: option.splits)
  with ok show ?thesis
    by (simp add: Ssl_thread_setup_def Let_def ssl_setup_client_ctx_def SSL_CTX_set_options_def)
qed

text \<open>The first \<open>init\<close> starts the thread, later ones change nothing; once stopped it is not started again although \<open>init\<close> reports success.\<close>

lemma io_service_once:
  "io_thread (snd (io_service_init mk_IoService)) = Running"
  "io_service_init (snd (io_service_init s)) = (True, snd (io_service_init s))"
  "io_initialized s \<Longrightarrow> io_thread s = Running \<Longrightarrow> io_service_init (stop_io_service s) = (True, stop_io_service s)
     \<and> io_thread (stop_io_service s) = Ended"
  by (auto simp: io_service_init_def mk_IoService_def io_service_run_def stop_io_service_def)

end
