(* ===== verification/Captain.thy ===== *)
theory Captain
  imports MonitorTaskService NetServer Scaffold SslSetup
begin

text \<open>
  \<open>source/Scaffold/Captain.cpp\<close> with \<open>main.cpp\<close> and \<open>setup.cpp\<close>: how the server starts. \<open>Captain::init\<close> brings the singletons up one
  after the other; the process is the record of their states. What the outside world contributes to
  a start (the configuration file as it is read, whether the address is valid and can be bound, the new
  threads, whether timers can be added) is the record \<open>start_env\<close>.
\<close>

section \<open>The process\<close>

text \<open>The parts of the configuration file that the modules read.\<close>

record server_conf =
  sc_network :: net_cfg
  sc_services :: "cfg_group list option"
  sc_business :: Config

record ('q, 'l) start_env =
  se_file :: "server_conf option"
  se_valid_addr :: "string \<Rightarrow> bool"
  se_bind_ok :: bool
  se_io_threads :: "nat list"
  se_exec_threads :: "nat list"
  se_exec_junk :: ExecutorConf
  se_int_junk :: int
  se_timer_ok :: bool
  se_task_helper_ok :: bool
  se_stores :: "('q, 'l) store_env"

text \<open>The singletons; \<open>cap_timer\<close> says whether the thread of \<open>Timer\<close> runs, \<open>cap_log_level\<close> is the mask of \<open>syslog\<close>.\<close>

record ('q, 'l) Captain =
  cap_initialized :: bool
  cap_timer :: bool
  cap_conf :: "(server_conf, unit) ConfHelper"
  cap_log_level :: int
  cap_net :: "NetServer option"
  cap_monitor :: "MonitorTaskService option"
  cap_dispatcher :: Dispatcher
  cap_repos :: EventRepos
  cap_stores :: "('q, 'l) stores_t"

definition mk_Captain :: "('q, 'l) Captain" where
  "mk_Captain =
     \<lparr>cap_initialized = False, cap_timer = False, cap_conf = mk_ConfHelper, cap_log_level = 7, cap_net = None,
      cap_monitor = None, cap_dispatcher = empty_Dispatcher, cap_repos = empty_EventRepos,
      cap_stores = \<lparr>mysql_ptr = None, leveldb_ptr = None\<rparr>\<rparr>"

section \<open>Starting\<close>

definition level_of :: "server_conf \<Rightarrow> int" where
  "level_of sc =
     (let log_level = lookupValue (cfg_int (conf_top (sc_business sc))) ''log_level'' 0
      in if log_level \<le> 0 \<or> log_level > 7 then 7 else log_level)"

text \<open>The last part of \<open>init\<close>, once the network is set up.\<close>

definition start_business ::
    "('q, 'l) start_env \<Rightarrow> server_conf \<Rightarrow> NetServer \<Rightarrow> ('q, 'l) Captain \<Rightarrow> (bool \<times> ('q, 'l) Captain) blocking" where
  "start_business env sc ns cap =
     (case monitor_init (se_exec_junk env) (Some (sc_services sc)) (mk_MonitorTaskService ''MonitorTaskService'') of
        (False, ms) \<Rightarrow> Returned (False, cap)
      | (True, ms) \<Rightarrow>
          (case monitor_get_executor_conf ms of
             None \<Rightarrow> Crashed
           | Some sconf \<Rightarrow>
               let d1 = register_service MONITOR_TASK_SERVICE sconf (se_timer_ok env) (se_exec_threads env) (cap_dispatcher cap);
                   (ok, d2) = dispatcher_init d1;
                   cap1 = cap\<lparr>cap_monitor := Some ms, cap_dispatcher := d2\<rparr>
               in if \<not> ok then Returned (False, cap1)
                  else
                    (case repos_init (se_stores env) (se_int_junk env) (Some (sc_business sc)) (se_task_helper_ok env)
                            (cap_repos cap1, cap_stores cap1) of
                       (ok2, r, ss) \<Rightarrow>
                         let cap2 = cap1\<lparr>cap_repos := r, cap_stores := ss\<rparr>
                         in if \<not> ok2 then Returned (False, cap2)
                            else
                              and_then (net_service (se_bind_ok env) ns)
                                (\<lambda>ns'. Returned (True, cap2\<lparr>cap_net := Some ns', cap_initialized := True\<rparr>)))))"

definition captain_init ::
    "('q, 'l) start_env \<Rightarrow> string \<Rightarrow> ('q, 'l) Captain \<Rightarrow> (bool \<times> ('q, 'l) Captain) blocking" where
  "captain_init env cfgFile cap =
     (if cap_initialized cap then Returned (False, cap)
      else
        let cap1 = cap\<lparr>cap_timer := True\<rparr>;
            (ok, h) = conf_init cfgFile (se_file env) (cap_conf cap1);
            cap2 = cap1\<lparr>cap_conf := h\<rparr>
        in if \<not> ok then Returned (False, cap2)
           else
             (case get_conf (se_file env) h of
                None \<Rightarrow> Returned (False, cap2)
              | Some sc \<Rightarrow>
                  let cap3 = cap2\<lparr>cap_log_level := level_of sc\<rparr>
                  in and_then (net_init (se_valid_addr env) (se_io_threads env) (sc_network sc) (mk_NetServer ''tzrpc_server''))
                       (\<lambda>(ok2, ns).
                          let cap4 = cap3\<lparr>cap_net := Some ns\<rparr>
                          in if \<not> ok2 then Returned (False, cap4) else start_business env sc ns cap4)))"

definition service_graceful :: "('q, 'l) Captain \<Rightarrow> (bool \<times> ('q, 'l) Captain) blocking" where
  "service_graceful cap =
     (case cap_net cap of
        None \<Rightarrow> Crashed
      | Some ns \<Rightarrow> Returned (True, cap\<lparr>cap_net := Some (snd (io_service_stop_graceful ns))\<rparr>))"

definition service_joinall :: "('q, 'l) Captain \<Rightarrow> (bool \<times> ('q, 'l) Captain) blocking" where
  "service_joinall cap =
     (case cap_net cap of
        None \<Rightarrow> Crashed
      | Some ns \<Rightarrow> Returned (True, cap\<lparr>cap_net := Some (snd (io_service_join ns))\<rparr>))"

section \<open>The program\<close>

datatype option_char = Opt_c string | Opt_d | Opt_v | Opt_other

datatype exit_status = ExitSuccess | ExitFailure

text \<open>
  The loop over \<open>getopt\<close>: the configuration file and whether to become a daemon, or an exit. \<open>cfgFile\<close> is an
  array of \<open>PATH_MAX\<close> = 4096 bytes; an argument that fills it has no end.
\<close>

fun parse_options :: "option_char list \<Rightarrow> string \<Rightarrow> bool \<Rightarrow> exit_status + string \<times> bool" where
  "parse_options [] cfgFile daemonize = Inr (cfgFile, daemonize)"
| "parse_options (Opt_c arg # os) cfgFile daemonize = parse_options os (take 4096 (c_str arg)) daemonize"
| "parse_options (Opt_d # os) cfgFile daemonize = parse_options os cfgFile True"
| "parse_options (Opt_v # os) cfgFile daemonize = Inl ExitSuccess"
| "parse_options (Opt_other # os) cfgFile daemonize = Inl ExitSuccess"

text \<open>
  \<open>main\<close>: \<open>daemon_ok\<close> is the result of \<open>daemon\<close>; \<open>Blocked\<close> does not occur here,
  since joining returns when the threads have ended.
\<close>

definition main ::
    "('q, 'l) start_env \<Rightarrow> openssl \<Rightarrow> bool \<Rightarrow> string \<Rightarrow> option_char list \<Rightarrow> ('q, 'l) Captain \<Rightarrow>
     (exit_status \<times> ('q, 'l) Captain) blocking" where
  "main env ssl daemon_ok program os cap =
     (case parse_options os (program @ ''.conf'') False of
        Inl e \<Rightarrow> Returned (e, cap)
      | Inr (cfgFile, daemonize) \<Rightarrow>
          and_then (Ssl_thread_setup ssl no_ssl)
            (\<lambda>(ssl_ok, _).
               if \<not> ssl_ok then Returned (ExitFailure, cap)
               else if daemonize \<and> \<not> daemon_ok then Returned (ExitFailure, cap)
               else
                 and_then (captain_init env cfgFile cap)
                   (\<lambda>(ok, cap1).
                      if \<not> ok then Returned (ExitFailure, cap1)
                      else and_then (service_joinall cap1) (\<lambda>(_, cap2). Returned (ExitSuccess, cap2)))))"

text \<open>Signals: \<open>SIGHUP\<close> reads the configuration again, \<open>SIGUSR1\<close> prints the status of the modules.\<close>

datatype signal_t = SIGHUP | SIGUSR1 | OtherSignal

definition interrupted_callback ::
    "signal_t \<Rightarrow> 'c option \<Rightarrow> int \<Rightarrow> 's Status \<Rightarrow> ('c, 's) ConfHelper \<times> 's \<Rightarrow> string \<times> ('c, 's) ConfHelper \<times> 's" where
  "interrupted_callback sig read now st hs =
     (case sig of
        SIGHUP \<Rightarrow> (case update_runtime_conf read now (fst hs) (snd hs) of (ret, h, s) \<Rightarrow> ('''', h, s))
      | SIGUSR1 \<Rightarrow> (snd (collect_status (snd hs) st) @ endl, hs)
      | OtherSignal \<Rightarrow> ('''', hs))"

definition pid_text :: "string \<Rightarrow> int \<Rightarrow> string \<times> string" where
  "pid_text program pid = (take 4095 (''./'' @ program @ ''.pid''), take 23 (dec_int pid @ endl))"

definition create_process_pid :: "(string \<Rightarrow> bool) \<Rightarrow> string \<Rightarrow> int \<Rightarrow> int \<times> (string \<times> string) option" where
  "create_process_pid can_open program pid =
     (case pid_text program pid of
        (pid_file, msg) \<Rightarrow> if \<not> can_open pid_file then (-1, None) else (0, Some (pid_file, msg)))"

section \<open>A started server\<close>

lemma executor_init_ok:
  "\<exists>ex. executor_init sconf True addrs mk_Executor = (True, ex) \<and> rpc_queue ex = empty_queue"
proof -
  obtain p where "init_threads True (word_of_int (exec_thread_number sconf)) addrs (executor_threads mk_Executor) = (True, p)"
    by (metis (no_types) init_threads_def pool_init_def)
  then show ?thesis by (simp add: executor_init_def mk_Executor_def Let_def)
qed

lemma start_business_True:
  assumes "start_business env sc ns cap = Returned (True, cap')" "se_timer_ok env" "\<not> initialized (cap_dispatcher cap)"
  shows "\<exists>ns' ex. net_service (se_bind_ok env) ns = Returned ns' \<and> cap_net cap' = Some ns' \<and> cap_initialized cap' \<and>
    services (cap_dispatcher cap') =
      map (\<lambda>(k, ex). (k, executor_start ex)) (om_upd MONITOR_TASK_SERVICE ex (services (cap_dispatcher cap))) \<and>
    items (rpc_queue ex) = [] \<and> initialized (cap_dispatcher cap') \<and> cap_log_level cap' = cap_log_level cap \<and>
    repos_init (se_stores env) (se_int_junk env) (Some (sc_business sc)) (se_task_helper_ok env)
      (cap_repos cap, cap_stores cap) = (True, cap_repos cap', cap_stores cap')"
proof -
  obtain ms where ms: "monitor_init (se_exec_junk env) (Some (sc_services sc)) (mk_MonitorTaskService ''MonitorTaskService'') = (True, ms)"
    using assms(1) by (auto simp: start_business_def split: prod.splits bool.splits)
  obtain sconf where sconf: "monitor_get_executor_conf ms = Some sconf"
    using assms(1) ms by (auto simp: start_business_def split: option.splits)
  obtain ex where ex: "executor_init sconf (se_timer_ok env) (se_exec_threads env) mk_Executor = (True, ex)"
    "rpc_queue ex = empty_queue"
    using executor_init_ok [of sconf "se_exec_threads env"] assms(2) by auto
  then have "items (rpc_queue ex) = []" by (simp add: empty_queue_def)
  moreover have "register_service MONITOR_TASK_SERVICE sconf (se_timer_ok env) (se_exec_threads env) (cap_dispatcher cap) =
      (cap_dispatcher cap)\<lparr>services := om_upd MONITOR_TASK_SERVICE ex (services (cap_dispatcher cap))\<rparr>"
    using assms(3) ex(1) by (simp add: register_service_def)
  ultimately show ?thesis
    using assms(1) ms sconf
    by (auto simp: start_business_def dispatcher_init_def Let_def and_then_eq_Returned split: prod.splits if_splits)
qed

lemma captain_init_True:
  assumes "captain_init env cfgFile cap = Returned (True, cap')"
  shows "\<exists>sc ns cap4. \<not> cap_initialized cap \<and> se_file env = Some sc \<and>
    net_init (se_valid_addr env) (se_io_threads env) (sc_network sc) (mk_NetServer ''tzrpc_server'') = Returned (True, ns) \<and>
    cap_dispatcher cap4 = cap_dispatcher cap \<and> cap_repos cap4 = cap_repos cap \<and> cap_stores cap4 = cap_stores cap \<and>
    cap_log_level cap4 = level_of sc \<and>
    start_business env sc ns cap4 = Returned (True, cap')"
proof -
  have no: "\<not> cap_initialized cap" using assms by (auto simp: captain_init_def)
  then obtain sc where sc: "se_file env = Some sc"
    using assms by (cases "se_file env") (simp_all add: captain_init_def conf_init_def Let_def)
  let ?net = "net_init (se_valid_addr env) (se_io_threads env) (sc_network sc) (mk_NetServer ''tzrpc_server'')"
  obtain ok ns where ns: "?net = Returned (ok, ns)"
    using assms no sc by (auto simp: captain_init_def conf_init_def get_conf_def Let_def and_then_eq_Returned)
  let ?cap4 = "cap\<lparr>cap_timer := True, cap_conf := (cap_conf cap)\<lparr>cfgfile := cfgFile, conf_ptr := Some sc\<rparr>,
      cap_log_level := level_of sc, cap_net := Some ns\<rparr>"
  have "start_business env sc ns ?cap4 = Returned (True, cap')" "ok"
    using assms no sc ns by (auto simp: captain_init_def conf_init_def get_conf_def Let_def split: if_splits)
  with no sc ns show ?thesis by (intro exI [of _ sc] exI [of _ ns] exI [of _ ?cap4]) simp
qed

end
