(* ===== verification/StrUtil.thy ===== *)
theory StrUtil
  imports Prelude
begin

text \<open>
  \<open>source/Utils/StrUtil.h\<close> and \<open>source/Utils/Utils.{h,cpp}\<close>: the text helpers, the performance counter
  and the handler of fatal signals. A write outside of a buffer is
  \<open>Crashed\<close>, a read outside of a string \<open>None\<close>.
\<close>

section \<open>Formatting\<close>

definition str_kMaxBuffSize :: nat where "str_kMaxBuffSize = 2 * 8190"

text \<open>
  \<open>str_format\<close>, given the text that the format makes (\<open>None\<close> when \<open>vsnprintf\<close> fails and returns -1). The buffer has
  \<open>str_kMaxBuffSize + 1\<close> bytes, \<open>vsnprintf\<close> stores at most \<open>str_kMaxBuffSize - 1\<close> of them and returns the
  whole length, with which the buffer is terminated and copied.
\<close>

definition str_format :: "string option \<Rightarrow> string blocking" where
  "str_format out =
     (case out of
        None \<Rightarrow> Crashed
      | Some text \<Rightarrow>
          let n = length text
          in if n > str_kMaxBuffSize then Crashed
             else if n = str_kMaxBuffSize then Returned (take (str_kMaxBuffSize - 1) text @ [char_of (0::nat)])
             else Returned text)"

text \<open>\<open>boost::lexical_cast<std::string>\<close> of an integer does not fail.\<close>

definition convert_to_string :: "int \<Rightarrow> string" where
  "convert_to_string arg = dec_int arg"

section \<open>White space\<close>

text \<open>The two scans of \<open>trim_whitespace\<close>.\<close>

function left_index :: "string \<Rightarrow> nat \<Rightarrow> nat" where
  "left_index str index = (if index < length str \<and> is_space (str ! index) then left_index str (Suc index) else index)"
  by auto
termination
  by (relation "measure (\<lambda>(str, index). length str - index)") auto

fun right_index :: "string \<Rightarrow> nat \<Rightarrow> nat" where
  "right_index str 0 = 0"
| "right_index str (Suc index) = (if is_space (str ! index) then right_index str index else Suc index)"

declare left_index.simps [simp del]

definition trim_whitespace :: "string \<Rightarrow> nat \<times> string" where
  "trim_whitespace str =
     (let left = drop (left_index str 0) str;
          both = take (right_index left (length left)) left
      in (length str - length both, both))"

text \<open>\<open>boost::to_lower_copy\<close> in the C locale.\<close>

definition to_lower :: "char \<Rightarrow> char" where
  "to_lower c = (if 65 \<le> (of_char c :: nat) \<and> (of_char c :: nat) \<le> 90 then char_of (of_char c + (32::nat)) else c)"

definition trim_lowcase :: "string \<Rightarrow> string" where
  "trim_lowcase str = trim_copy (map to_lower str)"

section \<open>Addresses\<close>

text \<open>The loop of \<open>pure_uri_path\<close>; on an empty string it reads before the first character.\<close>

fun drop_slashes :: "string \<Rightarrow> string option" where
  "drop_slashes uri =
     (if uri = [] then None
      else if uri ! (length uri - 1) = CHR ''/'' \<and> length uri > 1 then drop_slashes (take (length uri - 1) uri)
      else Some uri)"

declare drop_slashes.simps [simp del]

definition pure_uri_path :: "string \<Rightarrow> string option" where
  "pure_uri_path uri = drop_slashes (trim_copy (map to_lower uri))"

definition drop_host_port :: "string \<Rightarrow> string" where
  "drop_host_port host =
     (let host = trim_copy (map to_lower host)
      in takeWhile (\<lambda>c. c \<noteq> CHR '':'') host)"

section \<open>Time spent and fatal signals\<close>

record timeval = tv_sec :: int
  tv_usec :: int

record RAII_PERF_COUNTER = perf_env :: string
  perf_key :: string
  perf_start :: timeval

definition elapsed_us :: "timeval \<Rightarrow> timeval \<Rightarrow> int" where
  "elapsed_us start stop = 1000000 * (tv_sec stop - tv_sec start) + tv_usec stop - tv_usec start"

definition perf_time :: "timeval \<Rightarrow> timeval \<Rightarrow> int \<times> int" where
  "perf_time start stop = (elapsed_us start stop sdiv 1000, elapsed_us start stop smod 1000)"

definition display_info :: "RAII_PERF_COUNTER \<Rightarrow> int \<Rightarrow> int \<Rightarrow> string" where
  "display_info c time_ms time_us =
     c_str (perf_env c) @ '', '' @ c_str (perf_key c) @ '' perf: '' @ dec_int time_ms @ ''.'' @ dec_int time_us @ '' ms''"

text \<open>The destructor: what goes to \<open>log_debug\<close>.\<close>

definition perf_finish :: "timeval \<Rightarrow> RAII_PERF_COUNTER \<Rightarrow> string" where
  "perf_finish stop c = (let (time_ms, time_us) = perf_time (perf_start c) stop in display_info c time_ms time_us)"

datatype signal_end = ExitsWithFailure | KilledBy int

definition backtrace_signals :: "string list" where
  "backtrace_signals = [''SIGABRT'', ''SIGBUS'', ''SIGFPE'', ''SIGSEGV'']"

text \<open>The handler, with the symbols of the stack as an argument: what it prints and how the process ends.\<close>

definition backtrace_info :: "int \<Rightarrow> nat \<Rightarrow> string list option \<Rightarrow> string list \<times> signal_end" where
  "backtrace_info sig nptrs strings =
     (let out = [endl @ ''Signal ['' @ dec_int sig @ ''] received.'' @ endl, ''======== Stack trace ========'',
                 ''backtrace() returned '' @ dec_nat nptrs @ '' addresses'' @ endl]
      in case strings of
           None \<Rightarrow> (out, ExitsWithFailure)
         | Some ss \<Rightarrow> (out @ map (\<lambda>s. s @ endl) ss @ [''Stack Done!'' @ endl], KilledBy sig))"

section \<open>Properties\<close>

lemma str_format_fits: "length text < str_kMaxBuffSize \<Longrightarrow> str_format (Some text) = Returned text"
  by (simp add: str_format_def)

lemma str_format_overrun: "str_format (Some text) = Crashed \<longleftrightarrow> str_kMaxBuffSize < length text"
  by (simp add: str_format_def Let_def)

lemma left_index_drop: "index \<le> length str \<Longrightarrow> drop (left_index str index) str = dropWhile is_space (drop index str)"
proof (induction str index rule: left_index.induct)
  case (1 str index)
  show ?case
  proof (cases "index < length str")
    case True
    with 1 show ?thesis
      by (subst left_index.simps) (simp add: Cons_nth_drop_Suc [symmetric])
  next
    case False
    with 1 show ?thesis
      by (subst left_index.simps) simp
  qed
qed

lemma right_index_take:
  "index \<le> length str \<Longrightarrow> take (right_index str index) str = rev (dropWhile is_space (rev (take index str)))"
  by (induction str index rule: right_index.induct) (auto simp: take_Suc_conv_app_nth)

lemma trim_whitespace_eq: "trim_whitespace str = (length str - length (trim_copy str), trim_copy str)"
  using left_index_drop [of 0 str] right_index_take [of "length l" l for l]
  by (simp add: trim_whitespace_def trim_copy_def Let_def)

lemma dropWhile_idem [simp]: "dropWhile P (dropWhile P xs) = dropWhile P xs"
  by (induction xs) auto

lemma rev_dropWhile_append: "\<exists>ys. xs = rev (dropWhile P (rev xs)) @ ys \<and> (\<forall>y \<in> set ys. P y)"
  by (intro exI [of _ "rev (takeWhile P (rev xs))"])
    (metis rev_append rev_rev_ident set_rev set_takeWhileD takeWhile_dropWhile_id)

lemma trim_copy_parts:
  "\<exists>front rear. s = front @ trim_copy s @ rear \<and> (\<forall>c \<in> set (front @ rear). is_space c)"
proof -
  obtain rear where b: "dropWhile is_space s = trim_copy s @ rear" "\<forall>c \<in> set rear. is_space c"
    using rev_dropWhile_append [of "dropWhile is_space s" is_space] by (auto simp: trim_copy_def)
  show ?thesis
    by (rule exI [of _ "takeWhile is_space s"], rule exI [of _ rear])
      (use b takeWhile_dropWhile_id [of is_space s] in \<open>auto dest: set_takeWhileD\<close>)
qed

lemma trim_copy_ends: "trim_copy s \<noteq> [] \<Longrightarrow> \<not> is_space (hd (trim_copy s)) \<and> \<not> is_space (last (trim_copy s))"
proof -
  assume ne: "trim_copy s \<noteq> []"
  let ?d = "dropWhile is_space s"
  have "\<not> is_space (last (trim_copy s))"
    using ne hd_dropWhile [of is_space "rev ?d"] by (simp add: trim_copy_def last_rev)
  moreover obtain ys where ys: "?d = trim_copy s @ ys"
    using rev_dropWhile_append [of ?d is_space] unfolding trim_copy_def by blast
  moreover have "hd (trim_copy s) = hd ?d" "?d \<noteq> []"
    unfolding ys using ne by simp_all
  ultimately show ?thesis
    using hd_dropWhile [of is_space s] by (metis (full_types))
qed

text \<open>
  \<open>trim_whitespace\<close> takes off exactly the white space at the two ends of the string and returns how
  many characters that were: the rest neither starts nor ends with white space.
\<close>

lemma trim_whitespace_spec:
  "\<exists>front rear. str = front @ snd (trim_whitespace str) @ rear \<and> (\<forall>c \<in> set (front @ rear). is_space c)
     \<and> fst (trim_whitespace str) = length front + length rear
     \<and> (snd (trim_whitespace str) = [] \<or>
        \<not> is_space (hd (snd (trim_whitespace str))) \<and> \<not> is_space (last (snd (trim_whitespace str))))"
proof -
  obtain front rear where p: "str = front @ trim_copy str @ rear" "\<forall>c \<in> set (front @ rear). is_space c"
    using trim_copy_parts [of str] by blast
  have "length str = length front + length (trim_copy str) + length rear"
    using arg_cong [OF p(1), of length] by simp
  then show ?thesis
    using p trim_copy_ends [of str]
    by (intro exI [of _ front] exI [of _ rear]) (auto simp: trim_whitespace_eq)
qed

text \<open>\<open>pure_uri_path\<close> drops the slashes at the end, down to a single one; a blank address makes it read outside of the string.\<close>

lemma drop_slashes_spec:
  "s \<noteq> [] \<Longrightarrow> \<exists>r k. drop_slashes s = Some r \<and> s = r @ replicate k (CHR ''/'') \<and> r \<noteq> []
                     \<and> (last r \<noteq> CHR ''/'' \<or> r = ''/'')"
proof (induction "length s" arbitrary: s)
  case (Suc n)
  obtain t c where s: "s = t @ [c]"
    using Suc.prems by (cases s rule: rev_cases) auto
  show ?case
  proof (cases "c = CHR ''/'' \<and> t \<noteq> []")
    case True
    then obtain r k where "drop_slashes t = Some r" "t = r @ replicate k (CHR ''/'')" "r \<noteq> []"
        "last r \<noteq> CHR ''/'' \<or> r = ''/''"
      using Suc.hyps(1) [of t] Suc.hyps(2) s by (metis length_append_singleton nat.inject)
    moreover have "drop_slashes s = drop_slashes t"
      using True s by (subst drop_slashes.simps) simp
    ultimately show ?thesis
      using True s by (intro exI [of _ r] exI [of _ "Suc k"]) (simp add: replicate_append_same)
  next
    case False
    then have "drop_slashes s = Some s"
      using s by (subst drop_slashes.simps) auto
    with s False show ?thesis
      by (intro exI [of _ s] exI [of _ 0]) auto
  qed
qed simp

lemma pure_uri_path_None: "pure_uri_path uri = None \<longleftrightarrow> trim_lowcase uri = []"
  using drop_slashes_spec [of "trim_lowcase uri"] drop_slashes.simps [of "[]"]
  by (cases "trim_lowcase uri = []") (auto simp: pure_uri_path_def trim_lowcase_def)

lemma drop_host_port_no_colon: "CHR '':'' \<notin> set (drop_host_port host)"
  by (auto simp: drop_host_port_def Let_def dest: set_takeWhileD)

text \<open>The counter splits the time spent without loss.\<close>

lemma perf_time_exact:
  "1000 * fst (perf_time start stop) + snd (perf_time start stop) = elapsed_us start stop"
  using sdiv_mult_smod_eq [of "elapsed_us start stop" 1000] by (simp add: perf_time_def)

text \<open>The text has no leading zeros in the fraction: 1 ms 5 us is printed as 1.5 ms.\<close>

lemma perf_finish_misleading:
  "perf_finish \<lparr>tv_sec = 0, tv_usec = 1005\<rparr> \<lparr>perf_env = [], perf_key = [], perf_start = \<lparr>tv_sec = 0, tv_usec = 0\<rparr>\<rparr>
     = '',  perf: 1.5 ms''"
  by code_simp

end
