(* ===== verification/WebFace.thy ===== *)
theory WebFace
  imports HeraclesClient StrUtil
begin

text \<open>
  \<open>examples/stat_handler.{h,cpp}\<close> and \<open>examples/http_face.cpp\<close>: the web pages of the monitor, built on the client library. The
  HTTP server (tzhttpd) is not part of the repository: the parameters of a request, the status line and
  the error page it offers are arguments, as is \<open>localtime\<close>. The calls of the client go over the network one after the
  other; the network of the \<open>i\<close>-th call is \<open>ne i\<close>. Texts that are not ASCII are given by their UTF-8 bytes.
\<close>

section \<open>Pages\<close>

definition utf8 :: "nat list \<Rightarrow> string" where
  "utf8 bytes = map char_of bytes"

datatype StatusCode = success_ok | server_error_internal_server_error

record http_server =
  http_server_version :: string
  generate_response_status_line :: "string \<Rightarrow> StatusCode \<Rightarrow> string"
  content_error :: string

text \<open>\<open>HttpParser\<close>: the version of the request and the parameters of its address.\<close>

record HttpParser =
  get_version :: string
  get_request_uri_param :: "string \<Rightarrow> string option"

definition print_menu :: string where
  "print_menu =
     ''<br />'' @ endl
     @ ''<a href=\"/monitor\">'' @ utf8 [0xE8, 0xBF, 0x94, 0xE5, 0x9B, 0x9E, 0xE9, 0xA6, 0x96, 0xE9, 0xA1, 0xB5] @ ''</a>'' @ endl
     @ ''<a href=\"\">'' @ utf8 [0xE5, 0x88, 0xB7, 0xE6, 0x96, 0xB0, 0xE6, 0x9C, 0xAC, 0xE9, 0xA1, 0xB5] @ ''</a>'' @ endl
     @ ''<br />'' @ endl"

definition page_top :: string where
  "page_top =
     ''<html>'' @ endl
     @ ''<META http-equiv=\"Content-Type\" content=\"text/html; charset=utf-8\">'' @ endl
     @ ''<head>'' @ endl
     @ ''<style> table {    font-family:\"Trebuchet MS\", Arial, Helvetica, sans-serif; ''
     @ ''    border-collapse: collapse;     table-layout: fixed; } ''
     @ ''th, td {     text-align: left;     padding: 3px; }''
     @ ''tr:nth-child(even){background-color: #F2F2F2;} tr:nth-child(odd) {background-color: #EAF2D3;} </style>'' @ endl
     @ ''</head>'' @ endl
     @ ''<body align=center>'' @ endl"

text \<open>
  \<open>fetch_stat\<close> with the head of the derived class and the result of its \<open>print_items\<close>, a status and the rows; without a text the
  response stays as it is.
\<close>

definition fetch_stat ::
    "http_server \<Rightarrow> timeval \<Rightarrow> timeval \<Rightarrow> string \<Rightarrow> (int \<times> string \<times> 's) blocking \<Rightarrow> (int \<times> string option \<times> 's) blocking" where
  "fetch_stat hs began ended print_head print_items =
     and_then print_items (\<lambda>(ret, rows, s).
       if ret \<noteq> 0 then Returned (-1, None, s)
       else
         let (time_ms, time_us) = perf_time began ended
         in Returned (0, Some (page_top @ print_menu @ ''<table align=center>'' @ endl @ print_head @ rows
              @ ''</table>'' @ endl
              @ ''<p>tzhttpd ('' @ http_server_version hs @ '') result build in '' @ dec_int time_ms @ ''.'' @ dec_int time_us
              @ ''ms.</p>'' @ ''</body>'' @ endl @ ''</html>'' @ endl), s))"

text \<open>What both handlers do with the page.\<close>

record http_answer =
  ha_ret :: int
  ha_response :: string
  ha_status_line :: string
  ha_add_header :: "string list"

definition answer_page :: "http_server \<Rightarrow> HttpParser \<Rightarrow> (int \<times> string option \<times> 's) blocking \<Rightarrow> (http_answer \<times> 's) blocking" where
  "answer_page hs http_parser page =
     and_then page (\<lambda>(ret, str, s).
       Returned (case (ret = 0, str) of
           (True, Some response) \<Rightarrow>
             (\<lparr>ha_ret = 0, ha_response = response,
               ha_status_line = generate_response_status_line hs (get_version http_parser) success_ok,
               ha_add_header = [''Content-Type: text/html; charset=utf-8'']\<rparr>, s)
         | _ \<Rightarrow>
             (\<lparr>ha_ret = -1, ha_response = content_error hs,
               ha_status_line = generate_response_status_line hs (get_version http_parser) server_error_internal_server_error,
               ha_add_header = [''Content-Type: text/html; charset=utf-8'']\<rparr>, s)))"

section \<open>The index\<close>

definition index_head :: string where
  "index_head =
     ''<h3 align=\"center\">Heracles''
       @ utf8 [0xE7, 0x9B, 0x91, 0xE6, 0x8E, 0xA7, 0xE7, 0xB3, 0xBB, 0xE7, 0xBB, 0x9F, 0xE4, 0xBD, 0xBF, 0xE7, 0x94, 0xA8, 0xE6, 0x89, 0x8B, 0xE5, 0x86, 0x8C]
       @ ''</h3>'' @ endl
     @ ''<tr style=\"font-weight:bold; font-style:italic;\">'' @ endl
     @ ''<td>'' @ utf8 [0xE5, 0xBA, 0x8F, 0xE5, 0x8F, 0xB7] @ ''</td>'' @ endl
     @ ''<td>'' @ utf8 [0xE8, 0xAE, 0xBF, 0xE9, 0x97, 0xAE] @ '' A</td>'' @ endl
     @ ''<td>'' @ utf8 [0xE8, 0xAE, 0xBF, 0xE9, 0x97, 0xAE] @ '' B</td>'' @ endl
     @ ''<td>'' @ utf8 [0xE8, 0xAE, 0xBF, 0xE9, 0x97, 0xAE] @ '' C</td>'' @ endl
     @ ''<td>'' @ utf8 [0xE8, 0xAE, 0xBF, 0xE9, 0x97, 0xAE] @ '' D</td>'' @ endl
     @ ''</tr>'' @ endl"

text \<open>The first loop: the metrics and the configuration of every service that answers, from call \<open>i\<close> on.\<close>

type_synonym index_maps = "(string, string list) omap \<times> (string, event_handler_conf_t) omap"

definition no_handler_conf :: event_handler_conf_t where
  "no_handler_conf = \<lparr>hc_event_linger = 0, hc_event_step = 0, hc_store_type = []\<rparr>"

fun ask_metrics ::
    "pb_codec \<Rightarrow> (nat \<Rightarrow> net_env) \<Rightarrow> nat \<Rightarrow> string list \<Rightarrow> index_maps \<Rightarrow> HeraclesClientImpl \<Rightarrow>
     (index_maps \<times> HeraclesClientImpl) blocking" where
  "ask_metrics pb ne i [] maps hi = Returned (maps, hi)"
| "ask_metrics pb ne i (service # rest) maps hi =
     and_then (HeraclesClient_known_metrics pb (ne i) no_handler_conf [] service hi)
       (\<lambda>(ret, handler_conf, metrics, hi').
          ask_metrics pb ne (i + 1) rest
            (if ret = 0 \<and> metrics \<noteq> []
             then (om_upd service metrics (fst maps), om_upd service handler_conf (snd maps)) else maps)
            hi')"

text \<open>One link of a metric: the window in seconds and its name; \<open>%s\<close> stops at a zero byte.\<close>

definition link_query :: "string \<Rightarrow> string \<Rightarrow> string \<Rightarrow> string" where
  "link_query name metric tm_interval =
     ''version=1.0.0&service='' @ c_str name @ ''&metric='' @ c_str metric @ ''&tm_interval='' @ tm_interval"

definition stats_link :: "string \<Rightarrow> string \<Rightarrow> string \<Rightarrow> string \<Rightarrow> string" where
  "stats_link name metric tm_interval label =
     ''<td>'' @ tab @ ''<a href=\"/monitor/stats?'' @ link_query name metric tm_interval @ ''\">'' @ c_str metric @ '' '' @ label
     @ ''</a></td>''"

definition link_windows :: "(string \<times> string) list" where
  "link_windows = [(''60'', ''1min''), (''600'', ''10min''), (''3600'', ''1hour''), (''86400'', ''1day'')]"

fun links :: "string \<Rightarrow> string \<Rightarrow> (string \<times> string) list \<Rightarrow> string blocking" where
  "links name metric [] = Returned []"
| "links name metric ((tm_interval, label) # ws) =
     and_then (str_format (Some (stats_link name metric tm_interval label)))
       (\<lambda>l. and_then (links name metric ws) (\<lambda>ls. Returned (l @ endl @ ls)))"

fun metric_rows_html :: "string \<Rightarrow> string list \<Rightarrow> string blocking" where
  "metric_rows_html name [] = Returned []"
| "metric_rows_html name (metric # ms) =
     and_then (links name metric link_windows)
       (\<lambda>ls. and_then (metric_rows_html name ms)
         (\<lambda>r. Returned (''<tr>'' @ endl @ ''<td> </td>'' @ endl @ ls @ ''</tr>'' @ endl @ r)))"

text \<open>The second loop; \<open>operator[]\<close> of a missing service gives empty entries, and \<open>buff\<close> has 128 bytes.\<close>

fun service_rows :: "index_maps \<Rightarrow> string list \<Rightarrow> string blocking" where
  "service_rows maps [] = Returned []"
| "service_rows maps (name # rest) =
     (let metrics = (case om_find (fst maps) name of None \<Rightarrow> [] | Some ms \<Rightarrow> ms);
          hc = (case om_find (snd maps) name of None \<Rightarrow> no_handler_conf | Some c \<Rightarrow> c);
          buff = take 127 (''st:'' @ dec_int (hc_event_step hc) @ '',lg:'' @ dec_int (hc_event_linger hc)
                           @ '',sr:'' @ c_str (hc_store_type hc))
      in and_then (metric_rows_html name metrics)
           (\<lambda>ms. and_then (service_rows maps rest)
             (\<lambda>r. Returned (''<tr><td>'' @ name @ ''</td>'' @ endl @ ''<td>'' @ buff @ ''</td></tr>'' @ endl @ ms @ r))))"

definition index_items ::
    "pb_codec \<Rightarrow> (nat \<Rightarrow> net_env) \<Rightarrow> (string \<Rightarrow> monitor_cfg option) \<Rightarrow> HeraclesClientImpl \<Rightarrow>
     (int \<times> string \<times> HeraclesClientImpl) blocking" where
  "index_items pb ne file hi =
     and_then (client_init pb (ne 0) file hi) (\<lambda>(ok, hi0).
       if \<not> ok then Returned (-1, [], hi0)
       else and_then (HeraclesClient_ping pb (ne 1) hi0) (\<lambda>(ret, hi1).
         if ret \<noteq> 0 then Returned (-1, [], hi1)
         else and_then (HeraclesClient_known_services pb (ne 2) [] hi1) (\<lambda>(ret, svs, hi2).
           if ret \<noteq> 0 then Returned (-1, [], hi2)
           else and_then (ask_metrics pb ne 3 svs ([], []) hi2) (\<lambda>(maps, hi3).
             and_then (service_rows maps svs) (\<lambda>rows. Returned (0, rows, hi3))))))"

definition index_http_get_handler ::
    "http_server \<Rightarrow> timeval \<Rightarrow> timeval \<Rightarrow> pb_codec \<Rightarrow> (nat \<Rightarrow> net_env) \<Rightarrow> (string \<Rightarrow> monitor_cfg option) \<Rightarrow> HttpParser \<Rightarrow>
     HeraclesClientImpl \<Rightarrow> (http_answer \<times> HeraclesClientImpl) blocking" where
  "index_http_get_handler hs began ended pb ne file http_parser hi =
     answer_page hs http_parser (fetch_stat hs began ended index_head (index_items pb ne file hi))"

section \<open>The statistics of a metric\<close>

text \<open>\<open>localtime\<close>: year since 1900, month from 0, day, hour, minute, second.\<close>

type_synonym localtime_t = "int \<Rightarrow> int \<times> int \<times> int \<times> int \<times> int \<times> int"

definition time_to_date :: "localtime_t \<Rightarrow> int \<Rightarrow> string" where
  "time_to_date localtime tt =
     (case localtime tt of (year, mon, mday, hour, minute, sec) \<Rightarrow>
        dec_int (year + 1900) @ ''-'' @ zero_pad 2 (dec_int (mon + 1)) @ ''-'' @ zero_pad 2 (dec_int mday))"

definition time_to_datetime :: "localtime_t \<Rightarrow> int \<Rightarrow> string" where
  "time_to_datetime localtime tt =
     (if tt = 0 then []
      else case localtime tt of (year, mon, mday, hour, minute, sec) \<Rightarrow>
        dec_int (year + 1900) @ ''-'' @ zero_pad 2 (dec_int (mon + 1)) @ ''-'' @ zero_pad 2 (dec_int mday) @ '' ''
        @ zero_pad 2 (dec_int hour) @ '':'' @ zero_pad 2 (dec_int minute) @ '':'' @ zero_pad 2 (dec_int sec))"

definition stats_columns :: string where
  "stats_columns =
     ''<tr style=\"font-weight:bold; font-style:italic;\">'' @ endl
     @ ''<td></td>'' @ endl
     @ concat (map (\<lambda>c. ''<td>'' @ c @ ''</td>'' @ endl)
         [''F_idx'', ''F_timestamp'', ''F_tag'', ''F_count'', ''F_value_sum'', ''F_value_avg'', ''F_value_min'',
          ''F_value_max'', ''F_value_p10'', ''F_value_p50'', ''F_value_p90''])
     @ ''</tr>'' @ endl"

text \<open>\<open>print_head\<close>: the condition of the query from the parameters of the request, and the head of the page.\<close>

definition required_params :: "HttpParser \<Rightarrow> event_cond_t \<Rightarrow> event_cond_t" where
  "required_params http_parser cond =
     (let get = get_request_uri_param http_parser;
          cond = (case get ''version'' of None \<Rightarrow> cond | Some v \<Rightarrow> cond\<lparr>ec_version := v\<rparr>);
          cond = (case get ''service'' of None \<Rightarrow> cond | Some v \<Rightarrow> cond\<lparr>ec_service := v\<rparr>);
          cond = (case get ''metric'' of None \<Rightarrow> cond | Some v \<Rightarrow> cond\<lparr>ec_metric := v\<rparr>)
      in cond\<lparr>ec_tm_interval :=
           (case get ''tm_interval'' of
              None \<Rightarrow> 60
            | Some v \<Rightarrow> if atoll v \<le> 0 then 60 else atoll v)\<rparr>)"

definition stats_head :: "HttpParser \<Rightarrow> event_cond_t \<Rightarrow> string \<times> event_cond_t" where
  "stats_head http_parser cond0 =
     (let get = get_request_uri_param http_parser;
          cond = required_params http_parser cond0
      in if ec_version cond = [] \<or> ec_service cond = [] \<or> ec_metric cond = [] \<or> ec_tm_interval cond \<le> 0
         then (''<h3 align=\"center\">Param Error</h3>'', cond)
         else
           let ss = ''<h3 align=\"center\">'' @ utf8 [0xE6, 0x9C, 0x8D, 0xE5, 0x8A, 0xA1, 0xEF, 0xBC, 0x9A] @ ec_service cond @ '', ''
             @ utf8 [0xE4, 0xBA, 0x8B, 0xE4, 0xBB, 0xB6, 0xE5, 0x90, 0x8D, 0xE7, 0xA7, 0xB0, 0xEF, 0xBC, 0x9A] @ ec_metric cond
                    @ '', '' @ utf8 [0xE6, 0x97, 0xB6, 0xE9, 0x95, 0xBF, 0xEF, 0xBC, 0x9A] @ dec_int (ec_tm_interval cond) @ '' sec'' @ endl;
               (ss, cond) = (case get ''tm_start'' of None \<Rightarrow> (ss, cond)
                             | Some v \<Rightarrow> (ss @ '', ''
                               @ utf8 [0xE5, 0xBC, 0x80, 0xE5, 0xA7, 0x8B, 0xE6, 0x97, 0xB6, 0xE9, 0x97, 0xB4, 0xEF, 0xBC, 0x9A] @ dec_int (atoll v), cond\<lparr>ec_tm_start := atoll v\<rparr>));
               (ss, cond) = (case get ''entity_idx'' of None \<Rightarrow> (ss, cond)
                             | Some v \<Rightarrow> (ss @ '', '' @ utf8 [0xE6, 0x9C, 0x8D, 0xE5, 0x8A, 0xA1] @ ''Idx''
                               @ utf8 [0xEF, 0xBC, 0x9A] @ v, cond\<lparr>ec_entity_idx := v\<rparr>));
               (ss, cond) = (case get ''tag'' of None \<Rightarrow> (ss, cond)
                             | Some v \<Rightarrow> (ss @ '', Tag'' @ utf8 [0xEF, 0xBC, 0x9A] @ v, cond\<lparr>ec_tag := v\<rparr>))
           in (ss @ ''</h3>'' @ endl @ stats_columns, cond))"

text \<open>One row. It ends with the opening tag of a row.\<close>

definition cell :: "string \<Rightarrow> string" where
  "cell s = ''<td>'' @ s @ ''</td>'' @ endl"

definition build_record :: "localtime_t \<Rightarrow> nat \<Rightarrow> event_info_t \<Rightarrow> string" where
  "build_record localtime idx info =
     ''<tr>'' @ endl @ ''<td></td>'' @ endl @ cell (dec_nat idx)
     @ (if ei_timestamp info = 0 then ''<td> - </td>'' @ endl else cell (time_to_datetime localtime (ei_timestamp info)))
     @ (if ei_tag info = [] then ''<td> - </td>'' @ endl else cell (ei_tag info))
     @ concat (map (\<lambda>x. cell (dec_int x))
         [ei_count info, ei_value_sum info, ei_value_avg info, ei_value_min info, ei_value_max info,
          ei_value_p10 info, ei_value_p50 info, ei_value_p90 info])
     @ ''<tr>'' @ endl"

definition detail_rows :: "localtime_t \<Rightarrow> string \<Rightarrow> event_info_t list \<Rightarrow> string" where
  "detail_rows localtime title info =
     ''<tr style=\"font-weight:bold;\">'' @ endl @ cell title
     @ concat (map (\<lambda>(idx, i). build_record localtime idx i) (enumerate 0 info))
     @ ''</tr>'' @ endl"

text \<open>\<open>print_items\<close>, with the condition that \<open>print_head\<close> has set.\<close>

definition stats_items ::
    "localtime_t \<Rightarrow> pb_codec \<Rightarrow> (nat \<Rightarrow> net_env) \<Rightarrow> (string \<Rightarrow> monitor_cfg option) \<Rightarrow> event_cond_t \<Rightarrow> HeraclesClientImpl \<Rightarrow>
     (int \<times> string \<times> HeraclesClientImpl) blocking" where
  "stats_items localtime pb ne file cond0 hi =
     and_then (client_init pb (ne 0) file hi) (\<lambda>(ok, hi0).
       if \<not> ok then Returned (-1, [], hi0)
       else and_then (HeraclesClient_ping pb (ne 1) hi0) (\<lambda>(ret, hi1).
         if ret \<noteq> 0 then Returned (-1, [], hi1)
         else and_then (HeraclesClient_select_stat pb (ne 2) (cond0\<lparr>ec_groupby := kGroupbyTag\<rparr>) empty_select hi1)
           (\<lambda>(ret, cond, result, hi2).
             if ret \<noteq> 0 then Returned (-1, [], hi2)
             else
               let rows = ''<tr style=\"font-weight:bold;\">'' @ endl @ cell (''[''
                 @ utf8 [0xE7, 0xBB, 0x9F, 0xE8, 0xAE, 0xA1, 0xE6, 0x80, 0xBB, 0xE8, 0xA7, 0x88]
                 @ '']'') @ build_record localtime 0 (es_summary result)
                          @ ''</tr>'' @ endl
                          @ detail_rows localtime (''[''
                            @ utf8 [0xE6, 0x8C, 0x89, 0xE6, 0xA0, 0x87, 0xE7, 0xAD, 0xBE, 0xE5, 0x88, 0x86, 0xE7, 0xB1, 0xBB, 0xE6, 0x98, 0x8E, 0xE7, 0xBB, 0x86]
                            @ '']'') (es_info result)
               in if ec_tm_interval cond > 600 then Returned (0, rows, hi2)
                  else and_then (HeraclesClient_select_stat pb (ne 3) (cond\<lparr>ec_groupby := kGroupbyTimestamp\<rparr>)
                                   (result\<lparr>es_info := []\<rparr>) hi2)
                    (\<lambda>(ret, cond', result', hi3).
                      if ret \<noteq> 0 then Returned (-1, rows, hi3)
                      else Returned (0, rows @ detail_rows localtime (''[''
                        @ utf8 [0xE6, 0x8C, 0x89, 0xE6, 0x97, 0xB6, 0xE9, 0x97, 0xB4, 0xE5, 0x88, 0x86, 0xE7, 0xB1, 0xBB, 0xE6, 0x98, 0x8E, 0xE7, 0xBB, 0x86]
                        @ '']'') (es_info result'), hi3)))))"

definition stats_http_get_handler ::
    "http_server \<Rightarrow> timeval \<Rightarrow> timeval \<Rightarrow> localtime_t \<Rightarrow> pb_codec \<Rightarrow> (nat \<Rightarrow> net_env) \<Rightarrow> (string \<Rightarrow> monitor_cfg option) \<Rightarrow> HttpParser \<Rightarrow>
     HeraclesClientImpl \<Rightarrow> (http_answer \<times> HeraclesClientImpl) blocking" where
  "stats_http_get_handler hs began ended localtime pb ne file http_parser hi =
     (let (head, cond) = stats_head http_parser (default_cond\<lparr>ec_version := ''1.0.0''\<rparr>)
      in answer_page hs http_parser (fetch_stat hs began ended head (stats_items localtime pb ne file cond hi)))"

section \<open>Properties\<close>

text \<open>The fields of a query string, as HTTP servers read them.\<close>

definition query_fields :: "string \<Rightarrow> (string \<times> string) list" where
  "query_fields q = map (\<lambda>f. (takeWhile (\<lambda>c. c \<noteq> CHR ''='') f, drop 1 (dropWhile (\<lambda>c. c \<noteq> CHR ''='') f))) (split_on (CHR ''&'') q)"

definition plain_name :: "string \<Rightarrow> bool" where
  "plain_name s \<longleftrightarrow> s \<noteq> [] \<and> CHR ''&'' \<notin> set s \<and> char_of (0::nat) \<notin> set s"

definition field :: "string \<Rightarrow> string \<Rightarrow> string" where
  "field k v = k @ CHR ''='' # v"

lemma query_fields_one:
  assumes "CHR ''='' \<notin> set k" and "CHR ''&'' \<notin> set k" and "CHR ''&'' \<notin> set v"
  shows "query_fields (field k v) = [(k, v)]" and "query_fields (field k v @ CHR ''&'' # q) = (k, v) # query_fields q"
proof -
  have "takeWhile (\<lambda>c. c \<noteq> CHR ''='') (field k v) = k" "dropWhile (\<lambda>c. c \<noteq> CHR ''='') (field k v) = CHR ''='' # v"
    using assms(1) unfolding field_def by (subst takeWhile_append2 dropWhile_append2; auto)+
  moreover have "CHR ''&'' \<notin> set (field k v)"
    using assms by (simp add: field_def)
  ultimately show "query_fields (field k v) = [(k, v)]" "query_fields (field k v @ CHR ''&'' # q) = (k, v) # query_fields q"
    by (simp_all add: query_fields_def split_on_sep split_on_no_sep)
qed

lemma link_query_fields:
  assumes "plain_name name" and "plain_name metric" and "CHR ''&'' \<notin> set tm"
  shows "query_fields (link_query name metric tm) =
           [(''version'', ''1.0.0''), (''service'', name), (''metric'', metric), (''tm_interval'', tm)]"
proof -
  have "link_query name metric tm =
      field ''version'' ''1.0.0'' @ CHR ''&'' # field ''service'' name @ CHR ''&''
      # field ''metric'' metric @ CHR ''&'' # field ''tm_interval'' tm"
    using assms(1,2) by (simp add: link_query_def plain_name_def field_def)
  then show ?thesis
    using assms by (simp add: query_fields_one plain_name_def)
qed

text \<open>
  The links of the index lead back to what they stand for: where service and metric have no separator in
  them, the request that a link makes gives the page of statistics a condition for that service and metric over
  the window of the link.
\<close>

theorem index_link_roundtrip:
  assumes "plain_name name" and "plain_name metric" and "(tm, label) \<in> set link_windows"
    and "get_request_uri_param http_parser = map_of (query_fields (link_query name metric tm))"
  shows "snd (stats_head http_parser (default_cond\<lparr>ec_version := ''1.0.0''\<rparr>)) =
           default_cond\<lparr>ec_version := ''1.0.0'', ec_service := name, ec_metric := metric, ec_tm_interval := atoll tm\<rparr>
     \<and> atoll tm \<in> {60, 600, 3600, 86400}"
proof -
  have amp: "CHR ''&'' \<notin> set tm"
    using assms(3) by (auto simp: link_windows_def)
  have decimals: "dec_nat 60 = ''60''" "dec_nat 600 = ''600''" "dec_nat 3600 = ''3600''" "dec_nat 86400 = ''86400''"
    by (simp_all add: dec_nat.simps digit_def char_of_def bit_0)
  have secs: "atoll ''60'' = 60" "atoll ''600'' = 600" "atoll ''3600'' = 3600" "atoll ''86400'' = 86400"
    using atoll_dec_nat [of 60] atoll_dec_nat [of 600] atoll_dec_nat [of 3600] atoll_dec_nat [of 86400]
    unfolding decimals by simp_all
  have tm: "atoll tm \<in> {60, 600, 3600, 86400}"
    using assms(3) by (auto simp: link_windows_def secs)
  have "required_params http_parser (default_cond\<lparr>ec_version := ''1.0.0''\<rparr>) =
      default_cond\<lparr>ec_version := ''1.0.0'', ec_service := name, ec_metric := metric, ec_tm_interval := atoll tm\<rparr>"
    using tm by (auto simp: required_params_def assms(4) link_query_fields [OF assms(1,2) amp] Let_def)
  then show ?thesis
    using tm assms(1,2)
    by (auto simp: stats_head_def assms(4) link_query_fields [OF assms(1,2) amp] Let_def plain_name_def)
qed

theorem index_link_roundtrip_witness:
  "snd (stats_head \<lparr>get_version = [], get_request_uri_param = map_of (query_fields (link_query ''svc'' ''rps'' ''600''))\<rparr>
          (default_cond\<lparr>ec_version := ''1.0.0''\<rparr>)) =
     default_cond\<lparr>ec_version := ''1.0.0'', ec_service := ''svc'', ec_metric := ''rps'', ec_tm_interval := atoll ''600''\<rparr>"
  using index_link_roundtrip [of "''svc''" "''rps''" "''600''" "''10min''"
      "\<lparr>get_version = [], get_request_uri_param = map_of (query_fields (link_query ''svc'' ''rps'' ''600''))\<rparr>"]
  by (simp add: plain_name_def link_windows_def char_of_def)

text \<open>The names are not encoded: a metric with a separator leads to the metric before the separator.\<close>

lemma link_ampersand:
  "query_fields (link_query ''svc'' ''a&b'' ''60'') =
     [(''version'', ''1.0.0''), (''service'', ''svc''), (''metric'', ''a''), (''b'', []), (''tm_interval'', ''60'')]"
  by code_simp

text \<open>Where every link fits into the buffer of \<open>str_format\<close> the rows of a service are built; a longer one overruns it.\<close>

lemma links_fit:
  assumes "\<forall>(tm, label) \<in> set ws. length (stats_link name metric tm label) < str_kMaxBuffSize"
  shows "links name metric ws = Returned (concat (map (\<lambda>(tm, label). stats_link name metric tm label @ endl) ws))"
  using assms by (induction name metric ws rule: links.induct) (auto simp: str_format_fits)

lemma links_overrun:
  "str_kMaxBuffSize < length (stats_link name metric tm label) \<Longrightarrow> links name metric ((tm, label) # ws) = Crashed"
  using str_format_overrun [of "stats_link name metric tm label"] by simp

text \<open>Tags go into the page as they are, markup included.\<close>

lemma tag_not_escaped:
  "ei_tag info \<noteq> [] \<Longrightarrow> \<exists>pre post. build_record localtime idx info = pre @ ei_tag info @ post"
proof -
  assume tag: "ei_tag info \<noteq> []"
  let ?pre = "''<tr>'' @ endl @ ''<td></td>'' @ endl @ cell (dec_nat idx)
     @ (if ei_timestamp info = 0 then ''<td> - </td>'' @ endl else cell (time_to_datetime localtime (ei_timestamp info))) @ ''<td>''"
  have "\<exists>post. build_record localtime idx info = ?pre @ ei_tag info @ post"
    using tag by (simp add: build_record_def cell_def)
  then show ?thesis
    by blast
qed

text \<open>
  A request without a service is answered with the statistics of the client's own service, below the words
  ``Param Error''.
\<close>

lemma select_stat_own_service:
  "ec_service c = [] \<Longrightarrow> hi_client_agent hi \<noteq> None \<Longrightarrow>
     select_stat pb ne c stat hi = select_stat pb ne (c\<lparr>ec_service := hi_service hi\<rparr>) stat hi"
proof -
  assume e: "ec_service c = []" and a: "hi_client_agent hi \<noteq> None"
  show ?thesis
  proof (cases "hi_service hi = []")
    case True
    with e have "c\<lparr>ec_service := hi_service hi\<rparr> = c"
      by simp
    then show ?thesis
      by simp
  next
    case False
    with e a show ?thesis
      by (auto simp: select_stat_def)
  qed
qed

lemma missing_service_answered:
  assumes "client_init pb (ne 0) file hi = Returned (True, hi0)" and "HeraclesClient_ping pb (ne 1) hi0 = Returned (0, hi1)"
    and "ec_service cond = []" and "hi_client_agent hi1 \<noteq> None" and "hi_already_initialized hi1"
  shows "stats_items localtime pb ne file cond hi = stats_items localtime pb ne file (cond\<lparr>ec_service := hi_service hi1\<rparr>) hi"
proof -
  have cond_swap: "cond\<lparr>ec_groupby := kGroupbyTag, ec_service := hi_service hi1\<rparr> =
      cond\<lparr>ec_service := hi_service hi1, ec_groupby := kGroupbyTag\<rparr>"
    by simp
  have "HeraclesClient_select_stat pb (ne 2) (cond\<lparr>ec_groupby := kGroupbyTag\<rparr>) empty_select hi1 =
      HeraclesClient_select_stat pb (ne 2) (cond\<lparr>ec_service := hi_service hi1, ec_groupby := kGroupbyTag\<rparr>) empty_select hi1"
    using select_stat_own_service [of "cond\<lparr>ec_groupby := kGroupbyTag\<rparr>" hi1 pb "ne 2" empty_select] assms(3-5)
    by (simp add: HeraclesClient_select_stat_def cond_swap)
  moreover have "cond\<lparr>ec_service := hi_service hi1\<rparr>\<lparr>ec_groupby := kGroupbyTag\<rparr> =
      cond\<lparr>ec_service := hi_service hi1, ec_groupby := kGroupbyTag\<rparr>"
    by (rule refl)
  ultimately show ?thesis
    unfolding stats_items_def assms(1,2) and_then.simps prod.case by (simp only: simp_thms if_False if_True)
qed

end
