(* ===== verification/Tools.thy ===== *)
theory Tools
  imports WebFace Captain
begin

text \<open>
  The command line programs of \<open>examples/\<close>: \<open>select_detail.cpp\<close> (one query from the command line), \<open>startup.cpp\<close> (a walk
  through the client library) and the start of \<open>http_face.cpp\<close>. They run on the
  model of the client library, the network of the \<open>i\<close>-th call being \<open>ne i\<close>; what they print is part of their result.
\<close>

section \<open>Selecting from the command line\<close>

text \<open>\<open>%d\<close> of \<open>sscanf\<close>: white space, an optional sign, digits.\<close>

definition scan_int :: "string \<Rightarrow> (int \<times> string) option" where
  "scan_int s =
     (let s = dropWhile is_space s;
          (neg, s) = (case s of [] \<Rightarrow> (False, s)
                      | c # cs \<Rightarrow> if c = CHR ''-'' then (True, cs) else if c = CHR ''+'' then (False, cs) else (False, s));
          ds = takeWhile is_digit s
      in if ds = [] then None
         else Some (if neg then - int (digits_val ds) else int (digits_val ds), dropWhile is_digit s))"

text \<open>\<open>%d-%d-%d %d:%d:%d\<close>: the numbers up to the first failure; a blank stands for any white space, another separator for itself.\<close>

fun scan_fields :: "char list \<Rightarrow> string \<Rightarrow> int list" where
  "scan_fields [] s = (case scan_int s of None \<Rightarrow> [] | Some (x, _) \<Rightarrow> [x])"
| "scan_fields (sep # seps) s =
     (case scan_int s of
        None \<Rightarrow> []
      | Some (x, r) \<Rightarrow>
          x # (if sep = CHR '' '' then scan_fields seps (dropWhile is_space r)
               else case r of
                      [] \<Rightarrow> []
                    | c # cs \<Rightarrow> if c = sep then scan_fields seps cs else []))"

text \<open>\<open>mktime\<close> is an argument: year since 1900, month from 0, day, hour, minute, second. Fields not read are zero.\<close>

definition to_unixstamp :: "(int list \<Rightarrow> int) \<Rightarrow> string \<Rightarrow> int" where
  "to_unixstamp mktime timeStamp =
     (let fs = scan_fields ''-- ::'' (c_str timeStamp);
          fs = fs @ replicate (6 - length fs) 0
      in mktime [fs ! 0 - 1900, fs ! 1 - 1, fs ! 2, fs ! 3, fs ! 4, fs ! 5])"

definition info_numbers :: "event_info_t \<Rightarrow> string" where
  "info_numbers i =
     '', count:'' @ dec_int (ei_count i) @ '', sum:'' @ dec_int (ei_value_sum i) @ '', avg:'' @ dec_int (ei_value_avg i)
     @ '', min:'' @ dec_int (ei_value_min i) @ '', max:'' @ dec_int (ei_value_max i) @ '', p10:'' @ dec_int (ei_value_p10 i)
     @ '', p50:'' @ dec_int (ei_value_p50 i) @ '', p90:'' @ dec_int (ei_value_p90 i)"

text \<open>The summary and detail lines; \<open>snprintf\<close> keeps 2047 characters of each.\<close>

definition summary_line :: "string \<Rightarrow> event_select_t \<Rightarrow> string" where
  "summary_line pre stat =
     take 2047 (pre @ ''summary: timestamp:'' @ dec_int (es_timestamp stat) @ '', tag:'' @ c_str (ei_tag (es_summary stat))
                @ info_numbers (es_summary stat)) @ endl"

definition print_select :: "event_select_t \<Rightarrow> string" where
  "print_select select =
     ''select_stat_by_tag info:'' @ endl
     @ ''select condition return:'' @ endl
     @ ''    timestamp:'' @ dec_int (es_timestamp select) @ '', '' @ ''tm_interval:'' @ dec_int (es_tm_interval select) @ '', ''
     @ ''service:'' @ es_service select @ '', '' @ ''metric:'' @ es_metric select @ '', ''
     @ ''entity_idx:'' @ es_entity_idx select @ '', '' @ ''tag:'' @ es_tag select @ endl
     @ summary_line ''    '' select
     @ ''detail:'' @ endl
     @ concat (map (\<lambda>(i, info). dec_nat i @ ''=>'' @ endl
                      @ take 2047 (''    tag:'' @ c_str (ei_tag info) @ info_numbers info) @ endl)
         (enumerate 0 (es_info select)))
     @ ''EOF'' @ endl"

definition run_query ::
    "pb_codec \<Rightarrow> net_env \<Rightarrow> event_cond_t \<Rightarrow> HeraclesClientImpl \<Rightarrow> (int \<times> string \<times> HeraclesClientImpl) blocking" where
  "run_query pb ne cond hi =
     and_then (HeraclesClient_select_stat pb ne cond empty_select hi) (\<lambda>(code, cond', select, hi').
       Returned (if code \<noteq> 0 then (-1, ''select fail for '' @ ec_service cond @ '', '' @ ec_metric cond @ endl, hi')
                 else (0, print_select select, hi')))"

definition query_cond :: "string \<Rightarrow> string \<Rightarrow> int \<Rightarrow> int \<Rightarrow> GroupType \<Rightarrow> event_cond_t" where
  "query_cond service metric tm tm_start groupby =
     default_cond\<lparr>ec_tm_start := tm_start, ec_tm_interval := tm, ec_service := service, ec_metric := metric, ec_groupby := groupby\<rparr>"

definition select_by_tag :: "pb_codec \<Rightarrow> net_env \<Rightarrow> string \<Rightarrow> string \<Rightarrow> int \<Rightarrow> int \<Rightarrow> HeraclesClientImpl \<Rightarrow>
    (int \<times> string \<times> HeraclesClientImpl) blocking" where
  "select_by_tag pb ne service metric tm tm_start = run_query pb ne (query_cond service metric tm tm_start kGroupbyTag)"

definition select_by_tm :: "pb_codec \<Rightarrow> net_env \<Rightarrow> string \<Rightarrow> string \<Rightarrow> int \<Rightarrow> int \<Rightarrow> HeraclesClientImpl \<Rightarrow>
    (int \<times> string \<times> HeraclesClientImpl) blocking" where
  "select_by_tm pb ne service metric tm tm_start = run_query pb ne (query_cond service metric tm tm_start kGroupbyTimestamp)"

definition select_by_tag_order :: "pb_codec \<Rightarrow> net_env \<Rightarrow> string \<Rightarrow> string \<Rightarrow> int \<Rightarrow> int \<Rightarrow> HeraclesClientImpl \<Rightarrow>
    (int \<times> string \<times> HeraclesClientImpl) blocking" where
  "select_by_tag_order pb ne service metric tm tm_start =
     run_query pb ne ((query_cond service metric tm tm_start kGroupbyTag)\<lparr>ec_orderby := kOrderByCount, ec_orders := kOrderDesc\<rparr>)"

definition select_by_tm_order :: "pb_codec \<Rightarrow> net_env \<Rightarrow> string \<Rightarrow> string \<Rightarrow> int \<Rightarrow> int \<Rightarrow> HeraclesClientImpl \<Rightarrow>
    (int \<times> string \<times> HeraclesClientImpl) blocking" where
  "select_by_tm_order pb ne service metric tm tm_start =
     run_query pb ne ((query_cond service metric tm tm_start kGroupbyTimestamp)\<lparr>ec_orderby := kOrderByCount, ec_orders := kOrderDesc\<rparr>)"

definition select_usage :: string where
  "select_usage =
     '' ./select_detail subcmd service metric tm_interval(s) tm_start(2019-04-23 15:50:46)'' @ endl
     @ '' supported subcmd: tag, tm, tag_order, tm_order'' @ endl"

text \<open>\<open>main\<close>: the exit value and what is printed, on the arguments after the program's name. The result of a query is not used.\<close>

definition select_detail_main ::
    "(int list \<Rightarrow> int) \<Rightarrow> pb_codec \<Rightarrow> (nat \<Rightarrow> net_env) \<Rightarrow> string list \<Rightarrow> HeraclesClientImpl \<Rightarrow>
     (int \<times> string \<times> HeraclesClientImpl) blocking" where
  "select_detail_main mktime pb ne argv hi =
     and_then (HeraclesClient_init_addr pb (ne 0) ''127.0.0.1'' 8435 hi) (\<lambda>(ok, hi0).
       if \<not> ok then Returned (-1, ''init client failed.'' @ endl, hi0)
       else case argv of
           [subcmd, service, metric, tm_arg, start_arg] \<Rightarrow>
             (let tm = atoll tm_arg;
                  tm_start = to_unixstamp mktime start_arg;
                  query = (if subcmd = ''tag'' then Some select_by_tag
                           else if subcmd = ''tm'' then Some select_by_tm
                           else if subcmd = ''tag_order'' then Some select_by_tag_order
                           else if subcmd = ''tm_order'' then Some select_by_tm_order
                           else None)
              in case query of
                   None \<Rightarrow> Returned (0, ''unknown subcmd: '' @ subcmd @ endl, hi0)
                 | Some q \<Rightarrow> and_then (q pb (ne 1) service metric tm tm_start hi0) (\<lambda>(_, out, hi1). Returned (0, out, hi1)))
         | _ \<Rightarrow> Returned (-1, select_usage, hi0))"

section \<open>The walk through the library\<close>

definition comma_list :: "string list \<Rightarrow> string" where
  "comma_list xs = concat (map (\<lambda>x. x @ '', '') xs)"

definition select_header :: "event_select_t \<Rightarrow> string" where
  "select_header stat =
     ''head: timestamp:'' @ dec_int (es_timestamp stat) @ '', '' @ tab @ ''tm_interval:'' @ dec_int (es_tm_interval stat) @ '', ''
     @ tab @ ''service:'' @ es_service stat @ '', '' @ tab @ ''metric:'' @ es_metric stat @ '', ''
     @ tab @ ''entity_idx:'' @ es_entity_idx stat @ '', '' @ tab @ ''tag:'' @ es_tag stat @ '', '' @ endl"

text \<open>The two queries; the second prints the summary of the first, \<open>stat\<close>, under its own header.\<close>

definition by_tag_text :: "event_select_t \<Rightarrow> string" where
  "by_tag_text stat =
     ''select_stat_by_tag info:'' @ endl @ select_header stat @ summary_line [] stat
     @ concat (map (\<lambda>i. take 2047 (''detail=> tag:'' @ c_str (ei_tag i) @ info_numbers i) @ endl) (es_info stat)) @ endl @ endl"

definition by_time_text :: "event_select_t \<Rightarrow> event_select_t \<Rightarrow> string" where
  "by_time_text stat stat2 =
     ''select_stat_by_timestamp info:'' @ endl @ select_header stat2 @ summary_line [] stat
     @ concat (map (\<lambda>i. take 2047 (''detail=> timestamp:'' @ dec_int (ei_timestamp i) @ info_numbers i) @ endl) (es_info stat2))
     @ endl @ endl"

definition status_text :: "string \<times> string \<times> string \<Rightarrow> string" where
  "status_text = (\<lambda>(strModule, strKey, strValue).
     ''MODULE: '' @ strModule @ endl @ ''KEY: '' @ strKey @ endl @ ''VALUE: '' @ strValue @ endl)"

definition title :: "string \<Rightarrow> string" where
  "title s = s @ '' ====================>'' @ endl"

definition failed :: "string \<Rightarrow> string \<Rightarrow> HeraclesClientImpl \<Rightarrow> (int \<times> string \<times> HeraclesClientImpl) blocking" where
  "failed out msg hi = Returned (-1, out @ msg @ endl, hi)"

text \<open>\<open>main\<close> from the queries on, then the whole; \<open>junk\<close> is what the results hold before the first query.\<close>

definition startup_queries ::
    "event_select_t \<Rightarrow> pb_codec \<Rightarrow> (nat \<Rightarrow> net_env) \<Rightarrow> string \<Rightarrow> HeraclesClientImpl \<Rightarrow> (int \<times> string \<times> HeraclesClientImpl) blocking" where
  "startup_queries junk pb ne out0 hi0 =
     (let out1 = out0 @ title ''select gp tag''
      in and_then (select_stat_groupby_tag pb (ne 4) ''metric_1'' junk (2 * 60 * 60) hi0) (\<lambda>(ret, _, stat, hi1).
           if ret \<noteq> 0 then failed out1 ''client call select_stat_by_tag failed.'' hi1
           else
             let out2 = out1 @ by_tag_text stat @ title ''select gp timestamp''
             in and_then (select_stat_groupby_time_tag pb (ne 5) ''metric_1'' ''F'' junk (2 * 60 * 60) hi1) (\<lambda>(ret, _, stat2, hi2).
                  if ret \<noteq> 0 then failed out2 ''client call select_stat_by_timstamp failed.'' hi2
                  else
                    let out3 = out2 @ by_time_text stat stat2 @ title ''client status''
                    in case HeraclesClient_module_status hi2 of
                         (ret, st) \<Rightarrow>
                           if ret \<noteq> 0 then failed out3 ''call module_status failed'' hi2
                           else Returned (0, out3 @ status_text (case st of None \<Rightarrow> ([], [], []) | Some t \<Rightarrow> t)
                                               @ ''startup ok'' @ endl, hi2))))"

definition startup_main ::
    "event_select_t \<Rightarrow> pb_codec \<Rightarrow> (nat \<Rightarrow> net_env) \<Rightarrow> bool \<Rightarrow> int \<Rightarrow> HeraclesClientImpl \<Rightarrow> (int \<times> string \<times> HeraclesClientImpl) blocking" where
  "startup_main junk pb ne dbg now hi =
     and_then (HeraclesClient_init_addr pb (ne 0) ''127.0.0.1'' 8435 hi) (\<lambda>(ok, hi0).
       if \<not> ok then failed [] ''init client failed.'' hi0
       else let out1 = title ''ping'' in
       and_then (HeraclesClient_ping pb (ne 1) hi0) (\<lambda>(ret, hi1).
       if ret \<noteq> 0 then failed out1 ''client call ping failed.'' hi1
       else let out2 = out1 @ endl @ endl @ title ''report'' in
       and_then (HeraclesClient_report_event dbg now ''metric_1'' 24 ''T'' hi1) (\<lambda>(ret, hi2).
       if ret \<noteq> 0 then failed out2 ''client call report_event failed.'' hi2
       else
       and_then (HeraclesClient_report_event dbg now ''metric_1'' 124 ''F'' hi2) (\<lambda>(_, hi3).
       and_then (HeraclesClient_report_event dbg now ''metric_2'' 100 ''T'' hi3) (\<lambda>(_, hi4).
       let out3 = out2 @ endl @ endl @ title ''known_services'' in
       and_then (HeraclesClient_known_services pb (ne 2) [] hi4) (\<lambda>(ret, svs, hi5).
       if ret \<noteq> 0 then failed out3 ''client call known_services failed.'' hi5
       else let out4 = out3 @ ''services info:'' @ endl @ comma_list svs @ endl @ endl @ title ''known_metrics'' in
       and_then (HeraclesClient_known_metrics pb (ne 3) no_handler_conf [] [] hi5) (\<lambda>(ret, hc, ms, hi6).
       if ret \<noteq> 0 then failed out4 ''client call known_metrics failed.'' hi6
       else
         startup_queries junk pb ne
           (out4 @ ''conf: ''
            @ take 127 (''st:'' @ dec_int (hc_event_step hc) @ '', lg:'' @ dec_int (hc_event_linger hc) @ '', store:''
                        @ c_str (hc_store_type hc)) @ endl
            @ ''metrics info:'' @ endl @ comma_list ms @ endl @ endl)
           hi6)))))))"

section \<open>The web server\<close>

definition face_module_status :: "string \<Rightarrow> int \<times> string \<times> string \<times> string" where
  "face_module_status cfgFile = (0, ''http_face'', ''main'', ''conf_file: '' @ cfgFile)"

text \<open>\<open>-v\<close> prints the version and goes on.\<close>

fun face_options :: "option_char list \<Rightarrow> string \<Rightarrow> bool \<Rightarrow> exit_status + string \<times> bool" where
  "face_options [] cfgFile daemonize = Inr (cfgFile, daemonize)"
| "face_options (Opt_c arg # os) cfgFile daemonize = face_options os (take 4096 (c_str arg)) daemonize"
| "face_options (Opt_d # os) cfgFile daemonize = face_options os cfgFile True"
| "face_options (Opt_v # os) cfgFile daemonize = face_options os cfgFile daemonize"
| "face_options (Opt_other # os) cfgFile daemonize = Inl ExitSuccess"

text \<open>
  \<open>main\<close>: the pages it registers when it gets to serving, and how it ends; \<open>daemon_ok\<close> and \<open>server_ok\<close> are what
  \<open>daemon\<close> and the initialisation of the HTTP server return. A failing client makes it \<open>return false\<close>, the exit status 0.
\<close>

definition face_main ::
    "bool \<Rightarrow> bool \<Rightarrow> pb_codec \<Rightarrow> (nat \<Rightarrow> net_env) \<Rightarrow> (string \<Rightarrow> monitor_cfg option) \<Rightarrow> option_char list \<Rightarrow> HeraclesClientImpl \<Rightarrow>
     (exit_status \<times> string list \<times> HeraclesClientImpl) blocking" where
  "face_main daemon_ok server_ok pb ne file os hi =
     (case face_options os ''heracles.conf'' False of
        Inl e \<Rightarrow> Returned (e, [], hi)
      | Inr (cfgFile, daemonize) \<Rightarrow>
          if daemonize \<and> \<not> daemon_ok then Returned (ExitFailure, [], hi)
          else if \<not> server_ok then Returned (ExitFailure, [], hi)
          else
            and_then (client_init_file pb (ne 0) file cfgFile hi) (\<lambda>(ok, hi0).
              if \<not> ok then Returned (ExitSuccess, [], hi0)
              else
                and_then (HeraclesClient_ping pb (ne 1) hi0) (\<lambda>(ret, hi1).
                  if ret \<noteq> 0 then Returned (ExitSuccess, [], hi1)
                  else Returned (ExitSuccess, [''^/monitor$'', ''^/monitor/stats$''], hi1))))"

section \<open>Properties\<close>

section \<open>Properties\<close>

text \<open>Numbers are read back, with zeros in front as well, up to the first character that is no digit.\<close>

lemma digits_val_zeros: "digits_val (replicate k (CHR ''0'') @ s) = digits_val s"
proof -
  have "foldl (\<lambda>acc c. acc * 10 + (of_char c - 48)) (0::nat) (replicate k (CHR ''0'')) = 0"
    by (induction k) simp_all
  then show ?thesis
    by (simp add: digits_val_def)
qed

lemma is_digit_zero: "is_digit (CHR ''0'')"
  by (simp add: is_digit_def)

lemma padded_digits: "c \<in> set (zero_pad w (dec_nat n)) \<Longrightarrow> is_digit c"
  using dec_nat_digits by (auto simp: zero_pad_def is_digit_zero)

lemma scan_int_padded:
  assumes "r = [] \<or> \<not> is_digit (hd r)"
  shows "scan_int (zero_pad w (dec_nat n) @ r) = Some (int n, r)"
proof -
  let ?s = "zero_pad w (dec_nat n)"
  have ne: "?s \<noteq> []" and dig: "\<forall>c \<in> set ?s. is_digit c"
    using padded_digits by (auto simp: zero_pad_def)
  obtain c cs where s: "?s = c # cs"
    using ne by (cases ?s) auto
  have c: "is_digit c" "\<not> is_space c" "c \<noteq> CHR ''-''" "c \<noteq> CHR ''+''"
    using dig s by (auto simp: is_digit_def is_space_def)
  have tw: "takeWhile is_digit (?s @ r) = ?s" "dropWhile is_digit (?s @ r) = r"
    using dig assms by (cases r; simp add: takeWhile_append2 dropWhile_append2)+
  have "digits_val ?s = n"
    by (simp add: zero_pad_def digits_val_zeros digits_val_dec_nat)
  then show ?thesis
    using c tw s by (simp add: scan_int_def Let_def)
qed

lemma scan_fields_sep:
  assumes "\<not> is_digit sep" and "sep \<noteq> CHR '' ''"
  shows "scan_fields (sep # seps) (zero_pad w (dec_nat n) @ sep # r) = int n # scan_fields seps r"
  using assms scan_int_padded [of "sep # r" w n] by simp

lemma dec_int_nonneg: "0 \<le> x \<Longrightarrow> dec_int x = dec_nat (nat x)"
  by (simp add: dec_int_def)

text \<open>The fields of a date and time as the web pages print them.\<close>

lemma scan_datetime:
  assumes "0 \<le> y" "0 \<le> mo" "0 \<le> d" "0 \<le> h" "0 \<le> mi" "0 \<le> s"
  shows "scan_fields ''-- ::''
    (dec_int y @ ''-'' @ zero_pad 2 (dec_int mo) @ ''-'' @ zero_pad 2 (dec_int d) @ '' ''
     @ zero_pad 2 (dec_int h) @ '':'' @ zero_pad 2 (dec_int mi) @ '':'' @ zero_pad 2 (dec_int s)) = [y, mo, d, h, mi, s]"
proof -
  have sp: "dropWhile is_space (CHR '' '' # zero_pad 2 (dec_nat n) @ r) = zero_pad 2 (dec_nat n) @ r" for n r
  proof -
    obtain c cs where z: "zero_pad 2 (dec_nat n) = c # cs"
      by (cases "zero_pad 2 (dec_nat n)") (auto simp: zero_pad_def)
    then have "\<not> is_space c"
      using padded_digits [of c 2 n] by (auto simp: is_digit_def is_space_def)
    then show ?thesis
      by (simp add: z is_space_def [of "CHR '' ''"])
  qed
  have no_pad: "dec_nat n = zero_pad 0 (dec_nat n)" for n
    by (simp add: zero_pad_def)
  have day: "scan_fields (CHR '' '' # seps) (zero_pad w (dec_nat n) @ CHR '' '' # zero_pad 2 (dec_nat m) @ r) =
      int n # scan_fields seps (zero_pad 2 (dec_nat m) @ r)" for seps w n m r
    using scan_int_padded [of "CHR '' '' # zero_pad 2 (dec_nat m) @ r" w n] sp [of m r] by (simp add: is_digit_def)
  have last: "scan_fields [] (zero_pad w (dec_nat n)) = [int n]" for w n
    using scan_int_padded [of "[]" w n] by simp
  have seps: "\<not> is_digit (CHR ''-'')" "\<not> is_digit (CHR '':'')"
    by (simp_all add: is_digit_def)
  show ?thesis
    using assms
    by (subst dec_int_nonneg [of y], simp, subst no_pad)
      (simp add: dec_int_nonneg scan_fields_sep seps day last del: scan_fields.simps)
qed

lemma padded_no_nul: "char_of (0::nat) \<notin> set (zero_pad w (dec_nat n))"
  using padded_digits [of "char_of (0::nat)" w n] by (auto simp: is_digit_def)

text \<open>
  A time that the web page shows can be given to the query tool: where \<open>mktime\<close> undoes \<open>localtime\<close>,
  \<open>to_unixstamp\<close> reads the text of \<open>time_to_datetime\<close> back to the time it came from.
\<close>

theorem datetime_roundtrip:
  assumes "localtime t = (y, mo, d, h, mi, s)" and "t \<noteq> 0"
    and "- 1900 \<le> y" "0 \<le> mo" "0 \<le> d" "0 \<le> h" "0 \<le> mi" "0 \<le> s"
    and "mktime [y, mo, d, h, mi, s] = t"
  shows "to_unixstamp mktime (time_to_datetime localtime t) = t"
proof -
  have plain: "c_str (time_to_datetime localtime t) = time_to_datetime localtime t"
    using assms padded_no_nul [of 0] padded_no_nul [of 2]
    by (intro c_str_no_nul) (auto simp: time_to_datetime_def dec_int_nonneg zero_pad_def char_of_def)
  have "scan_fields ''-- ::'' (time_to_datetime localtime t) = [y + 1900, mo + 1, d, h, mi, s]"
    using assms scan_datetime [of "y + 1900" "mo + 1" d h mi s] by (simp add: time_to_datetime_def)
  with plain assms(9) show ?thesis
    by (simp add: to_unixstamp_def Let_def)
qed

theorem datetime_roundtrip_witness:
  "to_unixstamp (\<lambda>fs. 1556034646) (time_to_datetime (\<lambda>t. (119, 3, 23, 15, 50, 46)) 1556034646) = 1556034646"
  using datetime_roundtrip [of "\<lambda>t. (119, 3, 23, 15, 50, 46)" 1556034646 119 3 23 15 50 46 "\<lambda>fs. 1556034646"]
  by simp

text \<open>The ordered queries of the tool sort in descending order without a limit: from two lines on that sort is undefined.\<close>

lemma ordered_query_crashes:
  assumes "hi_already_initialized hi" and "hi_client_agent hi = Some agent" and "service \<noteq> []"
    and "rpc_event_select pb ne ((query_cond service metric tm tm_start g)\<lparr>ec_orderby := kOrderByCount, ec_orders := kOrderDesc\<rparr>)
           empty_select agent = Returned (0, stat, agent')"
    and "2 \<le> length (es_info stat)"
  shows "run_query pb ne ((query_cond service metric tm tm_start g)\<lparr>ec_orderby := kOrderByCount, ec_orders := kOrderDesc\<rparr>) hi = Crashed"
proof -
  have "do_sort (es_info stat) kOrderByCount kOrderDesc = None" "es_info stat \<noteq> []"
    using do_sort_desc_undefined [of "es_info stat" kOrderByCount] assms(5) by auto
  then show ?thesis
    using assms by (simp add: run_query_def HeraclesClient_select_stat_def select_stat_def query_cond_def default_cond_def Let_def)
qed

text \<open>The second query of the walk prints the summary of the first one.\<close>

lemma startup_prints_first_summary:
  "\<exists>pre post. by_time_text stat stat2 = pre @ summary_line [] stat @ post"
  by (rule exI [of _ "''select_stat_by_timestamp info:'' @ endl @ select_header stat2"]) (simp add: by_time_text_def)

end
