(* ===== verification/Logging.thy ===== *)
theory Logging
  imports Prelude
begin

text \<open>
  \<open>source/Utils/Log.cpp\<close> and its copy for the client, \<open>source/Client/LogClient.cpp\<close>: one call of
  \<open>log_api\<close> prints a head (place, function, thread) and the message into a fixed buffer, and hands
  the text over line by line, to the installed function (\<open>syslog\<close> in the server) or to the standard
  output. The message is an argument after \<open>printf\<close> has formatted it; the calls made are the result.
\<close>

section \<open>State\<close>

text \<open>The installed function, and what \<open>openlog\<close> and \<open>setlogmask\<close> have set in the C library.\<close>

record 'f log_state =
  checkpoint_log_store_func_impl :: "'f option"
  syslog_open :: bool
  syslog_mask :: nat

datatype 'f log_call = Stored 'f int string | Printed string

datatype log_error = BufferOverrun

definition set_checkpoint_log_store_func :: "'f option \<Rightarrow> 'f log_state \<Rightarrow> 'f log_state" where
  "set_checkpoint_log_store_func func st = st\<lparr>checkpoint_log_store_func_impl := func\<rparr>"

definition LOG_UPTO :: "nat \<Rightarrow> nat" where
  "LOG_UPTO level = 2 ^ (level + 1) - 1"

definition log_init :: "nat \<Rightarrow> 'f log_state \<Rightarrow> bool \<times> 'f log_state" where
  "log_init log_level st = (True, st\<lparr>syslog_open := True, syslog_mask := LOG_UPTO log_level\<rparr>)"

section \<open>One message\<close>

fun hex_nat :: "nat \<Rightarrow> string" where
  "hex_nat n =
     (let d = (\<lambda>k. if k < 10 then char_of (48 + k) else char_of (87 + k))
      in if n < 16 then [d n] else hex_nat (n div 16) @ [d (n mod 16)])"

declare hex_nat.simps [simp del]

definition MAX_LOG_BUF_SIZE :: nat where "MAX_LOG_BUF_SIZE = 16 * 1024 - 2"

text \<open>\<open>[%s:%d][%s][%#lx] -- \<close>\<close>

definition log_head :: "string \<Rightarrow> int \<Rightarrow> string \<Rightarrow> nat \<Rightarrow> string" where
  "log_head file line func thread =
     ''['' @ c_str file @ '':'' @ dec_int line @ ''][''
     @ c_str func @ ''][''
     @ (if thread = 0 then ''0'' else ''0x'' @ hex_nat thread) @ ''] -- ''"

text \<open>
  The bytes of \<open>buf\<close> after the two prints, without the zeros that fill the rest of its
  \<open>MAX_LOG_BUF_SIZE + 2\<close> bytes. \<open>snprintf\<close> returns the length \<open>n\<close> of the whole head; where it is above
  \<open>MAX_LOG_BUF_SIZE\<close> the size of the second print, \<open>MAX_LOG_BUF_SIZE - n\<close>, wraps around to a huge number
  and the message is written behind the buffer unless it still happens to fit.
\<close>

definition log_buffer :: "string \<Rightarrow> string \<Rightarrow> log_error + string" where
  "log_buffer head text =
     (let n = length head
      in if n \<le> MAX_LOG_BUF_SIZE
         then Inr (take (MAX_LOG_BUF_SIZE - 1) head @ take (MAX_LOG_BUF_SIZE - n - 1) text)
         else if n + length text < MAX_LOG_BUF_SIZE + 2 then Inr (take (MAX_LOG_BUF_SIZE - 1) head)
         else Inl BufferOverrun)"

text \<open>\<open>buf[n] = c\<close> where zeros follow the written bytes.\<close>

definition put_char :: "nat \<Rightarrow> char \<Rightarrow> string \<Rightarrow> string" where
  "put_char n c buf = (if n < length buf then buf[n := c] else buf @ replicate (n - length buf) (char_of (0::nat)) @ [c])"

text \<open>\<open>boost::split\<close> with several separators, tokens not compressed.\<close>

fun split_any :: "(char \<Rightarrow> bool) \<Rightarrow> string \<Rightarrow> string list" where
  "split_any sep [] = [[]]"
| "split_any sep (c # cs) =
     (if sep c then [] # split_any sep cs
      else (case split_any sep cs of
              [] \<Rightarrow> [[c]]
            | w # ws \<Rightarrow> (c # w) # ws))"

definition line_break :: "char \<Rightarrow> bool" where
  "line_break c \<longleftrightarrow> c = CHR 0x0D \<or> c = CHR 0x0A"

definition log_emit :: "'f log_state \<Rightarrow> int \<Rightarrow> string \<Rightarrow> 'f log_call" where
  "log_emit st priority message =
     (case checkpoint_log_store_func_impl st of
        Some func \<Rightarrow> Stored func priority message
      | None \<Rightarrow> Printed message)"

definition log_api ::
  "'f log_state \<Rightarrow> int \<Rightarrow> string \<Rightarrow> int \<Rightarrow> string \<Rightarrow> nat \<Rightarrow> string \<Rightarrow> log_error + 'f log_call list" where
  "log_api st priority file line func thread msg =
     (case log_buffer (log_head file line func thread) msg of
        Inl e \<Rightarrow> Inl e
      | Inr buf \<Rightarrow>
          let n = length (c_str buf)
          in if CHR 0x0A \<notin> set (c_str buf)
             then Inr [log_emit st priority (c_str (put_char n (CHR 0x0A) buf))]
             else Inr (map (\<lambda>it. log_emit st priority (it @ endl))
                        (filter (\<lambda>it. it \<noteq> []) (split_any line_break (c_str buf)))))"

text \<open>
  \<open>boost::assertion_failed\<close> of \<open>source/Utils/BoostAssert.cpp\<close>, called where an assertion fails: a line on the standard error
  and a message of level \<open>LOG_ERR\<close>; then the program goes on. \<open>here\<close> is the place of the call of \<open>log_err\<close>.
\<close>

definition assertion_failed ::
  "'f log_state \<Rightarrow> string \<times> int \<times> nat \<Rightarrow> string \<Rightarrow> string \<Rightarrow> string \<Rightarrow> int \<Rightarrow> string \<times> (log_error + 'f log_call list)" where
  "assertion_failed st here expr function file line =
     (let text = ''BAD!!! expr `'' @ c_str expr @ ''` assert failed at '' @ c_str file @ ''('' @ dec_int line @ ''): '' @ c_str function
      in case here of (file', line', thread) \<Rightarrow>
           (text, log_api st 3 file' line' ''assertion_failed'' thread text))"

text \<open>\<open>log_notice("closing rsyslog...")\<close>, then \<open>closelog\<close>; 5 is \<open>LOG_NOTICE\<close>.\<close>

definition log_close ::
  "string \<Rightarrow> int \<Rightarrow> nat \<Rightarrow> 'f log_state \<Rightarrow> (log_error + 'f log_call list) \<times> 'f log_state" where
  "log_close file line thread st =
     (log_api st 5 file line ''log_close'' thread ''closing rsyslog...'', st\<lparr>syslog_open := False\<rparr>)"

text \<open>The \<open>log_init\<close> of the client reports the new level.\<close>

definition client_log_init ::
  "string \<Rightarrow> int \<Rightarrow> nat \<Rightarrow> nat \<Rightarrow> 'f log_state \<Rightarrow> (log_error + 'f log_call list) \<times> bool \<times> 'f log_state" where
  "client_log_init file line thread log_level st =
     (let st' = st\<lparr>syslog_open := True, syslog_mask := LOG_UPTO log_level\<rparr>
      in (log_api st' 5 file line ''log_init'' thread
            (''initialize syslog to LOG_LOCAL6, with level: '' @ dec_nat log_level),
          True, st'))"

section \<open>What is handed over\<close>

lemma concat_split_any: "concat (split_any sep s) = filter (\<lambda>c. \<not> sep c) s"
  by (induction sep s rule: split_any.induct) (auto split: list.split)

lemma split_any_free: "w \<in> set (split_any sep s) \<Longrightarrow> c \<in> set w \<Longrightarrow> \<not> sep c"
  by (induction sep s arbitrary: w rule: split_any.induct) (fastforce split: list.splits if_splits)+

lemma split_any_length: "w \<in> set (split_any sep s) \<Longrightarrow> length w \<le> length s"
proof (induction sep s arbitrary: w rule: split_any.induct)
  case (2 sep c cs)
  then show ?case
    by (cases "split_any sep cs") (auto split: if_splits intro: le_SucI)
qed simp

lemma concat_filter_nonempty: "concat (filter (\<lambda>w. w \<noteq> []) ws) = concat ws"
  by (induction ws) auto

lemma butlast_endl [simp]: "butlast (s @ endl) = s"
  by (simp add: endl_def)

lemma butlast_put_last: "char_of (0::nat) \<notin> set s \<Longrightarrow> c_str (put_char (length s) (CHR 0x0A) s) = s @ endl"
  by (auto simp: put_char_def endl_def c_str_def char_of_def)

lemma log_head_nonempty [simp]: "log_head file line func thread \<noteq> []"
  by (simp add: log_head_def)

text \<open>The part of the message that fits.\<close>

definition shown :: "string \<Rightarrow> string \<Rightarrow> string" where
  "shown head msg = head @ take (MAX_LOG_BUF_SIZE - 1 - length head) msg"

lemma log_buffer_fits: "length head < MAX_LOG_BUF_SIZE \<Longrightarrow> log_buffer head msg = Inr (shown head msg)"
  by (simp add: log_buffer_def shown_def Let_def)

lemma log_api_shown:
  assumes "length head < MAX_LOG_BUF_SIZE" and "head = log_head file line func thread"
    and "char_of (0::nat) \<notin> set (shown head msg)"
  shows "log_api st priority file line func thread msg =
      Inr (map (log_emit st priority)
            (if CHR 0x0A \<notin> set (shown head msg) then [shown head msg @ endl]
             else map (\<lambda>it. it @ endl) (filter (\<lambda>it. it \<noteq> []) (split_any line_break (shown head msg)))))"
  using log_buffer_fits [OF assms(1), of msg] assms(3)
  by (simp add: log_api_def assms(2) Let_def butlast_put_last)

lemma dec_int_no_nul: "char_of (0::nat) \<notin> set (dec_int x)"
  using dec_nat_digits by (fastforce simp: dec_int_def is_digit_def char_of_def split: if_splits)

lemma hex_nat_no_nul: "char_of (0::nat) \<notin> set (hex_nat n)"
proof (induction n rule: hex_nat.induct)
  case (1 n)
  have "(char_of (48 + k) :: char) \<noteq> char_of (0::nat)" "(char_of (87 + k) :: char) \<noteq> char_of (0::nat)"
    if "k < 16" for k :: nat
    using that by (simp_all add: char_of_eq_iff take_bit_eq_mod)
  then show ?case
    using 1 by (subst hex_nat.simps) (auto simp: Let_def simp del: char_of_eq_iff)
qed

lemma log_head_no_nul: "char_of (0::nat) \<notin> set (log_head file line func thread)"
  using dec_int_no_nul [of line] hex_nat_no_nul [of thread]
  by (auto simp: log_head_def c_str_def char_of_def dest: set_takeWhileD)

text \<open>
  The lines of a text: what stands between its line breaks, without the empty ones. A line break is a carriage
  return or a line feed.
\<close>

function text_lines :: "string \<Rightarrow> string list" where
  "text_lines [] = []"
| "text_lines (c # cs) =
     (if line_break c then text_lines cs
      else (c # takeWhile (\<lambda>x. \<not> line_break x) cs) # text_lines (dropWhile (\<lambda>x. \<not> line_break x) cs))"
  by pat_completeness auto
termination
  by (relation "measure length") (auto simp: le_imp_less_Suc length_dropWhile_le)

lemma split_any_step:
  "split_any sep s =
     takeWhile (\<lambda>x. \<not> sep x) s # (case dropWhile (\<lambda>x. \<not> sep x) s of [] \<Rightarrow> [] | _ # t \<Rightarrow> split_any sep t)"
  by (induction sep s rule: split_any.induct) (auto split: list.split)

lemma split_any_lines: "filter (\<lambda>w. w \<noteq> []) (split_any line_break s) = text_lines s"
proof (induction s rule: text_lines.induct)
  case (2 c cs)
  show ?case
  proof (cases "line_break c")
    case True
    with 2 show ?thesis by simp
  next
    case False
    let ?t = "dropWhile (\<lambda>x. \<not> line_break x) cs"
    have "filter (\<lambda>w. w \<noteq> []) (split_any line_break (c # cs)) =
        (c # takeWhile (\<lambda>x. \<not> line_break x) cs) #
        filter (\<lambda>w. w \<noteq> []) (case ?t of [] \<Rightarrow> [] | _ # t \<Rightarrow> split_any line_break t)"
      using False by (subst split_any_step) simp
    also have "filter (\<lambda>w. w \<noteq> []) (case ?t of [] \<Rightarrow> [] | _ # t \<Rightarrow> split_any line_break t) =
        filter (\<lambda>w. w \<noteq> []) (split_any line_break ?t)"
    proof -
      have "filter (\<lambda>w. w \<noteq> []) (case u of [] \<Rightarrow> [] | _ # t \<Rightarrow> split_any line_break t) =
          filter (\<lambda>w. w \<noteq> []) (split_any line_break u)" if "u \<noteq> [] \<Longrightarrow> line_break (hd u)" for u
        using that by (cases u) auto
      from this [of ?t] show ?thesis using hd_dropWhile [of "\<lambda>x. \<not> line_break x" cs] by blast
    qed
    finally show ?thesis using False 2(2) by simp
  qed
qed simp

lemma text_lines_in:
  assumes "b \<in> set (text_lines s)"
  shows "b \<noteq> [] \<and> length b \<le> length s \<and> CHR 0x0A \<notin> set b"
  using assms split_any_length [of b line_break s] split_any_free [of b line_break s]
  by (fastforce simp: line_break_def simp flip: split_any_lines)

text \<open>
  C40. Where the head fits into the buffer, a message comes out as one call per line, in order: the text is the head and
  the part of the message that fits; if it has a line feed, each piece between its line breaks that is not empty is handed
  over on its own, followed by one line feed; without a line feed the text is handed over as it is, carriage returns
  included. Every call gets at least one character before its line feed, fewer than the buffer holds, and no other line feed.
\<close>

theorem log_api_lines:
  assumes "length (log_head file line func thread) < MAX_LOG_BUF_SIZE" and "char_of (0::nat) \<notin> set msg"
    and "s = shown (log_head file line func thread) msg"
    and "bodies = (if CHR 0x0A \<in> set s then text_lines s else [s])"
  shows "log_api st priority file line func thread msg = Inr (map (\<lambda>b. log_emit st priority (b @ endl)) bodies) \<and>
         bodies \<noteq> [] \<and> (\<forall>b \<in> set bodies. b \<noteq> [] \<and> length b < MAX_LOG_BUF_SIZE \<and> CHR 0x0A \<notin> set b)"
proof -
  have nul: "char_of (0::nat) \<notin> set s"
    using log_head_no_nul assms(2) by (auto simp: assms(3) shown_def dest: in_set_takeD)
  have len: "length s < MAX_LOG_BUF_SIZE"
    using assms(1) by (simp add: assms(3) shown_def)
  have ne: "s \<noteq> []" "text_lines s \<noteq> []" by (simp_all add: assms(3) shown_def log_head_def line_break_def)
  have each: "\<forall>b \<in> set (text_lines s). b \<noteq> [] \<and> length b < MAX_LOG_BUF_SIZE \<and> CHR 0x0A \<notin> set b"
    using text_lines_in [of _ s] len by fastforce
  have api: "log_api st priority file line func thread msg =
      Inr (map (log_emit st priority) (if CHR 0x0A \<notin> set s then [s @ endl] else map (\<lambda>it. it @ endl) (text_lines s)))"
    unfolding assms(3) split_any_lines [symmetric] by (rule log_api_shown [OF assms(1) refl nul [unfolded assms(3)]])
  show ?thesis
  proof (cases "CHR 0x0A \<in> set s")
    case True
    with each ne(2) show ?thesis unfolding api assms(4) by (simp only: if_True if_False not_not simp_thms map_map comp_def)
  next
    case False
    with len ne(1) show ?thesis unfolding api assms(4) by simp
  qed
qed

theorem log_api_lines_witness:
  "log_api \<lparr>checkpoint_log_store_func_impl = Some (), syslog_open = True, syslog_mask = 127\<rparr> 3
           ''a.cpp'' 7 ''f'' 28 [CHR ''x'', CHR 0x0D, CHR 0x0A, CHR ''y''] =
     Inr [Stored () 3 (''[a.cpp:7][f][0x1c] -- x'' @ endl), Stored () 3 (''y'' @ endl)]"
proof -
  have head: "log_head ''a.cpp'' 7 ''f'' 28 = ''[a.cpp:7][f][0x1c] -- ''"
    by code_simp
  show ?thesis
    using log_api_lines [of "''a.cpp''" 7 "''f''" 28 "[CHR ''x'', CHR 0x0D, CHR 0x0A, CHR ''y'']", OF _ _ refl refl,
        of "\<lparr>checkpoint_log_store_func_impl = Some (), syslog_open = True, syslog_mask = 127\<rparr>" 3]
    by (simp add: head MAX_LOG_BUF_SIZE_def shown_def line_break_def log_emit_def char_of_def)
qed

text \<open>The message overruns the buffer exactly when the head alone does not fit and the message has no room after it.\<close>

lemma log_api_overrun:
  "log_api st priority file line func thread msg = Inl BufferOverrun \<longleftrightarrow>
     MAX_LOG_BUF_SIZE < length (log_head file line func thread)
     \<and> MAX_LOG_BUF_SIZE + 2 \<le> length (log_head file line func thread) + length msg"
  by (simp add: log_api_def log_buffer_def Let_def split: sum.split)

end
