(* ===== verification/StatusTexts.thy ===== *)
theory StatusTexts
  imports MonitorRpcClientHelper MonitorTaskService EventRepos SqlConn
begin

text \<open>
  What the program says about itself: the status texts of the modules that \<open>Status::collect_status\<close> puts together, the
  \<open>str\<close> functions of \<open>source/Business/EventTypes.h\<close>, the helpers of \<open>source/Core/ProtoBuf.h\<close>, and the operations of the
  thread pool and the database connection that only forward to others. Numbers go to a stream as decimals.
\<close>

section \<open>Conditions and results\<close>

text \<open>A value cast to \<open>uint8_t\<close> goes to the stream as the character with that code.\<close>

definition byte_char :: "int \<Rightarrow> string" where
  "byte_char n = [char_of (nat n)]"

definition cond_str :: "event_cond_t \<Rightarrow> string" where
  "cond_str c =
     ''version: '' @ ec_version c @ '' ,tm_interval: '' @ dec_int (ec_tm_interval c) @ '' ,service: '' @ ec_service c
     @ '' ,metric: '' @ ec_metric c @ '' ,tm_start: '' @ dec_int (ec_tm_start c) @ '' ,entity_idx: '' @ ec_entity_idx c
     @ '' ,tag: '' @ ec_tag c @ '' ,groupby: '' @ byte_char (groupby_code (ec_groupby c))
     @ '' ,orderby: '' @ byte_char (orderby_code (ec_orderby c)) @ '' ,orders: '' @ byte_char (orders_code (ec_orders c))
     @ '' ,limit: '' @ dec_int (ec_limit c)"

definition info_str :: "event_info_t \<Rightarrow> string" where
  "info_str i =
     ''timestamp: '' @ dec_int (ei_timestamp i) @ '' ,tag: '' @ ei_tag i @ '' ,count: '' @ dec_int (ei_count i)
     @ '' ,value_sum: '' @ dec_int (ei_value_sum i) @ '' ,value_avg: '' @ dec_int (ei_value_avg i)
     @ '' ,value_min: '' @ dec_int (ei_value_min i) @ '' ,value_max: '' @ dec_int (ei_value_max i)
     @ '' ,value_p10: '' @ dec_int (ei_value_p10 i) @ '' ,value_p50: '' @ dec_int (ei_value_p50 i)
     @ '' ,value_p90: '' @ dec_int (ei_value_p90 i)"

definition select_str :: "event_select_t \<Rightarrow> string" where
  "select_str s =
     ''version: '' @ es_version s @ '' ,timestamp: '' @ dec_int (es_timestamp s) @ '' ,tm_interval: '' @ dec_int (es_tm_interval s)
     @ '' ,service: '' @ es_service s @ '' ,metric: '' @ es_metric s @ '' ,tag: '' @ es_tag s
     @ '' ,summary: '' @ info_str (es_summary s)
     @ concat (map (\<lambda>(i, info). ''detail-'' @ dec_nat i @ '': '' @ info_str info @ ''; '') (enumerate 0 (es_info s)))"

section \<open>Modules\<close>

text \<open>\<open>MonitorTaskService\<close> and \<open>EventHandler\<close> leave the output arguments as they are.\<close>

definition monitor_module_status :: "string \<times> string \<times> string \<Rightarrow> int \<times> string \<times> string \<times> string" where
  "monitor_module_status out = (0, out)"

definition handler_module_status :: "string \<times> string \<times> string \<Rightarrow> int \<times> string \<times> string \<times> string" where
  "handler_module_status out = (0, out)"

definition status_line :: "string \<Rightarrow> string \<Rightarrow> string" where
  "status_line key v = tab @ key @ v @ endl"

text \<open>\<open>sub\<close> is the status of the service behind the executor.\<close>

definition executor_module_status ::
    "string \<Rightarrow> (string \<times> string \<times> string \<Rightarrow> int \<times> string \<times> string \<times> string) \<Rightarrow> Executor \<Rightarrow> int \<times> string \<times> string \<times> string" where
  "executor_module_status name sub e =
     (let c = ex_conf e;
          ss = status_line ''instance_name: '' name
               @ status_line ''exec_thread_number: '' (dec_int (exec_thread_number c))
               @ status_line ''exec_thread_number_hard(maxium): '' (dec_int (exec_thread_number_hard c))
               @ status_line ''exec_thread_step_size: '' (dec_int (exec_thread_step_size c))
               @ tab @ endl
               @ status_line ''current_thread_number: '' (dec_nat (unat (get_pool_size (executor_threads e))))
               @ status_line ''current_queue_size: '' (dec_nat (SIZE (rpc_queue e)))
      in case sub ([], [], []) of (_, _, _, subValue) \<Rightarrow> (0, ''tzrpc'', ''executor_'' @ name, ss @ subValue))"

definition pool_module_status :: "ConnPool \<Rightarrow> int \<times> string \<times> string \<times> string" where
  "pool_module_status p =
     (0, ''ConnPool'', pool_name p,
      status_line ''capacity: '' (dec_nat (capacity p))
      @ status_line ''acquire_count: '' (dec_nat (unat (acquired_count (pool_stat p))))
      @ status_line ''acquire_success:'' (dec_nat (unat (acquired_success (pool_stat p))))
      @ status_line ''current_busy:'' (dec_nat (length (conns_busy p)))
      @ status_line ''current_idle:'' (dec_nat (length (conns_idle p))))"

text \<open>\<open>EventRepos::module_status\<close> asks the stores, which may open tables for it.\<close>

fun services_text ::
    "('q, 'l) store_env \<Rightarrow> string list \<Rightarrow> ('q, 'l) stores_t \<Rightarrow> (string \<times> ('q, 'l) stores_t) option" where
  "services_text env [] ss = Some ([], ss)"
| "services_text env (sv # svs) ss =
     Option.bind (repos_get_metrics env ''1.0.0'' sv [] ss) (\<lambda>(ret, ms, ss1).
     Option.bind (services_text env svs ss1) (\<lambda>(rest, ss2).
       Some (''service: '' @ sv @ endl @ ''metrics: '' @ endl @ tab
             @ (if ret = 0 then concat (map (\<lambda>m. m @ '', '') ms) else []) @ endl @ endl @ rest, ss2)))"

definition repos_module_status ::
    "('q, 'l) store_env \<Rightarrow> ('q, 'l) stores_t \<Rightarrow> ((int \<times> string \<times> string \<times> string) \<times> ('q, 'l) stores_t) option" where
  "repos_module_status env ss =
     Option.bind (repos_get_services env ''1.0.0'' [] ss) (\<lambda>(ret, svs, ss1).
       if ret = 0
       then map_option (\<lambda>(text, ss2). ((0, ''EventRepos'', ''eventrepos'', text), ss2)) (services_text env svs ss1)
       else Some ((0, ''EventRepos'', ''eventrepos'', []), ss1))"

section \<open>Messages of protobuf\<close>

text \<open>What the helpers use of a message class of the library.\<close>

record 'm pb_class =
  IsInitialized :: "'m \<Rightarrow> bool"
  FindInitializationErrors :: "'m \<Rightarrow> string list"
  SerializeToString :: "'m \<Rightarrow> string option"
  ParseFromString :: "string \<Rightarrow> 'm option"
  PrintToString :: "'m \<Rightarrow> string"
  DebugString :: "'m \<Rightarrow> string"
  ParseText :: "string \<Rightarrow> 'm"

definition marshalling_to_string :: "'m pb_class \<Rightarrow> 'm \<Rightarrow> string option" where
  "marshalling_to_string pc msg = (if \<not> IsInitialized pc msg then None else SerializeToString pc msg)"

definition unmarshalling_from_string :: "'m pb_class \<Rightarrow> string \<Rightarrow> 'm option" where
  "unmarshalling_from_string pc str = ParseFromString pc str"

definition pb_dump :: "'m pb_class \<Rightarrow> 'm \<Rightarrow> string" where
  "pb_dump pc m =
     (let output = PrintToString pc m
      in if \<not> IsInitialized pc m
         then output @ (output @ concat (map (\<lambda>e. e @ '': UNDEFINED'' @ endl) (FindInitializationErrors pc m)))
         else output)"

text \<open>Equality of messages of one type, and of a message and a text.\<close>

definition pb_equal :: "'m pb_class \<Rightarrow> 'm \<Rightarrow> 'm \<Rightarrow> bool" where
  "pb_equal pc a b \<longleftrightarrow> DebugString pc a = DebugString pc b"

definition pb_equal_text :: "'m pb_class \<Rightarrow> 'm \<Rightarrow> string \<Rightarrow> bool" where
  "pb_equal_text pc a s = pb_equal pc a (ParseText pc s)"

section \<open>Operations that forward\<close>

definition incr_thread_pool :: "nat \<Rightarrow> ThreadPool \<Rightarrow> int \<times> ThreadPool" where
  "incr_thread_pool addr p = (0, spawn_task [addr] p)"

definition decr_thread_pool :: "(nat \<Rightarrow> bool) \<Rightarrow> ThreadPool \<Rightarrow> int \<times> ThreadPool" where
  "decr_thread_pool dies p = reduce_task dies 1 p"

definition rs_is_null :: "(nat \<Rightarrow> bool option) \<Rightarrow> nat \<Rightarrow> int" where
  "rs_is_null isNull idx = (case isNull idx of None \<Rightarrow> -1 | Some True \<Rightarrow> 1 | Some False \<Rightarrow> 0)"

definition sqlconn_execute_query_value ::
    "'w sql_driver \<Rightarrow> (sql_row \<Rightarrow> nat \<Rightarrow> 'a \<Rightarrow> bool \<times> 'a) \<Rightarrow> nat \<Rightarrow> string \<Rightarrow> 'a \<Rightarrow> 'w \<Rightarrow> bool \<times> 'a \<times> 'w" where
  "sqlconn_execute_query_value drv cast c stmt val w =
     (case ensure_valid drv c w of
        (False, w1) \<Rightarrow> (False, val, w1)
      | (True, w1) \<Rightarrow>
          (case stmt_execute drv c stmt w1 of
             (False, w2) \<Rightarrow> (False, val, w2)
           | (True, w2) \<Rightarrow>
               (case stmt_getResultSet drv c w2 of
                  (Some [row], w3) \<Rightarrow> (case cast row 1 val of (ok, val') \<Rightarrow> (ok, val', w3))
                | (_, w3) \<Rightarrow> (False, val, w3))))"

section \<open>Properties\<close>

text \<open>A message that does not miss a field and that the library reads back survives the helpers.\<close>

lemma marshalling_roundtrip:
  assumes "\<And>m s. SerializeToString pc m = Some s \<Longrightarrow> ParseFromString pc s = Some m"
    and "marshalling_to_string pc m = Some s"
  shows "unmarshalling_from_string pc s = Some m \<and> IsInitialized pc m"
  using assms by (auto simp: marshalling_to_string_def unmarshalling_from_string_def split: if_splits)

text \<open>The dump of a message that misses fields has the text twice.\<close>

lemma pb_dump_twice:
  "\<not> IsInitialized pc m \<Longrightarrow> \<exists>rest. pb_dump pc m = PrintToString pc m @ PrintToString pc m @ rest"
  by (simp add: pb_dump_def Let_def)

text \<open>One more worker, one less.\<close>

lemma incr_thread_pool_ok:
  assumes "pool_ok p" and "addr \<notin> fst ` set (workers p)"
  shows "pool_ok (snd (incr_thread_pool addr p)) \<and> length (workers (snd (incr_thread_pool addr p))) = Suc (length (workers p))"
  using spawn_task_spec [of p "[addr]"] assms by (simp add: incr_thread_pool_def)

text \<open>One value is read as the variadic version reads one column.\<close>

lemma query_value_is_values:
  "sqlconn_execute_query_value drv cast c stmt val w = sqlconn_execute_query_values drv cast c stmt val w"
  by (simp add: sqlconn_execute_query_value_def sqlconn_execute_query_values_def sqlconn_execute_query_def
      split: prod.splits bool.splits)

text \<open>The status of the repository names every service its stores know, in order, and always reports success.\<close>

lemma services_text_names:
  assumes "services_text env svs ss = Some (out, ss')" and "sv \<in> set svs"
  shows "\<exists>pre post. out = pre @ ''service: '' @ sv @ endl @ post"
  using assms
proof (induction env svs ss arbitrary: out rule: services_text.induct)
  case (2 env s svs ss)
  from 2(2) obtain ret ms ss1 rest where m: "repos_get_metrics env ''1.0.0'' s [] ss = Some (ret, ms, ss1)"
    and r: "services_text env svs ss1 = Some (rest, ss')"
    and t: "out = ''service: '' @ s @ endl @ (''metrics: '' @ endl @ tab
         @ (if ret = 0 then concat (map (\<lambda>m. m @ '', '') ms) else []) @ endl @ endl) @ rest"
    by (auto simp: bind_eq_Some_conv)
  show ?case
  proof (cases "sv = s")
    case True
    then show ?thesis
      using t by (metis append_Nil)
  next
    case False
    then obtain pre post where "rest = pre @ ''service: '' @ sv @ endl @ post"
      using 2(1) m r 2(3) by force
    then have "out = (''service: '' @ s @ endl @ (''metrics: '' @ endl @ tab
         @ (if ret = 0 then concat (map (\<lambda>m. m @ '', '') ms) else []) @ endl @ endl) @ pre)
         @ ''service: '' @ sv @ endl @ post"
      using t by simp
    then show ?thesis
      by blast
  qed
qed simp

end
