(* ===== verification/Spec2Isabelle.thy ===== *)
theory Spec2Isabelle
  imports HeraclesClient ServerRun SqlPipeline LoadGen TinyTask RedisServer Captain Tools Logging StatusTexts
begin

text \<open>
  Heracles (the repository \<open>tzmonitor\<close>) collects monitoring events. Programs link the client library
  and report events (metric, tag, value); the library gathers them into reports and submits them over its
  own RPC protocol. The server adds them, per service and entity, to time slots, closes a slot once it
  has lingered long enough, condenses its events into statistics per metric and tag, and stores those
  rows in LevelDB or MySQL. Queries for statistics, metric names and service names come in over the same
  protocol; a small web server and command line tools show them. This development models the C++ code of the
  repository (paths below are relative to \<open>src/source\<close>) and proves what makes it correct, and, where
  the code does something else than it means to, what it does instead.

  \<^bold>\<open>How the parts correspond to the code\<close>

  \<^item> \<open>Prelude\<close>: machine integers, byte order, \<open>std::map\<close> and \<open>std::set\<close>, C strings and decimal text, and \<open>blocking\<close>, the
    result of a call that may return, wait for ever, crash or throw.
  \<^item> \<open>EQueue\<close> (\<open>Utils/EQueue.h\<close>), \<open>ThreadPool\<close> (\<open>Utils/ThreadPool\<close>), \<open>TinyTask\<close> (\<open>Utils/ThreadMng.h\<close>, \<open>TinyTask.h\<close>), \<open>Scaffold\<close>
    (\<open>Scaffold/ConfHelper\<close>, \<open>Scaffold/Status\<close>, \<open>Utils/Timer\<close>): queues, threads, configuration, status texts and timers.
  \<^item> \<open>Message\<close> (\<open>Core/Message.h\<close>, \<open>Core/Buffer.h\<close>) and \<open>RpcMessage\<close> (\<open>RPC/Rpc*Message.h\<close>, \<open>RpcInstance\<close>): the two
    layers of headers on the wire.
  \<^item> \<open>NetServer\<close> (\<open>Network/NetServer\<close>): listening, the gates for new connections, runtime updates. \<open>TcpConnAsync\<close>
    (\<open>Network/TcpConnAsync\<close>): the server's side of one connection, callback by callback.
  \<^item> \<open>Dispatcher\<close> (\<open>RPC/Dispatcher\<close>, \<open>RPC/Executor\<close>): routing requests to the queue of their service and its workers.
  \<^item> \<open>MonitorTask\<close> (\<open>Protocol/source/MonitorTask.proto\<close>) and \<open>MonitorTaskService\<close> (\<open>Protocol/ServiceImpl\<close>): the messages and
    handlers of the one service there is.
  \<^item> \<open>EventTypes\<close> (\<open>Business/EventTypes.h\<close>, \<open>EventItem.h\<close>, \<open>Sort.h\<close>), \<open>EventHandler\<close> with \<open>EventStats\<close> (\<open>Business/EventHandler\<close>): slots,
    their closing and their statistics. \<open>Totals\<close>: sums and means of rows, independent of the code. \<open>EventRepos\<close>
    (\<open>Business/EventRepos\<close>, \<open>StoreFactory\<close>, \<open>StoreIf.h\<close>): the handlers by identity and the stores behind them.
  \<^item> \<open>StoreLevelDB\<close> with \<open>LevelDBQuery\<close> (\<open>Business/StoreLevelDB\<close>), and \<open>ConnPool\<close>, \<open>SqlConn\<close>, \<open>StoreSql\<close> (\<open>Connect/ConnPool.h\<close>,
    \<open>Connect/SqlConn\<close>, \<open>Business/StoreSql\<close>): the two stores. \<open>StatStore\<close>: what a handler relies on in a store, as the locale
    \<open>stat_store\<close>; \<open>StorePipeline\<close> provides it for LevelDB and follows a slot to a query, \<open>SqlPipeline\<close> provides it for
    MySQL. \<open>ServerRun\<close>: a handler with its timer, processing thread, helper threads and LevelDB store over a whole run.
  \<^item> \<open>RedisConn\<close> (\<open>Connect/RedisConn\<close>), with \<open>RedisServer\<close>, the answers of a Redis server that its theorems assume: a third connection
    class, which the factory does not offer yet.
  \<^item> \<open>Captain\<close> (\<open>Scaffold/Captain\<close>, \<open>../main.cpp\<close>, \<open>../setup.cpp\<close>): the start of the server, over the models of all its parts.
  \<^item> \<open>TcpConnSync\<close>, \<open>RpcClient\<close>, \<open>MonitorRpcClientHelper\<close>, \<open>HeraclesClient\<close> (\<open>Client/\<close>): the client library, from the blocking
    connection up to the public class.
  \<^item> \<open>Logging\<close> (\<open>Utils/Log\<close>, \<open>Client/LogClient\<close>, \<open>Utils/BoostAssert.cpp\<close>), \<open>StrUtil\<close> (\<open>Utils/StrUtil.h\<close>, \<open>Utils/Utils\<close>), \<open>SslSetup\<close>
    (\<open>Utils/SslSetup\<close>, \<open>Client/IoService\<close>), \<open>StatusTexts\<close> (the \<open>module_status\<close> and \<open>str\<close> functions, \<open>Core/ProtoBuf.h\<close>): what the other
    components share. Except for the set-up of OpenSSL at the start, the components do not record what they log.
  \<^item> \<open>WebFace\<close>, \<open>Tools\<close> and \<open>LoadGen\<close> (\<open>../examples\<close>): the web pages, the command line programs and the load generator with its
    threads, on the client library.

  A class is a record with the class's members, a method a function from the record (and the state
  of what it calls) to its result and the new record. Locks are not part of the state: where an operation
  holds its lock throughout, threads interleave operation by operation, and step relations (\<open>tl_step\<close>,
  \<open>run_step\<close>, \<open>repos_step\<close>, \<open>client_reach\<close>, \<open>pool_step\<close>, \<open>net_reach\<close>, \<open>load_reach\<close>) or lists of operations (\<open>qrun\<close>) say in which orders. Code outside
  the repository is an argument: LevelDB (\<open>leveldb_api\<close>, with the law \<open>leveldb_ok\<close>), the MySQL driver (\<open>sql_driver\<close>,
  with \<open>mysql_ok\<close>: what a server that is up does with the statements used, for the store's own account and
  database, table names that are plain words and values that fit the columns), protobuf
  (\<open>pb_codec\<close>, with \<open>pb_ok\<close>: what was serialised parses back), hiredis (\<open>hiredis\<close>, with \<open>redis_strings\<close>, \<open>redis_lists\<close>,
  \<open>redis_hashes\<close>: what a Redis server answers to the commands used), OpenSSL (\<open>openssl\<close>), the HTTP server (\<open>http_server\<close>), sockets,
  the clock, \<open>localtime\<close>, the allocator. Every hypothesis on them is shown satisfiable by a concrete instance in a witness.

  \<^bold>\<open>What is proved\<close>

  \<^item> End to end (this theory): the bytes that the client's call writes are the ones the server reads (\<open>helper_bytes\<close>), and
    the server's answer the ones the client reads, cut as the network likes. A report the client submits is added to the
    server's repository exactly once and as it was; a query the store answers comes back unchanged; a query the store
    fails is never answered, so its client, which sets no timer, waits for ever. A start of the server that succeeds leaves
    it in the state these properties ask for.
  \<^item> Slots: in every run of additions, timer ticks and processing, each slot is closed once, no report is taken into
    a closed slot, and the statistics of a slot equal a reference definition over its deduplicated events.
  \<^item> Stores: what is inserted is read back; each kind of query returns the rows in its range, grouped and summed as
    specified; the loops over iterators end. For MySQL: one insertion adds one row and creates a missing
    table, a batch of slots adds exactly its rows; the summary of a grouped query without order and limit is that of its
    rows. The rows of a slot are stated without the code's own functions (\<open>stat_rows\<close> in \<open>EventStats\<close>).
  \<^item> From reports to answers (\<open>ServerRun\<close>): whatever the order of reports, timer ticks, turns of the processing thread and of the helper
    threads, a query over the LevelDB store counts every accepted report that has reached the store, each message id once
    in a slot, and sums their first values; and from every state the server can get to one in which the query counts everything accepted. The
    helper threads are interleaved slot by slot; the reports covered have names that fit a key and a tag, and the
    run stays within one month, whose table is open (\<open>inputs_ok\<close>, \<open>store_ready\<close>).
  \<^item> Wire: both connections refine one function from the byte stream to frames, however the bytes are cut into
    reads; an exchange over the RPC client returns the answer to the request; a call with a time limit comes back when its
    timer closes the socket.
  \<^item> Client: no event is lost or duplicated between \<open>report_event\<close> and the reports, whatever the clock and the configuration do;
    while the clock does not go back, second and message id ascend over all reports, and none is larger than the largest size
    configured.
  \<^item> Resources: the queue conserves and orders items; a connection of the pool is in one thread's hands at a time and
    a returned one serves a waiter; the server accepts no more than its speed and concurrency limits allow.
  \<^item> Redis: what is set is read back, lists are first-in first-out queues, hashes are rebuilt whatever the order of the answer, and a
    broken connection fails every command but \<open>Eval\<close> and \<open>MExpire\<close> without sending anything.
  \<^item> Texts: a logged message comes out line by line within the bounds of its buffer; the links of the web index lead to the
    statistics they name, and a time shown on a page is read back by the query tool.
  \<^item> Failures: unanswered requests, overlapping sends, rejections reported as format errors, a feeding timer that spins after a
    change of speed, a task thread that waits for a notification nobody sends, an inverted limit in MySQL queries, a lowered report size that
    stops a client built with assertions.

  The contracts that several components rely on are locales, interpreted on the model's own functions:
  \<open>ordered_map\<close> (\<open>Prelude\<close>), \<open>fifo_queue\<close> (\<open>EQueue\<close>), \<open>borrowing\<close> (\<open>ConnPool\<close>) and \<open>stat_store\<close> (\<open>StatStore\<close>), which both
  stores provide.

  \<^bold>\<open>Loops and bounds\<close>

  Loops are structural or terminating recursions, with two exceptions: the iterations over LevelDB are partial functions
  into \<open>option\<close>, and the theorems prove that they return; the blocking loops of the client consume
  the list of results of their reads and writes, and are \<open>Blocked\<close> when it runs out. The body of a thread is
  one turn of its loop. The only bound on tries is the code's own (fifty in \<open>reduce_task\<close>). Integers keep their width where the
  code's arithmetic can leave it: as words on the wire, or as \<open>int\<close> with the narrowing written out.

  \<^bold>\<open>Not modelled\<close>

  \<^item> What SQL statements mean to MySQL: the model ends at their text, and the theorems name what they need of the server.
  \<^item> Races outside the locks of the server and the client are named as findings, not modelled; the counter of the load
    generator is the one exception.
  \<^item> Socket options and the copying of buffers into log messages.
  \<^item> What is left of the code: declarations, deleted copy constructors, forwarding to a private implementation, destructors that only log,
    code under \<open>#if 0\<close>, \<open>ThreadGuard\<close> and \<open>try_request_conn\<close>, which nothing uses.
  \<^item> \<open>test/\<close>: unit tests of libconfig, protobuf and the byte buffer.
\<close>

section \<open>A request on its way through the server\<close>

text \<open>
  The server's components put together for one connection that brings one request: the
  connection cuts the frame out of the reads and hands its payload to the dispatcher, which
  queues the request for the executor of its service; a worker takes it out and calls the
  service; the reply goes back over the connection. The result is what the client's side of the
  connection gets, and the state of the repository afterwards.
\<close>

definition serve ::
    "pb_codec \<Rightarrow> ('q, 'l) call_env \<Rightarrow> conn_conf \<Rightarrow> int \<Rightarrow> nat \<Rightarrow> string list \<Rightarrow> Dispatcher \<Rightarrow>
     EventRepos \<times> ('q, 'l) stores_t \<Rightarrow> (string \<times> EventRepos \<times> ('q, 'l) stores_t) option" where
  "serve pb ce cf now sock chunks d rs =
     (let disp = (\<lambda>p. fst (dispatcher_handle_RPC True (instance_of now sock p) d));
          c = receive_all disp cf chunks (start disp cf new_conn);
          d' = snd (handle_payloads now sock (dispatched c) d)
      in case om_find (services d') MONITOR_TASK_SERVICE of
           None \<Rightarrow> None
         | Some ex \<Rightarrow>
             (case executor_service_turn [] kRunning ex of
                (None, _) \<Rightarrow> None
              | (Some ri, _) \<Rightarrow>
                  (case monitor_handle_RPC pb ce ri rs of
                     None \<Rightarrow> None
                   | Some (None, rs') \<Rightarrow> Some (sent c, rs')
                   | Some (Some m, rs') \<Rightarrow>
                       Some (sent ((write_completes cf ^^ block_count (length (Message_net_str m)))
                                     (snd (async_send_message cf m c))), rs'))))"

text \<open>The server is up: the monitor service is registered and its queue is empty.\<close>

definition serving :: "conn_conf \<Rightarrow> Dispatcher \<Rightarrow> bool" where
  "serving cf d \<longleftrightarrow>
     send_max_msg_size cf = 0 \<and> om_wf (services d) \<and>
     (\<exists>ex. om_find (services d) MONITOR_TASK_SERVICE = Some ex \<and> items (rpc_queue ex) = [])"

text \<open>
  A request's body passes the connection's limit on received messages (0 is no limit), and its bytes
  reach the connection in pieces that fit the read buffer.
\<close>

definition arrives :: "conn_conf \<Rightarrow> string \<Rightarrow> string list \<Rightarrow> bool" where
  "arrives cf body chunks \<longleftrightarrow>
     (\<forall>x\<in>set chunks. length x \<le> kFixedIoBufferSize) \<and> body \<noteq> [] \<and> length body + 16 < 2 ^ 31 \<and>
     \<not> over_limit (of_nat (length body + 16)) (recv_max_msg_size cf)"

lemma send_drains_blocks:
  assumes "one_writer c" "owed c = []" "send_max_msg_size cf = 0" "length (Message_net_str m) < 2 ^ 32"
  shows "sent ((write_completes cf ^^ block_count (length (Message_net_str m))) (snd (async_send_message cf m c))) =
           sent c @ Message_net_str m"
  using send_drains [OF assms(1,2), of m cf "block_count (length (Message_net_str m))"] assms(3,4)
    block_count_le [of "length (Message_net_str m)" "block_count (length (Message_net_str m))"]
  by (simp add: over_limit_def mult.commute)

lemma serve_request:
  assumes "serving cf d" "arrives cf body chunks" "concat chunks = request_frame MONITOR_TASK_SERVICE op body"
  shows "\<exists>ri. request_of ri op body \<and> service_id ri = MONITOR_TASK_SERVICE \<and>
    (\<forall>rs'. monitor_handle_RPC pb ce ri rs = Some (None, rs') \<longrightarrow>
        serve pb ce cf now sock chunks d rs = Some ([], rs')) \<and>
    (\<forall>m rs'. monitor_handle_RPC pb ce ri rs = Some (Some m, rs') \<and> length (Message_net_str m) < 2 ^ 32 \<longrightarrow>
        serve pb ce cf now sock chunks d rs = Some (Message_net_str m, rs'))"
proof -
  let ?p = "rq_net_str (mk_RpcRequestMessage MONITOR_TASK_SERVICE op body)"
  let ?disp = "\<lambda>p. fst (dispatcher_handle_RPC True (instance_of now sock p) d)"
  let ?c = "receive_all ?disp cf chunks (start ?disp cf new_conn)"
  have len: "length ?p = length body + 16"
    by (simp add: mk_RpcRequestMessage_def sizeof_RpcRequestHeader_def)
  have lim: "length body + 16 < 2 ^ 31"
    using assms(2) by (simp add: arrives_def)
  obtain ri where ri: "validate_request (instance_of now sock ?p) = (True, ri)" "service_id ri = MONITOR_TASK_SERVICE"
    "opcode ri = op" "rpc_request_message ri = mk_RpcRequestMessage MONITOR_TASK_SERVICE op body"
    using validate_client_request [OF lim] assms(2) unfolding arrives_def by blast
  obtain ex where ex: "om_find (services d) MONITOR_TASK_SERVICE = Some ex" "items (rpc_queue ex) = []"
    using assms(1) by (auto simp: serving_def)
  have disp: "dispatcher_handle_RPC True (instance_of now sock ?p) d =
      (None, d\<lparr>services := om_upd MONITOR_TASK_SERVICE (executor_handle_RPC ri ex) (services d)\<rparr>)"
    using ri ex by (simp add: dispatcher_handle_RPC_def)
  have short: "length ?p + 16 < 2 ^ 32" using lim len by simp
  have fit: "\<forall>x\<in>set chunks. length x \<le> kFixedIoBufferSize" using assms(2) by (simp add: arrives_def)
  have passes: "\<not> over_limit (of_nat (length ?p)) (recv_max_msg_size cf)" using assms(2) unfolding len by (simp add: arrives_def)
  have whole: "concat chunks = Message_net_str (mk_Message ?p)" using assms(3) by (simp add: request_frame_def)
  have silent: "?disp ?p = None" using disp by simp
  have "dispatched ?c = [?p]" "one_writer ?c" "owed ?c = []" "sent ?c = []"
    using receive_one_frame [where disp = ?disp and cf = cf and chunks = chunks and p = ?p, OF short fit passes whole silent refl]
    by blast+
  then have "om_find (services (snd (handle_payloads now sock (dispatched ?c) d))) MONITOR_TASK_SERVICE =
      Some (executor_handle_RPC ri ex)"
    using disp assms(1) by (simp add: om_find_upd serving_def)
  moreover obtain x where "executor_service_turn [] kRunning (executor_handle_RPC ri ex) = (Some ri, x)"
    using ex(2) by (simp add: executor_service_turn_def executor_handle_RPC_def POP_timed_nil pop_front_def)
  ultimately have "serve pb ce cf now sock chunks d rs =
      (case monitor_handle_RPC pb ce ri rs of
                     None \<Rightarrow> None
                   | Some (None, rs') \<Rightarrow> Some (sent ?c, rs')
                   | Some (Some m, rs') \<Rightarrow>
                       Some (sent ((write_completes cf ^^ block_count (length (Message_net_str m)))
                                     (snd (async_send_message cf m ?c))), rs'))"
    by (simp add: serve_def Let_def)
  moreover have "request_of ri op body"
    using ri by (simp add: request_of_def mk_RpcRequestMessage_def)
  ultimately show ?thesis
    using ri(2) send_drains_blocks [OF \<open>one_writer ?c\<close> \<open>owed ?c = []\<close>] assms(1) \<open>sent ?c = []\<close>
    by (intro exI [of _ ri]) (auto simp: serving_def)
qed

section \<open>Reports and queries end to end\<close>

lemma report_of_pb [simp]: "report_of (pb_of_report report) = report"
proof -
  have "(\<lambda>x. \<lparr>ed_msgid = ed_msgid x, ed_metric = ed_metric x, ed_tag = ed_tag x, ed_value = ed_value x\<rparr>) = id"
    by (rule ext) simp
  then show ?thesis by (cases report) (simp add: report_of_def pb_of_report_def comp_def)
qed

lemma cond_of_select_cond [simp]: "cond_of_select (select_of_cond cond) = Inr cond"
  by (simp add: cond_of_select_def select_of_cond_def Let_def)

text \<open>The client takes any frame: its own limit is off, as in the settings the helper makes.\<close>

definition takes_all :: "MonitorRpcClientHelper \<Rightarrow> bool" where
  "takes_all h \<longleftrightarrow> cs_recv_max_msg_size (rc_setting (helper_impl h)) = 0"

lemma length_reply_with: "length (Message_net_str (reply_with ri body)) = length body + 33"
  by (simp add: reply_with_def Message_net_str_def mk_Message_def rs_net_str_def mk_RpcResponseMessage_def
      sizeof_Header_def sizeof_RpcResponseHeader_def)

text \<open>A call whose request the service answers with \<open>answer\<close> returns that answer's bytes.\<close>

lemma helper_call_served:
  assumes "helper_ready ne (length s) h" "takes_all h" "reads_ok (ne_reads ne)"
    and "received (ne_reads ne) = Message_net_str (reply_with ri body)"
    and "service_id ri = MONITOR_TASK_SERVICE" "opcode ri = op" "length body + 33 < 2 ^ 32"
  shows "\<exists>h'. helper_call ne op s h = Returned (Some body, h') \<and>
           helper_wire h' = helper_wire h @ helper_bytes ne op s h"
proof -
  let ?m = "reply_with ri body"
  have m: "?m = mk_Message (payload ?m)" "payload ?m = rs_net_str (mk_RpcResponseMessage MONITOR_TASK_SERVICE op body)"
    using assms(5,6) by (simp_all add: reply_with_def mk_Message_def)
  have "length (payload ?m) = length body + 17"
    by (simp add: m(2) rs_net_str_def mk_RpcResponseMessage_def sizeof_RpcResponseHeader_def)
  then have "fits (cs_recv_max_msg_size (rc_setting (helper_impl h))) (length (payload ?m))"
    using assms(2,7) by (simp add: fits_def takes_all_def over_setting_def sizeof_Header_def)
  with m(1) assms(3,4) have "brings ne h ?m" by (simp add: brings_def)
  from helper_call_exchange [OF assms(1) this, of op] show ?thesis
    by (auto simp: m(2) check_response_reply)
qed


text \<open>
  C2. A query comes back with what the store answered: when the bytes that the client's call writes reach
  the server and the server's answer reaches the client, \<open>EventRepos::get_event\<close> finds the
  handler and the store returns 0, \<open>rpc_event_select\<close> returns 0 with the store's summary and, for
  a grouped query, the store's rows in the same order with the field that was not grouped by
  cleared. What the server received is all that the client's connection carried.
\<close>
theorem select_end_to_end:
  assumes "pb_ok pb" "ce_alive ce" "serving cf d"
    and "ec_version cond \<noteq> []" "ec_service cond \<noteq> []" "ec_metric cond \<noteq> []" "0 \<le> ec_tm_interval cond"
    and "s = marshal_read_request pb (empty_read_request\<lparr>rr_select := Some (select_of_cond cond)\<rparr>)"
    and "helper_ready ne (length s) h" "takes_all h"
    and "arrives cf s chunks" "concat chunks = helper_bytes ne CMD_READ_EVENT s h"
    and "repos_get_event (ce_env ce) (ce_junk ce) (ce_services ce) (ce_timer_ok ce) cond empty_select rs = Some (0, stat, rs')"
    and "length (marshal_read_response pb (select_response cond stat)) + 33 < 2 ^ 32"
    and "reads_ok (ne_reads ne)" "map_option fst (serve pb ce cf now sock chunks d rs) = Some (received (ne_reads ne))"
  shows "\<exists>r h'. rpc_event_select pb ne cond r0 h = Returned (0, r, h') \<and>
           es_version r = ec_version cond \<and> es_service r = es_service stat \<and> es_metric r = es_metric stat \<and>
           es_timestamp r = es_timestamp stat \<and> es_tm_interval r = es_tm_interval stat \<and>
           es_summary r = (es_summary stat)\<lparr>ei_timestamp := ei_timestamp (es_summary r0), ei_tag := ei_tag (es_summary r0)\<rparr> \<and>
           es_info r = (if ec_groupby cond = kGroupNone then es_info r0
                        else map (info_of_pb (ec_groupby cond)) (es_info stat)) \<and>
           helper_wire h' = helper_wire h @ concat chunks"
proof -
  let ?body = "marshal_read_response pb (select_response cond stat)"
  have bytes: "concat chunks = request_frame MONITOR_TASK_SERVICE CMD_READ_EVENT s"
    unfolding assms(12) by (rule helper_bytes_frame [OF assms(9)])
  obtain ri where ri: "request_of ri CMD_READ_EVENT s" "service_id ri = MONITOR_TASK_SERVICE"
    and sv: "\<And>m rs'. monitor_handle_RPC pb ce ri rs = Some (Some m, rs') \<Longrightarrow> length (Message_net_str m) < 2 ^ 32 \<Longrightarrow>
      serve pb ce cf now sock chunks d rs = Some (Message_net_str m, rs')"
    using serve_request [OF assms(3,11) bytes, of pb ce rs now sock] by blast
  have "monitor_handle_RPC pb ce ri rs = Some (Some (reply_with ri ?body), rs')"
    using ri(1) assms(2,8,13)
    by (simp add: request_of_def monitor_handle_RPC_def read_ops_impl_def read_call_def pb_okD [OF assms(1)]
        reply_rpc_message_def reply_with_def empty_read_request_def)
  then have "serve pb ce cf now sock chunks d rs = Some (Message_net_str (reply_with ri ?body), rs')"
    using sv assms(14) by (simp add: length_reply_with)
  then have "received (ne_reads ne) = Message_net_str (reply_with ri ?body)"
    using assms(16) by simp
  then obtain h' where h': "helper_call ne CMD_READ_EVENT s h = Returned (Some ?body, h')"
    "helper_wire h' = helper_wire h @ concat chunks"
    using helper_call_served [OF assms(9,10,15) _ ri(2) _ assms(14)] ri(1) assms(12) by (auto simp: request_of_def)
  then have "rpc_event_select pb ne cond r0 h = Returned (0, select_result cond (select_response cond stat) r0, h')"
    using assms(4-8)
    by (simp add: rpc_event_select_def read_response_def pb_okD(2) [OF assms(1)])
      (simp add: select_response_def read_ok_def)
  with h'(2) show ?thesis
    by (auto simp: select_result_def select_response_def Let_def)
qed

text \<open>
  C5. A server whose \<open>Captain::init\<close> returned true is ready for the reports and queries above: it is waiting for a
  connection with a valid network configuration, the monitor service is registered with an empty queue, and
  the repository satisfies its invariant. With no limit on sent messages these are the
  conditions under which a report and a query are served.
\<close>
theorem started_server_serves:
  assumes "captain_init env cfgFile mk_Captain = Returned (True, cap)" "se_timer_ok env"
  shows "\<exists>ns. cap_net cap = Some ns \<and> accepts ns = 1 \<and> net_conf_ok (ns_conf ns) \<and> cap_initialized cap \<and>
           repos_inv (cap_repos cap, cap_stores cap) \<and> 1 \<le> cap_log_level cap \<and> cap_log_level cap \<le> 7 \<and>
           (nc_send_max_msg_size (ns_conf ns) = 0 \<longrightarrow>
              serving (conn_conf_of (ns_conf ns)) (cap_dispatcher cap))"
proof -
  obtain sc ns cap4 where s: "se_file env = Some sc"
    "net_init (se_valid_addr env) (se_io_threads env) (sc_network sc) (mk_NetServer ''tzrpc_server'') = Returned (True, ns)"
    "cap_dispatcher cap4 = empty_Dispatcher" "cap_repos cap4 = empty_EventRepos" "cap_log_level cap4 = level_of sc"
    "start_business env sc ns cap4 = Returned (True, cap)"
    using captain_init_True [OF assms(1)] by (auto simp: mk_Captain_def)
  have cap4: "\<not> initialized (cap_dispatcher cap4)" "services (cap_dispatcher cap4) = []"
    by (simp_all add: s(3) empty_Dispatcher_def)
  obtain ns' ex where b: "net_service (se_bind_ok env) ns = Returned ns'" "cap_net cap = Some ns'" "cap_initialized cap"
    "services (cap_dispatcher cap) = map (\<lambda>(k, ex). (k, executor_start ex)) (om_upd MONITOR_TASK_SERVICE ex [])"
    "items (rpc_queue ex) = []" "cap_log_level cap = level_of sc"
    "repos_init (se_stores env) (se_int_junk env) (Some (sc_business sc)) (se_task_helper_ok env)
      (empty_EventRepos, cap_stores cap4) = (True, cap_repos cap, cap_stores cap)"
    using start_business_True [OF s(6) assms(2) cap4(1)] unfolding cap4 s(4,5) by blast
  have "accepts ns = 0" "net_conf_ok (ns_conf ns)" using net_init_conf_ok [OF s(2)] by auto
  moreover have "accepts ns' = accepts ns + 1" "ns_conf ns' = ns_conf ns"
    using b(1) by (auto simp: net_service_def do_accept_def split: if_splits)
  moreover have "repos_inv (cap_repos cap, cap_stores cap)" by (rule repos_init_inv [OF b(7)])
  moreover have "1 \<le> level_of sc" "level_of sc \<le> 7" by (simp_all add: level_of_def Let_def)
  moreover have "serving (conn_conf_of (ns_conf ns)) (cap_dispatcher cap)"
    if "nc_send_max_msg_size (ns_conf ns) = 0"
    using that b(4,5) by (simp add: serving_def conn_conf_of_def om_wf_def executor_start_def)
  ultimately show ?thesis using b(2,3,6) by auto
qed

text \<open>A call without a time limit, whatever its timer would do, and no answer.\<close>

lemma helper_call_blocks:
  assumes "helper_ready ne (length s) h" "ne_reads ne = []"
  shows "helper_call ne op s h = Blocked"
proof -
  obtain r where impl: "rpc_impl (helper_client h) = Some r" using assms(1) by (auto simp: helper_ready_def)
  let ?r = "requested ne MONITOR_TASK_SERVICE op s 0 r"
  have r: "can_call ne r" "ne_writes ne = replicate (block_count (length s + 32)) NoError"
    "fits (cs_send_max_msg_size (rc_setting r)) (length s + 16)" "undisturbed (fires_sending ne) 0 r"
    "undisturbed (fires_receiving ne) 0 r"
    using assms(1) impl by (simp_all add: helper_ready_def)
  have "\<not> ended_by_timer (fires_receiving ne) ?r"
    using r(1,5) by (intro not_ended [OF _ requested_conn])
      (auto simp: undisturbed_def requested_timer can_call_def conn_idle_def)
  then have "await_response ne MONITOR_TASK_SERVICE op ?r = Blocked"
    using r(1) assms(2) recv_short
    by (simp add: await_response_def call_reads_def requested_conn recv_rpc_message_def can_call_def conn_idle_def
        sizeof_Header_def)
  then have "impl_call_RPC ne MONITOR_TASK_SERVICE op s 0 r = Blocked"
    using impl_call_sent [OF r(1,2) order_refl r(3,4)] by simp
  with assms(1) impl show ?thesis
    by (simp add: helper_call_def call_RPC_def helper_ready_def Let_def flip: helper_client_def)
qed

lemma received_nothing: "reads_ok rs \<Longrightarrow> received rs = [] \<Longrightarrow> rs = []"
  by (induction rs rule: reads_ok.induct) auto

text \<open>
  C36. A query that the server cannot serve hangs its client: when \<open>EventRepos::get_event\<close> returns an
  error for the query that the client's bytes carry, the service sends nothing back, and because the client
  library calls without a time limit, \<open>rpc_event_select\<close> does not come back as long as the connection
  stays open: no timer is set for the call, so it makes no difference whether one would expire.
\<close>
theorem failed_query_blocks_client:
  assumes "pb_ok pb" "ce_alive ce" "serving cf d"
    and "ec_version cond \<noteq> []" "ec_service cond \<noteq> []" "ec_metric cond \<noteq> []" "0 \<le> ec_tm_interval cond"
    and "s = marshal_read_request pb (empty_read_request\<lparr>rr_select := Some (select_of_cond cond)\<rparr>)"
    and "helper_ready ne (length s) h"
    and "arrives cf s chunks" "concat chunks = helper_bytes ne CMD_READ_EVENT s h"
    and "repos_get_event (ce_env ce) (ce_junk ce) (ce_services ce) (ce_timer_ok ce) cond empty_select rs = Some (err, stat, rs')"
    and "err \<noteq> 0"
    and "reads_ok (ne_reads ne)" "map_option fst (serve pb ce cf now sock chunks d rs) = Some (received (ne_reads ne))"
  shows "serve pb ce cf now sock chunks d rs = Some ([], rs') \<and> rpc_event_select pb ne cond r0 h = Blocked \<and>
         (\<not> rc_timer (helper_impl h) \<longrightarrow>
            rpc_event_select pb (ne\<lparr>fires_sending := True, fires_receiving := True\<rparr>) cond r0 h = Blocked)"
proof -
  have bytes: "concat chunks = request_frame MONITOR_TASK_SERVICE CMD_READ_EVENT s"
    unfolding assms(11) by (rule helper_bytes_frame [OF assms(9)])
  obtain ri where ri: "request_of ri CMD_READ_EVENT s"
    and sv: "\<And>rs'. monitor_handle_RPC pb ce ri rs = Some (None, rs') \<Longrightarrow>
      serve pb ce cf now sock chunks d rs = Some ([], rs')"
    using serve_request [OF assms(3,10) bytes, of pb ce rs now sock] by blast
  have "monitor_handle_RPC pb ce ri rs = Some (None, rs')"
    using ri assms(2,8,12,13)
    by (simp add: request_of_def monitor_handle_RPC_def read_ops_impl_def read_call_def pb_okD [OF assms(1)]
        empty_read_request_def)
  then have sv': "serve pb ce cf now sock chunks d rs = Some ([], rs')" by (rule sv)
  then have quiet: "ne_reads ne = []" using received_nothing [OF assms(14)] assms(15) by simp
  have select: "rpc_event_select pb n cond r0 h = Blocked" if "helper_call n CMD_READ_EVENT s h = Blocked" for n
    using that assms(4-8) by (simp add: rpc_event_select_def)
  have "helper_ready (ne\<lparr>fires_sending := True, fires_receiving := True\<rparr>) (length s) h" if "\<not> rc_timer (helper_impl h)"
    using that assms(9) by (auto simp: helper_ready_def undisturbed_def can_call_def)
  then show ?thesis
    using sv' select helper_call_blocks [OF assms(9) quiet, of CMD_READ_EVENT]
      helper_call_blocks [of "ne\<lparr>fires_sending := True, fires_receiving := True\<rparr>" s h CMD_READ_EVENT] quiet
    by simp
qed

section \<open>Witnesses\<close>

text \<open>A codec that gives one message of each kind the one-byte form \<open>"x"\<close>.\<close>

definition short_enc :: "'a::countable \<Rightarrow> 'a \<Rightarrow> string" where
  "short_enc e m = (if m = e then ''x'' else ''d'' @ dec_nat (to_nat m))"

definition short_dec :: "'a::countable \<Rightarrow> string \<Rightarrow> 'a option" where
  "short_dec e s = Some (if s = ''x'' then e else from_nat (digits_val (tl s)))"

definition short_codec ::
    "pb_read_request \<Rightarrow> pb_read_response \<Rightarrow> pb_write_request \<Rightarrow> pb_write_response \<Rightarrow> pb_codec" where
  "short_codec q r w v =
     \<lparr>marshal_read_request = short_enc q, unmarshal_read_request = short_dec q,
      marshal_read_response = short_enc r, unmarshal_read_response = short_dec r,
      marshal_write_request = short_enc w, unmarshal_write_request = short_dec w,
      marshal_write_response = short_enc v, unmarshal_write_response = short_dec v\<rparr>"

lemma short_dec_enc: "short_dec e (short_enc e m) = Some m"
  by (simp add: short_dec_def short_enc_def digits_val_dec_nat)

lemma short_codec_ok: "pb_ok (short_codec q r w v)"
  by (simp add: pb_ok_def short_codec_def short_dec_enc)

definition example_conf :: conn_conf where
  "example_conf = \<lparr>ops_cancel_time_out = 0, send_max_msg_size = 0, recv_max_msg_size = 0\<rparr>"

definition example_dispatcher :: Dispatcher where
  "example_dispatcher = empty_Dispatcher\<lparr>services := [(MONITOR_TASK_SERVICE, mk_Executor)]\<rparr>"

definition example_helper :: MonitorRpcClientHelper where
  "example_helper = mk_MonitorRpcClientHelper ''127.0.0.1'' 8435"

lemma example_serving: "serving example_conf example_dispatcher"
  by (simp add: serving_def example_conf_def example_dispatcher_def om_wf_def
      mk_Executor_def empty_queue_def)

lemma example_ready: "helper_ready (example_net rs) (length ''x'') example_helper" "takes_all example_helper"
  by (simp_all add: helper_ready_def takes_all_def example_helper_def helper_fresh example_net_def can_call_def
      conn_idle_def current_conn_def mk_RpcClientImpl_def new_sync_conn_def mk_Buffer_def fits_def over_setting_def
      default_setting_def sizeof_Header_def undisturbed_def block_count_def kFixedIoBufferSize_def)

lemma example_arrives:
  "arrives example_conf ''x'' [request_frame MONITOR_TASK_SERVICE op ''x'']"
  "concat [request_frame MONITOR_TASK_SERVICE op ''x''] = request_frame MONITOR_TASK_SERVICE op ''x''"
  "concat [request_frame MONITOR_TASK_SERVICE op ''x''] = helper_bytes (example_net rs) op ''x'' example_helper"
  using helper_bytes_frame [OF example_ready(1), of rs op]
  by (simp_all add: arrives_def example_conf_def over_limit_def request_frame_def Message_net_str_def mk_Message_def
      sizeof_Header_def rq_net_str_def sizeof_RpcRequestHeader_def mk_RpcRequestMessage_def kFixedIoBufferSize_def)

lemma example_add_event:
  "\<exists>rs'. repos_add_event example_env 0 (Some None) True 100 (report_of example_pb_report) (example_repos, example_stores) =
     Some (0, rs')"
  by (simp add: repos_add_event_def find_create_event_handler_def example_repos_def example_stores_def report_of_def
      example_pb_report_def eh_init_def mk_EventHandler_def StoreFactory_def no_stores_def construct_identity_def
      example_env_def eh_add_event_def do_add_event_def Let_def)


definition rps_cond :: event_cond_t where
  "rps_cond = default_cond\<lparr>ec_tm_interval := 60, ec_service := ''svc'', ec_metric := ''rps'', ec_groupby := kGroupbyTag\<rparr>"

text \<open>A query that finds no rows.\<close>
theorem select_end_to_end_witness:
  "\<exists>pb ne r h'. rpc_event_select pb ne rps_cond empty_select example_helper = Returned (0, r, h') \<and> es_info r = []"
proof -
  let ?q = "empty_read_request\<lparr>rr_select := Some (select_of_cond rps_cond)\<rparr>"
  let ?r = "select_response rps_cond empty_select"
  let ?pb = "short_codec ?q ?r \<lparr>wr_report = None\<rparr> (write_response 0)"
  let ?rs = "(example_repos, example_stores)" and ?ch = "[request_frame MONITOR_TASK_SERVICE CMD_READ_EVENT ''x'']"
  obtain rs' where get: "repos_get_event (ce_env example_call) (ce_junk example_call) (ce_services example_call)
      (ce_timer_ok example_call) rps_cond empty_select ?rs = Some (0, empty_select, rs')"
    using example_get_event by (auto simp: example_call_def rps_cond_def)
  have s: "''x'' = marshal_read_request ?pb ?q" "marshal_read_response ?pb ?r = ''x''"
    by (simp_all add: short_codec_def short_enc_def)
  obtain ri where ri: "request_of ri CMD_READ_EVENT ''x''"
    and sv: "\<And>m rs'. monitor_handle_RPC ?pb example_call ri ?rs = Some (Some m, rs') \<Longrightarrow>
      length (Message_net_str m) < 2 ^ 32 \<Longrightarrow>
      serve ?pb example_call example_conf 0 7 ?ch example_dispatcher ?rs = Some (Message_net_str m, rs')"
    using serve_request [OF example_serving example_arrives(1,2), of CMD_READ_EVENT ?pb example_call ?rs 0 7] by blast
  have "unmarshal_read_request ?pb ''x'' = Some ?q"
    unfolding s(1) by (rule pb_okD(1) [OF short_codec_ok])
  then have "monitor_handle_RPC ?pb example_call ri ?rs = Some (Some (reply_with ri ''x''), rs')"
    using ri get s(2)
    by (simp add: request_of_def monitor_handle_RPC_def read_ops_impl_def read_call_def empty_read_request_def
        reply_rpc_message_def reply_with_def) (simp add: example_call_def)
  from sv [OF this] have sv': "serve ?pb example_call example_conf 0 7 ?ch example_dispatcher ?rs =
      Some (Message_net_str (reply_with ri ''x''), rs')"
    by (simp add: length_reply_with)
  let ?ne = "example_net [Received (Message_net_str (reply_with ri ''x''))]"
  have "\<exists>r h'. rpc_event_select ?pb ?ne rps_cond empty_select example_helper = Returned (0, r, h') \<and>
      es_info r = (if ec_groupby rps_cond = kGroupNone then es_info empty_select
                   else map (info_of_pb (ec_groupby rps_cond)) (es_info empty_select))"
    using select_end_to_end [OF short_codec_ok _ example_serving _ _ _ _ s(1)
        example_ready(1) [of "[Received (Message_net_str (reply_with ri ''x''))]"] example_ready(2) example_arrives(1,3) get,
        where now = 0 and sock = 7 and ?r0.0 = empty_select] sv' s(2)
    by (simp add: client_example(7)) (auto simp: example_call_def rps_cond_def default_cond_def)
  moreover have "(if ec_groupby rps_cond = kGroupNone then es_info empty_select
                   else map (info_of_pb (ec_groupby rps_cond)) (es_info empty_select)) = []"
    by (simp add: empty_select_def)
  ultimately show ?thesis by auto
qed

text \<open>A query for another version of the interface, with no answer even when a timer might expire.\<close>
theorem failed_query_blocks_client_witness:
  "\<exists>pb. rpc_event_select pb ((example_net [])\<lparr>fires_sending := True, fires_receiving := True\<rparr>)
          (rps_cond\<lparr>ec_version := ''2.0.0''\<rparr>) empty_select example_helper = Blocked"
proof -
  let ?c = "rps_cond\<lparr>ec_version := ''2.0.0''\<rparr>"
  let ?q = "empty_read_request\<lparr>rr_select := Some (select_of_cond ?c)\<rparr>"
  let ?pb = "short_codec ?q read_ok \<lparr>wr_report = None\<rparr> (write_response 0)"
  let ?rs = "(example_repos, example_stores)" and ?ch = "[request_frame MONITOR_TASK_SERVICE CMD_READ_EVENT ''x'']"
  have s: "''x'' = marshal_read_request ?pb ?q" by (simp add: short_codec_def short_enc_def)
  have get: "repos_get_event (ce_env example_call) (ce_junk example_call) (ce_services example_call)
      (ce_timer_ok example_call) ?c empty_select ?rs = Some (- 1, empty_select, ?rs)"
    by (simp add: repos_get_event_def)
  obtain ri where ri: "request_of ri CMD_READ_EVENT ''x''"
    and sv: "\<And>rs'. monitor_handle_RPC ?pb example_call ri ?rs = Some (None, rs') \<Longrightarrow>
      serve ?pb example_call example_conf 0 7 ?ch example_dispatcher ?rs = Some ([], rs')"
    using serve_request [OF example_serving example_arrives(1,2), of CMD_READ_EVENT ?pb example_call ?rs 0 7] by blast
  have "unmarshal_read_request ?pb ''x'' = Some ?q"
    unfolding s by (rule pb_okD(1) [OF short_codec_ok])
  then have "monitor_handle_RPC ?pb example_call ri ?rs = Some (None, ?rs)"
    using ri get
    by (simp add: request_of_def monitor_handle_RPC_def read_ops_impl_def read_call_def empty_read_request_def)
  from sv [OF this] have sv': "serve ?pb example_call example_conf 0 7 ?ch example_dispatcher ?rs = Some ([], ?rs)" .
  have "\<not> rc_timer (helper_impl example_helper)"
    by (simp add: example_helper_def helper_fresh mk_RpcClientImpl_def)
  then have "rpc_event_select ?pb ((example_net [])\<lparr>fires_sending := True, fires_receiving := True\<rparr>) ?c empty_select
      example_helper = Blocked"
    using failed_query_blocks_client [OF short_codec_ok _ example_serving _ _ _ _ s
        example_ready(1) [of "[]"] example_arrives(1,3) get, where now = 0 and sock = 7 and ?r0.0 = empty_select] sv'
    by (simp add: client_example(7) example_call_def rps_cond_def default_cond_def)
  then show ?thesis by blast
qed

text \<open>A server that starts: one service, a LevelDB store, at most 1024 bytes per request.\<close>

definition up_network :: net_cfg where
  "up_network = tiny_cfg\<lparr>cfg_int := (cfg_int tiny_cfg)(''rpc.network.recv_max_msg_size'' \<mapsto> 1024)\<rparr>"

definition up_conf :: server_conf where
  "up_conf =
     \<lparr>sc_network = up_network,
      sc_services = Some [\<lparr>cfg_int = [''exec_thread_pool_size'' \<mapsto> 1, ''exec_thread_pool_size_hard'' \<mapsto> 1],
                           cfg_str = [''instance_name'' \<mapsto> ''MonitorTaskService'']\<rparr>],
      sc_business = example_config\<rparr>"

definition up_env :: "(unit, unit) start_env" where
  "up_env =
     \<lparr>se_file = Some up_conf, se_valid_addr = \<lambda>_. True, se_bind_ok = True, se_io_threads = [7], se_exec_threads = [8],
      se_exec_junk = \<lparr>exec_thread_number = 0, exec_thread_number_hard = 0, exec_thread_step_size = 0\<rparr>, se_int_junk = 0,
      se_timer_ok = True, se_task_helper_ok = True, se_stores = example_env\<rparr>"

definition up_server :: NetServer where
  "up_server = tiny_server\<lparr>instance_name := ''tzrpc_server'', ns_conf := tiny_conf\<lparr>nc_recv_max_msg_size := 1024\<rparr>\<rparr>"

lemma up_net: "net_init (\<lambda>_. True) [7] up_network (mk_NetServer ''tzrpc_server'') = Returned (True, up_server)"
proof -
  have "load_conf up_network default_NetConf =
      (True, tiny_conf\<lparr>nc_recv_max_msg_size := 1024, timed_feed_token := False, feed_waits := 0\<rparr>)"
    by (simp add: load_conf_def load_step_def up_network_def tiny_cfg_def tiny_conf_def default_NetConf_def lookupValue_def
        load_safe_ip_def trim_copy_def is_space_def Let_def)
  then show ?thesis
    by (simp add: net_init_def mk_NetServer_def up_server_def tiny_server_def tiny_conf_def default_NetConf_def arm_timer_def
        new_timer_def drop_timer_def init_threads_def pool_init_def kMaxiumThreadPoolSize_def Let_def)
qed

lemma up_monitor:
  "\<exists>ms sconf. monitor_init (se_exec_junk up_env) (Some (sc_services up_conf)) (mk_MonitorTaskService ''MonitorTaskService'') =
     (True, ms) \<and> monitor_get_executor_conf ms = Some sconf"
  by (simp add: monitor_init_def up_env_def up_conf_def mk_MonitorTaskService_def lookupValue_def monitor_service_conf_def
      handle_rpc_service_conf_def monitor_get_executor_conf_def Let_def)

theorem started_server_serves_witness:
  "\<exists>cap ns. captain_init up_env ''heracles.conf'' mk_Captain = Returned (True, cap) \<and> cap_net cap = Some ns \<and> accepts ns = 1 \<and>
     serving (conn_conf_of (ns_conf ns)) (cap_dispatcher cap)"
proof -
  obtain ms sconf where ms: "monitor_init (se_exec_junk up_env) (Some (sc_services up_conf))
      (mk_MonitorTaskService ''MonitorTaskService'') = (True, ms)" "monitor_get_executor_conf ms = Some sconf"
    using up_monitor by blast
  let ?cap = "(mk_Captain :: (unit, unit) Captain)\<lparr>cap_timer := True, cap_conf := (cap_conf (mk_Captain :: (unit, unit) Captain))\<lparr>cfgfile := ''heracles.conf'', conf_ptr := Some up_conf\<rparr>,
      cap_log_level := level_of up_conf, cap_net := Some up_server\<rparr>"
  have srv: "net_service (se_bind_ok up_env) up_server =
      Returned (do_accept (up_server\<lparr>io_service_threads := start_tasks (io_service_threads up_server)\<rparr>))"
    by (simp add: net_service_def up_env_def)
  have rep: "repos_init (se_stores up_env) (se_int_junk up_env) (Some (sc_business up_conf)) (se_task_helper_ok up_env)
      (empty_EventRepos, \<lparr>mysql_ptr = None, leveldb_ptr = None\<rparr>) = (True, example_repos, no_stores\<lparr>leveldb_ptr := Some ()\<rparr>)"
    using example_init by (simp add: up_env_def up_conf_def no_stores_def)
  have "\<exists>cap. start_business up_env up_conf up_server ?cap = Returned (True, cap) \<and>
      cap_net cap = Some (do_accept (up_server\<lparr>io_service_threads := start_tasks (io_service_threads up_server)\<rparr>))"
    using ms rep srv
    by (simp add: start_business_def dispatcher_init_def mk_Captain_def Let_def)
  then obtain cap where cap: "start_business up_env up_conf up_server ?cap = Returned (True, cap)"
    "cap_net cap = Some (do_accept (up_server\<lparr>io_service_threads := start_tasks (io_service_threads up_server)\<rparr>))"
    by blast
  have "captain_init up_env ''heracles.conf'' mk_Captain = start_business up_env up_conf up_server ?cap"
    using up_net by (simp add: captain_init_def mk_Captain_def conf_init_def get_conf_def up_env_def up_conf_def Let_def)
  then have init: "captain_init up_env ''heracles.conf'' mk_Captain = Returned (True, cap)" using cap(1) by simp
  have "se_timer_ok up_env" by (simp add: up_env_def)
  from started_server_serves [OF init this] cap(2) init show ?thesis
    by (auto simp: recv_limited_def conn_conf_of_def up_server_def tiny_conf_def default_NetConf_def INT32_MAX_def do_accept_def)
qed

end
